(* ===== verification/Prelude.thy ===== *)
theory Prelude
  imports Main "HOL-Library.AList"
begin

text \<open>
  What every component of the development shares: Go strings as byte lists with the part of
  package strings the router uses, 64-bit integers, instants and durations, Go maps as
  association lists, and the lemma collections the component proofs draw on.

  A Go string is a byte sequence, so it is the HOL type string, one char per byte, and
  length is Go's len. A Go map is an association list with distinct keys: the order of the
  list stands for one of the orders in which Go's randomised iteration may visit the map, so
  a theorem about every list is a theorem about every iteration order. An instant is the
  number of nanoseconds since the Unix epoch; the zero time.Time is its own constant.
\<close>

named_theorems gomap_simps \<open>reading a Go map after a write\<close>
named_theorems wf_intros \<open>operations keep the keys of a Go map distinct\<close>

type_synonym ('k, 'v) gomap = "('k \<times> 'v) list"
type_synonym instant = int
type_synonym duration = int

section \<open>Go maps\<close>

text \<open>Reading a missing key of a Go map gives the zero value of the element type.\<close>

definition mget :: "'v \<Rightarrow> ('k, 'v) gomap \<Rightarrow> 'k \<Rightarrow> 'v" where
  "mget zero m k = (case map_of m k of None \<Rightarrow> zero | Some v \<Rightarrow> v)"

abbreviation mput :: "'k \<Rightarrow> 'v \<Rightarrow> ('k, 'v) gomap \<Rightarrow> ('k, 'v) gomap" where
  "mput \<equiv> AList.update"

abbreviation mdel :: "'k \<Rightarrow> ('k, 'v) gomap \<Rightarrow> ('k, 'v) gomap" where
  "mdel \<equiv> AList.delete"

definition wf_map :: "('k, 'v) gomap \<Rightarrow> bool" where
  "wf_map m \<longleftrightarrow> distinct (map fst m)"

lemma map_of_mput [simp, gomap_simps]: "map_of (mput k v m) k' = (if k' = k then Some v else map_of m k')"
  by (simp add: update_conv')

lemma map_of_mdel [simp, gomap_simps]: "map_of (mdel k m) k' = (if k' = k then None else map_of m k')"
  by (simp add: delete_conv')

lemma mget_mput [simp, gomap_simps]: "mget z (mput k v m) k' = (if k' = k then v else mget z m k')"
  by (simp add: mget_def)

lemma mget_mdel [simp, gomap_simps]: "mget z (mdel k m) k' = (if k' = k then z else mget z m k')"
  by (simp add: mget_def)

lemma mget_Nil [simp]: "mget z [] k = z"
  by (simp add: mget_def)

lemma wf_map_Nil [simp, wf_intros]: "wf_map []"
  by (simp add: wf_map_def)

lemma wf_map_mput [simp, wf_intros]: "wf_map m \<Longrightarrow> wf_map (mput k v m)"
  by (simp add: wf_map_def distinct_update)

lemma wf_map_mdel [simp, wf_intros]: "wf_map m \<Longrightarrow> wf_map (mdel k m)"
  by (simp add: wf_map_def distinct_delete)

lemma map_of_in_set: "map_of m k = Some v \<Longrightarrow> (k, v) \<in> set m"
  by (rule map_of_SomeD)

lemma map_of_wf: "wf_map m \<Longrightarrow> (k, v) \<in> set m \<Longrightarrow> map_of m k = Some v"
  by (simp add: wf_map_def)

lemma set_mput_wf: "wf_map m \<Longrightarrow> (k', v') \<in> set (mput k v m) \<longleftrightarrow>
    (if k' = k then v' = v else (k', v') \<in> set m)"
  by (metis map_of_in_set map_of_mput map_of_wf option.inject wf_map_mput)

lemma set_mdel: "set (mdel k m) = {p \<in> set m. fst p \<noteq> k}"
  by (auto simp: AList.delete_eq)

lemma map_of_rev_wf: "wf_map m \<Longrightarrow> map_of (rev m) = map_of m"
  by (subst map_of_inject_set) (auto simp: wf_map_def rev_map [symmetric])

text \<open>Rewriting every value of a map in place, the shape of the loops that re-store each entry.\<close>

definition map_vals :: "('k \<Rightarrow> 'v \<Rightarrow> 'v) \<Rightarrow> ('k, 'v) gomap \<Rightarrow> ('k, 'v) gomap" where
  "map_vals f m = map (\<lambda>(k, v). (k, f k v)) m"

lemma map_of_map_vals [simp, gomap_simps]: "map_of (map_vals f m) k = map_option (f k) (map_of m k)"
  by (induction m) (auto simp: map_vals_def)

lemma keys_map_vals [simp]: "map fst (map_vals f m) = map fst m"
  by (induction m) (auto simp: map_vals_def)

lemma wf_map_map_vals [simp, wf_intros]: "wf_map (map_vals f m) = wf_map m"
  by (simp add: wf_map_def)

lemma wf_map_filter [simp, wf_intros]: "wf_map m \<Longrightarrow> wf_map (filter P m)"
  by (simp add: wf_map_def distinct_map_filter)

lemma map_of_filter_wf:
  "wf_map m \<Longrightarrow> map_of (filter P m) k =
     (case map_of m k of None \<Rightarrow> None | Some v \<Rightarrow> if P (k, v) then Some v else None)"
proof (induction m)
  case Nil
  then show ?case by simp
next
  case (Cons p m)
  obtain k0 v0 where p: "p = (k0, v0)" by (cases p)
  from Cons.prems p have wf: "wf_map m" and fresh: "k0 \<notin> fst ` set m"
    by (simp_all add: wf_map_def)
  have none: "map_of m k0 = None"
    using fresh by (simp add: map_of_eq_None_iff)
  show ?case
    using Cons.IH [OF wf] none by (auto simp: p split: option.splits)
qed

section \<open>Machine integers and time\<close>

text \<open>Go's int and int64: arithmetic wraps around at 64 bits, two's complement.\<close>

definition i64 :: "int \<Rightarrow> int" where
  "i64 x = signed_take_bit 63 x"

lemma i64_id: "- (2 ^ 63) \<le> x \<Longrightarrow> x < 2 ^ 63 \<Longrightarrow> i64 x = x"
  by (simp add: i64_def signed_take_bit_int_eq_self)

lemma i64_bounds: "- (2 ^ 63) \<le> i64 x \<and> i64 x < 2 ^ 63"
  unfolding i64_def
  using signed_take_bit_int_greater_eq_minus_exp [of 63 x] signed_take_bit_int_less_exp [of 63 x]
  by simp

text \<open>Integer division truncates towards zero in Go.\<close>

definition go_div :: "int \<Rightarrow> int \<Rightarrow> int" where
  "go_div a b = sgn a * sgn b * (\<bar>a\<bar> div \<bar>b\<bar>)"

definition go_rem :: "int \<Rightarrow> int \<Rightarrow> int" where
  "go_rem a b = a - b * go_div a b"

lemma go_div_nonneg: "0 \<le> a \<Longrightarrow> 0 < b \<Longrightarrow> go_div a b = a div b"
  by (cases "a = 0") (auto simp: go_div_def)

definition zero_time :: instant where
  "zero_time = -62135596800 * 1000000000"

definition nanosecond :: duration where "nanosecond = 1"
definition millisecond :: duration where "millisecond = 1000000"
definition second :: duration where "second = 1000000000"
definition minute :: duration where "minute = 60 * second"
definition hour :: duration where "hour = 60 * minute"

lemmas duration_units = nanosecond_def millisecond_def second_def minute_def hour_def

text \<open>time.Time.Sub saturates at the ends of the int64 range; Duration.Milliseconds truncates.\<close>

definition tsub :: "instant \<Rightarrow> instant \<Rightarrow> duration" where
  "tsub t u = max (- (2 ^ 63)) (min (2 ^ 63 - 1) (t - u))"

definition milliseconds :: "duration \<Rightarrow> int" where
  "milliseconds d = go_div d millisecond"

lemma tsub_exact: "- (2 ^ 63) \<le> t - u \<Longrightarrow> t - u < 2 ^ 63 \<Longrightarrow> tsub t u = t - u"
  by (simp add: tsub_def)

lemma tsub_bounds: "- (2 ^ 63) \<le> tsub t u \<and> tsub t u < 2 ^ 63"
  by (simp add: tsub_def)

section \<open>Strings\<close>

definition has_prefix :: "string \<Rightarrow> string \<Rightarrow> bool" where
  "has_prefix s p \<longleftrightarrow> take (length p) s = p"

definition has_suffix :: "string \<Rightarrow> string \<Rightarrow> bool" where
  "has_suffix s p \<longleftrightarrow> has_prefix (rev s) (rev p)"

definition trim_prefix :: "string \<Rightarrow> string \<Rightarrow> string" where
  "trim_prefix s p = (if has_prefix s p then drop (length p) s else s)"

definition trim_suffix :: "string \<Rightarrow> string \<Rightarrow> string" where
  "trim_suffix s p = (if has_suffix s p then take (length s - length p) s else s)"

fun contains_str :: "string \<Rightarrow> string \<Rightarrow> bool" where
  "contains_str [] p = (p = [])"
| "contains_str (c # cs) p = (has_prefix (c # cs) p \<or> contains_str cs p)"

text \<open>strings.Index(s, "/") with the slash cut out: None when there is no slash.\<close>

fun split_slash :: "string \<Rightarrow> (string \<times> string) option" where
  "split_slash [] = None"
| "split_slash (c # cs) =
     (if c = CHR ''/'' then Some ([], cs)
      else map_option (\<lambda>(a, b). (c # a, b)) (split_slash cs))"

text \<open>
  strings.TrimSpace drops every leading and trailing rune that unicode.IsSpace accepts; the list
  holds the UTF-8 encodings of those runes.
\<close>

definition space_runes :: "string list" where
  "space_runes =
     [[CHR 0x09], [CHR 0x0A], [CHR 0x0B], [CHR 0x0C], [CHR 0x0D], [CHR 0x20],
      [CHR 0xC2, CHR 0x85], [CHR 0xC2, CHR 0xA0], [CHR 0xE1, CHR 0x9A, CHR 0x80],
      [CHR 0xE2, CHR 0x80, CHR 0x80], [CHR 0xE2, CHR 0x80, CHR 0x81], [CHR 0xE2, CHR 0x80, CHR 0x82],
      [CHR 0xE2, CHR 0x80, CHR 0x83], [CHR 0xE2, CHR 0x80, CHR 0x84], [CHR 0xE2, CHR 0x80, CHR 0x85],
      [CHR 0xE2, CHR 0x80, CHR 0x86], [CHR 0xE2, CHR 0x80, CHR 0x87], [CHR 0xE2, CHR 0x80, CHR 0x88],
      [CHR 0xE2, CHR 0x80, CHR 0x89], [CHR 0xE2, CHR 0x80, CHR 0x8A], [CHR 0xE2, CHR 0x80, CHR 0xA8],
      [CHR 0xE2, CHR 0x80, CHR 0xA9], [CHR 0xE2, CHR 0x80, CHR 0xAF], [CHR 0xE2, CHR 0x81, CHR 0x9F],
      [CHR 0xE3, CHR 0x80, CHR 0x80]]"

function strip_front :: "string list \<Rightarrow> string \<Rightarrow> string" where
  "strip_front rs s =
     (case find (\<lambda>r. r \<noteq> [] \<and> has_prefix s r) rs of
        None \<Rightarrow> s
      | Some r \<Rightarrow> strip_front rs (drop (length r) s))"
  by pat_completeness auto
termination
proof (relation "measure (\<lambda>(rs, s). length s)", goal_cases)
  case (2 rs s r)
  then have "r \<noteq> []" and "has_prefix s r"
    by (auto simp: find_Some_iff)
  then have "length r \<le> length s" and "0 < length r"
    by (auto simp: has_prefix_def) (metis length_take min.cobounded1)
  then have "length s - length r < length s" by linarith
  then show ?case by simp
qed simp

declare strip_front.simps [simp del]

definition trim_left :: "string list \<Rightarrow> string \<Rightarrow> string" where
  "trim_left rs s = strip_front rs s"

definition trim_right :: "string list \<Rightarrow> string \<Rightarrow> string" where
  "trim_right rs s = rev (strip_front (map rev rs) (rev s))"

definition trim_space :: "string \<Rightarrow> string" where
  "trim_space s = trim_right space_runes (trim_left space_runes s)"

text \<open>strings.Trim and TrimRight with a cutset of single-byte runes, given as a string.\<close>

definition trim_cutset :: "string \<Rightarrow> string \<Rightarrow> string" where
  "trim_cutset cs s = trim_right (map (\<lambda>c. [c]) cs) (trim_left (map (\<lambda>c. [c]) cs) s)"

definition trim_right_cutset :: "string \<Rightarrow> string \<Rightarrow> string" where
  "trim_right_cutset cs s = trim_right (map (\<lambda>c. [c]) cs) s"

lemma strip_front_done: "find (\<lambda>r. r \<noteq> [] \<and> has_prefix (strip_front rs s) r) rs = None"
proof (induction rs s rule: strip_front.induct)
  case (1 rs s)
  show ?case
  proof (cases "find (\<lambda>r. r \<noteq> [] \<and> has_prefix s r) rs")
    case None
    then show ?thesis by (simp add: strip_front.simps [of rs s])
  next
    case (Some r)
    with "1.IH" [of r] show ?thesis by (simp add: strip_front.simps [of rs s])
  qed
qed

lemma strip_front_idem [simp]: "strip_front rs (strip_front rs s) = strip_front rs s"
  by (subst strip_front.simps) (simp add: strip_front_done)

lemma strip_front_suffix: "\<exists>p. s = p @ strip_front rs s"
proof (induction rs s rule: strip_front.induct)
  case (1 rs s)
  show ?case
  proof (cases "find (\<lambda>r. r \<noteq> [] \<and> has_prefix s r) rs")
    case None
    then show ?thesis by (simp add: strip_front.simps [of rs s])
  next
    case (Some r)
    with "1.IH" [of r] obtain p where "drop (length r) s = p @ strip_front rs s"
      by (auto simp: strip_front.simps [of rs s])
    then have "s = (take (length r) s @ p) @ strip_front rs s"
      by (metis append_assoc append_take_drop_id)
    then show ?thesis by blast
  qed
qed

lemma trim_space_infix: "\<exists>p q. s = p @ trim_space s @ q"
proof -
  obtain p where p: "s = p @ trim_left space_runes s"
    using strip_front_suffix [of s] unfolding trim_left_def by blast
  obtain q where "rev (trim_left space_runes s) = q @ rev (trim_space s)"
    using strip_front_suffix [of "rev (trim_left space_runes s)" "map rev space_runes"]
    by (auto simp: trim_space_def trim_right_def)
  then have "trim_left space_runes s = trim_space s @ rev q"
    by (metis rev_append rev_rev_ident)
  with p show ?thesis by metis
qed

lemma length_trim_space: "length (trim_space s) \<le> length s"
  using trim_space_infix [of s] by (metis length_append le_add1 le_add2 le_trans)

text \<open>Strings of printable ASCII without blanks, such as tokens, are their own trimmed form.\<close>

definition graph_char :: "char \<Rightarrow> bool" where
  "graph_char c \<longleftrightarrow> 33 \<le> (of_char c :: nat) \<and> (of_char c :: nat) \<le> 126"

lemma strip_front_graph:
  assumes "\<forall>r \<in> set rs. r = [] \<or> \<not> graph_char (hd r)" and "s = [] \<or> graph_char (hd s)"
  shows "strip_front rs s = s"
proof -
  have "find (\<lambda>r. r \<noteq> [] \<and> has_prefix s r) rs = None"
  proof (cases s)
    case Nil
    then show ?thesis by (auto simp: find_None_iff has_prefix_def)
  next
    case (Cons c cs)
    then show ?thesis using assms by (auto simp: find_None_iff has_prefix_def neq_Nil_conv)
  qed
  then show ?thesis by (subst strip_front.simps) simp
qed

lemma space_runes_blank: "\<forall>r \<in> set space_runes. r = [] \<or> \<not> graph_char (hd r)"
  "\<forall>r \<in> set (map rev space_runes). r = [] \<or> \<not> graph_char (hd r)"
  by code_simp+

lemma trim_space_ends: "s = [] \<or> (graph_char (hd s) \<and> graph_char (last s)) \<Longrightarrow> trim_space s = s"
  using strip_front_graph [OF space_runes_blank(1), of s] strip_front_graph [OF space_runes_blank(2), of "rev s"]
  by (auto simp: trim_space_def trim_left_def trim_right_def hd_rev)

lemma trim_space_graph: "list_all graph_char s \<Longrightarrow> trim_space s = s"
  by (rule trim_space_ends) (cases "s = []"; simp add: list_all_iff)

text \<open>
  strings.ToLower: exact on ASCII, and on the two non-ASCII runes whose lower case is an ASCII
  letter (U+0130 and the Kelvin sign U+212A). Other non-ASCII letters are left as they are:
  every use in the router compares the result with ASCII text only.
\<close>

definition lower_byte :: "char \<Rightarrow> char" where
  "lower_byte c = (if 65 \<le> (of_char c :: nat) \<and> (of_char c :: nat) \<le> 90
                   then char_of ((of_char c :: nat) + 32) else c)"

fun to_lower :: "string \<Rightarrow> string" where
  "to_lower [] = []"
| "to_lower (a # b # c # cs) =
     (if a = CHR 0xE2 \<and> b = CHR 0x84 \<and> c = CHR 0xAA then CHR ''k'' # to_lower cs
      else if a = CHR 0xC4 \<and> b = CHR 0xB0 then CHR ''i'' # to_lower (c # cs)
      else lower_byte a # to_lower (b # c # cs))"
| "to_lower [a, b] =
     (if a = CHR 0xC4 \<and> b = CHR 0xB0 then [CHR ''i''] else [lower_byte a, lower_byte b])"
| "to_lower [a] = [lower_byte a]"

lemma length_to_lower: "length (to_lower s) \<le> length s"
  by (induction s rule: to_lower.induct) auto

lemma has_prefix_append [simp]: "has_prefix (p @ s) p"
  by (simp add: has_prefix_def)

lemma has_prefix_iff: "has_prefix s p \<longleftrightarrow> (\<exists>t. s = p @ t)"
proof
  assume "has_prefix s p"
  then have "s = p @ drop (length p) s"
    unfolding has_prefix_def by (metis append_take_drop_id)
  then show "\<exists>t. s = p @ t" by blast
qed auto

lemma split_slash_Some: "split_slash s = Some (a, b) \<Longrightarrow> s = a @ ''/'' @ b \<and> CHR ''/'' \<notin> set a"
  by (induction s arbitrary: a) (auto split: if_splits)

lemma split_slash_None: "split_slash s = None \<longleftrightarrow> CHR ''/'' \<notin> set s"
  by (induction s) auto

lemma split_slash_append: "CHR ''/'' \<notin> set a \<Longrightarrow> split_slash (a @ ''/'' @ b) = Some (a, b)"
  by (induction a) auto

text \<open>The catalog, health and admission maps are all keyed by provider/model.\<close>

definition route_key :: "string \<Rightarrow> string \<Rightarrow> string" where
  "route_key p m = p @ ''/'' @ m"

lemma route_key_inj:
  "CHR ''/'' \<notin> set p \<Longrightarrow> CHR ''/'' \<notin> set p' \<Longrightarrow>
   route_key p m = route_key p' m' \<longleftrightarrow> p = p' \<and> m = m'"
  unfolding route_key_def by (metis option.inject prod.inject split_slash_append)

lemma route_key_same_provider [simp]: "route_key p m = route_key p m' \<longleftrightarrow> m = m'"
  by (simp add: route_key_def)

section \<open>Lists\<close>

text \<open>The last n elements: xs[len(xs)-n:] when the list is longer.\<close>

definition last_n :: "nat \<Rightarrow> 'a list \<Rightarrow> 'a list" where
  "last_n n xs = (if length xs > n then drop (length xs - n) xs else xs)"

lemma length_last_n [simp]: "length (last_n n xs) = min n (length xs)"
  by (simp add: last_n_def)

lemma set_last_n: "set (last_n n xs) \<subseteq> set xs"
  by (auto simp: last_n_def dest: in_set_dropD)

lemma last_n_last: "0 < n \<Longrightarrow> last (last_n n (xs @ [x])) = x"
  by (auto simp: last_n_def)

lemma last_n_append: "last_n n (last_n n as @ bs) = last_n n (as @ bs)"
  by (auto simp: last_n_def add.commute)

lemma last_n_keeps: "length bs < n \<Longrightarrow> x \<in> set (last_n n (as @ x # bs))"
  by (simp add: last_n_def)

section \<open>Latches\<close>

text \<open>
  Several components hold something back until an event of a particular kind releases it: a failed
  route until a probe succeeds, a revoked key for ever, a disabled provider until it is enabled. The
  interface is one step of the component and which events release; the lemma of the block lifts
  the one-step law to any sequence of events.
\<close>

locale latch =
  fixes step :: "'s \<Rightarrow> 'e \<Rightarrow> 's"
    and held :: "'s \<Rightarrow> 'k \<Rightarrow> bool"
    and releases :: "'e \<Rightarrow> 'k \<Rightarrow> bool"
  assumes held_step: "held s k \<Longrightarrow> \<not> releases e k \<Longrightarrow> held (step s e) k"
begin

lemma held_run: "held s k \<Longrightarrow> \<forall>e \<in> set es. \<not> releases e k \<Longrightarrow> held (foldl step s es) k"
proof (induction es arbitrary: s)
  case Nil
  then show ?case by simp
next
  case (Cons e es)
  then show ?case by (simp add: held_step)
qed

lemma released_by: "held s k \<Longrightarrow> \<not> held (foldl step s es) k \<Longrightarrow> \<exists>e \<in> set es. releases e k"
  using held_run by blast

end

end
