(* ===== verification/Go_Json.thy ===== *)
theory Go_Json
  imports Prelude Complex_Main
begin

text \<open>
  Parsed JSON and what encoding/json does with it. A json value is the tree the parser hands to
  the decoder, with the members of an object in document order and duplicates kept; a body that
  does not parse is None where a function takes a json option. Decoding into a struct field
  follows Go: names match up to ASCII case, a later member overwrites an earlier one, null leaves
  a string or bool untouched, and a value of the wrong type is skipped and makes the whole
  Unmarshal return an error after the other fields have been filled in.
\<close>

datatype json =
  JNull
| JBool bool
| JNum rat
| JStr string
| JArr "json list"
| JObj "(string \<times> json) list"

text \<open>A Go value of type any is a json value, nil being JNull.\<close>

definition json_key_eq :: "string \<Rightarrow> string \<Rightarrow> bool" where
  "json_key_eq a b \<longleftrightarrow> map lower_byte a = map lower_byte b"

section \<open>Decoding one value\<close>

text \<open>A decoder gets the JSON value and the current Go value; the bool tells whether it fits.\<close>

type_synonym 'a decoder = "json \<Rightarrow> 'a \<Rightarrow> 'a \<times> bool"

fun dec_string :: "string decoder" where
  "dec_string (JStr s) _ = (s, True)"
| "dec_string JNull z = (z, True)"
| "dec_string _ z = (z, False)"

fun dec_bool :: "bool decoder" where
  "dec_bool (JBool b) _ = (b, True)"
| "dec_bool JNull z = (z, True)"
| "dec_bool _ z = (z, False)"

fun dec_any :: "json decoder" where
  "dec_any j _ = (j, True)"

fun dec_list :: "json list decoder" where
  "dec_list (JArr xs) _ = (xs, True)"
| "dec_list JNull _ = ([], True)"
| "dec_list _ z = (z, False)"

text \<open>An int field takes an integral number in the int64 range.\<close>

fun dec_int :: "int decoder" where
  "dec_int (JNum q) z =
     (if q = rat_of_int \<lfloor>q\<rfloor> \<and> - (2 ^ 63) \<le> \<lfloor>q\<rfloor> \<and> \<lfloor>q\<rfloor> < 2 ^ 63 then (\<lfloor>q\<rfloor>, True) else (z, False))"
| "dec_int JNull z = (z, True)"
| "dec_int _ z = (z, False)"

fun dec_float :: "rat decoder" where
  "dec_float (JNum q) _ = (q, True)"
| "dec_float JNull z = (z, True)"
| "dec_float _ z = (z, False)"

section \<open>Structs, slices and maps\<close>

fun dec_members :: "string \<Rightarrow> 'a decoder \<Rightarrow> (string \<times> json) list \<Rightarrow> 'a \<Rightarrow> 'a \<times> bool" where
  "dec_members name d [] acc = (acc, True)"
| "dec_members name d ((k, v) # kvs) acc =
     (if json_key_eq k name
      then (let (a, ok) = d v acc; (b, ok') = dec_members name d kvs a in (b, ok \<and> ok'))
      else dec_members name d kvs acc)"

fun dec_field :: "string \<Rightarrow> 'a decoder \<Rightarrow> 'a \<Rightarrow> json \<Rightarrow> 'a \<times> bool" where
  "dec_field name d zero (JObj kvs) = dec_members name d kvs zero"
| "dec_field name d zero JNull = (zero, True)"
| "dec_field name d zero _ = (zero, False)"

abbreviation field :: "string \<Rightarrow> 'a decoder \<Rightarrow> 'a \<Rightarrow> json \<Rightarrow> 'a" where
  "field name d zero j \<equiv> fst (dec_field name d zero j)"

abbreviation field_ok :: "string \<Rightarrow> 'a decoder \<Rightarrow> 'a \<Rightarrow> json \<Rightarrow> bool" where
  "field_ok name d zero j \<equiv> snd (dec_field name d zero j)"

text \<open>A slice of structs: every element is decoded, the wrong ones stay zero.\<close>

fun dec_slice :: "(json \<Rightarrow> 'a \<times> bool) \<Rightarrow> 'a list decoder" where
  "dec_slice d (JArr xs) _ = (map (\<lambda>x. fst (d x)) xs, list_all (\<lambda>x. snd (d x)) xs)"
| "dec_slice d JNull _ = ([], True)"
| "dec_slice d _ z = (z, False)"

text \<open>A map[string]any: the last member of a name wins. None: the value is not an object.\<close>

fun obj_get :: "json \<Rightarrow> string \<Rightarrow> json option" where
  "obj_get (JObj kvs) k = map_of (rev kvs) k"
| "obj_get _ _ = None"

fun is_obj :: "json \<Rightarrow> bool" where
  "is_obj (JObj _) = True"
| "is_obj _ = False"

text \<open>Assigning and deleting a key of a decoded map and writing it out again.\<close>

fun obj_put :: "string \<Rightarrow> json \<Rightarrow> json \<Rightarrow> json" where
  "obj_put k v (JObj kvs) = JObj (filter (\<lambda>p. fst p \<noteq> k) kvs @ [(k, v)])"
| "obj_put _ _ j = j"

fun obj_del :: "string \<Rightarrow> json \<Rightarrow> json" where
  "obj_del k (JObj kvs) = JObj (filter (\<lambda>p. fst p \<noteq> k) kvs)"
| "obj_del _ j = j"

lemma map_of_filter_key: "map_of (filter (\<lambda>p. fst p \<noteq> k) ys) k' = (if k' = k then None else map_of ys k')"
  by (induction ys) auto

lemma map_of_rev_filter: "map_of (rev (filter (\<lambda>p. fst p \<noteq> k) kvs)) k' =
    (if k' = k then None else map_of (rev kvs) k')"
  by (simp only: rev_filter map_of_filter_key)

lemma obj_get_put [simp]: "is_obj j \<Longrightarrow> obj_get (obj_put k v j) k' = (if k' = k then Some v else obj_get j k')"
  by (cases j) (auto simp: map_of_rev_filter)

lemma obj_get_del [simp]: "obj_get (obj_del k j) k' = (if k' = k then None else obj_get j k')"
  by (cases j) (auto simp: map_of_rev_filter)

lemma is_obj_put [simp]: "is_obj (obj_put k v j) = is_obj j"
  by (cases j) auto

lemma is_obj_del [simp]: "is_obj (obj_del k j) = is_obj j"
  by (cases j) auto

text \<open>Members whose name does not match are skipped by a struct field.\<close>

lemma dec_members_append:
  "dec_members name d (xs @ ys) acc =
     (let (a, ok) = dec_members name d xs acc; (b, ok') = dec_members name d ys a in (b, ok \<and> ok'))"
  by (induction xs arbitrary: acc) (auto simp: Let_def split: prod.splits)

lemma dec_members_skip:
  "\<forall>p \<in> set kvs. \<not> json_key_eq (fst p) name \<Longrightarrow> dec_members name d kvs acc = (acc, True)"
  by (induction kvs) auto

lemma json_key_eq_refl [simp]: "json_key_eq k k"
  by (simp add: json_key_eq_def)

end
