(* ===== verification/Go_Time.thy ===== *)
theory Go_Time
  imports Prelude
begin

text \<open>
  Calendar dates and number formatting: strconv.Itoa, and the UTC layouts that the router stamps
  catalog versions and knowledge decisions with. Days are counted in the proleptic Gregorian
  calendar; a year of four digits is the range the layouts can show.
\<close>

fun nat_digits :: "nat \<Rightarrow> string" where
  "nat_digits n = (if n < 10 then [char_of (48 + n)] else nat_digits (n div 10) @ [char_of (48 + n mod 10)])"

declare nat_digits.simps [simp del]

definition itoa :: "int \<Rightarrow> string" where
  "itoa n = (if n < 0 then CHR ''-'' # nat_digits (nat (- n)) else nat_digits (nat n))"

definition zero_pad :: "nat \<Rightarrow> int \<Rightarrow> string" where
  "zero_pad w n = (let s = itoa n in replicate (w - length s) CHR ''0'' @ s)"

text \<open>Year, month and day of a day number counted from 1970-01-01.\<close>

definition civil :: "int \<Rightarrow> int \<times> int \<times> int" where
  "civil days =
     (let z = days + 719468;
          era = z div 146097;
          doe = z mod 146097;
          yoe = (doe - doe div 1460 + doe div 36524 - doe div 146096) div 365;
          doy = doe - (365 * yoe + yoe div 4 - yoe div 100);
          mp = (5 * doy + 2) div 153;
          d = doy - (153 * mp + 2) div 5 + 1;
          m = (if mp < 10 then mp + 3 else mp - 9);
          y = yoe + era * 400 + (if m \<le> 2 then 1 else 0)
      in (y, m, d))"

lemma civil_epoch: "civil 0 = (1970, 1, 1)"
  by code_simp

lemma civil_leap_day: "civil 11016 = (2000, 2, 29)"
  by code_simp

definition unix_seconds :: "instant \<Rightarrow> int" where
  "unix_seconds t = t div second"

definition date_text :: "instant \<Rightarrow> string" where
  "date_text t = (case civil (unix_seconds t div 86400) of (y, m, d) \<Rightarrow>
     zero_pad 4 y @ zero_pad 2 m @ zero_pad 2 d)"

definition clock_text :: "instant \<Rightarrow> string" where
  "clock_text t = (let s = unix_seconds t mod 86400 in
     zero_pad 2 (s div 3600) @ zero_pad 2 (s div 60 mod 60) @ zero_pad 2 (s mod 60))"

text \<open>The layout 20060102T150405Z, and 20060102150405.000000000 with nine digits of fraction.\<close>

definition format_version :: "instant \<Rightarrow> string" where
  "format_version t = date_text t @ ''T'' @ clock_text t @ ''Z''"

definition format_stamp :: "instant \<Rightarrow> string" where
  "format_stamp t = date_text t @ clock_text t @ ''.'' @ zero_pad 9 (t mod second)"

lemma nat_digits_nonempty [simp]: "nat_digits n \<noteq> []"
  by (subst nat_digits.simps) simp

lemma itoa_nonempty [simp]: "itoa n \<noteq> []"
  by (simp add: itoa_def)

end
