(* ===== verification/Provider_Client.thy ===== *)
theory Provider_Client
  imports Go_Json Go_Time
begin

text \<open>
  The wire side of a provider (internal/provider/provider.go, catalog.go and chat.go): the
  configuration of a provider, the classification of a failed call, and the model list request.
  The network is an argument: a function from the request's URL and Authorization header to a
  reply, so every theorem holds for every upstream.
\<close>

section \<open>Configurations, results, classification\<close>

datatype error_type =
  NoError | NetworkError | Unauthorized | RateLimited | Upstream5xx | InvalidCatalog

fun error_text :: "error_type \<Rightarrow> string" where
  "error_text NoError = ''''"
| "error_text NetworkError = ''network''"
| "error_text Unauthorized = ''unauthorized''"
| "error_text RateLimited = ''rate_limited''"
| "error_text Upstream5xx = ''upstream_5xx''"
| "error_text InvalidCatalog = ''invalid_catalog''"

record provider_config =
  pc_id :: string
  pc_name :: string
  pc_base_url :: string
  pc_api_key :: string
  pc_kind :: string
  pc_source :: string
  pc_enabled :: bool

definition enabled_or_default :: "provider_config \<Rightarrow> bool" where
  "enabled_or_default c = (if pc_source c = '''' then True else pc_enabled c)"

record sync_result =
  rs_status :: int
  rs_error :: error_type
  rs_retry_after :: duration
  rs_last_success :: instant
  rs_message :: string

definition no_result :: sync_result where
  "no_result = \<lparr>rs_status = 0, rs_error = NoError, rs_retry_after = 0,
     rs_last_success = zero_time, rs_message = ''''\<rparr>"

text \<open>The second argument is whether the call returned a transport error.\<close>

definition classify :: "int \<Rightarrow> bool \<Rightarrow> error_type" where
  "classify status err =
     (if err then NetworkError
      else if status = 401 \<or> status = 403 then Unauthorized
      else if status = 429 then RateLimited
      else if status \<ge> 500 then Upstream5xx
      else InvalidCatalog)"

lemma classify_not_NoError [simp]: "classify status err \<noteq> NoError"
  by (simp add: classify_def)

section \<open>Replies of the network\<close>

text \<open>
  A call is refused before it is sent (a URL that does not parse), fails in transport, or gives a
  status and a body; the body is None when it is not JSON.
\<close>

datatype http_reply = BadRequest string | TransportError string | Reply int "json option"

type_synonym network = "string \<Rightarrow> string \<Rightarrow> http_reply"

definition success_status :: "int \<Rightarrow> bool" where
  "success_status status \<longleftrightarrow> 200 \<le> status \<and> status < 300"

definition bearer :: "string \<Rightarrow> string" where
  "bearer key = ''Bearer '' @ key"

text \<open>provider.Fetch: is the models endpoint there?\<close>

definition fetch :: "network \<Rightarrow> instant \<Rightarrow> provider_config \<Rightarrow> sync_result" where
  "fetch net now c =
     (case net (pc_base_url c @ ''/models'') (bearer (pc_api_key c)) of
        BadRequest e \<Rightarrow> no_result\<lparr>rs_error := NetworkError, rs_message := e\<rparr>
      | TransportError e \<Rightarrow> no_result\<lparr>rs_error := classify 0 True, rs_message := e\<rparr>
      | Reply status body \<Rightarrow>
          (if status < 200 \<or> status \<ge> 300
           then no_result\<lparr>rs_status := status, rs_error := classify status False\<rparr>
           else no_result\<lparr>rs_status := status, rs_last_success := now\<rparr>))"

section \<open>The model list\<close>

record raw_model =
  rm_id :: string
  rm_context :: int
  rm_tools :: bool
  rm_vision :: bool
  rm_structured_output :: bool
  rm_json_mode :: bool
  rm_structured_output_known :: bool

text \<open>Decoding one element of data; an element of the wrong shape is left zero.\<close>

definition dec_raw_model :: "json \<Rightarrow> raw_model \<times> bool" where
  "dec_raw_model j =
     (\<lparr>rm_id = field ''id'' dec_string '''' j,
       rm_context = field ''context_window'' dec_int 0 j,
       rm_tools = field ''tools'' dec_bool False j,
       rm_vision = field ''vision'' dec_bool False j,
       rm_structured_output = field ''structured_output'' dec_bool False j,
       rm_json_mode = field ''json_mode'' dec_bool False j,
       rm_structured_output_known = field ''structured_output_known'' dec_bool False j\<rparr>,
      field_ok ''id'' dec_string '''' j \<and> field_ok ''context_window'' dec_int 0 j
        \<and> field_ok ''tools'' dec_bool False j \<and> field_ok ''vision'' dec_bool False j
        \<and> field_ok ''structured_output'' dec_bool False j \<and> field_ok ''json_mode'' dec_bool False j
        \<and> field_ok ''structured_output_known'' dec_bool False j)"

definition dec_models :: "json \<Rightarrow> raw_model list \<times> bool" where
  "dec_models j = dec_field ''data'' (dec_slice dec_raw_model) [] j"

text \<open>The wording of a decoding error is encoding/json's; one text stands for all of them.\<close>

definition json_error_text :: string where
  "json_error_text = ''invalid JSON''"

definition models_url :: "provider_config \<Rightarrow> string" where
  "models_url c = trim_right_cutset ''/'' (pc_base_url c) @ ''/models''"

definition fetch_models :: "network \<Rightarrow> instant \<Rightarrow> provider_config \<Rightarrow> raw_model list \<times> sync_result" where
  "fetch_models net now c =
     (case net (models_url c) (bearer (pc_api_key c)) of
        BadRequest e \<Rightarrow> ([], no_result\<lparr>rs_error := NetworkError, rs_message := e\<rparr>)
      | TransportError e \<Rightarrow> ([], no_result\<lparr>rs_error := NetworkError, rs_message := e\<rparr>)
      | Reply status body \<Rightarrow>
          (if status < 200 \<or> status \<ge> 300
           then ([], no_result\<lparr>rs_status := status, rs_error := classify status False\<rparr>)
           else (case body of
              None \<Rightarrow> ([], no_result\<lparr>rs_status := status, rs_error := InvalidCatalog, rs_message := json_error_text\<rparr>)
            | Some j \<Rightarrow>
                (case dec_models j of (ms, ok) \<Rightarrow>
                   if \<not> ok
                   then ([], no_result\<lparr>rs_status := status, rs_error := InvalidCatalog, rs_message := json_error_text\<rparr>)
                   else if length ms > 5000
                   then ([], no_result\<lparr>rs_status := status, rs_error := InvalidCatalog,
                                       rs_message := ''catalog too large''\<rparr>)
                   else (ms, no_result\<lparr>rs_status := status, rs_last_success := now\<rparr>)))))"

lemma fetch_models_error: "rs_error (snd (fetch_models net now c)) \<noteq> NoError \<Longrightarrow> fst (fetch_models net now c) = []"
  by (auto simp: fetch_models_def no_result_def split: http_reply.splits option.splits prod.splits if_splits)

lemma fetch_models_bound: "length (fst (fetch_models net now c)) \<le> 5000"
  by (auto simp: fetch_models_def split: http_reply.splits option.splits prod.splits if_splits)

lemma fetch_models_ok_status:
  "rs_error (snd (fetch_models net now c)) = NoError \<Longrightarrow> success_status (rs_status (snd (fetch_models net now c)))"
  by (auto simp: fetch_models_def no_result_def success_status_def
      split: http_reply.splits option.splits prod.splits if_splits)

definition chat_url :: "string \<Rightarrow> string" where
  "chat_url base = trim_right_cutset ''/'' base @ ''/chat/completions''"

end
