(* ===== verification/Storage.thy ===== *)
theory Storage
  imports Prelude
begin

text \<open>
  How the router keeps its JSON documents (internal/storage, and the persist methods of every
  store): marshal, create the directory, write a temporary file beside the document, rename it
  over the document. A file holds a document, or is Torn (a write that stopped half way, or bytes
  that do not parse), or is Missing. The faults of one write are an argument, the record io, so a
  theorem for every io covers every way the write can fail. The document itself is the Go value
  that is marshalled: encoding/json reads back what it wrote for the types the stores use.
\<close>

section \<open>Files, faults and atomic replacement\<close>

datatype 'a content = Missing | Torn | Doc 'a

record 'a disk =
  d_file :: "'a content"
  d_tmp :: "'a content"

record io =
  io_mkdir :: bool
  io_write :: bool
  io_rename :: bool

definition io_ok :: "io \<Rightarrow> bool" where
  "io_ok io \<longleftrightarrow> io_mkdir io \<and> io_write io \<and> io_rename io"

definition good_io :: io where
  "good_io = \<lparr>io_mkdir = True, io_write = True, io_rename = True\<rparr>"

lemma io_ok_good [simp]: "io_ok good_io"
  by (simp add: io_ok_def good_io_def)

text \<open>The result is whether the write succeeded, and the files afterwards.\<close>

definition write_atomic :: "io \<Rightarrow> 'a \<Rightarrow> 'a disk \<Rightarrow> bool \<times> 'a disk" where
  "write_atomic io v d =
     (if \<not> io_mkdir io then (False, d)
      else if \<not> io_write io then (False, d\<lparr>d_tmp := Torn\<rparr>)
      else if \<not> io_rename io then (False, d\<lparr>d_tmp := Doc v\<rparr>)
      else (True, d\<lparr>d_file := Doc v, d_tmp := Missing\<rparr>))"

lemma write_atomic_ok: "fst (write_atomic io v d) \<longleftrightarrow> io_ok io"
  by (simp add: write_atomic_def io_ok_def)

lemma write_atomic_file:
  "d_file (snd (write_atomic io v d)) = (if io_ok io then Doc v else d_file d)"
  by (simp add: write_atomic_def io_ok_def)

text \<open>
  A crash can stop the process between any two of these steps, and inside the write of the
  temporary file. The step relation has one rule per step; the phase counts them.
\<close>

inductive write_step :: "'a \<Rightarrow> 'a disk \<times> nat \<Rightarrow> 'a disk \<times> nat \<Rightarrow> bool" for v where
  mkdir: "write_step v (d, 0) (d, 1)"
| write_begin: "write_step v (d, 1) (d\<lparr>d_tmp := Torn\<rparr>, 2)"
| write_end: "write_step v (d, 2) (d\<lparr>d_tmp := Doc v\<rparr>, 3)"
| rename: "d_tmp d = Doc v \<Longrightarrow> write_step v (d, 3) (d\<lparr>d_file := Doc v, d_tmp := Missing\<rparr>, 4)"

inductive_cases write_step_E: "write_step v (d, n) s"

lemma write_step_file:
  "write_step v s s' \<Longrightarrow> d_file (fst s) \<in> {x, Doc v} \<Longrightarrow> d_file (fst s') \<in> {x, Doc v}"
  by (cases s; cases s') (auto elim: write_step_E)

lemma crash_keeps_document:
  assumes "(write_step v)\<^sup>*\<^sup>* (d, 0) s"
  shows "d_file (fst s) \<in> {d_file d, Doc v}"
  using assms
proof (induction rule: rtranclp_induct)
  case base
  then show ?case by simp
next
  case (step s s')
  then show ?case using write_step_file [of v s s' "d_file d"] by simp
qed

lemma write_atomic_reachable:
  assumes "io_ok io" shows "(write_step v)\<^sup>*\<^sup>* (d, 0) (snd (write_atomic io v d), 4)"
proof -
  let ?d1 = "d\<lparr>d_tmp := Torn\<rparr>" and ?d2 = "d\<lparr>d_tmp := Torn\<rparr>\<lparr>d_tmp := Doc v\<rparr>"
  have "write_step v (d, 0) (d, 1)" and "write_step v (d, 1) (?d1, 2)" and "write_step v (?d1, 2) (?d2, 3)"
    by (rule write_step.intros)+
  moreover have "write_step v (?d2, 3) (?d2\<lparr>d_file := Doc v, d_tmp := Missing\<rparr>, 4)"
    by (rule write_step.rename) simp
  ultimately have "(write_step v)\<^sup>*\<^sup>* (d, 0) (?d2\<lparr>d_file := Doc v, d_tmp := Missing\<rparr>, 4)"
    by (meson converse_rtranclp_into_rtranclp rtranclp.rtrancl_refl)
  moreover have "snd (write_atomic io v d) = ?d2\<lparr>d_file := Doc v, d_tmp := Missing\<rparr>"
    using assms by (simp add: write_atomic_def io_ok_def)
  ultimately show ?thesis by auto
qed

section \<open>Reading a document\<close>

datatype 'a read = NotExist | ReadFailed | BadJson | Parsed 'a

definition read_doc :: "bool \<Rightarrow> 'a content \<Rightarrow> 'a read" where
  "read_doc readable c =
     (case c of Missing \<Rightarrow> NotExist
      | Torn \<Rightarrow> if readable then BadJson else ReadFailed
      | Doc v \<Rightarrow> if readable then Parsed v else ReadFailed)"

lemma read_doc_Doc [simp]: "read_doc True (Doc v) = Parsed v"
  by (simp add: read_doc_def)

section \<open>The named documents of internal/storage\<close>

text \<open>
  storage.Store reads and writes any document of its directory by name; New has created the
  directory. Only the write and the rename can fail.
\<close>

type_synonym 'a dir = "string \<Rightarrow> 'a content"

definition write_file :: "bool \<Rightarrow> string \<Rightarrow> 'a \<Rightarrow> 'a dir \<Rightarrow> 'a dir" where
  "write_file ok p v fs = fs(p := (if ok then Doc v else Torn))"

definition rename_file :: "string \<Rightarrow> string \<Rightarrow> 'a dir \<Rightarrow> 'a dir" where
  "rename_file p q fs = (fs(q := fs p))(p := Missing)"

definition ReadJSON :: "bool \<Rightarrow> string \<Rightarrow> 'a dir \<Rightarrow> 'a read" where
  "ReadJSON readable name fs = read_doc readable (fs name)"

definition WriteJSON :: "io \<Rightarrow> string \<Rightarrow> 'a \<Rightarrow> 'a dir \<Rightarrow> bool \<times> 'a dir" where
  "WriteJSON io name v fs =
     (let tmp = name @ ''.tmp''; fs1 = write_file (io_write io) tmp v fs in
      if \<not> io_write io then (False, fs1)
      else if \<not> io_rename io then (False, fs1)
      else (True, rename_file tmp name fs1))"

definition disk_of :: "'a dir \<Rightarrow> string \<Rightarrow> 'a disk" where
  "disk_of fs name = \<lparr>d_file = fs name, d_tmp = fs (name @ ''.tmp'')\<rparr>"

text \<open>On its two files WriteJSON is the atomic write, and it touches no other file.\<close>

lemma WriteJSON_refines:
  assumes "io_mkdir io"
  shows "fst (WriteJSON io name v fs) = fst (write_atomic io v (disk_of fs name))"
    and "disk_of (snd (WriteJSON io name v fs)) name = snd (write_atomic io v (disk_of fs name))"
  using assms
  by (auto simp: WriteJSON_def write_atomic_def disk_of_def write_file_def rename_file_def Let_def)

lemma WriteJSON_frame:
  "p \<noteq> name \<Longrightarrow> p \<noteq> name @ ''.tmp'' \<Longrightarrow> snd (WriteJSON io name v fs) p = fs p"
  by (auto simp: WriteJSON_def write_file_def rename_file_def Let_def)

text \<open>The governance records: a missing file is an empty list, an unreadable one an error.\<close>

definition governance_file :: string where
  "governance_file = ''governance-xing-shu.json''"

definition LoadGovernance :: "bool \<Rightarrow> 'a list dir \<Rightarrow> unit + 'a list" where
  "LoadGovernance readable fs =
     (case read_doc readable (fs governance_file) of
        NotExist \<Rightarrow> Inr []
      | ReadFailed \<Rightarrow> Inl ()
      | BadJson \<Rightarrow> Inl ()
      | Parsed records \<Rightarrow> Inr records)"

definition SaveGovernance :: "io \<Rightarrow> 'a list \<Rightarrow> 'a list dir \<Rightarrow> bool \<times> 'a list dir" where
  "SaveGovernance io records fs =
     (if \<not> io_mkdir io then (False, fs) else WriteJSON io governance_file records fs)"

lemma LoadGovernance_SaveGovernance:
  "io_ok io \<Longrightarrow> LoadGovernance True (snd (SaveGovernance io rs fs)) = Inr rs"
  by (simp add: LoadGovernance_def SaveGovernance_def WriteJSON_def io_ok_def write_file_def
      rename_file_def governance_file_def)

section \<open>Stores with a document of their own\<close>

text \<open>
  The interface of every store that keeps its entries in one document: the entries, the files,
  whether a path has been given, and persist. The laws are what each persist method promises; the
  lemmas of the block hold for every store that interprets the locale.
\<close>

locale durable_store =
  fixes entries :: "'s \<Rightarrow> 'a"
    and files :: "'s \<Rightarrow> 'a disk"
    and named :: "'s \<Rightarrow> bool"
    and persist :: "io \<Rightarrow> 's \<Rightarrow> 's"
  assumes persist_entries: "entries (persist io s) = entries s"
    and persist_files: "named s \<Longrightarrow> files (persist io s) = snd (write_atomic io (entries s) (files s))"
    and persist_unnamed: "\<not> named s \<Longrightarrow> persist io s = s"
    and persist_named: "named (persist io s) = named s"
begin

lemma old_or_new: "d_file (files (persist io s)) \<in> {d_file (files s), Doc (entries s)}"
  by (cases "named s") (auto simp: persist_files persist_unnamed write_atomic_file)

lemma saved: "named s \<Longrightarrow> io_ok io \<Longrightarrow> d_file (files (persist io s)) = Doc (entries s)"
  by (simp add: persist_files write_atomic_file)

lemma failed: "\<not> io_ok io \<Longrightarrow> d_file (files (persist io s)) = d_file (files s)"
  by (cases "named s") (auto simp: persist_files persist_unnamed write_atomic_file)

lemma reread: "named s \<Longrightarrow> io_ok io \<Longrightarrow>
    read_doc True (d_file (files (persist io s))) = Parsed (entries (persist io s))"
  by (simp add: saved persist_entries)

end

text \<open>Most stores of internal/runtime are a map, a path and the document; they share this record.\<close>

record 'v store =
  items :: "(string, 'v) gomap"
  path :: string
  disk :: "(string, 'v) gomap disk"

definition blank_disk :: "'a disk" where
  "blank_disk = \<lparr>d_file = Missing, d_tmp = Missing\<rparr>"

definition persist_store :: "io \<Rightarrow> ('v, 'z) store_scheme \<Rightarrow> ('v, 'z) store_scheme" where
  "persist_store io s =
     (if path s = '''' then s else s\<lparr>disk := snd (write_atomic io (items s) (disk s))\<rparr>)"

interpretation map_store: durable_store items disk "\<lambda>s. path s \<noteq> ''''" persist_store
  by unfold_locales (auto simp: persist_store_def)

lemma items_persist_store [simp]: "items (persist_store io s) = items s"
  by (rule map_store.persist_entries)

lemma path_persist_store [simp]: "path (persist_store io s) = path s"
  by (simp add: persist_store_def)

lemma more_persist_store [simp]: "store.more (persist_store io s) = store.more s"
  by (simp add: persist_store_def)

end
