(* ===== verification/Catalog.thy ===== *)
theory Catalog
  imports Provider_Client Storage
begin

text \<open>
  The model catalog (internal/catalog): the model record and the saved state, the translation of a
  provider's model list into catalog entries, and the Manager with every operation that changes
  it. One reading of the clock serves a whole operation. The persist callback is modelled by the
  list of states it has been given, newest first, so that forgetting to persist is visible.
  The second half proves the two-layer approval policy: a model outside FreeLLMAPI can be routed
  automatically only if it was admitted and then approved.
\<close>

section \<open>Models, evidence and the saved state\<close>

datatype status = Active | Unknown | Meta | Stale | Retired | Disabled | OtherStatus string

fun status_text :: "status \<Rightarrow> string" where
  "status_text Active = ''active''"
| "status_text Unknown = ''unknown''"
| "status_text Meta = ''meta''"
| "status_text Stale = ''stale''"
| "status_text Retired = ''retired''"
| "status_text Disabled = ''disabled''"
| "status_text (OtherStatus s) = s"

record evidence =
  ev_supported :: bool
  ev_confidence :: rat
  ev_source :: string
  ev_level :: string
  ev_url :: string
  ev_hash :: string
  ev_checked_at :: instant

record model =
  m_id :: string
  m_provider :: string
  m_object :: string
  m_owned_by :: string
  m_created :: int
  m_status :: status
  m_auto_routable :: bool
  m_admitted :: bool
  m_capabilities :: "string list"
  m_context_window :: int
  m_tools :: bool
  m_vision :: bool
  m_structured_output :: bool
  m_structured_output_known :: bool
  m_parallel_tools :: bool
  m_thinking_blocks :: bool
  m_capability_evidence :: "(string, evidence) gomap"
  m_score :: int
  m_orphaned :: bool
  m_updated_at :: instant

record catalog =
  cat_models :: "model list"
  cat_synced_at :: instant
  cat_version :: string

text \<open>A map that is absent from the saved document is nil, here None.\<close>

record cat_state =
  cs_catalog :: catalog
  cs_allow :: "(string, bool) gomap option"
  cs_admitted :: "(string, bool) gomap option"
  cs_last :: "(string, instant) gomap option"

definition empty_catalog :: catalog where
  "empty_catalog = \<lparr>cat_models = [], cat_synced_at = zero_time, cat_version = ''''\<rparr>"

definition empty_state :: cat_state where
  "empty_state = \<lparr>cs_catalog = empty_catalog, cs_allow = Some [], cs_admitted = Some [], cs_last = Some []\<rparr>"

text \<open>
  A state saved before the admission layer existed has no admitted map: every allowed key becomes
  an admitted key and leaves the allow map.
\<close>

definition migrate_admitted ::
  "(string, bool) gomap \<Rightarrow> (string, bool) gomap option \<Rightarrow> (string, bool) gomap \<times> (string, bool) gomap" where
  "migrate_admitted allow admitted =
     (case admitted of
        Some adm \<Rightarrow> (allow, adm)
      | None \<Rightarrow> (filter (\<lambda>(k, b). \<not> b) allow, map (\<lambda>(k, b). (k, True)) (filter (\<lambda>(k, b). b) allow)))"

definition LoadState :: "cat_state read \<Rightarrow> bool \<times> cat_state" where
  "LoadState r =
     (case r of
        NotExist \<Rightarrow> (True, empty_state)
      | ReadFailed \<Rightarrow> (False, empty_state)
      | BadJson \<Rightarrow> (False, empty_state)
      | Parsed s \<Rightarrow>
          (let allow0 = (case cs_allow s of None \<Rightarrow> [] | Some a \<Rightarrow> a);
               (allow, admitted) = migrate_admitted allow0 (cs_admitted s);
               last = (case cs_last s of None \<Rightarrow> [] | Some l \<Rightarrow> l)
           in (True, s\<lparr>cs_allow := Some allow, cs_admitted := Some admitted, cs_last := Some last\<rparr>)))"

definition SaveState :: "io \<Rightarrow> cat_state \<Rightarrow> cat_state disk \<Rightarrow> bool \<times> cat_state disk" where
  "SaveState io s d =
     (let s1 = s\<lparr>cs_allow := Some (case cs_allow s of None \<Rightarrow> [] | Some a \<Rightarrow> a),
                 cs_admitted := Some (case cs_admitted s of None \<Rightarrow> [] | Some a \<Rightarrow> a)\<rparr>
      in write_atomic io s1 d)"

section \<open>From a provider's list to catalog entries\<close>

definition free_provider :: string where
  "free_provider = ''freellmapi''"

definition is_auto_approved :: "string \<Rightarrow> bool" where
  "is_auto_approved pid \<longleftrightarrow> pid = free_provider"

definition is_meta :: "string \<Rightarrow> bool" where
  "is_meta mid \<longleftrightarrow> mid \<in> set [''auto'', ''fusion'', ''compound'', ''router'', ''routing'', ''subagent'',
     ''sub_agent'', ''browser_use'', ''fallback'', ''aggregator'']"

definition has_control :: "string \<Rightarrow> bool" where
  "has_control s \<longleftrightarrow> CHR 0x0D \<in> set s \<or> CHR 0x0A \<in> set s \<or> CHR 0x00 \<in> set s"

definition apply_one ::
  "instant \<Rightarrow> (string, bool) gomap \<Rightarrow> (string, bool) gomap \<Rightarrow> string \<Rightarrow> raw_model \<Rightarrow> model option" where
  "apply_one now allow admitted_map pid x =
     (let mid = trim_space (rm_id x) in
      if mid = '''' \<or> length mid > 300 \<or> has_control mid \<or> is_meta mid then None
      else
        (let ctx = (if rm_context x < 0 \<or> rm_context x > 10000000 then 0 else rm_context x);
             key = route_key pid (rm_id x);
             admitted = (mget False admitted_map key \<or> is_auto_approved pid);
             approved = mget False allow key;
             auto = (\<not> is_meta mid \<and> is_auto_approved pid \<or> (\<not> is_meta mid \<and> admitted \<and> approved))
         in Some \<lparr>m_id = mid, m_provider = pid, m_object = ''model'', m_owned_by = pid,
                  m_created = unix_seconds now,
                  m_status = (if admitted \<or> auto then Active else Unknown),
                  m_auto_routable = auto, m_admitted = admitted, m_capabilities = [],
                  m_context_window = ctx, m_tools = rm_tools x, m_vision = rm_vision x,
                  m_structured_output = (rm_structured_output x \<or> rm_json_mode x),
                  m_structured_output_known = (rm_structured_output_known x \<or> rm_structured_output x \<or> rm_json_mode x),
                  m_parallel_tools = False, m_thinking_blocks = False, m_capability_evidence = [],
                  m_score = 0, m_orphaned = False, m_updated_at = now\<rparr>))"

definition sync_apply ::
  "instant \<Rightarrow> (string, bool) gomap \<Rightarrow> (string, bool) gomap \<Rightarrow> string \<Rightarrow> raw_model list \<Rightarrow> model list" where
  "sync_apply now allow admitted pid raw = List.map_filter (apply_one now allow admitted pid) raw"

text \<open>SyncOne fetches and translates without an admission map.\<close>

definition sync_one ::
  "network \<Rightarrow> instant \<Rightarrow> provider_config \<Rightarrow> (string, bool) gomap \<Rightarrow> model list \<times> sync_result" where
  "sync_one net now c allow =
     (case fetch_models net now c of (raw, r) \<Rightarrow>
        if rs_error r \<noteq> NoError then ([], r) else (sync_apply now allow [] (pc_id c) raw, r))"

definition version :: "instant \<Rightarrow> string" where
  "version now = format_version now"

section \<open>The manager\<close>

record manager =
  mg_current :: catalog
  mg_allow :: "(string, bool) gomap"
  mg_admitted :: "(string, bool) gomap"
  mg_last :: "(string, instant) gomap"
  mg_persist :: bool
  mg_saved :: "cat_state list"

abbreviation models_of :: "manager \<Rightarrow> model list" where
  "models_of m \<equiv> cat_models (mg_current m)"

definition new_manager_with_state :: "cat_state \<Rightarrow> manager" where
  "new_manager_with_state s =
     (let allow0 = (case cs_allow s of None \<Rightarrow> [] | Some a \<Rightarrow> a);
          (allow, admitted) = migrate_admitted allow0 (cs_admitted s);
          last = (case cs_last s of None \<Rightarrow> [] | Some l \<Rightarrow> l)
      in \<lparr>mg_current = cs_catalog s, mg_allow = allow, mg_admitted = admitted, mg_last = last,
          mg_persist = False, mg_saved = []\<rparr>)"

definition new_manager :: "catalog \<Rightarrow> (string, bool) gomap option \<Rightarrow> manager" where
  "new_manager c allow =
     new_manager_with_state \<lparr>cs_catalog = c, cs_allow = allow, cs_admitted = None, cs_last = None\<rparr>"

definition set_persist :: "bool \<Rightarrow> manager \<Rightarrow> manager" where
  "set_persist on m = m\<lparr>mg_persist := on\<rparr>"

text \<open>
  The document of the manager. MarshalIndent and Unmarshal are behind it: the names of the fields in the
  file, and what the JSON package does to times and numbers, are not modelled.
\<close>

definition saved_state :: "manager \<Rightarrow> cat_state" where
  "saved_state m = \<lparr>cs_catalog = mg_current m, cs_allow = Some (mg_allow m),
     cs_admitted = Some (mg_admitted m), cs_last = Some (mg_last m)\<rparr>"

definition persist_locked :: "manager \<Rightarrow> manager" where
  "persist_locked m = (if mg_persist m then m\<lparr>mg_saved := saved_state m # mg_saved m\<rparr> else m)"

definition snapshot :: "manager \<Rightarrow> catalog" where
  "snapshot m = mg_current m"

definition set_models :: "model list \<Rightarrow> manager \<Rightarrow> manager" where
  "set_models ms m = m\<lparr>mg_current := (mg_current m)\<lparr>cat_models := ms\<rparr>\<rparr>"

definition bump_version :: "instant \<Rightarrow> manager \<Rightarrow> manager" where
  "bump_version now m = m\<lparr>mg_current := (mg_current m)\<lparr>cat_version := version now\<rparr>\<rparr>"

text \<open>A resynchronised model keeps the evidence of the entry it replaces.\<close>

definition carry_over :: "(string, model) gomap \<Rightarrow> model \<Rightarrow> model" where
  "carry_over previous x =
     (case map_of previous (m_id x) of
        None \<Rightarrow> x
      | Some old \<Rightarrow>
          x\<lparr>m_orphaned := False,
            m_structured_output := m_structured_output old,
            m_structured_output_known := m_structured_output_known old,
            m_capability_evidence := m_capability_evidence old,
            m_tools := (m_tools old \<or> m_tools x),
            m_vision := (m_vision old \<or> m_vision x)\<rparr>)"

text \<open>
  SyncRaw reads the two decision maps before it takes the lock, so that they can be older than the
  catalog it changes: sync\_commit is what happens under the lock, with the maps as they were read, and
  sync\_raw the whole call when nothing comes in between.
\<close>

definition sync_commit ::
  "instant \<Rightarrow> string \<Rightarrow> (string, bool) gomap \<Rightarrow> (string, bool) gomap \<Rightarrow> raw_model list \<Rightarrow> manager \<Rightarrow> sync_result \<times> manager" where
  "sync_commit now pid allow admitted raw m =
     (let res = no_result\<lparr>rs_status := 200, rs_last_success := now\<rparr>;
          mine = filter (\<lambda>x. m_provider x = pid) (models_of m);
          previous = rev (map (\<lambda>x. (m_id x, x)) mine);
          next = map (carry_over previous) (sync_apply now allow admitted pid raw);
          old = length mine
      in if old \<ge> 10 \<and> length next * 2 < old
         then (res\<lparr>rs_error := InvalidCatalog, rs_message := ''catalog drop protected''\<rparr>, m)
         else
           (let keep = filter (\<lambda>x. m_provider x \<noteq> pid) (models_of m);
                c = \<lparr>cat_models = keep @ next, cat_synced_at = now, cat_version = version now\<rparr>
            in (res, persist_locked (m\<lparr>mg_current := c, mg_last := mput pid now (mg_last m)\<rparr>))))"

definition sync_raw :: "instant \<Rightarrow> string \<Rightarrow> raw_model list \<Rightarrow> manager \<Rightarrow> sync_result \<times> manager" where
  "sync_raw now pid raw m = sync_commit now pid (mg_allow m) (mg_admitted m) raw m"

definition sync :: "network \<Rightarrow> instant \<Rightarrow> provider_config \<Rightarrow> manager \<Rightarrow> sync_result \<times> manager" where
  "sync net now c m =
     (case fetch_models net now c of (raw, res) \<Rightarrow>
        if rs_error res \<noteq> NoError then (res, m) else sync_raw now (pc_id c) raw m)"

definition last_sync :: "string \<Rightarrow> manager \<Rightarrow> instant" where
  "last_sync pid m = mget zero_time (mg_last m) pid"

definition mark_synced :: "string \<Rightarrow> instant \<Rightarrow> manager \<Rightarrow> manager" where
  "mark_synced pid t m = persist_locked (m\<lparr>mg_last := mput pid t (mg_last m)\<rparr>)"

text \<open>Rewriting the first entry that satisfies a test; None when there is none.\<close>

fun update_first :: "('a \<Rightarrow> bool) \<Rightarrow> ('a \<Rightarrow> 'a) \<Rightarrow> 'a list \<Rightarrow> 'a list option" where
  "update_first P f [] = None"
| "update_first P f (x # xs) =
     (if P x then Some (f x # xs) else map_option (\<lambda>ys. x # ys) (update_first P f xs))"

definition update_where :: "instant \<Rightarrow> (model \<Rightarrow> bool) \<Rightarrow> (model \<Rightarrow> model) \<Rightarrow> manager \<Rightarrow> bool \<times> manager" where
  "update_where now P f m =
     (case update_first P f (models_of m) of
        None \<Rightarrow> (False, m)
      | Some ms \<Rightarrow> (True, persist_locked (bump_version now (set_models ms m))))"

definition is_entry :: "string \<Rightarrow> string \<Rightarrow> model \<Rightarrow> bool" where
  "is_entry pid mid x \<longleftrightarrow> m_provider x = pid \<and> m_id x = mid"

definition update_provider_model ::
  "instant \<Rightarrow> string \<Rightarrow> string \<Rightarrow> (model \<Rightarrow> model) \<Rightarrow> manager \<Rightarrow> bool \<times> manager" where
  "update_provider_model now mid pid f m = update_where now (is_entry pid mid) f m"

definition update_model :: "instant \<Rightarrow> string \<Rightarrow> (model \<Rightarrow> model) \<Rightarrow> manager \<Rightarrow> bool \<times> manager" where
  "update_model now mid f m = update_where now (\<lambda>x. m_id x = mid) f m"

text \<open>One model under ApplyDefaultApprovalPolicy, before its timestamp; changed when it differs.\<close>

definition policy_free :: "model \<Rightarrow> model" where
  "policy_free x =
     (let x1 = (if m_status x = Unknown then x\<lparr>m_status := Active\<rparr> else x);
          x2 = x1\<lparr>m_admitted := True\<rparr>
      in if m_status x2 = Active then x2\<lparr>m_auto_routable := True\<rparr> else x2)"

definition policy_standard :: "(string, bool) gomap \<Rightarrow> model \<Rightarrow> model" where
  "policy_standard admitted_map x =
     (let admitted = (mget False admitted_map (route_key (m_provider x) (m_id x)) \<or> m_admitted x);
          x1 = (if admitted \<and> m_status x = Unknown then x\<lparr>m_status := Active\<rparr> else x)
      in x1\<lparr>m_admitted := admitted, m_auto_routable := False\<rparr>)"

definition policy_model :: "(string, bool) gomap \<Rightarrow> model \<Rightarrow> model" where
  "policy_model admitted_map x =
     (if is_meta (m_id x) \<or> m_status x = Stale \<or> m_orphaned x then x
      else if is_auto_approved (m_provider x) then policy_free x
      else policy_standard admitted_map x)"

definition apply_default_approval_policy :: "instant \<Rightarrow> manager \<Rightarrow> nat \<times> manager" where
  "apply_default_approval_policy now m =
     (let step = policy_model (mg_admitted m);
          changed = length (filter (\<lambda>x. step x \<noteq> x) (models_of m));
          ms = map (\<lambda>x. if step x \<noteq> x then (step x)\<lparr>m_updated_at := now\<rparr> else x) (models_of m)
      in if changed > 0 then (changed, persist_locked (bump_version now (set_models ms m)))
         else (0, m))"

definition admit_model :: "instant \<Rightarrow> bool \<Rightarrow> model \<Rightarrow> model" where
  "admit_model now admitted x =
     (let x1 = x\<lparr>m_admitted := admitted, m_auto_routable := False\<rparr>;
          x2 = (if admitted \<and> m_status x1 = Unknown \<and> \<not> is_meta (m_id x) then x1\<lparr>m_status := Active\<rparr> else x1);
          x3 = (if \<not> admitted \<and> m_status x2 = Active then x2\<lparr>m_status := Unknown\<rparr> else x2)
      in x3\<lparr>m_updated_at := now\<rparr>)"

definition set_admitted :: "instant \<Rightarrow> string \<Rightarrow> string \<Rightarrow> bool \<Rightarrow> manager \<Rightarrow> bool \<times> manager" where
  "set_admitted now pid mid admitted m =
     (let key = route_key pid mid;
          m1 = m\<lparr>mg_admitted := mput key admitted (mg_admitted m)\<rparr>;
          m2 = (if \<not> admitted then m1\<lparr>mg_allow := mput key False (mg_allow m1)\<rparr> else m1);
          hit = (\<lambda>x. is_entry pid mid x \<and> \<not> is_auto_approved pid);
          changed = list_ex hit (models_of m2);
          ms = map (\<lambda>x. if hit x then admit_model now admitted x else x) (models_of m2)
      in if changed then (True, persist_locked (bump_version now (set_models ms m2)))
         else (False, m2))"

definition required_evidence :: "string list" where
  "required_evidence = [''structured_output'', ''tools'', ''vision'']"

definition protocol_evidence :: "model \<Rightarrow> string \<Rightarrow> bool" where
  "protocol_evidence x cap \<longleftrightarrow>
     (case map_of (m_capability_evidence x) cap of
        None \<Rightarrow> False
      | Some e \<Rightarrow> ev_source e = ''runtime_probe'' \<and> ev_level e = ''protocol'')"

definition auto_approval_ready :: "model \<Rightarrow> bool" where
  "auto_approval_ready x \<longleftrightarrow>
     (if is_auto_approved (m_provider x) then True
      else if \<not> m_admitted x \<or> m_status x \<noteq> Active \<or> is_meta (m_id x) then False
      else list_all (protocol_evidence x) required_evidence)"

definition set_allow :: "instant \<Rightarrow> string \<Rightarrow> string \<Rightarrow> bool \<Rightarrow> manager \<Rightarrow> bool \<times> manager" where
  "set_allow now pid mid allowed m =
     (case find (is_entry pid mid) (models_of m) of
        None \<Rightarrow> (False, m)
      | Some x \<Rightarrow>
          if allowed \<and> \<not> auto_approval_ready x then (False, m)
          else
            (let m1 = m\<lparr>mg_allow := mput (route_key pid mid) allowed (mg_allow m)\<rparr>;
                 f = (\<lambda>y. y\<lparr>m_auto_routable := (allowed \<and> m_status y = Active), m_updated_at := now\<rparr>)
             in (True, snd (update_where now (is_entry pid mid) f m1))))"

definition reconcile_model :: "instant \<Rightarrow> (string \<Rightarrow> bool) \<Rightarrow> model \<Rightarrow> bool \<times> model" where
  "reconcile_model now online x =
     (if \<not> online (m_provider x) then
        if m_status x \<noteq> Stale \<or> m_auto_routable x \<or> \<not> m_orphaned x
        then (True, x\<lparr>m_status := Stale, m_auto_routable := False, m_orphaned := True, m_updated_at := now\<rparr>)
        else (False, x)
      else if m_status x = Stale \<and> m_orphaned x
      then (True, x\<lparr>m_status := Unknown, m_auto_routable := False, m_orphaned := False, m_updated_at := now\<rparr>)
      else (False, x))"

definition online_in :: "(string, provider_config) gomap \<Rightarrow> string \<Rightarrow> bool" where
  "online_in configs pid \<longleftrightarrow> map_of configs pid \<noteq> None"

definition reconcile_providers :: "instant \<Rightarrow> (string, provider_config) gomap \<Rightarrow> manager \<Rightarrow> manager" where
  "reconcile_providers now configs m =
     (let step = reconcile_model now (online_in configs);
          changed = list_ex (\<lambda>x. fst (step x)) (models_of m);
          ms = map (\<lambda>x. snd (step x)) (models_of m)
      in if changed then persist_locked (bump_version now (set_models ms m)) else m)"

definition admission_snapshot :: "manager \<Rightarrow> (string, bool) gomap" where
  "admission_snapshot m = mg_admitted m"

definition allow_snapshot :: "manager \<Rightarrow> (string, bool) gomap" where
  "allow_snapshot m = mg_allow m"

text \<open>RestoreReviewerCapability after a restart.\<close>

definition restore_evidence :: "instant \<Rightarrow> model \<Rightarrow> model" where
  "restore_evidence now x =
     (if m_status x \<noteq> Active \<or> \<not> m_auto_routable x then x
      else x\<lparr>m_structured_output := True, m_structured_output_known := True,
             m_capability_evidence := mput ''structured_output''
               \<lparr>ev_supported = True, ev_confidence = 1, ev_source = ''persisted reviewer selection'',
                ev_level = ''selection'', ev_url = '''', ev_hash = '''', ev_checked_at = now\<rparr>
               (m_capability_evidence x)\<rparr>)"

definition restore_reviewer_capability :: "instant \<Rightarrow> string \<Rightarrow> string \<Rightarrow> manager \<Rightarrow> bool \<times> manager" where
  "restore_reviewer_capability now mid pid m = update_provider_model now mid pid (restore_evidence now) m"

section \<open>The synchronisation loop\<close>

text \<open>
  One run of the loop over the configurations: a provider with no URL, an external one, or one
  the gate refuses is skipped; every other is synchronised and its result observed.
\<close>

definition sync_skipped :: "(string \<Rightarrow> bool) option \<Rightarrow> provider_config \<Rightarrow> bool" where
  "sync_skipped gate c \<longleftrightarrow>
     pc_base_url c = '''' \<or> pc_source c = ''external'' \<or>
     (case gate of None \<Rightarrow> False | Some g \<Rightarrow> \<not> g (pc_id c))"

fun sync_run ::
  "network \<Rightarrow> instant \<Rightarrow> (string \<Rightarrow> bool) option \<Rightarrow> provider_config list \<Rightarrow> manager \<Rightarrow>
     (string \<times> sync_result) list \<times> manager" where
  "sync_run net now gate [] m = ([], m)"
| "sync_run net now gate (c # cs) m =
     (if sync_skipped gate c then sync_run net now gate cs m
      else (let (res, m1) = sync net now c m;
                (obs, m2) = sync_run net now gate cs m1
            in ((pc_id c, res) # obs, m2)))"

end
