(* ===== verification/Catalog_Policy.thy ===== *)
theory Catalog_Policy
  imports Catalog
begin

text \<open>
  The approval policy of the catalog as an invariant. A step relation has one rule per operation
  of the manager; the invariant ties what the router reads in a model (status, admitted,
  auto-routable) to the two maps the operator's decisions are kept in, and every step keeps it.
  The premises of the rules are what the callers guarantee: provider ids contain no slash, and a
  synchronised list has no duplicate and no padded id. Two closed examples show that the code
  needs the second premise.
\<close>

named_theorems manager_simps \<open>what an operation of the manager leaves in each field\<close>

section \<open>Fields after the building blocks\<close>

lemma persist_locked_fields [simp, manager_simps]:
  "mg_current (persist_locked m) = mg_current m" "mg_allow (persist_locked m) = mg_allow m"
  "mg_admitted (persist_locked m) = mg_admitted m" "mg_last (persist_locked m) = mg_last m"
  "mg_persist (persist_locked m) = mg_persist m"
  by (simp_all add: persist_locked_def)

lemma bump_version_fields [simp, manager_simps]:
  "models_of (bump_version now m) = models_of m" "mg_allow (bump_version now m) = mg_allow m"
  "mg_admitted (bump_version now m) = mg_admitted m" "mg_persist (bump_version now m) = mg_persist m"
  by (simp_all add: bump_version_def)

lemma set_models_fields [simp, manager_simps]:
  "models_of (set_models ms m) = ms" "mg_allow (set_models ms m) = mg_allow m"
  "mg_admitted (set_models ms m) = mg_admitted m" "mg_persist (set_models ms m) = mg_persist m"
  by (simp_all add: set_models_def)

lemma update_first_Some:
  "update_first P f xs = Some ys \<Longrightarrow>
     \<exists>as x bs. xs = as @ x # bs \<and> (\<forall>a \<in> set as. \<not> P a) \<and> P x \<and> ys = as @ f x # bs"
proof (induction xs arbitrary: ys)
  case Nil
  then show ?case by simp
next
  case (Cons z zs)
  show ?case
  proof (cases "P z")
    case True
    with Cons.prems show ?thesis by (intro exI [of _ "[]"]) auto
  next
    case False
    with Cons.prems obtain us where "update_first P f zs = Some us" and ys: "ys = z # us" by auto
    from Cons.IH [OF this(1)] obtain as x bs
      where "zs = as @ x # bs" "\<forall>a \<in> set as. \<not> P a" "P x" "us = as @ f x # bs" by blast
    with False ys show ?thesis by (intro exI [of _ "z # as"]) auto
  qed
qed

lemma update_first_None: "update_first P f xs = None \<longleftrightarrow> (\<forall>x \<in> set xs. \<not> P x)"
  by (induction xs) auto

text \<open>Where the test can hold only once, updating the first entry is updating every such entry.\<close>

lemma update_first_unique:
  assumes "distinct (map g xs)" and "\<And>x y. P x \<Longrightarrow> P y \<Longrightarrow> g x = g y" and "update_first P f xs = Some ys"
  shows "ys = map (\<lambda>x. if P x then f x else x) xs"
proof -
  obtain as x bs where xs: "xs = as @ x # bs" and as: "\<forall>a \<in> set as. \<not> P a" and x: "P x"
    and ys: "ys = as @ f x # bs" using update_first_Some [OF assms(3)] by blast
  have bs: "\<forall>b \<in> set bs. \<not> P b"
  proof
    fix b assume "b \<in> set bs"
    then have "g b \<noteq> g x" using assms(1) xs by (metis distinct.simps(2) distinct_append image_eqI list.simps(9) list.set_map map_append)
    then show "\<not> P b" using assms(2) x by blast
  qed
  show ?thesis using as bs x unfolding xs ys by (simp add: map_idI)
qed

lemma update_where_fields [simp, manager_simps]:
  "mg_allow (snd (update_where now P f m)) = mg_allow m"
  "mg_admitted (snd (update_where now P f m)) = mg_admitted m"
  "mg_persist (snd (update_where now P f m)) = mg_persist m"
  by (simp_all add: update_where_def split: option.splits)

lemma find_in_set: "find P xs = Some x \<Longrightarrow> x \<in> set xs \<and> P x"
  by (auto simp: find_Some_iff)

lemma set_allow_accepted:
  assumes "set_allow now pid mid b m = (True, m')"
  obtains x ms where "find (is_entry pid mid) (models_of m) = Some x" "b \<Longrightarrow> auto_approval_ready x"
    "update_first (is_entry pid mid) (\<lambda>y. y\<lparr>m_auto_routable := (b \<and> m_status y = Active), m_updated_at := now\<rparr>)
       (models_of m) = Some ms"
    "m' = persist_locked (bump_version now (set_models ms (m\<lparr>mg_allow := mput (route_key pid mid) b (mg_allow m)\<rparr>)))"
proof -
  let ?f = "\<lambda>y. y\<lparr>m_auto_routable := (b \<and> m_status y = Active), m_updated_at := now\<rparr>"
  from assms obtain x where x: "find (is_entry pid mid) (models_of m) = Some x" and ready: "b \<Longrightarrow> auto_approval_ready x"
    by (auto simp: set_allow_def split: option.splits if_splits)
  moreover obtain ms where ms: "update_first (is_entry pid mid) ?f (models_of m) = Some ms"
    using find_in_set [OF x] update_first_None [of "is_entry pid mid" ?f "models_of m"] by fastforce
  moreover have "m' = persist_locked (bump_version now (set_models ms (m\<lparr>mg_allow := mput (route_key pid mid) b (mg_allow m)\<rparr>)))"
  proof -
    have "\<not> (b \<and> \<not> auto_approval_ready x)" using ready by blast
    then show ?thesis using assms x ms by (auto simp: set_allow_def update_where_def Let_def)
  qed
  ultimately show thesis by (rule that)
qed

section \<open>The invariant\<close>

definition model_key :: "model \<Rightarrow> string" where
  "model_key x = route_key (m_provider x) (m_id x)"

definition standard :: "model \<Rightarrow> bool" where
  "standard x \<longleftrightarrow> \<not> is_auto_approved (m_provider x)"

definition routed_ok :: "model \<Rightarrow> bool" where
  "routed_ok x \<longleftrightarrow>
     (m_auto_routable x \<longrightarrow> m_status x = Active \<and> m_admitted x) \<and>
     (is_auto_approved (m_provider x) \<and> m_status x = Active \<longrightarrow> m_admitted x)"

definition recorded :: "(string, bool) gomap \<Rightarrow> (string, bool) gomap \<Rightarrow> model \<Rightarrow> bool" where
  "recorded allow admitted x \<longleftrightarrow>
     (standard x \<and> m_admitted x \<longrightarrow> mget False admitted (model_key x)) \<and>
     (standard x \<and> m_auto_routable x \<longrightarrow> mget False allow (model_key x))"

definition model_ok :: "(string, bool) gomap \<Rightarrow> (string, bool) gomap \<Rightarrow> model \<Rightarrow> bool" where
  "model_ok allow admitted x \<longleftrightarrow> routed_ok x \<and> recorded allow admitted x \<and> CHR ''/'' \<notin> set (m_provider x)"

definition ident :: "model \<Rightarrow> string \<times> string" where
  "ident x = (m_provider x, m_id x)"

definition catalog_inv :: "manager \<Rightarrow> bool" where
  "catalog_inv m \<longleftrightarrow>
     (\<forall>x \<in> set (models_of m). model_ok (mg_allow m) (mg_admitted m) x) \<and>
     distinct (map ident (models_of m))"

lemmas model_ok_defs = model_ok_def routed_ok_def recorded_def standard_def model_key_def

text \<open>The part of a model that routing and approval read.\<close>

definition routing_view :: "model \<Rightarrow> string \<times> string \<times> status \<times> bool \<times> bool" where
  "routing_view x = (m_provider x, m_id x, m_status x, m_auto_routable x, m_admitted x)"

lemma routing_view_ok: "routing_view y = routing_view x \<Longrightarrow> model_ok a b y = model_ok a b x"
  by (simp add: routing_view_def model_ok_defs)

lemma routing_view_ident: "routing_view y = routing_view x \<Longrightarrow> ident y = ident x"
  by (simp add: routing_view_def ident_def)

text \<open>An operation that rewrites each model on its own keeps the invariant if it keeps each model.\<close>

lemma catalog_inv_map:
  assumes inv: "catalog_inv m"
    and ms: "models_of m' = map f (models_of m)"
    and ok: "\<And>x. x \<in> set (models_of m) \<Longrightarrow> model_ok (mg_allow m) (mg_admitted m) x \<Longrightarrow>
               model_ok (mg_allow m') (mg_admitted m') (f x) \<and> ident (f x) = ident x"
  shows "catalog_inv m'"
proof -
  have "map ident (models_of m') = map ident (models_of m)"
    using inv ok unfolding ms catalog_inv_def by (simp cong: map_cong)
  then have "distinct (map ident (models_of m'))" using inv by (simp add: catalog_inv_def)
  moreover have "\<forall>x \<in> set (models_of m'). model_ok (mg_allow m') (mg_admitted m') x"
    using inv ok unfolding catalog_inv_def ms by auto
  ultimately show ?thesis by (simp add: catalog_inv_def)
qed

section \<open>Every operation keeps the invariant\<close>

lemma update_where_inv:
  assumes inv: "catalog_inv m" and P: "\<And>x. P x \<Longrightarrow> routing_view (f x) = routing_view x"
  shows "catalog_inv (snd (update_where now P f m))"
proof (cases "update_first P f (models_of m)")
  case None
  then show ?thesis using inv by (simp add: update_where_def)
next
  case (Some ms)
  from update_first_Some [OF this] obtain as x bs
    where split: "models_of m = as @ x # bs" "P x" "ms = as @ f x # bs" by blast
  then have view: "routing_view (f x) = routing_view x" using P by blast
  show ?thesis
    using inv split Some routing_view_ok [OF view] routing_view_ident [OF view]
    by (auto simp: update_where_def catalog_inv_def)
qed

text \<open>In a catalog with unique entries an update of one model rewrites just that model.\<close>

lemma update_provider_models:
  assumes "catalog_inv m"
  shows "models_of (snd (update_provider_model now mid pid f m)) = map (\<lambda>x. if is_entry pid mid x then f x else x) (models_of m)"
proof (cases "update_first (is_entry pid mid) f (models_of m)")
  case None
  then have "map (\<lambda>x. if is_entry pid mid x then f x else x) (models_of m) = models_of m"
    by (intro map_idI) (simp add: update_first_None)
  then show ?thesis using None by (simp add: update_provider_model_def update_where_def)
next
  case (Some ms)
  have "ms = map (\<lambda>x. if is_entry pid mid x then f x else x) (models_of m)"
    by (rule update_first_unique [OF _ _ Some, of ident]) (use assms in \<open>auto simp: catalog_inv_def is_entry_def ident_def\<close>)
  then show ?thesis using Some by (simp add: update_provider_model_def update_where_def)
qed

lemma switched_inv:
  assumes inv: "catalog_inv m" and b: "\<forall>x \<in> set (models_of m). is_entry free_provider mid x \<longrightarrow> b \<longrightarrow> m_status x = Active"
  shows "catalog_inv (snd (update_provider_model now mid free_provider (\<lambda>x. x\<lparr>m_auto_routable := b\<rparr>) m))"
proof (rule catalog_inv_map [OF inv update_provider_models [OF inv]])
  fix x assume "x \<in> set (models_of m)" "model_ok (mg_allow m) (mg_admitted m) x"
  then show "model_ok (mg_allow (snd (update_provider_model now mid free_provider (\<lambda>x. x\<lparr>m_auto_routable := b\<rparr>) m)))
       (mg_admitted (snd (update_provider_model now mid free_provider (\<lambda>x. x\<lparr>m_auto_routable := b\<rparr>) m)))
       (if is_entry free_provider mid x then x\<lparr>m_auto_routable := b\<rparr> else x) \<and>
     ident (if is_entry free_provider mid x then x\<lparr>m_auto_routable := b\<rparr> else x) = ident x"
    using b by (auto simp: update_provider_model_def model_ok_defs ident_def is_entry_def is_auto_approved_def)
qed

lemma policy_model_ok:
  "model_ok allow admitted x \<Longrightarrow>
     model_ok allow admitted (policy_model admitted x) \<and> ident (policy_model admitted x) = ident x"
  by (auto simp: policy_model_def policy_free_def policy_standard_def model_ok_defs ident_def Let_def)

lemma policy_inv: "catalog_inv m \<Longrightarrow> catalog_inv (snd (apply_default_approval_policy now m))"
proof -
  assume inv: "catalog_inv m"
  let ?f = "\<lambda>x. if policy_model (mg_admitted m) x \<noteq> x
                then (policy_model (mg_admitted m) x)\<lparr>m_updated_at := now\<rparr> else x"
  have "model_ok a b (x\<lparr>m_updated_at := now\<rparr>) = model_ok a b x \<and> ident (x\<lparr>m_updated_at := now\<rparr>) = ident x" for a b x
    by (simp add: model_ok_defs ident_def)
  then have "catalog_inv (persist_locked (bump_version now (set_models (map ?f (models_of m)) m)))"
    by (intro catalog_inv_map [OF inv, where f = ?f]) (auto dest: policy_model_ok)
  then show ?thesis using inv by (simp add: apply_default_approval_policy_def Let_def)
qed

lemma set_admitted_inv:
  assumes inv: "catalog_inv m" and pid: "CHR ''/'' \<notin> set pid"
  shows "catalog_inv (snd (set_admitted now pid mid admitted m))"
proof -
  let ?hit = "\<lambda>x. is_entry pid mid x \<and> \<not> is_auto_approved pid"
  let ?f = "\<lambda>x. if ?hit x then admit_model now admitted x else x"
  let ?m' = "snd (set_admitted now pid mid admitted m)"
  have maps: "mg_admitted ?m' = mput (route_key pid mid) admitted (mg_admitted m)"
    "mg_allow ?m' = (if admitted then mg_allow m else mput (route_key pid mid) False (mg_allow m))"
    by (simp_all add: set_admitted_def Let_def)
  have idle: "\<not> list_ex ?hit (models_of m) \<Longrightarrow> map ?f (models_of m) = models_of m"
    by (rule map_idI) (auto simp: list_ex_iff)
  have ms: "models_of ?m' = map ?f (models_of m)"
  proof (cases "list_ex ?hit (models_of m)")
    case True
    then show ?thesis by (simp add: set_admitted_def Let_def cong: map_cong)
  next
    case False
    then have "models_of ?m' = models_of m" by (simp add: set_admitted_def Let_def)
    with idle [OF False] show ?thesis by simp
  qed
  show ?thesis
  proof (rule catalog_inv_map [OF inv ms])
    fix x assume "x \<in> set (models_of m)" and ok: "model_ok (mg_allow m) (mg_admitted m) x"
    show "model_ok (mg_allow ?m') (mg_admitted ?m') (?f x) \<and> ident (?f x) = ident x"
    proof (cases "?hit x")
      case True
      then show ?thesis using ok
        by (auto simp: maps admit_model_def model_ok_defs ident_def is_entry_def Let_def)
    next
      case False
      then have "standard x \<Longrightarrow> model_key x \<noteq> route_key pid mid"
        using ok pid by (auto simp: model_ok_def model_key_def route_key_inj is_entry_def standard_def)
      with False ok show ?thesis by (auto simp: maps model_ok_def recorded_def)
    qed
  qed
qed

lemma set_allow_inv:
  assumes inv: "catalog_inv m" and pid: "CHR ''/'' \<notin> set pid"
  shows "catalog_inv (snd (set_allow now pid mid allowed m))"
proof (cases "find (is_entry pid mid) (models_of m)")
  case None
  then show ?thesis using inv by (simp add: set_allow_def)
next
  case (Some z)
  then have z: "z \<in> set (models_of m)" "is_entry pid mid z" by (auto simp: find_Some_iff)
  let ?f = "\<lambda>y. y\<lparr>m_auto_routable := (allowed \<and> m_status y = Active), m_updated_at := now\<rparr>"
  let ?g = "\<lambda>x. if is_entry pid mid x then ?f x else x"
  let ?m' = "snd (set_allow now pid mid allowed m)"
  show ?thesis
  proof (cases "allowed \<and> \<not> auto_approval_ready z")
    case True
    then show ?thesis using inv Some by (simp add: set_allow_def)
  next
    case False
    have dist: "distinct (map ident (models_of m))" using inv by (simp add: catalog_inv_def)
    obtain ms where upd: "update_first (is_entry pid mid) ?f (models_of m) = Some ms"
      using z update_first_None [of "is_entry pid mid" ?f "models_of m"] by (cases "update_first (is_entry pid mid) ?f (models_of m)") auto
    have ms: "ms = map ?g (models_of m)"
      by (rule update_first_unique [OF dist _ upd]) (auto simp: is_entry_def ident_def)
    have maps: "mg_allow ?m' = mput (route_key pid mid) allowed (mg_allow m)" "mg_admitted ?m' = mg_admitted m"
      and models: "models_of ?m' = map ?g (models_of m)"
      using False Some upd ms by (auto simp: set_allow_def update_where_def Let_def)
    have one: "x = z" if "x \<in> set (models_of m)" "is_entry pid mid x" for x
      using dist z that by (auto simp: distinct_map is_entry_def ident_def inj_on_def)
    show ?thesis
    proof (rule catalog_inv_map [OF inv models])
      fix x assume x: "x \<in> set (models_of m)" and ok: "model_ok (mg_allow m) (mg_admitted m) x"
      show "model_ok (mg_allow ?m') (mg_admitted ?m') (?g x) \<and> ident (?g x) = ident x"
      proof (cases "is_entry pid mid x")
        case True
        then have "x = z" using one x by blast
        then show ?thesis using ok True False
          by (auto simp: maps model_ok_defs ident_def is_entry_def auto_approval_ready_def split: if_splits)
      next
        case False
        then have "model_key x \<noteq> route_key pid mid"
          using ok pid by (auto simp: model_ok_def model_key_def route_key_inj is_entry_def)
        with False ok show ?thesis by (auto simp: maps model_ok_def recorded_def)
      qed
    qed
  qed
qed

lemma reconcile_inv: "catalog_inv m \<Longrightarrow> catalog_inv (reconcile_providers now configs m)"
proof -
  assume inv: "catalog_inv m"
  let ?f = "\<lambda>x. snd (reconcile_model now (online_in configs) x)"
  have "catalog_inv (persist_locked (bump_version now (set_models (map ?f (models_of m)) m)))"
    by (rule catalog_inv_map [OF inv, where f = ?f]) (auto simp: reconcile_model_def model_ok_defs ident_def)
  then show ?thesis using inv by (simp add: reconcile_providers_def Let_def)
qed

section \<open>Synchronisation\<close>

text \<open>A list whose ids carry no padding and occur once.\<close>

definition clean_list :: "raw_model list \<Rightarrow> bool" where
  "clean_list raw \<longleftrightarrow> distinct (map rm_id raw) \<and> (\<forall>x \<in> set raw. trim_space (rm_id x) = rm_id x)"

lemma apply_one_fields:
  assumes "apply_one now allow admitted pid x = Some y"
  shows "m_provider y = pid" "m_id y = trim_space (rm_id x)" "\<not> is_meta (m_id y)" "m_id y \<noteq> ''''"
    "length (m_id y) \<le> 300" "0 \<le> m_context_window y \<and> m_context_window y \<le> 10000000"
    "m_admitted y = (mget False admitted (route_key pid (rm_id x)) \<or> is_auto_approved pid)"
    "m_auto_routable y = (is_auto_approved pid \<or> m_admitted y \<and> mget False allow (route_key pid (rm_id x)))"
    "m_status y = (if m_admitted y \<or> m_auto_routable y then Active else Unknown)"
  using assms by (auto simp: apply_one_def Let_def split: if_splits)

lemma apply_one_ok:
  assumes "apply_one now allow admitted pid x = Some y" "trim_space (rm_id x) = rm_id x" "CHR ''/'' \<notin> set pid"
  shows "model_ok allow admitted y"
  using apply_one_fields [OF assms(1)] assms(2,3) by (auto simp: model_ok_defs)

lemma carry_over_view: "routing_view (carry_over prev x) = routing_view x"
  by (simp add: carry_over_def routing_view_def split: option.splits)

lemma set_sync_apply: "y \<in> set (sync_apply now allow admitted pid raw) \<longleftrightarrow>
    (\<exists>x \<in> set raw. apply_one now allow admitted pid x = Some y)"
  by (induction raw) (auto simp: sync_apply_def List.map_filter_simps split: option.splits)

lemma distinct_sync_apply:
  assumes "clean_list raw" shows "distinct (map ident (sync_apply now allow admitted pid raw))"
  using assms
proof (induction raw)
  case Nil
  then show ?case by (simp add: sync_apply_def List.map_filter_simps)
next
  case (Cons r raw)
  then have IH: "distinct (map ident (sync_apply now allow admitted pid raw))" and trim: "trim_space (rm_id r) = rm_id r"
    by (auto simp: clean_list_def)
  show ?case
  proof (cases "apply_one now allow admitted pid r")
    case None
    then show ?thesis using IH by (simp add: sync_apply_def List.map_filter_simps)
  next
    case (Some y)
    have "ident y \<notin> ident ` set (sync_apply now allow admitted pid raw)"
    proof
      assume "ident y \<in> ident ` set (sync_apply now allow admitted pid raw)"
      then obtain z x where "ident y = ident z" "x \<in> set raw" "apply_one now allow admitted pid x = Some z"
        by (auto simp: set_sync_apply)
      then have "rm_id x = rm_id r"
        using apply_one_fields(2) Some Cons.prems trim by (auto simp: ident_def clean_list_def)
      then have "rm_id r \<in> rm_id ` set raw" using \<open>x \<in> set raw\<close> by (metis imageI)
      then show False using Cons.prems by (auto simp: clean_list_def)
    qed
    then show ?thesis using IH Some by (simp add: sync_apply_def List.map_filter_simps)
  qed
qed

lemma sync_raw_models:
  "models_of (snd (sync_raw now pid raw m)) = models_of m \<or>
   (\<exists>prev. models_of (snd (sync_raw now pid raw m)) =
      filter (\<lambda>x. m_provider x \<noteq> pid) (models_of m) @
      map (carry_over prev) (sync_apply now (mg_allow m) (mg_admitted m) pid raw))"
  by (auto simp: sync_raw_def sync_commit_def Let_def)

lemma sync_raw_maps [simp, manager_simps]:
  "mg_allow (snd (sync_raw now pid raw m)) = mg_allow m"
  "mg_admitted (snd (sync_raw now pid raw m)) = mg_admitted m"
  by (simp_all add: sync_raw_def sync_commit_def Let_def)

lemma sync_raw_inv:
  assumes inv: "catalog_inv m" and raw: "clean_list raw" and pid: "CHR ''/'' \<notin> set pid"
  shows "catalog_inv (snd (sync_raw now pid raw m))"
  using sync_raw_models [of now pid raw m]
proof (elim disjE exE)
  assume "models_of (snd (sync_raw now pid raw m)) = models_of m"
  then show ?thesis using inv by (simp add: catalog_inv_def)
next
  fix prev
  let ?next = "sync_apply now (mg_allow m) (mg_admitted m) pid raw"
  let ?keep = "filter (\<lambda>x. m_provider x \<noteq> pid) (models_of m)"
  assume ms: "models_of (snd (sync_raw now pid raw m)) = ?keep @ map (carry_over prev) ?next"
  have view: "ident (carry_over prev x) = ident x" "model_ok a b (carry_over prev x) = model_ok a b x" for a b x
    using carry_over_view routing_view_ident routing_view_ok by blast+
  have mine: "m_provider x = pid \<and> model_ok (mg_allow m) (mg_admitted m) x" if "x \<in> set ?next" for x
    using that raw pid apply_one_fields(1) apply_one_ok unfolding set_sync_apply clean_list_def by blast
  have idents: "map ident (?keep @ map (carry_over prev) ?next) = map ident ?keep @ map ident ?next"
    by (simp add: view comp_def)
  have "distinct (map ident ?keep)" using inv by (simp add: catalog_inv_def distinct_map_filter)
  moreover have "ident ` set ?keep \<inter> ident ` set ?next = {}"
    using mine by (auto simp: ident_def)
  ultimately have "distinct (map ident (?keep @ map (carry_over prev) ?next))"
    unfolding idents using distinct_sync_apply [OF raw] by auto
  moreover have "\<forall>x \<in> set (?keep @ map (carry_over prev) ?next). model_ok (mg_allow m) (mg_admitted m) x"
    using inv mine view by (auto simp: catalog_inv_def)
  ultimately show ?thesis unfolding catalog_inv_def ms by simp
qed

section \<open>Reachable catalogs\<close>

inductive catalog_step :: "manager \<Rightarrow> manager \<Rightarrow> bool" where
  synced: "clean_list raw \<Longrightarrow> CHR ''/'' \<notin> set pid \<Longrightarrow> catalog_step m (snd (sync_raw now pid raw m))"
| admitted: "CHR ''/'' \<notin> set pid \<Longrightarrow> catalog_step m (snd (set_admitted now pid mid b m))"
| allowed: "CHR ''/'' \<notin> set pid \<Longrightarrow> catalog_step m (snd (set_allow now pid mid b m))"
| reconciled: "catalog_step m (reconcile_providers now configs m)"
| policy: "catalog_step m (snd (apply_default_approval_policy now m))"
| restored: "catalog_step m (snd (restore_reviewer_capability now mid pid m))"
| marked: "catalog_step m (mark_synced pid t m)"
| evidenced: "(\<And>x. routing_view (f x) = routing_view x) \<Longrightarrow>
     catalog_step m (snd (update_provider_model now mid pid f m))"
| switched: "(\<forall>x \<in> set (models_of m). is_entry free_provider mid x \<longrightarrow> b \<longrightarrow> m_status x = Active) \<Longrightarrow>
     catalog_step m (snd (update_provider_model now mid free_provider (\<lambda>x. x\<lparr>m_auto_routable := b\<rparr>) m))"

inductive catalog_reach :: "manager \<Rightarrow> bool" where
  start: "catalog_reach (set_persist b (new_manager_with_state empty_state))"
| step: "catalog_reach m \<Longrightarrow> catalog_step m m' \<Longrightarrow> catalog_reach m'"

lemma catalog_step_inv: "catalog_step m m' \<Longrightarrow> catalog_inv m \<Longrightarrow> catalog_inv m'"
proof (induction rule: catalog_step.induct)
  case (restored m now mid pid)
  then show ?case
    unfolding restore_reviewer_capability_def update_provider_model_def
    by (intro update_where_inv) (auto simp: restore_evidence_def routing_view_def)
next
  case (marked m pid t)
  then show ?case by (simp add: mark_synced_def catalog_inv_def)
next
  case (evidenced f m now mid pid)
  then show ?case unfolding update_provider_model_def by (intro update_where_inv)
next
  case (switched m mid b now)
  then show ?case by (intro switched_inv) auto
qed (auto intro: sync_raw_inv set_admitted_inv set_allow_inv reconcile_inv policy_inv)

lemma catalog_inv_start: "catalog_inv (set_persist b (new_manager_with_state empty_state))"
  by (simp add: catalog_inv_def set_persist_def new_manager_with_state_def empty_state_def empty_catalog_def
      migrate_admitted_def)

lemma catalog_reach_inv: "catalog_reach m \<Longrightarrow> catalog_inv m"
  by (induction rule: catalog_reach.induct) (auto intro: catalog_inv_start catalog_step_inv)

end
