(* ===== verification/Catalog_Props.thy ===== *)
theory Catalog_Props
  imports Catalog_Policy
begin

text \<open>
  The properties of the catalog: what an auto-routable model implies, what approving and revoking
  do, how a synchronisation treats the rest of the catalog, and what survives a restart. The
  closed witnesses run the operations on a small catalog of one provider with one model.
\<close>

section \<open>A concrete catalog for the witnesses\<close>

definition sample_raw :: raw_model where
  "sample_raw = \<lparr>rm_id = ''m'', rm_context = 8, rm_tools = True, rm_vision = False,
     rm_structured_output = False, rm_json_mode = False, rm_structured_output_known = False\<rparr>"

definition probe_evidence :: evidence where
  "probe_evidence = \<lparr>ev_supported = True, ev_confidence = 1, ev_source = ''runtime_probe'',
     ev_level = ''protocol'', ev_url = '''', ev_hash = '''', ev_checked_at = 0\<rparr>"

definition with_evidence :: "model \<Rightarrow> model" where
  "with_evidence x = x\<lparr>m_capability_evidence :=
     [(''structured_output'', probe_evidence), (''tools'', probe_evidence), (''vision'', probe_evidence)]\<rparr>"

definition sample_synced :: manager where
  "sample_synced = snd (sync_raw 0 ''p'' [sample_raw] (set_persist True (new_manager_with_state empty_state)))"

definition sample_probed :: manager where
  "sample_probed = snd (update_provider_model 0 ''m'' ''p'' with_evidence
     (snd (set_admitted 0 ''p'' ''m'' True sample_synced)))"

definition sample_approved :: manager where
  "sample_approved = snd (set_allow 0 ''p'' ''m'' True sample_probed)"

lemma trim_space_plain [simp]: "trim_space ''m'' = ''m''"
  by code_simp

lemma sample_raw_clean: "clean_list [sample_raw]"
  by (simp add: clean_list_def sample_raw_def)

lemma sample_synced_models:
  "map (\<lambda>x. (m_provider x, m_id x, m_status x, m_admitted x, m_auto_routable x)) (models_of sample_synced)
     = [(''p'', ''m'', Unknown, False, False)]"
  by code_simp

lemma sample_approved_models:
  "map (\<lambda>x. (m_provider x, m_id x, m_status x, m_admitted x, m_auto_routable x)) (models_of sample_approved)
     = [(''p'', ''m'', Active, True, True)]"
  by code_simp

lemma sample_approved_reach: "catalog_reach sample_approved"
proof -
  have "catalog_reach sample_synced" unfolding sample_synced_def
    by (rule catalog_reach.step [OF catalog_reach.start]) (rule catalog_step.synced, simp_all add: sample_raw_clean)
  then have "catalog_reach (snd (set_admitted 0 ''p'' ''m'' True sample_synced))"
    by (rule catalog_reach.step) (rule catalog_step.admitted, simp)
  then have "catalog_reach sample_probed" unfolding sample_probed_def
    by (rule catalog_reach.step) (rule catalog_step.evidenced, simp add: with_evidence_def routing_view_def)
  then show ?thesis unfolding sample_approved_def
    by (rule catalog_reach.step) (rule catalog_step.allowed, simp)
qed

section \<open>What an auto-routable model implies\<close>

text \<open>
  When the calls follow each other and the upstreams list clean ids, once each, a model that may be
  routed automatically is active and admitted, and unless it belongs to FreeLLMAPI both operator
  decisions are recorded for its key at this very moment. Catalog\_History treats calls that
  interleave and arbitrary lists.
\<close>

theorem auto_models_were_approved:
  assumes "catalog_reach m" and "x \<in> set (models_of m)" and "m_auto_routable x"
  shows "m_status x = Active \<and> m_admitted x \<and>
     (m_provider x \<noteq> free_provider \<longrightarrow>
        mget False (mg_admitted m) (route_key (m_provider x) (m_id x)) \<and>
        mget False (mg_allow m) (route_key (m_provider x) (m_id x)))"
  using catalog_reach_inv [OF assms(1)] assms(2,3)
  by (auto simp: catalog_inv_def model_ok_defs is_auto_approved_def)

theorem auto_models_were_approved_witness:
  "\<exists>x \<in> set (models_of sample_approved). m_auto_routable x \<and> m_status x = Active \<and> m_provider x \<noteq> free_provider"
proof -
  obtain x where x: "x \<in> set (models_of sample_approved)" "m_auto_routable x" "m_provider x = ''p''"
    using sample_approved_models by (cases "models_of sample_approved") auto
  then show ?thesis
    using auto_models_were_approved [OF sample_approved_reach x(1,2)] by (auto simp: free_provider_def)
qed

text \<open>
  C10. Approving a model of an ordinary provider for Auto succeeds only on a model that is admitted,
  active, not a meta model, and has protocol-level runtime evidence for structured output, tools
  and vision.
\<close>

theorem approval_needs_evidence:
  assumes "set_allow now pid mid True m = (True, m')" and "pid \<noteq> free_provider"
  shows "\<exists>x \<in> set (models_of m). m_provider x = pid \<and> m_id x = mid \<and> m_admitted x \<and> m_status x = Active \<and>
     \<not> is_meta mid \<and> (\<forall>cap \<in> {''structured_output'', ''tools'', ''vision''}.
        \<exists>e. map_of (m_capability_evidence x) cap = Some e \<and> ev_source e = ''runtime_probe'' \<and> ev_level e = ''protocol'')"
proof -
  from assms(1) obtain x where x: "find (is_entry pid mid) (models_of m) = Some x" and ready: "auto_approval_ready x"
    by (auto simp: set_allow_def split: option.splits if_splits)
  then have "x \<in> set (models_of m)" and "m_provider x = pid" and "m_id x = mid"
    by (auto simp: find_Some_iff is_entry_def)
  moreover have "m_admitted x \<and> m_status x = Active \<and> \<not> is_meta (m_id x) \<and> list_all (protocol_evidence x) required_evidence"
    using ready assms(2) \<open>m_provider x = pid\<close>
    by (auto simp: auto_approval_ready_def is_auto_approved_def split: if_splits)
  ultimately show ?thesis
    by (intro bexI [of _ x]) (auto simp: required_evidence_def protocol_evidence_def split: option.splits)
qed

theorem approval_needs_evidence_witness:
  "fst (set_allow 0 ''p'' ''m'' True sample_probed) \<and> (\<exists>x \<in> set (models_of sample_probed). m_id x = ''m'' \<and> m_admitted x)"
proof -
  have ok: "fst (set_allow 0 ''p'' ''m'' True sample_probed)" by code_simp
  then have eq: "set_allow 0 ''p'' ''m'' True sample_probed = (True, snd (set_allow 0 ''p'' ''m'' True sample_probed))"
    by (cases "set_allow 0 ''p'' ''m'' True sample_probed") simp
  have "''p'' \<noteq> free_provider" by (simp add: free_provider_def)
  from approval_needs_evidence [OF eq this] ok show ?thesis by blast
qed

text \<open>
  Revoking takes a model out of Auto at once: after an accepted revocation no entry of the
  catalog with that provider and id is auto-routable.
\<close>

theorem revoke_leaves_auto:
  assumes "catalog_reach m" and "set_allow now pid mid False m = (True, m')"
    and "y \<in> set (models_of m')" and "m_provider y = pid" and "m_id y = mid"
  shows "\<not> m_auto_routable y"
proof -
  have dist: "distinct (map ident (models_of m))"
    using catalog_reach_inv [OF assms(1)] by (simp add: catalog_inv_def)
  let ?f = "\<lambda>z. z\<lparr>m_auto_routable := False, m_updated_at := now\<rparr>"
  from assms(2) obtain x ms where upd: "update_first (is_entry pid mid) ?f (models_of m) = Some ms"
    and m': "m' = persist_locked (bump_version now (set_models ms (m\<lparr>mg_allow := mput (route_key pid mid) False (mg_allow m)\<rparr>)))"
    by (rule set_allow_accepted) simp
  then have ms: "models_of m' = ms" by simp
  have "ms = map (\<lambda>x. if is_entry pid mid x then ?f x else x) (models_of m)"
    by (rule update_first_unique [OF dist _ upd]) (auto simp: is_entry_def ident_def)
  with assms(3) ms have "y \<in> (\<lambda>x. if is_entry pid mid x then ?f x else x) ` set (models_of m)"
    by (simp only: set_map)
  then obtain x where "y = (if is_entry pid mid x then ?f x else x)" by (rule imageE)
  then show ?thesis using assms(4,5) by (auto simp: is_entry_def split: if_split_asm)
qed

theorem revoke_leaves_auto_witness:
  "fst (set_allow 0 ''p'' ''m'' False sample_approved) \<and>
   (\<exists>y \<in> set (models_of (snd (set_allow 0 ''p'' ''m'' False sample_approved))). m_id y = ''m'' \<and> \<not> m_auto_routable y)"
proof -
  let ?r = "set_allow 0 ''p'' ''m'' False sample_approved"
  have ok: "fst ?r" by code_simp
  then have eq: "?r = (True, snd ?r)" by (cases ?r) simp
  have "map (\<lambda>x. (m_provider x, m_id x)) (models_of (snd ?r)) = [(''p'', ''m'')]" by code_simp
  then obtain y where y: "y \<in> set (models_of (snd ?r))" "m_provider y = ''p''" "m_id y = ''m''"
    by (cases "models_of (snd ?r)") auto
  with revoke_leaves_auto [OF sample_approved_reach eq y] ok show ?thesis by blast
qed

definition duplicated :: manager where
  "duplicated = snd (sync_raw 1 ''p'' [sample_raw, sample_raw] sample_approved)"

text \<open>
  The uniqueness the previous property rests on is not enforced by the code: when a provider
  lists the same model twice, both entries become routable after a resynchronisation, and revoking
  the approval clears only the first of them.
\<close>

theorem revoke_misses_duplicates:
  "map m_auto_routable (models_of duplicated) = [True, True] \<and>
   map m_auto_routable (models_of (snd (set_allow 2 ''p'' ''m'' False duplicated))) = [False, True]"
  by code_simp

section \<open>Synchronisation\<close>

text \<open>
  C14. A synchronisation touches only the entries of its provider. When at least ten entries would
  shrink to fewer than half, it reports an invalid catalog and changes nothing at all; otherwise
  the provider's entries are exactly the accepted models of the new list.
\<close>

theorem sync_is_local_and_guarded:
  "let (res, m') = sync_raw now pid raw m;
       old = length (filter (\<lambda>x. m_provider x = pid) (models_of m));
       new = length (sync_apply now (mg_allow m) (mg_admitted m) pid raw)
   in filter (\<lambda>x. m_provider x \<noteq> pid) (models_of m') = filter (\<lambda>x. m_provider x \<noteq> pid) (models_of m) \<and>
      (if 10 \<le> old \<and> 2 * new < old
       then rs_error res = InvalidCatalog \<and> m' = m
       else rs_error res = NoError \<and>
            map ident (filter (\<lambda>x. m_provider x = pid) (models_of m')) =
              map ident (sync_apply now (mg_allow m) (mg_admitted m) pid raw) \<and>
            last_sync pid m' = now)"
proof -
  let ?next = "sync_apply now (mg_allow m) (mg_admitted m) pid raw"
  have own: "m_provider (carry_over prev x) = pid" if "x \<in> set ?next" for prev x
    using that carry_over_view [of prev x] apply_one_fields(1)
    by (auto simp: set_sync_apply routing_view_def)
  have keep: "filter (\<lambda>x. m_provider x \<noteq> pid) (map (carry_over prev) ?next) = []"
    and all: "filter (\<lambda>x. m_provider x = pid) (map (carry_over prev) ?next) = map (carry_over prev) ?next" for prev
    using own by (auto simp: filter_empty_conv filter_id_conv)
  have "ident (carry_over prev x) = ident x" for prev x
    by (rule routing_view_ident [OF carry_over_view])
  then have idents: "map ident (map (carry_over prev) ?next) = map ident ?next" for prev
    by (simp add: comp_def)
  show ?thesis
    by (auto simp: sync_raw_def sync_commit_def Let_def no_result_def keep all idents last_sync_def mult.commute
        simp del: map_map)
qed

text \<open>
  Entries that a synchronisation creates have a trimmed, non-empty id of at most 300 bytes that
  is not a meta model, and a context window between 0 and ten million.
\<close>

theorem synced_models_wellformed:
  assumes "y \<in> set (sync_apply now allow admitted pid raw)"
  shows "m_provider y = pid \<and> m_id y \<noteq> '''' \<and> length (m_id y) \<le> 300 \<and> \<not> is_meta (m_id y) \<and>
     (\<exists>x \<in> set raw. m_id y = trim_space (rm_id x)) \<and>
     0 \<le> m_context_window y \<and> m_context_window y \<le> 10000000"
  using assms apply_one_fields unfolding set_sync_apply by metis

theorem synced_models_wellformed_witness:
  "\<exists>y. sync_apply 0 [] [] ''p'' [sample_raw] = [y] \<and> m_id y \<noteq> ''''"
proof -
  have "map m_id (sync_apply 0 [] [] ''p'' [sample_raw]) = [''m'']" by code_simp
  then obtain y where y: "sync_apply 0 [] [] ''p'' [sample_raw] = [y]"
    by (cases "sync_apply 0 [] [] ''p'' [sample_raw]") auto
  then have "y \<in> set (sync_apply 0 [] [] ''p'' [sample_raw])" by simp
  from synced_models_wellformed [OF this] y show ?thesis by blast
qed

text \<open>
  A padded id is stored trimmed but looked up untrimmed: the operator's decisions, which are kept
  under the stored id, are not honoured by the next synchronisation, which drops the model out of
  the routable pool.
\<close>

theorem padded_id_loses_admission:
  "map (\<lambda>y. (m_id y, m_admitted y, m_auto_routable y, m_status y))
     (sync_apply 0 [(''p/m'', True)] [(''p/m'', True)] ''p'' [sample_raw\<lparr>rm_id := '' m''\<rparr>])
   = [(''m'', False, False, Unknown)] \<and>
   map (\<lambda>y. (m_id y, m_admitted y, m_auto_routable y, m_status y))
     (sync_apply 0 [(''p/m'', True)] [(''p/m'', True)] ''p'' [sample_raw])
   = [(''m'', True, True, Active)]"
  by code_simp

section \<open>Providers going offline, the default policy\<close>

lemma reconcile_model_idle: "fst (reconcile_model now on x) \<or> snd (reconcile_model now on x) = x"
  by (simp add: reconcile_model_def)

lemma reconciled_models:
  "models_of (reconcile_providers now configs m) = map (\<lambda>x. snd (reconcile_model now (online_in configs) x)) (models_of m)"
proof (cases "list_ex (\<lambda>x. fst (reconcile_model now (online_in configs) x)) (models_of m)")
  case True
  then show ?thesis by (simp add: reconcile_providers_def Let_def)
next
  case False
  then have "map (\<lambda>x. snd (reconcile_model now (online_in configs) x)) (models_of m) = models_of m"
    using reconcile_model_idle by (intro map_idI) (auto simp: list_ex_iff)
  with False show ?thesis by (simp add: reconcile_providers_def Let_def)
qed

text \<open>
  After a reconciliation every model of a provider that is not configured is stale, orphaned
  and out of Auto, and no model is routable that was not routable before.
\<close>

theorem reconcile_orphans:
  assumes "y \<in> set (models_of (reconcile_providers now configs m))"
  shows "(map_of configs (m_provider y) = None \<longrightarrow> m_status y = Stale \<and> m_orphaned y \<and> \<not> m_auto_routable y) \<and>
     (m_auto_routable y \<longrightarrow> (\<exists>x \<in> set (models_of m). ident x = ident y \<and> m_auto_routable x))"
proof -
  obtain x where "x \<in> set (models_of m)" "y = snd (reconcile_model now (online_in configs) x)"
    using assms by (auto simp: reconciled_models)
  then show ?thesis by (auto simp: reconcile_model_def ident_def online_in_def split: if_splits)
qed

theorem reconcile_orphans_witness:
  "\<exists>y. models_of (reconcile_providers 5 [] sample_approved) = [y] \<and> m_status y = Stale \<and> \<not> m_auto_routable y"
proof -
  have "map m_provider (models_of (reconcile_providers 5 [] sample_approved)) = [''p'']" by code_simp
  then obtain y where y: "models_of (reconcile_providers 5 [] sample_approved) = [y]"
    by (cases "models_of (reconcile_providers 5 [] sample_approved)") auto
  then have "y \<in> set (models_of (reconcile_providers 5 [] sample_approved))" by simp
  from reconcile_orphans [OF this] y show ?thesis by simp
qed

lemma policy_model_idem: "policy_model adm (policy_model adm x) = policy_model adm x"
  by (auto simp: policy_model_def policy_free_def policy_standard_def Let_def)

lemma policy_model_time: "policy_model adm (x\<lparr>m_updated_at := t\<rparr>) = (policy_model adm x)\<lparr>m_updated_at := t\<rparr>"
  by (auto simp: policy_model_def policy_free_def policy_standard_def Let_def)

text \<open>
  The migration at startup is idempotent: run a second time it changes no model and persists
  nothing.
\<close>

theorem policy_idempotent:
  "apply_default_approval_policy later (snd (apply_default_approval_policy now m)) =
     (0, snd (apply_default_approval_policy now m))"
proof -
  have "policy_model adm (if policy_model adm x \<noteq> x then (policy_model adm x)\<lparr>m_updated_at := now\<rparr> else x)
      = (if policy_model adm x \<noteq> x then (policy_model adm x)\<lparr>m_updated_at := now\<rparr> else x)" for adm x
    by (simp add: policy_model_time policy_model_idem)
  then have fix_all: "filter (\<lambda>y. policy_model adm y \<noteq> y)
      (map (\<lambda>x. if policy_model adm x \<noteq> x then (policy_model adm x)\<lparr>m_updated_at := now\<rparr> else x) xs) = []" for adm xs
    unfolding filter_empty_conv by (auto simp: policy_model_time policy_model_idem)
  show ?thesis
    by (simp add: apply_default_approval_policy_def Let_def fix_all)
qed

section \<open>Persistence\<close>

text \<open>
  Saving the manager's state and loading it again gives back the catalog, both decision maps
  and the synchronisation times.
\<close>

theorem state_roundtrip:
  assumes "io_ok io"
  shows "let r = read_doc True (d_file (snd (SaveState io (saved_state m) d)));
             m' = new_manager_with_state (snd (LoadState r))
         in fst (LoadState r) \<and> mg_current m' = mg_current m \<and> mg_allow m' = mg_allow m \<and>
            mg_admitted m' = mg_admitted m \<and> mg_last m' = mg_last m"
  using assms
  by (simp add: SaveState_def saved_state_def write_atomic_file LoadState_def migrate_admitted_def
      new_manager_with_state_def Let_def)

theorem state_roundtrip_witness:
  "mg_current (new_manager_with_state (snd (LoadState (read_doc True
     (d_file (snd (SaveState good_io (saved_state sample_approved) blank_disk))))))) = mg_current sample_approved"
  using state_roundtrip [OF io_ok_good, of sample_approved blank_disk] by (simp add: Let_def)

definition handed_over :: "manager \<Rightarrow> manager \<Rightarrow> bool" where
  "handed_over m m' \<longleftrightarrow> m' = m \<or> mg_saved m' = saved_state m' # mg_saved m"

lemma persist_locked_saved: "mg_persist m \<Longrightarrow> mg_saved (persist_locked m) = saved_state (persist_locked m) # mg_saved m"
  by (simp add: persist_locked_def saved_state_def)

lemma update_where_handed: "mg_persist m \<Longrightarrow> handed_over m (snd (update_where now P f m))"
  using persist_locked_saved [of "bump_version now (set_models ms m)" for ms]
  by (auto simp: update_where_def handed_over_def bump_version_def set_models_def split: option.splits)

text \<open>
  Every operation that changes the manager hands the new state to the persist callback, with
  one exception: an admission decision for a model the catalog does not hold changes the admission
  map in memory and is not persisted.
\<close>

theorem changes_are_persisted:
  assumes "mg_persist m"
  shows "handed_over m (snd (sync_raw now pid raw m)) \<and>
     handed_over m (mark_synced pid t m) \<and>
     handed_over m (snd (update_provider_model now mid pid f m)) \<and>
     handed_over m (snd (apply_default_approval_policy now m)) \<and>
     handed_over m (reconcile_providers now configs m) \<and>
     (fst (set_allow now pid mid b m) \<longrightarrow> handed_over m (snd (set_allow now pid mid b m))) \<and>
     (fst (set_admitted now pid mid b m) \<longrightarrow> handed_over m (snd (set_admitted now pid mid b m))) \<and>
     (\<not> fst (set_admitted now pid mid b m) \<longrightarrow>
        mg_saved (snd (set_admitted now pid mid b m)) = mg_saved m \<and>
        map_of (mg_admitted (snd (set_admitted now pid mid b m))) (route_key pid mid) = Some b)"
proof (intro conjI)
  show "handed_over m (snd (sync_raw now pid raw m))"
    using assms by (simp add: sync_raw_def sync_commit_def handed_over_def Let_def persist_locked_def saved_state_def)
  show "handed_over m (mark_synced pid t m)"
    using assms by (simp add: mark_synced_def handed_over_def persist_locked_def saved_state_def)
  show "handed_over m (snd (update_provider_model now mid pid f m))"
    unfolding update_provider_model_def by (rule update_where_handed [OF assms])
  show "handed_over m (snd (apply_default_approval_policy now m))"
    using assms by (simp add: apply_default_approval_policy_def handed_over_def Let_def persist_locked_def
        saved_state_def bump_version_def set_models_def)
  show "handed_over m (reconcile_providers now configs m)"
    using assms by (simp add: reconcile_providers_def handed_over_def Let_def persist_locked_def
        saved_state_def bump_version_def set_models_def)
  show "fst (set_allow now pid mid b m) \<longrightarrow> handed_over m (snd (set_allow now pid mid b m))"
  proof
    assume "fst (set_allow now pid mid b m)"
    then have "set_allow now pid mid b m = (True, snd (set_allow now pid mid b m))"
      by (cases "set_allow now pid mid b m") simp
    then obtain ms where "snd (set_allow now pid mid b m) =
        persist_locked (bump_version now (set_models ms (m\<lparr>mg_allow := mput (route_key pid mid) b (mg_allow m)\<rparr>)))"
      by (rule set_allow_accepted)
    then show "handed_over m (snd (set_allow now pid mid b m))"
      using assms by (simp add: handed_over_def persist_locked_def saved_state_def bump_version_def set_models_def)
  qed
  show "fst (set_admitted now pid mid b m) \<longrightarrow> handed_over m (snd (set_admitted now pid mid b m))"
    using assms by (simp add: set_admitted_def handed_over_def Let_def persist_locked_def saved_state_def
        bump_version_def set_models_def)
  show "\<not> fst (set_admitted now pid mid b m) \<longrightarrow>
        mg_saved (snd (set_admitted now pid mid b m)) = mg_saved m \<and>
        map_of (mg_admitted (snd (set_admitted now pid mid b m))) (route_key pid mid) = Some b"
    by (simp add: set_admitted_def Let_def)
qed

theorem changes_are_persisted_witness:
  "mg_persist sample_synced \<and> handed_over sample_synced (reconcile_providers 5 [] sample_synced)"
proof -
  have "mg_persist sample_synced" by code_simp
  with changes_are_persisted [OF this] show ?thesis by blast
qed

end
