(* ===== verification/Catalog_History.thy ===== *)
theory Catalog_History
  imports Catalog_Props
begin

text \<open>
  The catalog under concurrent calls. A history is the list of the states of the manager, the latest
  first. Every operation is one step under the lock of the manager, but a synchronisation uses the
  approvals and the admissions as they were when it read them, which can be any earlier states, two
  different ones, and it brings any list of models: with duplicates, with padded ids, of
  a provider of any name. A restart reads the document of any earlier state back, or none.
\<close>

inductive catalog_op :: "manager \<Rightarrow> manager \<Rightarrow> bool" where
  admits: "catalog_op m (snd (set_admitted now pid mid b m))"
| approves: "catalog_op m (snd (set_allow now pid mid b m))"
| reconciles: "catalog_op m (reconcile_providers now configs m)"
| migrates: "catalog_op m (snd (apply_default_approval_policy now m))"
| restores: "catalog_op m (snd (restore_reviewer_capability now mid pid m))"
| marks: "catalog_op m (mark_synced pid t m)"
| probes: "(\<And>x. routing_view (f x) = routing_view x) \<Longrightarrow> catalog_op m (snd (update_provider_model now mid pid f m))"
| switches: "catalog_op m (snd (update_provider_model now mid free_provider (\<lambda>x. x\<lparr>m_auto_routable := b\<rparr>) m))"

inductive catalog_history :: "manager list \<Rightarrow> bool" where
  start: "catalog_history [set_persist b (new_manager_with_state empty_state)]"
| called: "catalog_history (m # ms) \<Longrightarrow> catalog_op m m' \<Longrightarrow> catalog_history (m' # m # ms)"
| synced: "catalog_history (m # ms) \<Longrightarrow> m1 \<in> set (m # ms) \<Longrightarrow> m2 \<in> set (m # ms) \<Longrightarrow>
    catalog_history (snd (sync_commit now pid (mg_allow m1) (mg_admitted m2) raw m) # m # ms)"
| restarted: "catalog_history (m # ms) \<Longrightarrow> m1 \<in> set (m # ms) \<Longrightarrow>
    catalog_history (set_persist b (new_manager_with_state (saved_state m1)) # m # ms)"
| emptied: "catalog_history (m # ms) \<Longrightarrow> catalog_history (set_persist b (new_manager_with_state empty_state) # m # ms)"

text \<open>A decision about a model is recorded under its id, or under the padded id that the upstream listed.\<close>

definition spelled :: "string \<Rightarrow> string \<Rightarrow> bool" where
  "spelled i mid \<longleftrightarrow> i = mid \<or> trim_space i = mid"

definition once :: "(manager \<Rightarrow> (string, bool) gomap) \<Rightarrow> manager list \<Rightarrow> string \<Rightarrow> string \<Rightarrow> bool" where
  "once f ms p mid \<longleftrightarrow> (\<exists>m \<in> set ms. \<exists>i. spelled i mid \<and> mget False (f m) (route_key p i))"

definition grounded :: "manager list \<Rightarrow> model \<Rightarrow> bool" where
  "grounded ms x \<longleftrightarrow> standard x \<longrightarrow>
     (m_admitted x \<longrightarrow> once mg_admitted ms (m_provider x) (m_id x)) \<and>
     (m_auto_routable x \<longrightarrow> m_status x = Active \<and> m_admitted x \<and> once mg_allow ms (m_provider x) (m_id x))"

lemma once_mono: "once f ms p i \<Longrightarrow> set ms \<subseteq> set ms' \<Longrightarrow> once f ms' p i"
  by (auto simp: once_def)

lemma grounded_mono: "grounded ms x \<Longrightarrow> set ms \<subseteq> set ms' \<Longrightarrow> grounded ms' x"
  using once_mono by (fastforce simp: grounded_def)

lemma grounded_view: "routing_view x = routing_view y \<Longrightarrow> grounded ms x = grounded ms y"
  by (simp add: grounded_def routing_view_def standard_def)

lemma grounded_unrouted: "grounded ms x \<Longrightarrow> m_provider y = m_provider x \<Longrightarrow> m_id y = m_id x \<Longrightarrow> m_admitted y = m_admitted x \<Longrightarrow>
    \<not> m_auto_routable y \<Longrightarrow> grounded ms y"
  by (simp add: grounded_def standard_def)

definition all_grounded :: "manager list \<Rightarrow> manager \<Rightarrow> bool" where
  "all_grounded ms m \<longleftrightarrow> (\<forall>x \<in> set (models_of m). grounded ms x)"

lemma update_where_grounded:
  assumes "all_grounded ms m" and "\<And>x. x \<in> set (models_of m) \<Longrightarrow> P x \<Longrightarrow> grounded ms (f x)"
  shows "all_grounded ms (snd (update_where now P f m))"
proof (cases "update_first P f (models_of m)")
  case None
  then show ?thesis using assms(1) by (simp add: update_where_def)
next
  case (Some ys)
  obtain as x bs where "models_of m = as @ x # bs" "P x" "ys = as @ f x # bs" using update_first_Some [OF Some] by blast
  then show ?thesis using assms Some by (auto simp: update_where_def all_grounded_def)
qed

lemma sync_grounded:
  assumes "all_grounded ms m" and "m1 \<in> set ms" and "m2 \<in> set ms"
  shows "all_grounded ms (snd (sync_commit now pid (mg_allow m1) (mg_admitted m2) raw m))"
proof -
  have new: "grounded ms (carry_over prev y)" if "apply_one now (mg_allow m1) (mg_admitted m2) pid r = Some y" for y r prev
  proof -
    note f = apply_one_fields [OF that]
    have "mget False (mg_admitted m2) (route_key pid (rm_id r)) \<Longrightarrow> once mg_admitted ms (m_provider y) (m_id y)"
      using assms(3) f(1,2) by (auto simp: once_def spelled_def)
    moreover have "mget False (mg_allow m1) (route_key pid (rm_id r)) \<Longrightarrow> once mg_allow ms (m_provider y) (m_id y)"
      using assms(2) f(1,2) by (auto simp: once_def spelled_def)
    ultimately have "grounded ms y" using f(1,7-9) by (auto simp: grounded_def standard_def)
    then show ?thesis using grounded_view [OF carry_over_view] by blast
  qed
  have "models_of (snd (sync_commit now pid (mg_allow m1) (mg_admitted m2) raw m)) = models_of m \<or>
    (\<exists>prev. models_of (snd (sync_commit now pid (mg_allow m1) (mg_admitted m2) raw m)) =
      filter (\<lambda>x. m_provider x \<noteq> pid) (models_of m) @ map (carry_over prev) (sync_apply now (mg_allow m1) (mg_admitted m2) pid raw))"
    by (auto simp: sync_commit_def Let_def)
  then show ?thesis using assms(1) new by (auto simp: all_grounded_def set_sync_apply)
qed

lemma set_admitted_grounded:
  assumes "all_grounded (m # ms) m" and "m' = snd (set_admitted now pid mid b m)"
  shows "all_grounded (m' # m # ms) m'"
proof -
  have adm: "mget False (mg_admitted m') (route_key pid mid) = b"
    unfolding assms(2) by (simp add: set_admitted_def Let_def)
  have hit: "grounded (m' # m # ms) (admit_model now b x)" if "is_entry pid mid x" for x
    using adm that by (auto simp: grounded_def admit_model_def Let_def once_def spelled_def is_entry_def)
  have old: "grounded (m' # m # ms) x" if "x \<in> set (models_of m)" for x
    using assms(1) that grounded_mono [of "m # ms" x "m' # m # ms"] by (auto simp: all_grounded_def)
  have "y \<in> set (models_of m) \<or> (\<exists>x \<in> set (models_of m). is_entry pid mid x \<and> y = admit_model now b x)" if "y \<in> set (models_of m')" for y
    using that unfolding assms(2) by (auto simp: set_admitted_def Let_def split: if_splits)
  then show ?thesis using hit old by (auto simp: all_grounded_def)
qed

lemma set_allow_grounded:
  assumes "all_grounded (m # ms) m" and "m' = snd (set_allow now pid mid b m)"
  shows "all_grounded (m' # m # ms) m'"
proof (cases "fst (set_allow now pid mid b m)")
  case False
  then have "m' = m" using assms(2) by (auto simp: set_allow_def Let_def split: option.splits if_splits)
  then show ?thesis using assms(1) grounded_mono [of "m # ms" _ "m' # m # ms"] by (auto simp: all_grounded_def)
next
  case True
  then have "set_allow now pid mid b m = (True, m')" using assms(2) by (cases "set_allow now pid mid b m") simp
  then show ?thesis
  proof (cases rule: set_allow_accepted)
    case (1 x ms1)
    let ?f = "\<lambda>y. y\<lparr>m_auto_routable := (b \<and> m_status y = Active), m_updated_at := now\<rparr>"
    obtain as z bs where z: "models_of m = as @ z # bs" "\<forall>a \<in> set as. \<not> is_entry pid mid a" "is_entry pid mid z" "ms1 = as @ ?f z # bs"
      using update_first_Some [OF 1(3)] by blast
    have "find (is_entry pid mid) (as @ z # bs) = Some z" using z(2,3) by (induction as) auto
    then have "x = z" using 1(1) z(1) by simp
    have allow: "mget False (mg_allow m') (route_key pid mid) = b" by (simp add: 1(4))
    have old: "grounded (m' # m # ms) y" if "y \<in> set (models_of m)" for y
      using assms(1) that grounded_mono [of "m # ms" y "m' # m # ms"] by (auto simp: all_grounded_def)
    have "b \<Longrightarrow> standard z \<Longrightarrow> m_admitted z" using 1(2) \<open>x = z\<close> by (auto simp: auto_approval_ready_def standard_def split: if_splits)
    then have "grounded (m' # m # ms) (?f z)"
      using old [of z] z(1,3) allow by (auto simp: grounded_def standard_def once_def spelled_def is_entry_def)
    then show ?thesis using old z by (auto simp: all_grounded_def 1(4))
  qed
qed

lemma all_grounded_mono: "all_grounded ms m \<Longrightarrow> set ms \<subseteq> set ms' \<Longrightarrow> all_grounded ms' m"
  using grounded_mono by (fastforce simp: all_grounded_def)

lemma policy_grounded:
  assumes "x \<in> set (models_of m)" and "m \<in> set ms" and "grounded ms x"
  shows "grounded ms (policy_model (mg_admitted m) x)"
proof (cases "is_auto_approved (m_provider x)")
  case True
  then show ?thesis using assms(3) by (auto simp: policy_model_def policy_free_def Let_def grounded_def standard_def)
next
  case False
  have "mget False (mg_admitted m) (route_key (m_provider x) (m_id x)) \<Longrightarrow> once mg_admitted ms (m_provider x) (m_id x)"
    using assms(2) by (auto simp: once_def spelled_def)
  then show ?thesis using assms(3) False by (auto simp: policy_model_def policy_standard_def Let_def grounded_def standard_def)
qed

lemma changed_member: "y \<in> set (map (\<lambda>x. if P x then f x else x) xs) \<Longrightarrow> y \<in> set xs \<or> (\<exists>x \<in> set xs. y = f x)"
  by (auto split: if_splits)

lemma op_grounded: "catalog_op m m' \<Longrightarrow> all_grounded (m # ms) m \<Longrightarrow> all_grounded (m' # m # ms) m'"
proof (induction rule: catalog_op.induct)
  case (admits m now pid mid b)
  then show ?case using set_admitted_grounded [OF _ refl] by blast
next
  case (approves m now pid mid b)
  then show ?case using set_allow_grounded [OF _ refl] by blast
next
  case (reconciles m now configs)
  let ?m' = "reconcile_providers now configs m"
  have "grounded (?m' # m # ms) (snd (reconcile_model now (online_in configs) x))" if "x \<in> set (models_of m)" for x
  proof -
    have x: "grounded (?m' # m # ms) x" using reconciles that grounded_mono [of "m # ms" x "?m' # m # ms"] by (auto simp: all_grounded_def)
    show ?thesis using x by (auto simp: reconcile_model_def intro: grounded_unrouted)
  qed
  then show ?case by (auto simp: all_grounded_def reconciled_models)
next
  case (migrates m now)
  let ?m' = "snd (apply_default_approval_policy now m)"
  have old: "grounded (?m' # m # ms) x" if "x \<in> set (models_of m)" for x
    using migrates that grounded_mono [of "m # ms" x "?m' # m # ms"] by (auto simp: all_grounded_def)
  then have "grounded (?m' # m # ms) (policy_model (mg_admitted m) x)" if "x \<in> set (models_of m)" for x
    using policy_grounded [OF that] that by simp
  moreover have view: "grounded ms' (y\<lparr>m_updated_at := now\<rparr>) = grounded ms' y" for ms' y
    by (rule grounded_view) (simp add: routing_view_def)
  ultimately have new: "grounded (?m' # m # ms) ((policy_model (mg_admitted m) x)\<lparr>m_updated_at := now\<rparr>)"
    if "x \<in> set (models_of m)" for x using that by simp
  have models: "models_of ?m' = models_of m \<or>
      models_of ?m' = map (\<lambda>x. if policy_model (mg_admitted m) x \<noteq> x then (policy_model (mg_admitted m) x)\<lparr>m_updated_at := now\<rparr> else x) (models_of m)"
    unfolding apply_default_approval_policy_def Let_def by (simp del: map_eq_conv)
  have "y \<in> set (models_of m) \<or> (\<exists>x \<in> set (models_of m). y = (policy_model (mg_admitted m) x)\<lparr>m_updated_at := now\<rparr>)"
    if "y \<in> set (models_of ?m')" for y
    using models
  proof
    assume "models_of ?m' = models_of m"
    then show ?thesis using that by simp
  next
    assume "models_of ?m' =
      map (\<lambda>x. if policy_model (mg_admitted m) x \<noteq> x then (policy_model (mg_admitted m) x)\<lparr>m_updated_at := now\<rparr> else x) (models_of m)"
    then show ?thesis using that by (intro changed_member) (simp only:)
  qed
  then show ?case using old new unfolding all_grounded_def by blast
next
  case (restores m now mid pid)
  have g: "grounded ms' (restore_evidence now x) = grounded ms' x" for ms' x
    by (rule grounded_view) (simp add: restore_evidence_def routing_view_def)
  have gen: "all_grounded ms' (snd (restore_reviewer_capability now mid pid m))" if "all_grounded ms' m" for ms'
    unfolding restore_reviewer_capability_def update_provider_model_def
    using that by (intro update_where_grounded) (simp_all add: all_grounded_def g)
  show ?case by (rule gen [OF all_grounded_mono [OF restores]]) auto
next
  case (marks m pid t)
  then show ?case using all_grounded_mono [of "m # ms" m "mark_synced pid t m # m # ms"] by (auto simp: all_grounded_def mark_synced_def)
next
  case (probes f m now mid pid)
  have g: "grounded ms' (f x) = grounded ms' x" for ms' x by (rule grounded_view [OF probes(1)])
  have gen: "all_grounded ms' (snd (update_provider_model now mid pid f m))" if "all_grounded ms' m" for ms'
    unfolding update_provider_model_def using that by (intro update_where_grounded) (simp_all add: all_grounded_def g)
  show ?case by (rule gen [OF all_grounded_mono [OF probes(2)]]) auto
next
  case (switches m now mid b)
  have g: "is_entry free_provider mid x \<Longrightarrow> grounded ms' (x\<lparr>m_auto_routable := b\<rparr>)" for ms' x
    by (simp add: grounded_def standard_def is_entry_def is_auto_approved_def)
  have gen: "all_grounded ms' (snd (update_provider_model now mid free_provider (\<lambda>x. x\<lparr>m_auto_routable := b\<rparr>) m))"
    if "all_grounded ms' m" for ms'
    unfolding update_provider_model_def using that g by (intro update_where_grounded) simp_all
  show ?case by (rule gen [OF all_grounded_mono [OF switches]]) auto
qed

lemma history_grounded: "catalog_history ms \<Longrightarrow> ms \<noteq> [] \<and> (\<forall>m \<in> set ms. all_grounded ms m)"
proof (induction rule: catalog_history.induct)
  case (start b)
  then show ?case by (simp add: all_grounded_def set_persist_def new_manager_with_state_def empty_state_def empty_catalog_def migrate_admitted_def)
next
  case (called m ms m')
  then show ?case using op_grounded [OF called(2), of ms] all_grounded_mono [of "m # ms" _ "m' # m # ms"] by auto
next
  case (synced m ms m1 m2 now pid raw)
  let ?m' = "snd (sync_commit now pid (mg_allow m1) (mg_admitted m2) raw m)"
  have "all_grounded (m # ms) ?m'" using synced sync_grounded [of "m # ms" m m1 m2 now pid raw] by auto
  then show ?case using synced all_grounded_mono [of "m # ms" _ "?m' # m # ms"] by auto
next
  case (restarted m ms m1 b)
  let ?m' = "set_persist b (new_manager_with_state (saved_state m1))"
  have "models_of ?m' = models_of m1" by (simp add: set_persist_def new_manager_with_state_def saved_state_def migrate_admitted_def)
  then have "all_grounded (m # ms) ?m'" using restarted by (auto simp: all_grounded_def)
  then show ?case using restarted all_grounded_mono [of "m # ms" _ "?m' # m # ms"] by auto
next
  case (emptied m ms b)
  let ?m' = "set_persist b (new_manager_with_state empty_state)"
  have "models_of ?m' = []" by (simp add: set_persist_def new_manager_with_state_def empty_state_def empty_catalog_def migrate_admitted_def)
  then have "all_grounded (m # ms) ?m'" by (simp add: all_grounded_def)
  then show ?case using emptied all_grounded_mono [of "m # ms" _ "?m' # m # ms"] by auto
qed

section \<open>The calls behind the decisions\<close>

text \<open>A call of the history: two successive states, the call leading from the one to the other.\<close>

definition successive :: "manager list \<Rightarrow> manager \<Rightarrow> manager \<Rightarrow> bool" where
  "successive ms m m' \<longleftrightarrow> (\<exists>as bs. ms = as @ m' # m # bs)"

definition admitted_by_call :: "manager list \<Rightarrow> string \<Rightarrow> bool" where
  "admitted_by_call ms k \<longleftrightarrow>
     (\<exists>m now p i. route_key p i = k \<and> successive ms m (snd (set_admitted now p i True m)))"

definition approved_by_call :: "manager list \<Rightarrow> string \<Rightarrow> bool" where
  "approved_by_call ms k \<longleftrightarrow>
     (\<exists>m now p i m'. route_key p i = k \<and> set_allow now p i True m = (True, m') \<and> successive ms m m')"

lemma successive_later: "successive ms m m' \<Longrightarrow> successive (x # ms) m m'"
  unfolding successive_def by (metis append_Cons)

lemma successive_now: "successive (m' # m # ms) m m'"
  unfolding successive_def by (metis append_Nil)

lemma by_call_later:
  "admitted_by_call ms k \<Longrightarrow> admitted_by_call (x # ms) k" "approved_by_call ms k \<Longrightarrow> approved_by_call (x # ms) k"
  unfolding admitted_by_call_def approved_by_call_def using successive_later by blast+

lemma op_admits:
  assumes "catalog_op m m'" and "mget False (mg_admitted m') k" and "\<not> mget False (mg_admitted m) k"
  shows "admitted_by_call (m' # m # ms) k"
  using assms
proof (induction rule: catalog_op.induct)
  case (admits m now pid mid b)
  then have "route_key pid mid = k \<and> b"
    by (cases "route_key pid mid = k") (auto simp: set_admitted_def Let_def split: if_splits)
  then have b: "b = True" and k: "route_key pid mid = k" by simp_all
  show ?case unfolding admitted_by_call_def b
    by (intro exI [of _ m] exI [of _ now] exI [of _ pid] exI [of _ mid] conjI k successive_now)
qed (auto simp: set_allow_def update_where_def reconcile_providers_def apply_default_approval_policy_def
    restore_reviewer_capability_def update_provider_model_def mark_synced_def Let_def split: option.splits if_splits prod.splits)

lemma op_approves:
  assumes "catalog_op m m'" and "mget False (mg_allow m') k" and "\<not> mget False (mg_allow m) k"
  shows "approved_by_call (m' # m # ms) k"
  using assms
proof (induction rule: catalog_op.induct)
  case (approves m now pid mid b)
  let ?m' = "snd (set_allow now pid mid b m)"
  have ok: "fst (set_allow now pid mid b m) \<and> route_key pid mid = k \<and> b"
    using approves by (cases "route_key pid mid = k") (auto simp: set_allow_def update_where_def Let_def split: option.splits if_splits)
  then have "set_allow now pid mid True m = (True, ?m')" by (cases "set_allow now pid mid b m") simp
  then show ?case using ok successive_now [of ?m' m ms] unfolding approved_by_call_def by blast
qed (auto simp: set_admitted_def update_where_def reconcile_providers_def apply_default_approval_policy_def
    restore_reviewer_capability_def update_provider_model_def mark_synced_def Let_def split: option.splits if_splits prod.splits)

lemma history_calls:
  "catalog_history ms \<Longrightarrow> m \<in> set ms \<Longrightarrow>
    (mget False (mg_admitted m) k \<longrightarrow> admitted_by_call ms k) \<and> (mget False (mg_allow m) k \<longrightarrow> approved_by_call ms k)"
proof (induction arbitrary: m rule: catalog_history.induct)
  case (start b)
  then show ?case by (simp add: set_persist_def new_manager_with_state_def empty_state_def migrate_admitted_def mget_def)
next
  case (called m0 ms m')
  then show ?case
  proof (cases "m = m'")
    case True
    then show ?thesis
      using op_admits [OF called(2), of k ms] op_approves [OF called(2), of k ms] called(3) [of m0]
      by (auto intro: by_call_later)
  next
    case False
    then have "m \<in> set (m0 # ms)" using called(4) by simp
    then show ?thesis using called(3) by_call_later by blast
  qed
next
  case (synced m0 ms m1 m2 now pid raw)
  let ?m' = "snd (sync_commit now pid (mg_allow m1) (mg_admitted m2) raw m0)"
  have "mg_admitted ?m' = mg_admitted m0" "mg_allow ?m' = mg_allow m0" by (auto simp: sync_commit_def Let_def)
  then have "\<exists>m3 \<in> set (m0 # ms). mg_admitted m = mg_admitted m3 \<and> mg_allow m = mg_allow m3" using synced(5) by auto
  then show ?case using synced(4) by_call_later by metis
next
  case (restarted m0 ms m1 b)
  let ?m' = "set_persist b (new_manager_with_state (saved_state m1))"
  have "mg_admitted ?m' = mg_admitted m1" "mg_allow ?m' = mg_allow m1"
    by (simp_all add: set_persist_def new_manager_with_state_def saved_state_def migrate_admitted_def)
  then have "\<exists>m3 \<in> set (m0 # ms). mg_admitted m = mg_admitted m3 \<and> mg_allow m = mg_allow m3" using restarted by auto
  then show ?case using restarted(3) by_call_later by metis
next
  case (emptied m0 ms b)
  let ?m' = "set_persist b (new_manager_with_state empty_state)"
  have "\<not> mget False (mg_admitted ?m') k \<and> \<not> mget False (mg_allow ?m') k"
    by (simp add: set_persist_def new_manager_with_state_def empty_state_def migrate_admitted_def mget_def)
  moreover have "m = ?m' \<or> m \<in> set (m0 # ms)" using emptied(3) by auto
  ultimately show ?case using emptied(2) by_call_later by blast
qed

definition decided :: "manager list \<Rightarrow> string \<Rightarrow> string \<Rightarrow> bool" where
  "decided ms p mid \<longleftrightarrow>
     p = free_provider \<or>
     (\<exists>i. spelled i mid \<and> admitted_by_call ms (route_key p i)) \<and> (\<exists>i. spelled i mid \<and> approved_by_call ms (route_key p i))"

lemma routable_decided:
  assumes "catalog_history ms" and "m \<in> set ms" and "x \<in> set (models_of m)" and "m_auto_routable x" and "m_provider x \<noteq> free_provider"
  shows "m_status x = Active \<and> m_admitted x \<and> decided ms (m_provider x) (m_id x)"
proof -
  have "grounded ms x" using history_grounded [OF assms(1)] assms(2,3) by (auto simp: all_grounded_def)
  then have "m_status x = Active \<and> m_admitted x \<and> once mg_admitted ms (m_provider x) (m_id x) \<and> once mg_allow ms (m_provider x) (m_id x)"
    using assms(4,5) by (simp add: grounded_def standard_def is_auto_approved_def)
  then show ?thesis using history_calls [OF assms(1)] unfolding once_def decided_def by blast
qed

text \<open>
  C4. Whatever the calls, their interleaving and the answers of the providers are, a model that may be
  routed automatically and does not belong to FreeLLMAPI is active and admitted, and both decisions of
  the operator stand behind it: an admission call for its key was made earlier in the history, and an
  approval call for its key was accepted. The history runs over all calls of the manager, each one step
  under its lock; a synchronisation reads the approvals and the admissions at any earlier moments,
  and its list may hold duplicates and padded ids; a restart reads back the document of any earlier
  moment. The key is the provider's name, a slash, and the model's id, or the id with the white space
  around it that the upstream listed. A decision revoked while a synchronisation is under way can
  be overtaken by it, so that the two calls lie in the past and need not be the last ones. A
  history begins without a catalog document: one written before it began is not covered. The
  approval call is SetAllow, whoever makes it: an applied or undone batch of governance rules, or the
  loading of the stored rules at a start, which calls it for each of them.
\<close>

theorem auto_models_were_decided:
  assumes "catalog_history ms" and "m \<in> set ms" and "x \<in> set (models_of m)" and "m_auto_routable x" and "m_provider x \<noteq> free_provider"
  shows "m_status x = Active \<and> m_admitted x \<and>
    (\<exists>i m0 m1 now p j. spelled i (m_id x) \<and> successive ms m0 m1 \<and> m1 = snd (set_admitted now p j True m0) \<and>
       route_key p j = route_key (m_provider x) i) \<and>
    (\<exists>i m0 m1 now p j. spelled i (m_id x) \<and> successive ms m0 m1 \<and> set_allow now p j True m0 = (True, m1) \<and>
       route_key p j = route_key (m_provider x) i)"
proof -
  have d: "m_status x = Active" "m_admitted x" "decided ms (m_provider x) (m_id x)" using routable_decided [OF assms] by auto
  then obtain i i' where "spelled i (m_id x)" "admitted_by_call ms (route_key (m_provider x) i)"
      "spelled i' (m_id x)" "approved_by_call ms (route_key (m_provider x) i')"
    using assms(5) by (auto simp: decided_def)
  then show ?thesis using d(1,2) unfolding admitted_by_call_def approved_by_call_def by blast
qed

definition sample_history :: "manager list" where
  "sample_history =
     [sample_approved, sample_probed, snd (set_admitted 0 ''p'' ''m'' True sample_synced), sample_synced,
      set_persist True (new_manager_with_state empty_state)]"

lemma sample_history_runs: "catalog_history sample_history"
proof -
  let ?m0 = "set_persist True (new_manager_with_state empty_state)"
  have 1: "catalog_history [sample_synced, ?m0]"
    unfolding sample_synced_def sync_raw_def by (rule synced) (rule start, simp_all)
  have 2: "catalog_history [snd (set_admitted 0 ''p'' ''m'' True sample_synced), sample_synced, ?m0]"
    by (rule called [OF 1 admits])
  have 3: "catalog_history [sample_probed, snd (set_admitted 0 ''p'' ''m'' True sample_synced), sample_synced, ?m0]"
    unfolding sample_probed_def by (rule called [OF 2 probes]) (simp add: with_evidence_def routing_view_def)
  show ?thesis unfolding sample_history_def sample_approved_def by (rule called [OF 3 approves])
qed

theorem auto_models_were_decided_witness:
  "\<exists>x \<in> set (models_of sample_approved). m_auto_routable x \<and> m_provider x = ''p'' \<and> m_status x = Active \<and>
     (\<exists>m0 m1 now p j. successive sample_history m0 m1 \<and> set_allow now p j True m0 = (True, m1))"
proof -
  obtain x where x: "x \<in> set (models_of sample_approved)" "m_auto_routable x" "m_provider x = ''p''"
    using sample_approved_models by (cases "models_of sample_approved") auto
  have "sample_approved \<in> set sample_history" by (simp add: sample_history_def)
  moreover have "m_provider x \<noteq> free_provider" using x(3) by (simp add: free_provider_def)
  ultimately have "m_status x = Active \<and> (\<exists>m0 m1 now p j. successive sample_history m0 m1 \<and> set_allow now p j True m0 = (True, m1))"
    using auto_models_were_decided [OF sample_history_runs _ x(1,2)] by blast
  then show ?thesis using x by blast
qed

end
