(* ===== verification/Go_Float.thy ===== *)
theory Go_Float
  imports Complex_Main "HOL-Library.Log_Nat"
begin

text \<open>
  Go's float64 as an exact rational together with the IEEE 754 rounding of each operation:
  a float64 value is a rat, and an arithmetic operation is the exact rational operation
  followed by the function f64, which rounds to 53 significant bits, ties to even, down to the
  subnormal spacing 2 to the power -1074. Infinities and NaN do not occur: the router divides
  only by counts it has tested to be positive, and JSON has no literal for them. The lemmas
  give what the scores rely on: rounding is monotone and exact on integers up to 2 to the 53.
\<close>

section \<open>Powers of two and the binary exponent\<close>

definition pow2 :: "int \<Rightarrow> rat" where
  "pow2 k = (if 0 \<le> k then 2 ^ nat k else 1 / 2 ^ nat (- k))"

lemma pow2_powi: "pow2 k = 2 powi k"
  by (simp add: pow2_def power_int_def inverse_eq_divide power_one_over)

lemma pow2_pos [simp]: "0 < pow2 k"
  by (simp add: pow2_def)

lemma pow2_nonzero [simp]: "pow2 k \<noteq> 0"
  using pow2_pos [of k] by linarith

lemma pow2_add: "pow2 (a + b) = pow2 a * pow2 b"
  by (simp add: pow2_powi power_int_add)

lemma pow2_mono: "a \<le> b \<Longrightarrow> pow2 a \<le> pow2 b"
  by (simp add: pow2_powi power_int_increasing)

lemma pow2_le_iff: "pow2 a \<le> pow2 b \<longleftrightarrow> a \<le> b"
  using power_int_strict_increasing [of b a "2::rat"] pow2_mono [of a b]
  by (auto simp: pow2_powi not_le [symmetric])

lemma pow2_nat: "pow2 (int n) = 2 ^ n"
  by (simp add: pow2_def)

definition flog2 :: "rat \<Rightarrow> int" where
  "flog2 x = (case quotient_of x of (p, q) \<Rightarrow>
     let k = bitlen p - bitlen q in if pow2 k \<le> x then k else k - 1)"

lemma bitlen_pow2: "0 < n \<Longrightarrow> pow2 (bitlen n - 1) \<le> rat_of_int n \<and> rat_of_int n < pow2 (bitlen n)"
proof -
  assume n: "0 < n"
  then have b: "0 < bitlen n" using bitlen_eq_zero_iff [of n] bitlen_nonneg [of n] by linarith
  from bitlen_bounds [OF n] have "2 ^ nat (bitlen n - 1) \<le> n" and "n < 2 ^ nat (bitlen n)" by auto
  then have "rat_of_int (2 ^ nat (bitlen n - 1)) \<le> rat_of_int n"
    and "rat_of_int n < rat_of_int (2 ^ nat (bitlen n))" by (simp_all only: of_int_le_iff of_int_less_iff)
  with b show ?thesis by (simp add: pow2_def)
qed

lemma flog2_bounds:
  assumes "0 < x"
  shows "pow2 (flog2 x) \<le> x" and "x < pow2 (flog2 x + 1)"
proof -
  obtain p q where pq: "quotient_of x = (p, q)" by (cases "quotient_of x")
  then have q: "0 < q" by (simp add: quotient_of_denom_pos)
  have x: "x = rat_of_int p / rat_of_int q" using pq by (rule quotient_of_div)
  have p: "0 < p" using assms q by (simp add: x zero_less_divide_iff)
  let ?k = "bitlen p - bitlen q"
  have up: "x < pow2 (?k + 1)"
  proof -
    have "rat_of_int p < pow2 (bitlen p)" and "pow2 (bitlen q - 1) \<le> rat_of_int q"
      using bitlen_pow2 p q by auto
    then have "x < pow2 (bitlen p) / pow2 (bitlen q - 1)"
      unfolding x by (intro frac_less) (use p q in auto)
    also have "\<dots> = pow2 (?k + 1)"
      by (simp add: field_simps pow2_add [symmetric])
    finally show ?thesis .
  qed
  have lo: "pow2 (?k - 1) < x"
  proof -
    have "pow2 (bitlen p - 1) \<le> rat_of_int p" and "rat_of_int q < pow2 (bitlen q)"
      using bitlen_pow2 p q by auto
    then have "pow2 (bitlen p - 1) / pow2 (bitlen q) < x"
      unfolding x by (intro frac_less2) (use p q in auto)
    moreover have "pow2 (bitlen p - 1) / pow2 (bitlen q) = pow2 (?k - 1)"
      by (simp add: field_simps pow2_add [symmetric])
    ultimately show ?thesis by simp
  qed
  show "pow2 (flog2 x) \<le> x" using lo by (auto simp: flog2_def pq Let_def)
  show "x < pow2 (flog2 x + 1)" using up by (auto simp: flog2_def pq Let_def)
qed

section \<open>Rounding to nearest, ties to even\<close>

definition round_even :: "rat \<Rightarrow> int" where
  "round_even x = (let n = \<lfloor>x\<rfloor>; d = x - rat_of_int n in
     if d < 1 / 2 then n else if 1 / 2 < d then n + 1 else if even n then n else n + 1)"

lemma round_even_int [simp]: "round_even (rat_of_int n) = n"
  by (simp add: round_even_def)

lemma round_even_floor: "\<lfloor>x\<rfloor> \<le> round_even x \<and> round_even x \<le> \<lfloor>x\<rfloor> + 1"
  by (simp add: round_even_def Let_def)

lemma round_even_mono:
  assumes "x \<le> y" shows "round_even x \<le> round_even y"
proof (cases "\<lfloor>x\<rfloor> = \<lfloor>y\<rfloor>")
  case True
  then show ?thesis using assms by (simp add: round_even_def Let_def)
next
  case False
  with assms have "\<lfloor>x\<rfloor> + 1 \<le> \<lfloor>y\<rfloor>" using floor_mono [OF assms] by linarith
  then show ?thesis using round_even_floor [of x] round_even_floor [of y] by linarith
qed

definition f64_exp :: "rat \<Rightarrow> int" where
  "f64_exp x = max (flog2 x - 52) (- 1074)"

definition f64_pos :: "rat \<Rightarrow> rat" where
  "f64_pos x = rat_of_int (round_even (x / pow2 (f64_exp x))) * pow2 (f64_exp x)"

definition f64 :: "rat \<Rightarrow> rat" where
  "f64 x = (if x = 0 then 0 else if x < 0 then - f64_pos (- x) else f64_pos x)"

lemma f64_0 [simp]: "f64 0 = 0"
  by (simp add: f64_def)

lemma f64_pos_nonneg: "0 < x \<Longrightarrow> 0 \<le> f64_pos x"
  using round_even_mono [of 0 "x / pow2 (f64_exp x)"] round_even_int [of 0]
  by (simp add: f64_pos_def less_imp_le [OF pow2_pos])

lemma f64_pos_fix:
  assumes "x / pow2 (f64_exp x) = rat_of_int n" shows "f64_pos x = x"
  using assms by (simp add: f64_pos_def) (metis nonzero_divide_eq_eq pow2_nonzero)

lemma f64_pos_upper: "0 < x \<Longrightarrow> f64_pos x \<le> pow2 (f64_exp x + 53)"
proof -
  assume x: "0 < x"
  have "x < pow2 (flog2 x + 1)" by (rule flog2_bounds [OF x])
  also have "\<dots> \<le> pow2 (f64_exp x + 53)" by (rule pow2_mono) (simp add: f64_exp_def)
  finally have "x / pow2 (f64_exp x) \<le> 2 ^ 53"
    using pow2_nat [of 53] by (simp add: pow2_add field_simps)
  then have "round_even (x / pow2 (f64_exp x)) \<le> round_even (rat_of_int (2 ^ 53))"
    by (intro round_even_mono) simp
  then have "rat_of_int (round_even (x / pow2 (f64_exp x))) \<le> 2 ^ 53"
    unfolding round_even_int by (metis of_int_le_iff of_int_numeral of_int_power)
  then show ?thesis
    using pow2_nat [of 53] by (simp add: f64_pos_def pow2_add mult.commute)
qed

lemma f64_pos_lower:
  assumes x: "0 < x" and e: "- 1074 < f64_exp x"
  shows "pow2 (f64_exp x + 52) \<le> f64_pos x"
proof -
  have "pow2 (f64_exp x + 52) \<le> x"
    using flog2_bounds(1) [OF x] e by (auto simp: f64_exp_def max_def split: if_splits)
  then have "rat_of_int (2 ^ 52) \<le> x / pow2 (f64_exp x)"
    using pow2_nat [of 52] by (simp add: pow2_add field_simps)
  then have "2 ^ 52 \<le> round_even (x / pow2 (f64_exp x))"
    using round_even_mono round_even_int by metis
  then have "2 ^ 52 \<le> rat_of_int (round_even (x / pow2 (f64_exp x)))"
    by (metis of_int_le_iff of_int_numeral of_int_power)
  then show ?thesis
    using pow2_nat [of 52] by (simp add: f64_pos_def pow2_add mult.commute)
qed

lemma f64_pos_mono:
  assumes x: "0 < x" and le: "x \<le> y" shows "f64_pos x \<le> f64_pos y"
proof -
  have y: "0 < y" using assms by simp
  have "flog2 x < flog2 y + 1"
  proof (rule ccontr)
    assume "\<not> flog2 x < flog2 y + 1"
    then have "pow2 (flog2 y + 1) \<le> pow2 (flog2 x)" by (simp add: pow2_mono)
    with flog2_bounds [OF x] flog2_bounds [OF y] le show False by linarith
  qed
  then consider "f64_exp x = f64_exp y" | "f64_exp x < f64_exp y"
    by (fastforce simp: f64_exp_def)
  then show ?thesis
  proof cases
    case 1
    then show ?thesis using le round_even_mono [of "x / pow2 (f64_exp y)" "y / pow2 (f64_exp y)"]
      by (simp add: f64_pos_def divide_right_mono less_imp_le)
  next
    case 2
    then have "f64_pos x \<le> pow2 (f64_exp x + 53)" by (intro f64_pos_upper x)
    also have "\<dots> \<le> pow2 (f64_exp y + 52)" by (rule pow2_mono) (use 2 in simp)
    also have "\<dots> \<le> f64_pos y" by (rule f64_pos_lower [OF y]) (use 2 in \<open>simp add: f64_exp_def\<close>)
    finally show ?thesis .
  qed
qed

lemma f64_nonneg: "0 \<le> x \<Longrightarrow> 0 \<le> f64 x"
  by (simp add: f64_def f64_pos_nonneg)

lemma f64_mono: "x \<le> y \<Longrightarrow> f64 x \<le> f64 y"
  using f64_pos_mono [of x y] f64_pos_mono [of "- y" "- x"] f64_pos_nonneg [of "- x"] f64_pos_nonneg [of y]
  by (auto simp: f64_def)

lemma f64_pos_int:
  assumes n: "0 < n" "n \<le> 2 ^ 53" shows "f64_pos (rat_of_int n) = rat_of_int n"
proof -
  let ?e = "f64_exp (rat_of_int n)"
  have pos: "0 < rat_of_int n" using n by simp
  have "pow2 (flog2 (rat_of_int n)) \<le> rat_of_int n" by (rule flog2_bounds [OF pos])
  also have "\<dots> \<le> pow2 53" using n(2) pow2_nat [of 53] by (metis of_int_le_iff of_int_numeral of_int_power of_nat_numeral)
  finally have l: "flog2 (rat_of_int n) \<le> 53" by (simp add: pow2_le_iff)
  show ?thesis
  proof (cases "?e \<le> 0")
    case True
    have "rat_of_int n / pow2 ?e = rat_of_int (n * 2 ^ nat (- ?e))"
      using True by (simp add: pow2_def)
    then show ?thesis by (rule f64_pos_fix)
  next
    case False
    then have e: "?e = 1" and "flog2 (rat_of_int n) = 53" using l by (auto simp: f64_exp_def)
    then have "pow2 53 \<le> rat_of_int n" using flog2_bounds(1) [OF pos] by simp
    then have "2 ^ 53 \<le> n" using pow2_nat [of 53] by (metis of_int_le_iff of_int_numeral of_int_power of_nat_numeral)
    with n have "n = 2 ^ 53" by simp
    then have "rat_of_int n / pow2 ?e = rat_of_int (2 ^ 52)" unfolding e by (simp add: pow2_def)
    then show ?thesis by (rule f64_pos_fix)
  qed
qed

lemma f64_int: "\<bar>n\<bar> \<le> 2 ^ 53 \<Longrightarrow> f64 (rat_of_int n) = rat_of_int n"
  using f64_pos_int [of n] f64_pos_int [of "- n"] by (auto simp: f64_def)

lemma f64_numeral: "numeral k \<le> (2 ^ 53 :: int) \<Longrightarrow> f64 (numeral k) = numeral k"
  using f64_int [of "numeral k"] by simp

lemma f64_1 [simp]: "f64 1 = 1"
  using f64_int [of 1] by simp

lemma f64_unit: "0 \<le> x \<Longrightarrow> x \<le> 1 \<Longrightarrow> 0 \<le> f64 x \<and> f64 x \<le> 1"
  using f64_mono [of x 1] f64_nonneg [of x] by simp

section \<open>float64 operations and conversions\<close>

definition fadd :: "rat \<Rightarrow> rat \<Rightarrow> rat" where "fadd a b = f64 (a + b)"
definition fsub :: "rat \<Rightarrow> rat \<Rightarrow> rat" where "fsub a b = f64 (a - b)"
definition fmul :: "rat \<Rightarrow> rat \<Rightarrow> rat" where "fmul a b = f64 (a * b)"
definition fdiv :: "rat \<Rightarrow> rat \<Rightarrow> rat" where "fdiv a b = f64 (a / b)"
definition float_of :: "int \<Rightarrow> rat" where "float_of n = f64 (rat_of_int n)"

text \<open>The conversion int(x) drops the fraction.\<close>

definition trunc :: "rat \<Rightarrow> int" where
  "trunc x = (if 0 \<le> x then \<lfloor>x\<rfloor> else \<lceil>x\<rceil>)"

lemmas float_ops = fadd_def fsub_def fmul_def fdiv_def float_of_def

lemma float_of_mono: "a \<le> b \<Longrightarrow> float_of a \<le> float_of b"
  by (simp add: float_of_def f64_mono)

lemma float_of_nonneg: "0 \<le> a \<Longrightarrow> 0 \<le> float_of a"
  by (simp add: float_of_def f64_nonneg)

lemma float_of_pos: "0 < a \<Longrightarrow> 0 < float_of a"
  using float_of_mono [of 1 a] by (simp add: float_of_def)

lemma fdiv_unit: "0 \<le> a \<Longrightarrow> a \<le> b \<Longrightarrow> 0 \<le> fdiv a b \<and> fdiv a b \<le> 1"
  unfolding fdiv_def by (rule f64_unit) (auto simp: divide_le_eq_1)

lemma fmul_unit: "0 \<le> a \<Longrightarrow> a \<le> 1 \<Longrightarrow> 0 \<le> b \<Longrightarrow> b \<le> 1 \<Longrightarrow> 0 \<le> fmul a b \<and> fmul a b \<le> 1"
  unfolding fmul_def by (rule f64_unit) (auto simp: mult_le_one)

lemma fmul_nonneg: "0 \<le> a \<Longrightarrow> 0 \<le> b \<Longrightarrow> 0 \<le> fmul a b"
  by (simp add: fmul_def f64_nonneg)

lemma fmul_scale:
  assumes "0 \<le> a" "a \<le> 1" "0 \<le> n" "n \<le> 2 ^ 53"
  shows "0 \<le> fmul a (rat_of_int n) \<and> fmul a (rat_of_int n) \<le> rat_of_int n"
proof -
  have "a * rat_of_int n \<le> 1 * rat_of_int n" using assms by (intro mult_right_mono) auto
  then have "f64 (a * rat_of_int n) \<le> f64 (rat_of_int n)" by (intro f64_mono) simp
  also have "\<dots> = rat_of_int n" using assms by (intro f64_int) simp
  finally show ?thesis using assms by (simp add: fmul_def f64_nonneg)
qed

lemma trunc_bounds: "0 \<le> x \<Longrightarrow> x \<le> rat_of_int n \<Longrightarrow> 0 \<le> trunc x \<and> trunc x \<le> n"
  by (simp add: trunc_def) (metis floor_mono floor_of_int)

lemma trunc_nonneg: "0 \<le> x \<Longrightarrow> 0 \<le> trunc x"
  by (simp add: trunc_def)

lemma trunc_mono: "x \<le> y \<Longrightarrow> trunc x \<le> trunc y"
  by (auto simp: trunc_def floor_mono ceiling_mono) (metis ceiling_le_zero le_cases order_trans zero_le_floor)

end
