(* ===== verification/Go_Strconv.thy ===== *)
theory Go_Strconv
  imports Go_Float Prelude
begin

text \<open>
  strconv.ParseFloat with bit size 64, and the float64 values it can produce: besides the finite
  ones a text can name an infinity or NaN. A text that is out of range is an error, as in Go.
  The conversion of such a value to int64 is the one of amd64.
\<close>

section \<open>float64 with infinities\<close>

datatype float64 = Fin rat | PosInf | NegInf | NaN

fun fl_le :: "float64 \<Rightarrow> float64 \<Rightarrow> bool" where
  "fl_le NaN _ = False"
| "fl_le _ NaN = False"
| "fl_le NegInf _ = True"
| "fl_le _ PosInf = True"
| "fl_le (Fin a) (Fin b) = (a \<le> b)"
| "fl_le _ _ = False"

fun fl_lt :: "float64 \<Rightarrow> float64 \<Rightarrow> bool" where
  "fl_lt (Fin a) (Fin b) = (a < b)"
| "fl_lt NaN _ = False"
| "fl_lt _ NaN = False"
| "fl_lt PosInf _ = False"
| "fl_lt _ NegInf = False"
| "fl_lt _ _ = True"

definition fl_round :: "rat \<Rightarrow> float64" where
  "fl_round q = (let r = f64 q in if 2 ^ 1024 \<le> r then PosInf else if r \<le> - (2 ^ 1024) then NegInf else Fin r)"

fun fl_neg :: "float64 \<Rightarrow> float64" where
  "fl_neg (Fin a) = Fin (- a)"
| "fl_neg PosInf = NegInf"
| "fl_neg NegInf = PosInf"
| "fl_neg NaN = NaN"

fun fl_add :: "float64 \<Rightarrow> float64 \<Rightarrow> float64" where
  "fl_add (Fin a) (Fin b) = fl_round (a + b)"
| "fl_add NaN _ = NaN"
| "fl_add _ NaN = NaN"
| "fl_add PosInf NegInf = NaN"
| "fl_add NegInf PosInf = NaN"
| "fl_add PosInf _ = PosInf"
| "fl_add _ PosInf = PosInf"
| "fl_add _ _ = NegInf"

definition fl_sub :: "float64 \<Rightarrow> float64 \<Rightarrow> float64" where
  "fl_sub a b = fl_add a (fl_neg b)"

text \<open>Division by a positive constant.\<close>

fun fl_div_const :: "float64 \<Rightarrow> rat \<Rightarrow> float64" where
  "fl_div_const (Fin a) c = fl_round (a / c)"
| "fl_div_const x c = x"

fun fl_to_int64 :: "float64 \<Rightarrow> int" where
  "fl_to_int64 (Fin a) = (if - (2 ^ 63) \<le> trunc a \<and> trunc a < 2 ^ 63 then trunc a else - (2 ^ 63))"
| "fl_to_int64 _ = - (2 ^ 63)"

text \<open>encoding/json has no text for an infinity or NaN: marshalling fails.\<close>

fun fl_finite :: "float64 \<Rightarrow> bool" where
  "fl_finite (Fin _) = True"
| "fl_finite _ = False"

section \<open>Scanning\<close>

definition digit_val :: "nat \<Rightarrow> char \<Rightarrow> nat option" where
  "digit_val base c =
     (let n = (of_char c :: nat); l = (of_char (lower_byte c) :: nat) in
      if 48 \<le> n \<and> n \<le> 57 then Some (n - 48)
      else if base = 16 \<and> 97 \<le> l \<and> l \<le> 102 then Some (l - 87)
      else None)"

text \<open>The mantissa: its digits as a number, how many follow the point, whether there is one, the rest.\<close>

record mantissa =
  mt_value :: nat
  mt_frac :: nat
  mt_dot :: bool
  mt_digits :: bool

fun scan_mantissa :: "nat \<Rightarrow> mantissa \<Rightarrow> string \<Rightarrow> mantissa \<times> string" where
  "scan_mantissa base m [] = (m, [])"
| "scan_mantissa base m (c # cs) =
     (if c = CHR ''_'' then scan_mantissa base m cs
      else if c = CHR ''.'' then (if mt_dot m then (m, c # cs) else scan_mantissa base (m\<lparr>mt_dot := True\<rparr>) cs)
      else (case digit_val base c of
          None \<Rightarrow> (m, c # cs)
        | Some d \<Rightarrow> scan_mantissa base
            (m\<lparr>mt_value := mt_value m * base + d, mt_digits := True,
               mt_frac := (if mt_dot m then mt_frac m + 1 else mt_frac m)\<rparr>) cs))"

fun scan_exponent :: "nat \<Rightarrow> string \<Rightarrow> nat \<times> string" where
  "scan_exponent e [] = (e, [])"
| "scan_exponent e (c # cs) =
     (if c = CHR ''_'' then scan_exponent e cs
      else (case digit_val 10 c of
          None \<Rightarrow> (e, c # cs)
        | Some d \<Rightarrow> scan_exponent (if e < 10000 then e * 10 + d else e) cs))"

definition strip_sign :: "string \<Rightarrow> bool \<times> string" where
  "strip_sign s = (case s of
     c # cs \<Rightarrow> if c = CHR ''+'' then (False, cs) else if c = CHR ''-'' then (True, cs) else (False, s)
   | [] \<Rightarrow> (False, s))"

text \<open>The signed exponent after e or p; None when no digit follows.\<close>

definition read_exponent :: "string \<Rightarrow> (int \<times> string) option" where
  "read_exponent s =
     (case strip_sign s of (neg, t) \<Rightarrow>
        (case t of
           [] \<Rightarrow> None
         | c # _ \<Rightarrow>
             if digit_val 10 c = None then None
             else (case scan_exponent 0 t of (e, rest) \<Rightarrow> Some (if neg then - int e else int e, rest))))"

text \<open>underscoreOK: an underscore stands between digits, or between the base prefix and a digit.\<close>

datatype seen = Start | Digit | Underscore | OtherChar

fun underscores_in :: "bool \<Rightarrow> seen \<Rightarrow> string \<Rightarrow> bool" where
  "underscores_in hex i [] = (i \<noteq> Underscore)"
| "underscores_in hex i (c # cs) =
     (if digit_val (if hex then 16 else 10) c \<noteq> None then underscores_in hex Digit cs
      else if c = CHR ''_'' then (if i \<noteq> Digit then False else underscores_in hex Underscore cs)
      else if i = Underscore then False
      else underscores_in hex OtherChar cs)"

definition underscore_ok :: "string \<Rightarrow> bool" where
  "underscore_ok s0 =
     (case strip_sign s0 of (_, s) \<Rightarrow>
        (case s of
           a # b # cs \<Rightarrow>
             if a = CHR ''0'' \<and> lower_byte b \<in> set ''box''
             then underscores_in (lower_byte b = CHR ''x'') Digit cs else underscores_in False Start s
         | _ \<Rightarrow> underscores_in False Start s))"

section \<open>ParseFloat\<close>

definition scale :: "nat \<Rightarrow> int \<Rightarrow> rat" where
  "scale base e = (if 0 \<le> e then rat_of_nat base ^ nat e else 1 / rat_of_nat base ^ nat (- e))"

definition no_mantissa :: mantissa where
  "no_mantissa = \<lparr>mt_value = 0, mt_frac = 0, mt_dot = False, mt_digits = False\<rparr>"

text \<open>The exact value of a well-formed literal, or None when the text is not one.\<close>

definition read_literal :: "string \<Rightarrow> rat option" where
  "read_literal s =
     (case strip_sign s of (neg, t) \<Rightarrow>
        let hex = (case t of a # b # _ # _ \<Rightarrow> a = CHR ''0'' \<and> lower_byte b = CHR ''x'' | _ \<Rightarrow> False);
            base = (if hex then 16 else 10);
            (m, rest) = scan_mantissa base no_mantissa (if hex then drop 2 t else t);
            expo = (case rest of
                c # cs \<Rightarrow> if lower_byte c = (if hex then CHR ''p'' else CHR ''e'') then read_exponent cs
                          else if hex then None else Some (0, rest)
              | [] \<Rightarrow> if hex then None else Some (0, []));
            sgn = (if neg then -1 else 1 :: rat)
        in if \<not> mt_digits m then None
           else (case expo of
               None \<Rightarrow> None
             | Some (e, left) \<Rightarrow>
                 if left \<noteq> [] \<or> (CHR ''_'' \<in> set s \<and> \<not> underscore_ok s) then None
                 else Some (sgn * rat_of_nat (mt_value m) * scale base (- int (mt_frac m)) *
                            scale (if hex then 2 else 10) e)))"

definition special :: "string \<Rightarrow> float64 option" where
  "special s =
     (case strip_sign s of (neg, t) \<Rightarrow>
        let l = map lower_byte t in
        if l = ''inf'' \<or> l = ''infinity'' then Some (if neg then NegInf else PosInf)
        else if map lower_byte s = ''nan'' then Some NaN
        else None)"

definition parse_float :: "string \<Rightarrow> float64 option" where
  "parse_float s =
     (case special s of
        Some x \<Rightarrow> Some x
      | None \<Rightarrow> (case read_literal s of
            None \<Rightarrow> None
          | Some q \<Rightarrow> (case fl_round q of Fin r \<Rightarrow> Some (Fin r) | _ \<Rightarrow> None)))"

lemma parse_float_nan: "parse_float ''NaN'' = Some NaN"
  by code_simp

lemma parse_float_literal: "parse_float ''-1_2.5e1'' = Some (Fin (- 125))"
  by code_simp

lemma parse_float_hex: "parse_float ''0x1p4'' = Some (Fin 16)"
  by code_simp

lemma parse_float_bad: "parse_float ''1__0'' = None \<and> parse_float '''' = None"
  by (intro conjI; code_simp)

end
