(* ===== verification/Quota.thy ===== *)
theory Quota
  imports Go_Strconv Go_Json Go_Time Storage
begin

text \<open>
  Quota accounting (internal/quota): snapshots of a provider's balance, the manager that keeps the
  latest one per provider, pool and metric with a history of 200, its document, the reader of an
  arbitrary balance document, the remote collector with its bounded retries, and the token
  ledger. Parameters are url.Parse (scheme and host), time.Parse (layout and text), the replies of
  the network per attempt, and whether the wait before a retry ends before the context does.
\<close>

section \<open>Snapshots\<close>

datatype quota_state = Available | Exhausted | QUnknown | NotSupported | OtherState string

record quota_snapshot =
  qs_provider :: string
  qs_pool :: string
  qs_metric :: string
  qs_unit :: string
  qs_state :: quota_state
  qs_remaining :: "float64 option"
  qs_used :: "float64 option"
  qs_limit :: "float64 option"
  qs_reset_at :: "instant option"
  qs_checked_at :: instant
  qs_fresh_until :: "instant option"
  qs_source :: string
  qs_confidence :: float64
  qs_error_type :: string

definition blank_snapshot :: quota_snapshot where
  "blank_snapshot = \<lparr>qs_provider = '''', qs_pool = '''', qs_metric = '''', qs_unit = '''',
     qs_state = OtherState '''', qs_remaining = None, qs_used = None, qs_limit = None, qs_reset_at = None,
     qs_checked_at = zero_time, qs_fresh_until = None, qs_source = '''', qs_confidence = Fin 0, qs_error_type = ''''\<rparr>"

definition fresh :: "instant \<Rightarrow> quota_snapshot \<Rightarrow> bool" where
  "fresh now s \<longleftrightarrow> (case qs_fresh_until s of None \<Rightarrow> True | Some t \<Rightarrow> now < t)"

definition hard_exhausted :: "instant \<Rightarrow> quota_snapshot \<Rightarrow> bool" where
  "hard_exhausted now s \<longleftrightarrow> qs_state s = Exhausted \<and> fresh now s"

definition has_facts :: "quota_snapshot list \<Rightarrow> bool" where
  "has_facts xs \<longleftrightarrow> list_ex (\<lambda>x. qs_state x = Available \<or> qs_state x = Exhausted) xs"

section \<open>The manager\<close>

record quota_manager =
  qm_items :: "(string, quota_snapshot) gomap"
  qm_history :: "quota_snapshot list"

definition new_quota :: quota_manager where
  "new_quota = \<lparr>qm_items = [], qm_history = []\<rparr>"

definition snapshot_key :: "quota_snapshot \<Rightarrow> string" where
  "snapshot_key x = qs_provider x @ [CHR 0x00] @ qs_pool x @ [CHR 0x00] @ qs_metric x"

definition quota_set :: "quota_snapshot \<Rightarrow> quota_manager \<Rightarrow> quota_manager" where
  "quota_set x m =
     (if qs_provider x = '''' then m
      else \<lparr>qm_items = mput (snapshot_key x) x (qm_items m), qm_history = last_n 200 (qm_history m @ [x])\<rparr>)"

definition quota_history :: "quota_manager \<Rightarrow> quota_snapshot list" where
  "quota_history m = qm_history m"

definition quota_all :: "quota_manager \<Rightarrow> quota_snapshot list" where
  "quota_all m = map snd (qm_items m)"

text \<open>The loop over the map that keeps the most recently checked entry satisfying a test.\<close>

fun latest :: "(quota_snapshot \<Rightarrow> bool) \<Rightarrow> quota_snapshot list \<Rightarrow> quota_snapshot option \<Rightarrow> quota_snapshot option" where
  "latest P [] found = found"
| "latest P (x # xs) found =
     latest P xs
       (if P x \<and> (case found of None \<Rightarrow> True | Some y \<Rightarrow> qs_checked_at x > qs_checked_at y) then Some x else found)"

definition get_metric :: "string \<Rightarrow> string \<Rightarrow> quota_manager \<Rightarrow> quota_snapshot option" where
  "get_metric p metric m = latest (\<lambda>x. qs_provider x = p \<and> qs_metric x = metric) (quota_all m) None"

definition quota_get :: "string \<Rightarrow> quota_manager \<Rightarrow> quota_snapshot option" where
  "quota_get p m = latest (\<lambda>x. qs_provider x = p) (quota_all m) None"

definition quota_unknown :: "string \<Rightarrow> instant \<Rightarrow> quota_snapshot" where
  "quota_unknown p now = blank_snapshot\<lparr>qs_provider := p, qs_state := QUnknown, qs_checked_at := now\<rparr>"

section \<open>The document\<close>

text \<open>A nil history is written as null and read back as nil.\<close>

record persisted_quota =
  pq_items :: "quota_snapshot list"
  pq_history :: "quota_snapshot list option"

definition marshals :: "quota_snapshot \<Rightarrow> bool" where
  "marshals x \<longleftrightarrow> fl_finite (qs_confidence x) \<and>
     list_all (\<lambda>f. case f of None \<Rightarrow> True | Some v \<Rightarrow> fl_finite v) [qs_remaining x, qs_used x, qs_limit x]"

definition quota_save ::
  "io \<Rightarrow> string \<Rightarrow> quota_manager \<Rightarrow> persisted_quota disk \<Rightarrow> bool \<times> persisted_quota disk" where
  "quota_save io p m d =
     (if p = '''' then (False, d)
      else
        (let h = quota_history m;
             st = \<lparr>pq_items = quota_all m, pq_history = (if h = [] then None else Some h)\<rparr>
         in if \<not> list_all marshals (quota_all m @ h) then (False, d)
            else (case write_atomic io st d of
              (ok, d') \<Rightarrow> if io_mkdir io \<and> io_write io \<and> \<not> io_rename io
                          then (ok, d'\<lparr>d_tmp := Missing\<rparr>) else (ok, d'))))"

definition put_snapshot :: "quota_snapshot \<Rightarrow> (string, quota_snapshot) gomap \<Rightarrow> (string, quota_snapshot) gomap" where
  "put_snapshot x its = (if qs_provider x \<noteq> '''' then mput (snapshot_key x) x its else its)"

definition add_missing :: "quota_snapshot \<Rightarrow> (string, quota_snapshot) gomap \<Rightarrow> (string, quota_snapshot) gomap" where
  "add_missing x its =
     (if qs_provider x \<noteq> '''' \<and> map_of its (snapshot_key x) = None then mput (snapshot_key x) x its else its)"

definition quota_load :: "string \<Rightarrow> persisted_quota read \<Rightarrow> quota_manager \<Rightarrow> bool \<times> quota_manager" where
  "quota_load p r m =
     (if p = '''' then (False, m)
      else (case r of
          Parsed st \<Rightarrow>
            (let h = (case pq_history st of None \<Rightarrow> [] | Some h \<Rightarrow> h);
                 its = fold add_missing h (fold put_snapshot (pq_items st) []);
                 h' = (case pq_history st of None \<Rightarrow> pq_items st | Some h \<Rightarrow> h)
             in (True, \<lparr>qm_items = its, qm_history = last_n 200 h'\<rparr>))
        | _ \<Rightarrow> (False, m)))"

section \<open>Reading a balance document\<close>

text \<open>
  The members of an object after Unmarshal: a repeated name keeps its last value. The order of the
  members is the order the map is visited in.
\<close>

function collect_fields :: "json \<Rightarrow> (string, json) gomap \<Rightarrow> (string, json) gomap"
  and collect_members :: "(string \<times> json) list \<Rightarrow> (string, json) gomap \<Rightarrow> (string, json) gomap"
  and collect_elements :: "json list \<Rightarrow> (string, json) gomap \<Rightarrow> (string, json) gomap" where
  "collect_fields (JObj kvs) f = collect_members kvs f"
| "collect_fields (JArr xs) f = collect_elements xs f"
| "collect_fields JNull f = f"
| "collect_fields (JBool b) f = f"
| "collect_fields (JNum q) f = f"
| "collect_fields (JStr s) f = f"
| "collect_members [] f = f"
| "collect_members ((k, v) # kvs) f =
     (if k \<in> fst ` set kvs then collect_members kvs f
      else collect_members kvs (collect_fields v (mput k v f)))"
| "collect_elements [] f = f"
| "collect_elements (x # xs) f = collect_elements xs (collect_fields x f)"
  by pat_completeness auto
termination
  by (relation "measure (\<lambda>x. case x of Inl (j, _) \<Rightarrow> size j | Inr (Inl (kvs, _)) \<Rightarrow> size_list (size_prod (\<lambda>_. 0) size) kvs
                         | Inr (Inr (xs, _)) \<Rightarrow> size_list size xs)") auto

definition json_number :: "json \<Rightarrow> float64 option" where
  "json_number j =
     (case j of JNum q \<Rightarrow> Some (Fin q) | JStr s \<Rightarrow> parse_float (trim_space s) | _ \<Rightarrow> None)"

fun number_field :: "(string, json) gomap \<Rightarrow> string list \<Rightarrow> float64 option" where
  "number_field flds [] = None"
| "number_field flds (name # names) =
     (case (case map_of flds name of None \<Rightarrow> None | Some v \<Rightarrow> json_number v) of
        Some n \<Rightarrow> Some n
      | None \<Rightarrow> number_field flds names)"

type_synonym time_parser = "string \<Rightarrow> string \<Rightarrow> instant option"

fun first_layout :: "time_parser \<Rightarrow> string list \<Rightarrow> string \<Rightarrow> instant option" where
  "first_layout tp [] s = None"
| "first_layout tp (l # ls) s = (case tp l (trim_space s) of Some t \<Rightarrow> Some t | None \<Rightarrow> first_layout tp ls s)"

definition parse_quota_time :: "time_parser \<Rightarrow> string \<Rightarrow> instant option" where
  "parse_quota_time tp s = first_layout tp [''2006-01-02T15:04:05Z07:00'', ''2006-01-02 15:04:05'', ''2006-01-02''] s"

definition reset_of :: "time_parser \<Rightarrow> (string, json) gomap \<Rightarrow> string \<Rightarrow> instant option" where
  "reset_of tp flds key =
     (case map_of flds key of
        None \<Rightarrow> None
      | Some raw \<Rightarrow>
          (case (case raw of JStr s \<Rightarrow> parse_quota_time tp s | _ \<Rightarrow> None) of
             Some t \<Rightarrow> Some t
           | None \<Rightarrow>
               (case number_field flds [key] of
                  None \<Rightarrow> None
                | Some n \<Rightarrow>
                    if fl_lt (Fin 0) n
                    then Some (fl_to_int64 (if fl_lt (Fin 1000000000000) n then fl_div_const n 1000 else n) * second)
                    else None)))"

fun first_reset :: "time_parser \<Rightarrow> (string, json) gomap \<Rightarrow> string list \<Rightarrow> instant option" where
  "first_reset tp flds [] = None"
| "first_reset tp flds (k # ks) = (case reset_of tp flds k of Some t \<Rightarrow> Some t | None \<Rightarrow> first_reset tp flds ks)"

definition quota_reset_time :: "time_parser \<Rightarrow> (string, json) gomap \<Rightarrow> instant option" where
  "quota_reset_time tp flds =
     first_reset tp flds [''reset_at'', ''reset_time'', ''resetAt'', ''renew_at'', ''expired_at'', ''expires_at'']"

definition balance_of :: "(string, json) gomap \<Rightarrow> float64 option" where
  "balance_of flds =
     (let remaining = number_field flds [''remaining'', ''balance'', ''credits'', ''quota'', ''available'',
            ''remain'', ''remain_quota'', ''remaining_quota'', ''quota_remaining''];
          used = number_field flds [''used'', ''usage'', ''used_quota'', ''consumed'', ''consumption'', ''total_used''];
          lim = number_field flds [''limit'', ''total'', ''quota_limit'', ''quota_total'', ''total_granted''];
          best = (case number_field flds [''total_available''] of Some a \<Rightarrow> Some a | None \<Rightarrow> remaining)
      in case (best, lim, used) of
           (Some r, _) \<Rightarrow> Some r
         | (None, Some l, Some u) \<Rightarrow> Some (fl_sub l u)
         | _ \<Rightarrow> None)"

definition unavailable_snapshot :: "string \<Rightarrow> instant \<Rightarrow> quota_snapshot" where
  "unavailable_snapshot p now =
     blank_snapshot\<lparr>qs_provider := p, qs_state := QUnknown, qs_checked_at := now, qs_error_type := ''quota_unavailable''\<rparr>"

text \<open>None as the body: it was not JSON. The result is an error text or a snapshot.\<close>

definition parse_remote_snapshot :: "time_parser \<Rightarrow> string \<Rightarrow> json option \<Rightarrow> instant \<Rightarrow> string + quota_snapshot" where
  "parse_remote_snapshot tp p raw checked =
     (case raw of
        None \<Rightarrow> Inl ''invalid JSON''
      | Some doc \<Rightarrow>
          (let flds = collect_fields doc [];
               used = number_field flds [''used'', ''usage'', ''used_quota'', ''consumed'', ''consumption'', ''total_used''];
               lim = number_field flds [''limit'', ''total'', ''quota_limit'', ''quota_total'', ''total_granted'']
           in case balance_of flds of
                None \<Rightarrow> Inl ''quota balance field unavailable''
              | Some r \<Rightarrow>
                  Inr (blank_snapshot\<lparr>qs_provider := p,
                         qs_state := (if fl_le r (Fin 0) then Exhausted else Available),
                         qs_checked_at := checked, qs_remaining := Some r, qs_used := used, qs_limit := lim,
                         qs_reset_at := quota_reset_time tp flds\<rparr>)))"

section \<open>The collectors\<close>

record collector =
  rc_provider :: string
  rc_url :: string
  rc_api_key :: string
  rc_retries :: int
  rc_delay :: duration

datatype quota_reply = QFailed string | QReply int "json option"

definition quota_record :: "collector \<Rightarrow> instant \<Rightarrow> quota_manager \<Rightarrow> quota_manager" where
  "quota_record c now m = quota_set (unavailable_snapshot (rc_provider c) now) m"

fun retry_quota :: "quota_reply \<Rightarrow> bool" where
  "retry_quota (QFailed e) = True"
| "retry_quota (QReply status _) = (status = 408 \<or> status = 429 \<or> status \<ge> 500)"

definition retry_delay :: "duration \<Rightarrow> nat \<Rightarrow> duration" where
  "retry_delay base attempt = i64 ((if base \<le> 0 then 100 * millisecond else base) * 2 ^ attempt)"

definition attempts_of :: "collector \<Rightarrow> nat" where
  "attempts_of c = (let a = i64 (rc_retries c + 1) in nat (if a < 1 then 1 else if a > 4 then 4 else a))"

definition url_allowed :: "(string \<Rightarrow> (string \<times> string) option) \<Rightarrow> string \<Rightarrow> bool" where
  "url_allowed parse u =
     (case parse u of None \<Rightarrow> False | Some (scheme, host) \<Rightarrow> (scheme = ''http'' \<or> scheme = ''https'') \<and> host \<noteq> '''')"

fun reply_error :: "quota_reply \<Rightarrow> string" where
  "reply_error (QFailed e) = e"
| "reply_error (QReply status _) = ''quota HTTP '' @ itoa status"

definition good_reply :: "quota_reply \<Rightarrow> json option option" where
  "good_reply r = (case r of QReply status body \<Rightarrow> if 200 \<le> status \<and> status < 300 then Some body else None
                             | QFailed e \<Rightarrow> None)"

text \<open>
  The loop from one attempt on, with the attempts that are left; the result is the error, the number
  of requests sent in all, and the manager.
\<close>

fun refresh_loop ::
  "(nat \<Rightarrow> quota_reply) \<Rightarrow> (nat \<Rightarrow> duration \<Rightarrow> bool) \<Rightarrow> time_parser \<Rightarrow> instant \<Rightarrow> collector \<Rightarrow> nat \<Rightarrow> nat \<Rightarrow>
     quota_manager \<Rightarrow> string option \<times> nat \<times> quota_manager" where
  "refresh_loop net wait tp now c attempt 0 m = (None, attempt, quota_record c now m)"
| "refresh_loop net wait tp now c attempt (Suc left) m =
     (case good_reply (net attempt) of
        Some body \<Rightarrow>
          (case parse_remote_snapshot tp (rc_provider c) body now of
             Inl e \<Rightarrow> (Some e, attempt + 1, quota_record c now m)
           | Inr s \<Rightarrow> (None, attempt + 1, quota_set s m))
      | None \<Rightarrow>
          if \<not> retry_quota (net attempt) \<or> left = 0
          then (Some (reply_error (net attempt)), attempt + 1, quota_record c now m)
          else if \<not> wait attempt (retry_delay (rc_delay c) attempt)
          then (Some ''context done'', attempt + 1, quota_record c now m)
          else refresh_loop net wait tp now c (attempt + 1) left m)"

definition quota_refresh ::
  "(string \<Rightarrow> (string \<times> string) option) \<Rightarrow> (nat \<Rightarrow> quota_reply) \<Rightarrow> (nat \<Rightarrow> duration \<Rightarrow> bool) \<Rightarrow> time_parser \<Rightarrow>
     instant \<Rightarrow> collector \<Rightarrow> quota_manager \<Rightarrow> string option \<times> nat \<times> quota_manager" where
  "quota_refresh parse net wait tp now c m =
     (if trim_space (rc_url c) = '''' then (Some ''quota URL not configured'', 0, quota_record c now m)
      else if \<not> url_allowed parse (rc_url c) then (Some ''quota URL invalid'', 0, quota_record c now m)
      else refresh_loop net wait tp now c 0 (attempts_of c) m)"

definition file_refresh ::
  "time_parser \<Rightarrow> string \<Rightarrow> json read \<Rightarrow> instant \<Rightarrow> quota_manager \<Rightarrow> bool \<times> quota_manager" where
  "file_refresh tp p r now m =
     (case r of
        NotExist \<Rightarrow> (False, quota_set (unavailable_snapshot p now) m)
      | ReadFailed \<Rightarrow> (False, quota_set (unavailable_snapshot p now) m)
      | BadJson \<Rightarrow> (False, quota_set (unavailable_snapshot p now) m)
      | Parsed j \<Rightarrow>
          (case parse_remote_snapshot tp p (Some j) now of
             Inl e \<Rightarrow> (False, quota_set (unavailable_snapshot p now) m)
           | Inr s \<Rightarrow> (True, quota_set s m)))"

section \<open>The token ledger\<close>

type_synonym ledger = "int store"

record reservation =
  rsv_provider :: string
  rsv_tokens :: int
  rsv_at :: instant

definition new_ledger :: ledger where
  "new_ledger = \<lparr>items = [], path = '''', disk = blank_disk\<rparr>"

definition ledger_load :: "string \<Rightarrow> bool \<Rightarrow> (string, int) gomap disk \<Rightarrow> ledger \<Rightarrow> ledger" where
  "ledger_load p readable d l =
     (let l1 = l\<lparr>path := p, disk := d\<rparr> in
      case read_doc readable (d_file d) of Parsed its \<Rightarrow> l1\<lparr>items := fold (\<lambda>(k, v). mput k v) its (items l1)\<rparr> | _ \<Rightarrow> l1)"

definition ledger_reserve :: "io \<Rightarrow> string \<Rightarrow> int \<Rightarrow> instant \<Rightarrow> ledger \<Rightarrow> reservation \<times> ledger" where
  "ledger_reserve io p tokens now l =
     (\<lparr>rsv_provider = p, rsv_tokens = tokens, rsv_at = now\<rparr>,
      persist_store io (l\<lparr>items := mput p (i64 (mget 0 (items l) p + tokens)) (items l)\<rparr>))"

definition ledger_release :: "io \<Rightarrow> reservation \<Rightarrow> ledger \<Rightarrow> ledger" where
  "ledger_release io r l =
     (let n = i64 (mget 0 (items l) (rsv_provider r) - rsv_tokens r);
          v = (if n < 0 then 0 else n)
      in persist_store io (l\<lparr>items := mput (rsv_provider r) v (items l)\<rparr>))"

definition ledger_snapshot :: "ledger \<Rightarrow> (string, int) gomap" where
  "ledger_snapshot l = items l"

end
