(* ===== verification/Quota_Props.thy ===== *)
theory Quota_Props
  imports Quota "HOL-Library.Multiset"
begin

text \<open>
  What the quota component guarantees: one refresh sends a bounded number of requests and always
  leaves exactly one new snapshot, the document reads back as the same manager, and the ledger
  holds the sum of the reservations that have not been released.
\<close>

section \<open>Refreshing\<close>

definition outcome :: "instant \<Rightarrow> string \<Rightarrow> string option \<times> quota_snapshot \<Rightarrow> bool" where
  "outcome now p ex \<longleftrightarrow> qs_provider (snd ex) = p \<and> qs_checked_at (snd ex) = now \<and>
     (case fst ex of
        None \<Rightarrow> qs_state (snd ex) \<in> {Available, Exhausted} \<and>
                (qs_state (snd ex) = Exhausted \<longleftrightarrow> fl_le (the (qs_remaining (snd ex))) (Fin 0))
      | Some e \<Rightarrow> snd ex = unavailable_snapshot p now)"

lemma parse_outcome:
  assumes "parse_remote_snapshot tp p raw now = Inr s"
  shows "outcome now p (None, s) \<and> qs_remaining s \<noteq> None"
proof -
  obtain doc where doc: "raw = Some doc" using assms by (cases raw) (simp_all add: parse_remote_snapshot_def)
  then obtain r where r: "balance_of (collect_fields doc []) = Some r"
    using assms by (cases "balance_of (collect_fields doc [])") (simp_all add: parse_remote_snapshot_def Let_def)
  have "qs_provider s = p \<and> qs_checked_at s = now \<and> qs_remaining s = Some r \<and>
      qs_state s = (if fl_le r (Fin 0) then Exhausted else Available)"
    using assms unfolding parse_remote_snapshot_def Let_def doc option.case r Inr_inject by auto
  then show ?thesis by (simp add: outcome_def)
qed

lemma unavailable_state [simp]: "qs_state (unavailable_snapshot p now) = QUnknown"
  by (simp add: unavailable_snapshot_def)

lemma unavailable_outcome: "outcome now p (Some e, unavailable_snapshot p now)"
  by (simp add: outcome_def unavailable_snapshot_def)

definition settled :: "instant \<Rightarrow> string \<Rightarrow> quota_manager \<Rightarrow> string option \<Rightarrow> quota_manager \<Rightarrow> bool" where
  "settled now p m e m' \<longleftrightarrow> (\<exists>x. m' = quota_set x m \<and> outcome now p (e, x))"

lemma settled_record: "settled now (rc_provider c) m (Some e) (quota_record c now m)"
  unfolding settled_def quota_record_def using unavailable_outcome by blast

lemma refresh_loop_outcome:
  "refresh_loop net wait tp now c k (Suc left) m = (e, n, m') \<Longrightarrow>
     k < n \<and> n \<le> k + Suc left \<and> settled now (rc_provider c) m e m'"
proof (induction left arbitrary: k)
  case 0
  show ?case
  proof (cases "good_reply (net k)")
    case None
    then show ?thesis using 0 settled_record by auto
  next
    case (Some body)
    then show ?thesis using 0 parse_outcome settled_record
      by (cases "parse_remote_snapshot tp (rc_provider c) body now") (auto simp: settled_def)
  qed
next
  case (Suc left)
  show ?case
  proof (cases "good_reply (net k)")
    case None
    consider "\<not> retry_quota (net k)" | "retry_quota (net k)" "\<not> wait k (retry_delay (rc_delay c) k)"
      | "retry_quota (net k)" "wait k (retry_delay (rc_delay c) k)" by blast
    then show ?thesis
    proof cases
      case 3
      then have "refresh_loop net wait tp now c (k + 1) (Suc left) m = (e, n, m')"
        using Suc.prems None by simp
      from Suc.IH [OF this] show ?thesis by simp
    qed (use Suc.prems None settled_record in auto)
  next
    case (Some body)
    then show ?thesis using Suc.prems parse_outcome settled_record
      by (cases "parse_remote_snapshot tp (rc_provider c) body now") (auto simp: settled_def)
  qed
qed

lemma attempts_bounds: "1 \<le> attempts_of c \<and> attempts_of c \<le> 4"
  by (simp add: attempts_of_def Let_def nat_le_iff Suc_le_eq)

text \<open>
  C26. Whatever the upstream answers, a refresh sends at most four requests and stores exactly one
  snapshot of the provider. Without an error the snapshot is available or exhausted, exhausted
  exactly when the balance is not positive; with an error it is the unknown one, so a refresh that
  fails never leaves a provider looking exhausted.
\<close>

theorem refresh_stores_one_snapshot:
  "case quota_refresh parse net wait tp now c m of (e, n, m') \<Rightarrow>
     n \<le> 4 \<and> (\<exists>x. m' = quota_set x m \<and> outcome now (rc_provider c) (e, x) \<and>
       (e \<noteq> None \<longrightarrow> \<not> hard_exhausted now x))"
proof -
  obtain e n m' where r: "quota_refresh parse net wait tp now c m = (e, n, m')" by (metis prod_cases3)
  have "n \<le> 4 \<and> settled now (rc_provider c) m e m'"
  proof (cases "trim_space (rc_url c) = '''' \<or> \<not> url_allowed parse (rc_url c)")
    case True
    then show ?thesis using r settled_record
      by (cases "trim_space (rc_url c) = ''''") (auto simp: quota_refresh_def)
  next
    case False
    obtain k where k: "attempts_of c = Suc k" "Suc k \<le> 4" using attempts_bounds [of c] by (cases "attempts_of c") auto
    from False r k(1) have "refresh_loop net wait tp now c 0 (Suc k) m = (e, n, m')" by (simp add: quota_refresh_def)
    from refresh_loop_outcome [OF this] k(2) show ?thesis by auto
  qed
  moreover have "\<not> hard_exhausted now x" if "outcome now (rc_provider c) (e, x)" "e \<noteq> None" for x :: quota_snapshot
    proof -
    have "x = unavailable_snapshot (rc_provider c) now" using that by (auto simp: outcome_def)
    then show ?thesis by (simp add: hard_exhausted_def)
  qed
  ultimately show ?thesis by (auto simp: r settled_def)
qed

definition flaky_collector :: collector where
  "flaky_collector = \<lparr>rc_provider = ''p'', rc_url = ''u'', rc_api_key = '''', rc_retries = 2, rc_delay = 0\<rparr>"

theorem refresh_stores_one_snapshot_witness:
  "\<exists>m'. quota_refresh (\<lambda>u. Some (''http'', ''h'')) (\<lambda>n. QFailed ''down'') (\<lambda>n d. True) (\<lambda>l s. None) 5 flaky_collector new_quota
       = (Some ''down'', 3, m') \<and> (\<exists>x. m' = quota_set x new_quota \<and> \<not> hard_exhausted 5 x)"
proof -
  have "trim_space ''u'' = ''u''" by code_simp
  then have "quota_refresh (\<lambda>u. Some (''http'', ''h'')) (\<lambda>n. QFailed ''down'') (\<lambda>n d. True) (\<lambda>l s. None) 5 flaky_collector new_quota
      = (Some ''down'', 3, quota_record flaky_collector 5 new_quota)"
    by (simp add: quota_refresh_def url_allowed_def flaky_collector_def attempts_of_def i64_id good_reply_def eval_nat_numeral)
  with refresh_stores_one_snapshot [where parse = "\<lambda>u. Some (''http'', ''h'')" and net = "\<lambda>n. QFailed ''down''" and
      wait = "\<lambda>n d. True" and tp = "\<lambda>l s. None" and now = 5 and c = flaky_collector and m = new_quota]
  show ?thesis by auto
qed

section \<open>The document\<close>

definition quota_inv :: "(quota_snapshot \<Rightarrow> bool) \<Rightarrow> quota_manager \<Rightarrow> bool" where
  "quota_inv P m \<longleftrightarrow> wf_map (qm_items m) \<and> length (qm_history m) \<le> 200 \<and>
     (\<forall>k x. (k, x) \<in> set (qm_items m) \<longrightarrow> k = snapshot_key x \<and> qs_provider x \<noteq> '''' \<and> P x) \<and>
     (\<forall>x \<in> set (qm_history m). P x \<and> map_of (qm_items m) (snapshot_key x) \<noteq> None) \<and>
     (qm_history m = [] \<longrightarrow> qm_items m = [])"

lemma quota_inv_new [simp]: "quota_inv P new_quota"
  by (simp add: quota_inv_def new_quota_def)

lemma quota_inv_set:
  assumes "quota_inv P m" and "P x" shows "quota_inv P (quota_set x m)"
proof (cases "qs_provider x = ''''")
  case False
  have "\<forall>y \<in> set (last_n 200 (qm_history m @ [x])). y \<in> set (qm_history m) \<or> y = x"
    using set_last_n [of 200 "qm_history m @ [x]"] by auto
  moreover have "last_n 200 (qm_history m @ [x]) \<noteq> []"
    using length_last_n [of 200 "qm_history m @ [x]"] by fastforce
  ultimately show ?thesis using assms False
    by (auto simp: quota_inv_def quota_set_def set_mput_wf split: if_splits)
qed (simp add: quota_set_def assms)

lemma quota_inv_run: "quota_inv P m \<Longrightarrow> list_all P xs \<Longrightarrow> quota_inv P (fold quota_set xs m)"
  by (induction xs arbitrary: m) (auto simp: quota_inv_set)

lemma fold_put_snapshot:
  assumes "distinct (map fst kxs)" and "\<forall>(k, x) \<in> set kxs. k = snapshot_key x \<and> qs_provider x \<noteq> ''''"
  shows "map_of (fold put_snapshot (map snd kxs) its) k =
    (case map_of kxs k of Some x \<Rightarrow> Some x | None \<Rightarrow> map_of its k)"
  using assms
proof (induction kxs arbitrary: its)
  case Nil
  then show ?case by simp
next
  case (Cons kx kxs)
  obtain k0 x where kx: "kx = (k0, x)" by (cases kx)
  from Cons.prems kx have "map_of kxs k0 = None" by (auto simp: map_of_eq_None_iff)
  with Cons show ?case by (auto simp: kx put_snapshot_def split: option.splits)
qed

lemma fold_add_missing_id:
  "\<forall>x \<in> set xs. map_of its (snapshot_key x) \<noteq> None \<Longrightarrow> fold add_missing xs its = its"
  by (induction xs) (auto simp: add_missing_def)

text \<open>
  The quota document is a faithful restart: after any sequence of snapshots whose numbers are
  finite, a successful save is read back as the same lookups and the same history of at most 200.
\<close>

theorem quota_restart:
  assumes "p \<noteq> ''''" and "io_ok io" and "list_all marshals xs"
  shows "let m = fold quota_set xs new_quota;
             (ok, d') = quota_save io p m d;
             (loaded, m') = quota_load p (read_doc True (d_file d')) m0
         in ok \<and> loaded \<and> qm_history m' = qm_history m \<and> length (qm_history m') \<le> 200 \<and>
            map_of (qm_items m') = map_of (qm_items m)"
proof -
  let ?m = "fold quota_set xs new_quota"
  have inv: "quota_inv marshals ?m" using assms(3) by (intro quota_inv_run) simp
  then have fin: "list_all marshals (quota_all ?m @ qm_history ?m)"
    by (auto simp: quota_inv_def quota_all_def list_all_iff)
  let ?st = "\<lparr>pq_items = quota_all ?m, pq_history = (if qm_history ?m = [] then None else Some (qm_history ?m))\<rparr>"
  have save: "quota_save io p ?m d = write_atomic io ?st d"
    using assms(1,2) fin by (auto simp: quota_save_def quota_history_def io_ok_def Let_def split: prod.split)
  obtain d' where w: "write_atomic io ?st d = (True, d')" and doc: "d_file d' = Doc ?st"
    using assms(2) by (auto simp: write_atomic_def io_ok_def)
  have lookups: "map_of (fold put_snapshot (quota_all ?m) []) k = map_of (qm_items ?m) k" for k
  proof -
    have "distinct (map fst (qm_items ?m))" and "\<forall>(k, x) \<in> set (qm_items ?m). k = snapshot_key x \<and> qs_provider x \<noteq> ''''"
      using inv by (auto simp: quota_inv_def wf_map_def)
    from fold_put_snapshot [OF this, of "[]" k] show ?thesis
      unfolding quota_all_def by (simp split: option.splits)
  qed
  have missing: "fold add_missing (qm_history ?m) (fold put_snapshot (quota_all ?m) []) = fold put_snapshot (quota_all ?m) []"
    using inv by (intro fold_add_missing_id) (simp add: lookups quota_inv_def)
  have len: "length (qm_history ?m) \<le> 200" using inv by (simp add: quota_inv_def)
  then have last: "last_n 200 (qm_history ?m) = qm_history ?m" by (simp add: last_n_def)
  have "qm_history ?m = [] \<Longrightarrow> quota_all ?m = []" using inv by (simp add: quota_inv_def quota_all_def)
  then have "quota_load p (Parsed ?st) m0 = (True, \<lparr>qm_items = fold put_snapshot (quota_all ?m) [], qm_history = qm_history ?m\<rparr>)"
    using assms(1) missing last by (auto simp: quota_load_def)
  then show ?thesis unfolding Let_def save w prod.case doc read_doc_Doc using len lookups by auto
qed

lemma blank_marshals: "marshals (blank_snapshot\<lparr>qs_provider := p, qs_state := st, qs_checked_at := t\<rparr>)"
  by (simp add: marshals_def blank_snapshot_def)

theorem quota_restart_witness:
  "\<exists>d' m'. quota_save good_io ''q'' (quota_set (quota_unknown ''p'' 5) new_quota) blank_disk = (True, d') \<and>
     quota_load ''q'' (read_doc True (d_file d')) new_quota = (True, m') \<and>
     qm_history m' = [quota_unknown ''p'' 5]"
proof -
  have ne: "''q'' \<noteq> []" and fin: "list_all marshals [quota_unknown ''p'' 5]"
    by (simp_all add: quota_unknown_def blank_marshals)
  have hist: "qm_history (quota_set (quota_unknown ''p'' 5) new_quota) = [quota_unknown ''p'' 5]"
    by (simp add: quota_set_def quota_unknown_def blank_snapshot_def new_quota_def last_n_def)
  show ?thesis using quota_restart [OF ne io_ok_good fin, of blank_disk new_quota] hist
    by (auto simp: Let_def split: prod.splits)
qed

section \<open>A balance that is not a number\<close>

definition nan_document :: json where
  "nan_document = JObj [(''balance'', JStr ''NaN'')]"

definition nan_snapshot :: quota_snapshot where
  "nan_snapshot = blank_snapshot\<lparr>qs_provider := ''p'', qs_state := Available, qs_remaining := Some NaN\<rparr>"

lemma nan_parsed:
  "parse_remote_snapshot tp ''p'' (Some nan_document) now = Inr (nan_snapshot\<lparr>qs_checked_at := now\<rparr>)"
proof -
  have flds: "collect_fields nan_document [] = [(''balance'', JStr ''NaN'')]" by (simp add: nan_document_def)
  have "trim_space ''NaN'' = ''NaN''" by code_simp
  then have num: "json_number (JStr ''NaN'') = Some NaN" by (simp add: json_number_def parse_float_nan)
  show ?thesis
    by (simp add: parse_remote_snapshot_def flds balance_of_def num quota_reset_time_def reset_of_def
        nan_snapshot_def blank_snapshot_def)
qed

lemma fold_quota_set_history:
  "qm_history (fold quota_set xs m) = (if filter (\<lambda>x. qs_provider x \<noteq> '''') xs = [] then qm_history m
     else last_n 200 (qm_history m @ filter (\<lambda>x. qs_provider x \<noteq> '''') xs))"
proof (induction xs arbitrary: m)
  case Nil
  then show ?case by simp
next
  case (Cons x xs)
  then show ?case by (auto simp: quota_set_def last_n_append)
qed

text \<open>
  A balance sent as the text NaN is taken for an available quota, because the comparison with
  zero is false, and encoding/json cannot write it: until 200 newer snapshots have pushed it out of
  the history, no save of the quota document succeeds, whatever else is recorded.
\<close>

theorem nan_balance_blocks_save:
  "\<exists>s. parse_remote_snapshot tp ''p'' (Some nan_document) now = Inr s \<and> qs_state s = Available \<and>
     quota_save io fname (fold quota_set (take 199 xs) (quota_set s m)) d = (False, d)"
proof -
  let ?s = "nan_snapshot\<lparr>qs_checked_at := now\<rparr>" and ?ys = "filter (\<lambda>x. qs_provider x \<noteq> '''') (take 199 xs)"
  let ?m = "fold quota_set (take 199 xs) (quota_set ?s m)"
  have len: "length ?ys \<le> 199" by (metis length_filter_le length_take min.cobounded2 le_trans)
  have "?s \<in> set (last_n 200 (qm_history m @ ?s # ?ys))"
    by (rule last_n_keeps) (use len in simp)
  moreover have "qm_history ?m = last_n 200 (qm_history m @ ?s # ?ys)"
  proof -
    have "qm_history (quota_set ?s m) = last_n 200 (qm_history m @ [?s])"
      by (simp add: quota_set_def nan_snapshot_def)
    then show ?thesis by (simp add: fold_quota_set_history last_n_append)
  qed
  ultimately have "?s \<in> set (qm_history ?m)" by metis
  moreover have "\<not> marshals ?s" by (simp add: marshals_def nan_snapshot_def)
  ultimately have "\<not> list_all marshals (quota_all ?m @ quota_history ?m)"
    by (auto simp: quota_history_def list_all_iff)
  then have "quota_save io fname ?m d = (False, d)" by (auto simp: quota_save_def Let_def)
  then show ?thesis using nan_parsed by (intro exI [of _ ?s]) (simp add: nan_snapshot_def)
qed

section \<open>The ledger\<close>

text \<open>Reservations that are out, after any sequence of reserving and releasing what was reserved.\<close>

definition reserved_for :: "string \<Rightarrow> reservation multiset \<Rightarrow> int" where
  "reserved_for p out = sum_mset (image_mset rsv_tokens (filter_mset (\<lambda>r. rsv_provider r = p) out))"

inductive ledger_reach :: "ledger \<Rightarrow> reservation multiset \<Rightarrow> bool" where
  start: "ledger_reach new_ledger {#}"
| take: "ledger_reach l out \<Longrightarrow> 0 \<le> n \<Longrightarrow> reserved_for p out + n < 2 ^ 63 \<Longrightarrow>
    ledger_reserve io p n now l = (r, l') \<Longrightarrow> ledger_reach l' (add_mset r out)"
| give: "ledger_reach l out \<Longrightarrow> r \<in># out \<Longrightarrow> ledger_reach (ledger_release io r l) (out - {#r#})"

lemma reserved_for_add: "reserved_for p (add_mset r out) = (if rsv_provider r = p then rsv_tokens r else 0) + reserved_for p out"
  by (simp add: reserved_for_def)

lemma reserved_for_nonneg: "\<forall>r \<in># out. 0 \<le> rsv_tokens r \<Longrightarrow> 0 \<le> reserved_for p out"
  by (induction out) (auto simp: reserved_for_add, simp add: reserved_for_def)

lemma ledger_reach_inv:
  "ledger_reach l out \<Longrightarrow> (\<forall>r \<in># out. 0 \<le> rsv_tokens r) \<and>
     (\<forall>p. mget 0 (items l) p = reserved_for p out \<and> 0 \<le> reserved_for p out \<and> reserved_for p out < 2 ^ 63)"
proof (induction rule: ledger_reach.induct)
  case start
  then show ?case by (simp add: new_ledger_def reserved_for_def)
next
  case (take l out n p io now r l')
  then have r: "r = \<lparr>rsv_provider = p, rsv_tokens = n, rsv_at = now\<rparr>"
    and l': "l' = persist_store io (l\<lparr>items := mput p (i64 (mget 0 (items l) p + n)) (items l)\<rparr>)"
    by (auto simp: ledger_reserve_def)
  have "0 \<le> reserved_for p out" using take.IH by blast
  then have "i64 (reserved_for p out + n) = reserved_for p out + n" using take.hyps by (intro i64_id) linarith+
  then show ?case using take by (auto simp: r l' reserved_for_add)
next
  case (give l out r io)
  then obtain rest where out: "out = add_mset r rest" by (metis insert_DiffM)
  let ?p = "rsv_provider r"
  have nonneg: "0 \<le> reserved_for q rest" for q
    using give.IH by (intro reserved_for_nonneg) (simp add: out)
  have IH: "mget 0 (items l) q = reserved_for q out" "reserved_for q out < 2 ^ 63" and r: "0 \<le> rsv_tokens r" for q
    using give.IH by (auto simp: out)
  have sum: "reserved_for ?p out = rsv_tokens r + reserved_for ?p rest" and same: "q \<noteq> ?p \<Longrightarrow> reserved_for q out = reserved_for q rest" for q
    by (simp_all add: out reserved_for_add)
  have now: "mget 0 (items l) ?p = rsv_tokens r + reserved_for ?p rest" using IH(1) sum by simp
  have small: "reserved_for q rest < 2 ^ 63" for q
    using IH(2) [of q] r sum same [of q] by (cases "q = ?p") auto
  have "i64 (mget 0 (items l) ?p - rsv_tokens r) = reserved_for ?p rest"
    unfolding now using nonneg [of ?p] small [of ?p] by (simp add: i64_id)
  then have "mget 0 (items (ledger_release io r l)) q = reserved_for q rest" for q
    using nonneg [of q] IH(1) [of q] same [of q] by (auto simp: ledger_release_def Let_def)
  then show ?case using nonneg small give.IH by (auto simp: out)
qed

text \<open>
  C25. The ledger refines the multiset of outstanding reservations: after any sequence of reserving
  non-negative amounts (of less than 2^63 tokens in all per provider) and releasing what was
  reserved, each provider's counter is exactly the sum of its reservations that are still out, so
  the clamp at zero is never reached and releasing everything returns to zero.
\<close>

theorem ledger_balance:
  assumes "ledger_reach l out"
  shows "mget 0 (ledger_snapshot l) p = reserved_for p out \<and> 0 \<le> reserved_for p out \<and>
     (\<forall>r \<in># out. i64 (mget 0 (items l) (rsv_provider r) - rsv_tokens r) \<ge> 0)"
proof -
  note inv = ledger_reach_inv [OF assms]
  have "0 \<le> i64 (mget 0 (items l) (rsv_provider r) - rsv_tokens r)" if r: "r \<in># out" for r
  proof -
    obtain rest where out: "out = add_mset r rest" using r by (metis insert_DiffM)
    have "ledger_reach (ledger_release good_io r l) (out - {#r#})" using assms r by (rule ledger_reach.give)
    then have ge: "0 \<le> reserved_for (rsv_provider r) rest" using ledger_reach_inv by (simp add: out)
    have sum: "reserved_for (rsv_provider r) out = rsv_tokens r + reserved_for (rsv_provider r) rest"
      by (simp add: out reserved_for_add)
    have rest: "mget 0 (items l) (rsv_provider r) - rsv_tokens r = reserved_for (rsv_provider r) rest"
      using inv unfolding sum [symmetric] by (simp add: sum)
    have "reserved_for (rsv_provider r) out < 2 ^ 63" and "0 \<le> rsv_tokens r" using inv r by blast+
    then have "reserved_for (rsv_provider r) rest < 2 ^ 63" using sum by linarith
    with ge show ?thesis by (simp add: rest i64_id)
  qed
  with inv show ?thesis by (simp add: ledger_snapshot_def)
qed

theorem ledger_balance_witness:
  "mget 0 (ledger_snapshot (snd (ledger_reserve good_io ''p'' 40 0 (snd (ledger_reserve good_io ''p'' 2 0 new_ledger))))) ''p'' = 42"
proof -
  let ?r = "\<lambda>n. \<lparr>rsv_provider = ''p'', rsv_tokens = n, rsv_at = 0\<rparr>"
  let ?l1 = "snd (ledger_reserve good_io ''p'' 2 0 new_ledger)"
  have r1: "ledger_reserve good_io ''p'' 2 0 new_ledger = (?r 2, ?l1)" by (simp add: ledger_reserve_def)
  have "ledger_reach ?l1 {#?r 2#}"
    by (rule ledger_reach.take [OF ledger_reach.start _ _ r1]) (simp_all add: reserved_for_def)
  moreover have r2: "ledger_reserve good_io ''p'' 40 0 ?l1 = (?r 40, snd (ledger_reserve good_io ''p'' 40 0 ?l1))"
    by (simp add: ledger_reserve_def)
  ultimately have "ledger_reach (snd (ledger_reserve good_io ''p'' 40 0 ?l1)) {#?r 40, ?r 2#}"
    by (intro ledger_reach.take [OF _ _ _ r2]) (simp_all add: reserved_for_def)
  from ledger_balance [OF this, of "''p''"] show ?thesis by (simp add: reserved_for_def)
qed

end
