(* ===== verification/Capability.thy ===== *)
theory Capability
  imports Catalog_Policy
begin

text \<open>
  The capability matrix (internal/capability/matrix.go): applying the result of a probe to a model,
  and deciding whether a model supports a need, evidence first and declared flags after it.
\<close>

section \<open>Flags and evidence\<close>

definition set_flag :: "string \<Rightarrow> bool \<Rightarrow> model \<Rightarrow> model" where
  "set_flag cap b m =
     (if cap = ''tools'' then m\<lparr>m_tools := b\<rparr>
      else if cap = ''vision'' then m\<lparr>m_vision := b\<rparr>
      else if cap = ''structured_output'' then m\<lparr>m_structured_output := b\<rparr>
      else if cap = ''parallel_tools'' then m\<lparr>m_parallel_tools := b\<rparr>
      else if cap = ''thinking_blocks'' then m\<lparr>m_thinking_blocks := b\<rparr>
      else m)"

definition apply_evidence :: "string \<times> evidence \<Rightarrow> model \<Rightarrow> model" where
  "apply_evidence ke m = (case ke of (k, v) \<Rightarrow>
     set_flag k (ev_supported v) (m\<lparr>m_capability_evidence := mput k v (m_capability_evidence m)\<rparr>))"

definition apply_probe :: "instant \<Rightarrow> (string, evidence) gomap \<Rightarrow> model \<Rightarrow> model" where
  "apply_probe now caps m = (fold apply_evidence caps m)\<lparr>m_updated_at := now\<rparr>"

definition flag_of :: "model \<Rightarrow> string \<Rightarrow> bool" where
  "flag_of m need =
     (if need = ''tools'' then m_tools m
      else if need = ''vision'' then m_vision m
      else if need = ''structured_output'' then m_structured_output m
      else if need = ''parallel_tools'' then m_parallel_tools m
      else if need = ''thinking_blocks'' then m_thinking_blocks m
      else need \<in> set (m_capabilities m))"

definition supports :: "model \<Rightarrow> string \<Rightarrow> bool" where
  "supports m need = (case map_of (m_capability_evidence m) need of
     Some e \<Rightarrow> ev_supported e | None \<Rightarrow> flag_of m need)"

section \<open>Laws\<close>

lemma set_flag_evidence [simp]: "m_capability_evidence (set_flag k b m) = m_capability_evidence m"
  by (simp add: set_flag_def)

lemma set_flag_view [simp]: "routing_view (set_flag k b m) = routing_view m"
  by (simp add: set_flag_def routing_view_def)

lemma apply_evidence_map:
  "map_of (m_capability_evidence (apply_evidence (k, v) m)) k' =
     (if k' = k then Some v else map_of (m_capability_evidence m) k')"
  by (simp add: apply_evidence_def)

lemma fold_evidence_map:
  "wf_map caps \<Longrightarrow> map_of (m_capability_evidence (fold apply_evidence caps m)) k =
     (case map_of caps k of Some v \<Rightarrow> Some v | None \<Rightarrow> map_of (m_capability_evidence m) k)"
proof (induction caps arbitrary: m)
  case Nil
  then show ?case by simp
next
  case (Cons kv caps)
  obtain k0 v0 where kv: "kv = (k0, v0)" by (cases kv)
  from Cons.prems kv have "wf_map caps" and fresh: "map_of caps k0 = None"
    by (auto simp: wf_map_def map_of_eq_None_iff)
  from Cons.IH [OF this(1)] fresh show ?case
    by (auto simp: kv apply_evidence_map split: option.splits)
qed

lemma set_flag_fields:
  "m_tools (set_flag k b m) = (if k = ''tools'' then b else m_tools m)"
  "m_vision (set_flag k b m) = (if k = ''vision'' then b else m_vision m)"
  "m_structured_output (set_flag k b m) = (if k = ''structured_output'' then b else m_structured_output m)"
  "m_parallel_tools (set_flag k b m) = (if k = ''parallel_tools'' then b else m_parallel_tools m)"
  "m_thinking_blocks (set_flag k b m) = (if k = ''thinking_blocks'' then b else m_thinking_blocks m)"
  "m_capabilities (set_flag k b m) = m_capabilities m"
  by (simp_all add: set_flag_def)

lemma if_other_key:
  "k' \<noteq> k \<Longrightarrow> y = y' \<Longrightarrow> (if k' = a then if k = a then b else x else y) = (if k' = a then x else y')"
  by auto

lemma flag_of_set_flag: "k' \<noteq> k \<Longrightarrow> flag_of (set_flag k b m) k' = flag_of m k'"
  unfolding flag_of_def set_flag_fields by (intro if_other_key refl)

lemma flag_of_evidence [simp]: "flag_of (m\<lparr>m_capability_evidence := es\<rparr>) k = flag_of m k"
  by (simp add: flag_of_def)

lemma flag_of_time [simp]: "flag_of (m\<lparr>m_updated_at := t\<rparr>) k = flag_of m k"
  by (simp add: flag_of_def)

lemma apply_evidence_flag: "k' \<noteq> k \<Longrightarrow> flag_of (apply_evidence (k, v) m) k' = flag_of m k'"
  by (simp add: apply_evidence_def flag_of_set_flag)

lemma fold_evidence_flag: "k \<notin> fst ` set caps \<Longrightarrow> flag_of (fold apply_evidence caps m) k = flag_of m k"
  by (induction caps arbitrary: m) (auto simp: apply_evidence_flag)

lemma apply_probe_view: "routing_view (apply_probe now caps m) = routing_view m"
proof -
  have "routing_view (apply_evidence e m) = routing_view m" for e m
    by (simp add: apply_evidence_def split: prod.split) (simp add: routing_view_def)
  then have "routing_view (fold apply_evidence caps m) = routing_view m"
    by (induction caps arbitrary: m) auto
  then show ?thesis by (simp add: apply_probe_def routing_view_def)
qed

text \<open>
  After a probe a model supports exactly the probed capabilities that the evidence reports as
  supported, whatever the order the results are applied in, and its answer for every other
  capability is the one it gave before.
\<close>

theorem probe_decides_support:
  assumes "wf_map caps"
  shows "supports (apply_probe now caps m) need =
    (case map_of caps need of Some e \<Rightarrow> ev_supported e | None \<Rightarrow> supports m need)"
proof -
  have time: "supports (x\<lparr>m_updated_at := now\<rparr>) need = supports x need" for x
    by (simp add: supports_def split: option.split)
  show ?thesis
  proof (cases "map_of caps need")
    case None
    then have "flag_of (fold apply_evidence caps m) need = flag_of m need"
      by (intro fold_evidence_flag) (simp add: map_of_eq_None_iff)
    with None show ?thesis by (simp add: apply_probe_def time) (simp add: supports_def fold_evidence_map [OF assms] split: option.split)
  next
    case (Some e)
    then show ?thesis by (simp add: apply_probe_def time) (simp add: supports_def fold_evidence_map [OF assms] split: option.split)
  qed
qed

definition unsupported :: evidence where
  "unsupported = \<lparr>ev_supported = False, ev_confidence = 1, ev_source = ''runtime_probe'', ev_level = ''protocol'',
     ev_url = '''', ev_hash = '''', ev_checked_at = 0\<rparr>"

definition sample_model :: model where
  "sample_model = \<lparr>m_id = ''m'', m_provider = ''p'', m_object = ''model'', m_owned_by = ''p'', m_created = 0,
     m_status = Active, m_auto_routable = True, m_admitted = True, m_capabilities = [], m_context_window = 0,
     m_tools = True, m_vision = False, m_structured_output = False, m_structured_output_known = False,
     m_parallel_tools = False, m_thinking_blocks = False, m_capability_evidence = [], m_score = 0,
     m_orphaned = False, m_updated_at = 0\<rparr>"

theorem probe_decides_support_witness:
  "wf_map [(''tools'', unsupported)] \<and> supports sample_model ''tools'' \<and>
   \<not> supports (apply_probe 0 [(''tools'', unsupported)] sample_model) ''tools''"
proof -
  have wf: "wf_map [(''tools'', unsupported)]" by (simp add: wf_map_def)
  moreover have "supports sample_model ''tools''" by (simp add: supports_def sample_model_def flag_of_def)
  ultimately show ?thesis
    using probe_decides_support [OF wf, of 0 sample_model "''tools''"] by (simp add: unsupported_def)
qed

end
