(* ===== verification/Health.thy ===== *)
theory Health
  imports Storage
begin

text \<open>
  Route health (internal/routing/health.go): one record per provider/model key, with "*" for the
  provider as a whole. A failure starts a cooldown and asks for a probe; the route stays closed
  until a success clears the record, however long the cooldown is over. Every operation writes the
  whole map to the health document.
\<close>

section \<open>State\<close>

datatype failure_kind =
  NoFailure | FailureNetwork | FailureTimeout | FailureRateLimited | FailureServer | FailureAuth
| FailureProtocol | FailureOther string

record health_options =
  ho_network :: duration
  ho_rate_limit :: duration
  ho_server :: duration
  ho_auth :: duration
  ho_protocol :: duration

record route_health =
  rh_provider :: string
  rh_model :: string
  rh_failures :: int
  rh_last_failure :: failure_kind
  rh_cooldown_until :: instant
  rh_last_success :: "instant option"
  rh_needs_probe :: bool

definition zero_health :: route_health where
  "zero_health = \<lparr>rh_provider = '''', rh_model = '''', rh_failures = 0, rh_last_failure = NoFailure,
     rh_cooldown_until = zero_time, rh_last_success = None, rh_needs_probe = False\<rparr>"

record health = "route_health store" +
  h_options :: health_options

definition default_options :: "health_options \<Rightarrow> health_options" where
  "default_options opts = \<lparr>
     ho_network = (if ho_network opts = 0 then 15 * second else ho_network opts),
     ho_rate_limit = (if ho_rate_limit opts = 0 then minute else ho_rate_limit opts),
     ho_server = (if ho_server opts = 0 then 30 * second else ho_server opts),
     ho_auth = (if ho_auth opts = 0 then 30 * minute else ho_auth opts),
     ho_protocol = (if ho_protocol opts = 0 then 5 * minute else ho_protocol opts)\<rparr>"

definition new_health :: "health_options \<Rightarrow> health" where
  "new_health opts = \<lparr>items = [], path = '''', disk = blank_disk, h_options = default_options opts\<rparr>"

definition open_health ::
  "string \<Rightarrow> health_options \<Rightarrow> bool \<Rightarrow> (string, route_health) gomap disk \<Rightarrow> health" where
  "open_health p opts readable d =
     (let h = (new_health opts)\<lparr>path := p, disk := d\<rparr> in
      case read_doc readable (d_file d) of
        Parsed its \<Rightarrow> h\<lparr>items := its\<rparr>
      | _ \<Rightarrow> h)"

definition health_persist :: "io \<Rightarrow> health \<Rightarrow> health" where
  "health_persist io h = persist_store io h"

definition health_key :: "string \<Rightarrow> string \<Rightarrow> string" where
  "health_key p m = route_key p m"

definition put_health :: "io \<Rightarrow> string \<Rightarrow> route_health \<Rightarrow> health \<Rightarrow> health" where
  "put_health io key x h = health_persist io (h\<lparr>items := mput key x (items h)\<rparr>)"

section \<open>Operations\<close>

definition kind_cooldown :: "health_options \<Rightarrow> failure_kind \<Rightarrow> duration" where
  "kind_cooldown opts kind =
     (case kind of
        FailureRateLimited \<Rightarrow> ho_rate_limit opts
      | FailureServer \<Rightarrow> ho_server opts
      | FailureAuth \<Rightarrow> ho_auth opts
      | FailureProtocol \<Rightarrow> ho_protocol opts
      | _ \<Rightarrow> ho_network opts)"

definition health_fail ::
  "io \<Rightarrow> string \<Rightarrow> string \<Rightarrow> failure_kind \<Rightarrow> instant \<Rightarrow> health \<Rightarrow> health" where
  "health_fail io p m kind now h =
     (let key = health_key p m;
          x = mget zero_health (items h) key;
          failures = i64 (rh_failures x + 1);
          d = kind_cooldown (h_options h) kind;
          mult = (if failures > 4 then 4 else failures)
      in put_health io key
           (x\<lparr>rh_provider := p, rh_model := m, rh_failures := failures, rh_last_failure := kind,
              rh_needs_probe := True, rh_cooldown_until := now + i64 (d * mult)\<rparr>) h)"

definition health_fail_until ::
  "io \<Rightarrow> io \<Rightarrow> string \<Rightarrow> string \<Rightarrow> failure_kind \<Rightarrow> instant \<Rightarrow> instant \<Rightarrow> health \<Rightarrow> health" where
  "health_fail_until io io' p m kind now until h =
     (let h1 = health_fail io p m kind now h in
      if \<not> until > now then h1
      else
        (let key = health_key p m; x = mget zero_health (items h1) key in
         if until > rh_cooldown_until x then put_health io' key (x\<lparr>rh_cooldown_until := until\<rparr>) h1 else h1))"

definition health_probe_failed :: "io \<Rightarrow> string \<Rightarrow> string \<Rightarrow> instant \<Rightarrow> health \<Rightarrow> health" where
  "health_probe_failed io p m now h =
     (let key = health_key p m;
          x = mget zero_health (items h) key;
          n = i64 (rh_failures x + 1);
          failures = (if n > 8 then 8 else n)
      in put_health io key
           (x\<lparr>rh_provider := p, rh_model := m, rh_needs_probe := True, rh_failures := failures,
              rh_cooldown_until := now + i64 (failures * minute)\<rparr>) h)"

definition health_success :: "io \<Rightarrow> string \<Rightarrow> string \<Rightarrow> instant \<Rightarrow> health \<Rightarrow> health" where
  "health_success io p m now h =
     (let key = health_key p m; x = mget zero_health (items h) key
      in put_health io key
           (x\<lparr>rh_provider := p, rh_model := m, rh_failures := 0, rh_last_failure := NoFailure,
              rh_cooldown_until := zero_time, rh_needs_probe := False, rh_last_success := Some now\<rparr>) h)"

definition entry_closed :: "(string, route_health) gomap \<Rightarrow> instant \<Rightarrow> string \<Rightarrow> bool" where
  "entry_closed its now key \<longleftrightarrow>
     (case map_of its key of None \<Rightarrow> False | Some x \<Rightarrow> rh_cooldown_until x > now \<or> rh_needs_probe x)"

definition health_available :: "string \<Rightarrow> string \<Rightarrow> instant \<Rightarrow> health \<Rightarrow> bool" where
  "health_available p m now h \<longleftrightarrow>
     \<not> list_ex (entry_closed (items h) now) [health_key p ''*'', health_key p m]"

definition in_cooldown :: "string \<Rightarrow> string \<Rightarrow> instant \<Rightarrow> health \<Rightarrow> bool" where
  "in_cooldown p m now h \<longleftrightarrow>
     (case map_of (items h) (health_key p m) of None \<Rightarrow> False | Some x \<Rightarrow> rh_cooldown_until x > now)"

definition due_for_probe :: "instant \<Rightarrow> health \<Rightarrow> route_health list" where
  "due_for_probe now h =
     filter (\<lambda>x. rh_needs_probe x \<and> \<not> rh_cooldown_until x > now) (map snd (items h))"

definition health_clear :: "io \<Rightarrow> health \<Rightarrow> health" where
  "health_clear io h = health_persist io (h\<lparr>items := []\<rparr>)"

definition health_snapshot :: "health \<Rightarrow> route_health list" where
  "health_snapshot h = map snd (items h)"

section \<open>One step, and what it leaves\<close>

datatype health_event =
  HFail string string failure_kind instant
| HFailUntil string string failure_kind instant instant
| HProbeFailed string string instant
| HSuccess string string instant
| HClear

text \<open>An event together with the faults of its writes.\<close>

fun health_step :: "health \<Rightarrow> health_event \<times> io \<times> io \<Rightarrow> health" where
  "health_step h (HFail p m k t, io, _) = health_fail io p m k t h"
| "health_step h (HFailUntil p m k t u, io, io') = health_fail_until io io' p m k t u h"
| "health_step h (HProbeFailed p m t, io, _) = health_probe_failed io p m t h"
| "health_step h (HSuccess p m t, io, _) = health_success io p m t h"
| "health_step h (HClear, io, _) = health_clear io h"

text \<open>Only a success for the very key, or clearing everything, reopens a route.\<close>

fun reopens :: "health_event \<times> io \<times> io \<Rightarrow> string \<Rightarrow> bool" where
  "reopens (HSuccess p m t, _) key = (health_key p m = key)"
| "reopens (HClear, _) key = True"
| "reopens _ key = False"

lemma items_put_health [simp]: "items (put_health io key x h) = mput key x (items h)"
  by (simp add: put_health_def health_persist_def)

lemma path_put_health [simp]: "path (put_health io key x h) = path h"
  by (simp add: put_health_def health_persist_def)

lemma options_persist_store [simp]: "h_options (persist_store io h) = h_options h"
  by (simp add: persist_store_def)

lemma options_put_health [simp]: "h_options (put_health io key x h) = h_options h"
  by (simp add: put_health_def health_persist_def)

definition quarantined :: "health \<Rightarrow> string \<Rightarrow> bool" where
  "quarantined h key \<longleftrightarrow> (\<exists>x. map_of (items h) key = Some x \<and> rh_needs_probe x)"

lemmas health_ops = health_fail_def health_fail_until_def health_probe_failed_def health_success_def
  health_clear_def health_persist_def Let_def

lemma quarantined_step: "quarantined h key \<Longrightarrow> \<not> reopens e key \<Longrightarrow> quarantined (health_step h e) key"
  by (cases "(h, e)" rule: health_step.cases) (auto simp: quarantined_def health_ops mget_def split: option.splits)

interpretation route_latch: latch health_step quarantined reopens
  by unfold_locales (rule quarantined_step)

lemma failed_quarantined:
  "quarantined (health_fail io p m kind now h) (health_key p m)"
  "quarantined (health_fail_until io io' p m kind now until h) (health_key p m)"
  "quarantined (health_probe_failed io p m now h) (health_key p m)"
  by (auto simp: quarantined_def health_ops mget_def)

lemma quarantined_unavailable:
  "quarantined h (health_key p m) \<Longrightarrow> \<not> health_available p m now h"
  "quarantined h (health_key p ''*'') \<Longrightarrow> \<not> health_available p m now h"
  by (auto simp: quarantined_def health_available_def entry_closed_def)

definition zero_options :: health_options where
  "zero_options = \<lparr>ho_network = 0, ho_rate_limit = 0, ho_server = 0, ho_auth = 0, ho_protocol = 0\<rparr>"

definition fresh_health :: health where
  "fresh_health = new_health zero_options"

text \<open>
  C11. A route that failed stays closed: after a failure of a provider's model, no sequence of health
  events without a success for that very route and without clearing the table makes it available,
  at any time, whatever the cooldown was and whichever writes failed.
\<close>

theorem failed_route_stays_closed:
  assumes "\<forall>e \<in> set es. \<not> reopens e (health_key p m)"
  shows "\<not> health_available p m now (foldl health_step (health_fail io p m kind t h) es)"
  using route_latch.held_run [OF failed_quarantined(1) assms] by (rule quarantined_unavailable(1))

theorem failed_route_stays_closed_witness:
  "\<not> health_available ''p'' ''m'' (10 ^ 30)
     (foldl health_step (health_fail good_io ''p'' ''m'' FailureServer 0 fresh_health)
        [(HSuccess ''p'' ''n'' 5, good_io, good_io)])"
proof -
  have "\<forall>e \<in> set [(HSuccess ''p'' ''n'' 5, good_io, good_io)]. \<not> reopens e (health_key ''p'' ''m'')"
    by (simp add: health_key_def)
  then show ?thesis by (rule failed_route_stays_closed)
qed

fun about :: "health_event \<Rightarrow> string option" where
  "about (HFail p m k t) = Some p"
| "about (HFailUntil p m k t u) = Some p"
| "about (HProbeFailed p m t) = Some p"
| "about (HSuccess p m t) = Some p"
| "about HClear = None"

lemma other_provider_items:
  assumes "about (fst e) = Some p" "CHR ''/'' \<notin> set p" "CHR ''/'' \<notin> set q" "p \<noteq> q"
  shows "map_of (items (health_step h e)) (health_key q n) = map_of (items h) (health_key q n)"
proof -
  have ne: "health_key q n \<noteq> health_key p m" for m
    using assms by (simp add: health_key_def route_key_inj)
  show ?thesis using assms(1)
    by (cases "(h, e)" rule: health_step.cases) (auto simp: health_ops ne)
qed

text \<open>
  A failure recorded for the provider as a whole closes every model of it until a success for the
  provider entry; the other providers are not touched by any event about this one.
\<close>

theorem provider_failure_is_contained:
  assumes "CHR ''/'' \<notin> set p" and "CHR ''/'' \<notin> set q" and "p \<noteq> q"
  shows "\<not> health_available p m now (health_fail io p ''*'' kind t h) \<and>
     (\<forall>e. about (fst e) = Some p \<longrightarrow> health_available q n now (health_step h e) = health_available q n now h)"
  using quarantined_unavailable(2) [OF failed_quarantined(1)] other_provider_items [OF _ assms]
  by (auto simp: health_available_def entry_closed_def)

theorem provider_failure_is_contained_witness:
  "\<not> health_available ''p'' ''m'' 7 (health_fail good_io ''p'' ''*'' FailureAuth 0 fresh_health) \<and>
   health_available ''q'' ''m'' 7 (health_step fresh_health (HFail ''p'' ''*'' FailureAuth 0, good_io, good_io))"
proof -
  have ne: "CHR ''/'' \<notin> set ''p''" "CHR ''/'' \<notin> set ''q''" "''p'' \<noteq> ''q''" by simp_all
  note contained = provider_failure_is_contained [OF ne, of "''m''" 7 good_io FailureAuth 0 fresh_health "''m''"]
  have "about (HFail ''p'' ''*'' FailureAuth 0) = Some ''p''" by simp
  with contained have "health_available ''q'' ''m'' 7 (health_step fresh_health (HFail ''p'' ''*'' FailureAuth 0, good_io, good_io))
      = health_available ''q'' ''m'' 7 fresh_health"
    by (metis fst_conv)
  moreover have "health_available ''q'' ''m'' 7 fresh_health"
    by (simp add: health_available_def fresh_health_def new_health_def entry_closed_def)
  ultimately show ?thesis using contained by blast
qed

section \<open>How long a cooldown is\<close>

definition options_bounded :: "health_options \<Rightarrow> bool" where
  "options_bounded opts \<longleftrightarrow> (\<forall>k. 0 < kind_cooldown opts k \<and> kind_cooldown opts k \<le> 30 * minute)"

lemma default_options_bounded:
  "options_bounded (default_options zero_options)"
  by (auto simp: zero_options_def options_bounded_def default_options_def kind_cooldown_def duration_units split: failure_kind.splits)

text \<open>
  With the default options the n-th consecutive failure closes a route for min(n, 4) times the
  cooldown of its kind, so for more than nothing and at most two hours, and the product does not
  overflow; a failed probe waits at most eight minutes.
\<close>

theorem cooldown_length:
  assumes "options_bounded (h_options h)" and "map_of (items h) (health_key p m) = Some x"
    and "0 \<le> rh_failures x" and "rh_failures x < 2 ^ 63 - 1"
  shows "let d = kind_cooldown (h_options h) kind * min 4 (rh_failures x + 1) in
      map_option rh_cooldown_until (map_of (items (health_fail io p m kind now h)) (health_key p m)) = Some (now + d) \<and>
      0 < d \<and> d \<le> 2 * hour \<and>
      (\<exists>y. map_of (items (health_probe_failed io p m now h)) (health_key p m) = Some y \<and>
         1 \<le> rh_failures y \<and> rh_failures y \<le> 8 \<and> rh_cooldown_until y = now + rh_failures y * minute)"
proof -
  let ?d = "kind_cooldown (h_options h) kind" and ?n = "rh_failures x + 1"
  have n: "i64 ?n = ?n" using assms(3,4) by (intro i64_id) auto
  have d: "0 < ?d" "?d \<le> 30 * minute" using assms(1) by (auto simp: options_bounded_def)
  have mult: "0 < min 4 ?n" "min 4 ?n \<le> 4" using assms(3) by auto
  have pos: "0 < ?d * min 4 ?n" using d mult by simp
  have "?d * min 4 ?n \<le> 30 * minute * 4" using d mult by (intro mult_mono) (auto simp: duration_units)
  then have le: "?d * min 4 ?n \<le> 2 * hour" by (simp add: duration_units)
  have id1: "i64 (?d * k) = ?d * k" if "0 < k" "k \<le> 4" for k
  proof -
    have "?d * k \<le> 30 * minute * 4" using d that by (intro mult_mono) (auto simp: duration_units)
    moreover have "0 < ?d * k" using d that by simp
    ultimately show ?thesis by (intro i64_id) (auto simp: duration_units)
  qed
  have id2: "i64 (k * minute) = k * minute" if "0 < k" "k \<le> 8" for k
    using that by (intro i64_id) (auto simp: duration_units)
  show ?thesis
    using pos le assms(3) unfolding Let_def
    by (auto simp: health_fail_def health_probe_failed_def assms(2) mget_def n Let_def id1 id2 min_def)
qed

definition failing_health :: health where
  "failing_health = health_fail good_io ''p'' ''m'' FailureServer 0
     fresh_health"

theorem cooldown_length_witness:
  "map_option rh_cooldown_until (map_of (items (health_fail good_io ''p'' ''m'' FailureServer 0 failing_health))
     (health_key ''p'' ''m'')) = Some (60 * second)"
proof -
  have o: "options_bounded (h_options failing_health)"
    using default_options_bounded by (simp add: failing_health_def fresh_health_def health_fail_def new_health_def Let_def)
  obtain x where x: "map_of (items failing_health) (health_key ''p'' ''m'') = Some x" and n: "rh_failures x = 1"
    by (simp add: failing_health_def fresh_health_def health_fail_def new_health_def Let_def zero_health_def i64_def)
  have d: "kind_cooldown (h_options failing_health) FailureServer = 30 * second"
    by (simp add: failing_health_def fresh_health_def zero_options_def health_fail_def new_health_def Let_def
        kind_cooldown_def default_options_def)
  from cooldown_length [OF o x, of FailureServer good_io 0] n d show ?thesis by (simp add: Let_def)
qed

section \<open>Closed, cooling or due\<close>

text \<open>What the operations keep of the table: distinct keys, each entry under its own key, a cooldown
  only together with a pending probe.\<close>

definition health_inv :: "health \<Rightarrow> bool" where
  "health_inv h \<longleftrightarrow> wf_map (items h) \<and>
     (\<forall>k x. map_of (items h) k = Some x \<longrightarrow>
        k = health_key (rh_provider x) (rh_model x) \<and> (rh_needs_probe x \<or> rh_cooldown_until x = zero_time))"

lemma health_inv_new [simp]: "health_inv (new_health opts)"
  by (simp add: health_inv_def new_health_def)

lemma health_inv_put:
  "health_inv h \<Longrightarrow> key = health_key (rh_provider x) (rh_model x) \<Longrightarrow>
   rh_needs_probe x \<or> rh_cooldown_until x = zero_time \<Longrightarrow> health_inv (put_health io key x h)"
  by (auto simp: health_inv_def split: if_splits)

lemma health_inv_fail: "health_inv h \<Longrightarrow> health_inv (health_fail io p m k t h)"
  unfolding health_fail_def Let_def by (rule health_inv_put) auto

lemma health_inv_step: "health_inv h \<Longrightarrow> health_inv (health_step h e)"
proof (cases "(h, e)" rule: health_step.cases)
  case (2 h' p m k t u io io')
  assume "health_inv h"
  let ?h1 = "health_fail io p m k t h"
  have inv: "health_inv ?h1" using \<open>health_inv h\<close> by (rule health_inv_fail)
  have "map_of (items ?h1) (health_key p m) = Some (mget zero_health (items ?h1) (health_key p m))"
    and "rh_needs_probe (mget zero_health (items ?h1) (health_key p m))"
    by (simp_all add: health_fail_def Let_def)
  then show ?thesis using 2 inv
    by (auto simp: health_fail_until_def Let_def intro!: health_inv_put) (auto simp: health_inv_def)
qed (auto simp: health_ops health_inv_fail [unfolded health_ops] health_inv_def split: if_splits)

lemma health_inv_run: "health_inv h \<Longrightarrow> health_inv (foldl health_step h es)"
  by (induction es arbitrary: h) (auto simp: health_inv_step)

text \<open>
  In every table the events can produce, and at every instant after the epoch of time.Time, an
  entry is in exactly one of three conditions: open; cooling down; or due for a probe. A closed
  entry is never forgotten: once its cooldown is over it is in the list of routes to probe.
\<close>

theorem closed_entries_get_probed:
  assumes "zero_time \<le> now" and "map_of (items (foldl health_step (new_health opts) es)) k = Some x"
  shows "let h = foldl health_step (new_health opts) es in
     (entry_closed (items h) now k \<longleftrightarrow> in_cooldown (rh_provider x) (rh_model x) now h \<or> x \<in> set (due_for_probe now h)) \<and>
     \<not> (in_cooldown (rh_provider x) (rh_model x) now h \<and> x \<in> set (due_for_probe now h))"
proof -
  let ?h = "foldl health_step (new_health opts) es"
  have "health_inv ?h" by (intro health_inv_run) simp
  then have k: "k = health_key (rh_provider x) (rh_model x)" and cool: "rh_needs_probe x \<or> rh_cooldown_until x = zero_time"
    using assms(2) unfolding health_inv_def by blast+
  have mem: "x \<in> set (map snd (items ?h))" using map_of_in_set [OF assms(2)] by force
  show ?thesis using assms cool mem
    by (auto simp: Let_def entry_closed_def in_cooldown_def due_for_probe_def k [symmetric])
qed

theorem closed_entries_get_probed_witness:
  "\<exists>x. map_of (items (foldl health_step fresh_health [(HProbeFailed ''p'' ''m'' 0, good_io, good_io)]))
         (health_key ''p'' ''m'') = Some x \<and>
       entry_closed (items (foldl health_step fresh_health [(HProbeFailed ''p'' ''m'' 0, good_io, good_io)])) (10 ^ 20)
         (health_key ''p'' ''m'')"
proof -
  let ?es = "[(HProbeFailed ''p'' ''m'' 0, good_io, good_io)]"
  obtain x where x: "map_of (items (foldl health_step fresh_health ?es)) (health_key ''p'' ''m'') = Some x"
    and need: "rh_needs_probe x"
    by (simp add: health_probe_failed_def Let_def)
  have "zero_time \<le> 10 ^ 20" by (simp add: zero_time_def)
  from closed_entries_get_probed [where opts = zero_options, folded fresh_health_def, OF this x] x need show ?thesis by (auto simp: Let_def entry_closed_def)
qed

section \<open>Restart\<close>

lemma health_step_named: "path (health_step h e) = path h"
  by (cases "(h, e)" rule: health_step.cases) (auto simp: health_ops)

text \<open>
  Quarantine survives a restart: when the write after an event succeeds, opening the health
  document again gives the same table, so a closed route is still closed in the new process.
\<close>

theorem restart_keeps_health:
  assumes "path h \<noteq> ''''" and "io_ok io"
  shows "items (open_health (path h) opts True (disk (health_fail io p m kind now h))) =
           items (health_fail io p m kind now h) \<and>
     \<not> health_available p m t (open_health (path h) opts True (disk (health_fail io p m kind now h)))"
proof -
  have "d_file (disk (health_fail io p m kind now h)) = Doc (items (health_fail io p m kind now h))"
    unfolding health_fail_def Let_def put_health_def health_persist_def
    using assms by (subst map_store.saved) auto
  then have same: "items (open_health (path h) opts True (disk (health_fail io p m kind now h))) =
      items (health_fail io p m kind now h)"
    by (simp add: open_health_def)
  moreover have "\<not> health_available p m t (health_fail io p m kind now h)"
    by (rule quarantined_unavailable(1) [OF failed_quarantined(1)])
  ultimately show ?thesis by (simp add: health_available_def)
qed

theorem restart_keeps_health_witness:
  "\<not> health_available ''p'' ''m'' 99 (open_health ''f'' zero_options True
      (disk (health_fail good_io ''p'' ''m'' FailureAuth 0 (fresh_health\<lparr>path := ''f''\<rparr>))))"
proof -
  have "path (fresh_health\<lparr>path := ''f''\<rparr>) \<noteq> ''''" by simp
  from restart_keeps_health [OF this io_ok_good, of zero_options "''p''" "''m''" FailureAuth 0 99] show ?thesis by simp
qed

end
