(* ===== verification/Runtime_Stores.thy ===== *)
theory Runtime_Stores
  imports Storage Go_Json Go_Time
begin

text \<open>
  The keyed stores of internal/runtime: the response cache, session affinity, learning statistics,
  reviews with their batches, shadow results and shadow batches. Each is a Go map with a path, in
  the record store of Storage; what they share (put, apply, conditional rewriting, pruning) is
  defined once and each operation of the code is defined from it. A call that takes a function
  takes it here too. One reading of the clock serves one operation.
\<close>

section \<open>What the stores share\<close>

definition store_put :: "io \<Rightarrow> string \<Rightarrow> 'v \<Rightarrow> ('v, 'z) store_scheme \<Rightarrow> ('v, 'z) store_scheme" where
  "store_put io k v s = persist_store io (s\<lparr>items := mput k v (items s)\<rparr>)"

definition store_apply ::
  "io \<Rightarrow> string \<Rightarrow> ('v \<Rightarrow> 'v) \<Rightarrow> ('v, 'z) store_scheme \<Rightarrow> bool \<times> ('v, 'z) store_scheme" where
  "store_apply io k f s =
     (case map_of (items s) k of None \<Rightarrow> (False, s) | Some x \<Rightarrow> (True, store_put io k (f x) s))"

text \<open>The loop that rewrites the entries satisfying a test and persists when there was one.\<close>

definition store_rewrite ::
  "io \<Rightarrow> ('v \<Rightarrow> bool) \<Rightarrow> ('v \<Rightarrow> 'v) \<Rightarrow> ('v, 'z) store_scheme \<Rightarrow> nat \<times> ('v, 'z) store_scheme" where
  "store_rewrite io P f s =
     (let n = length (filter P (map snd (items s)));
          s1 = s\<lparr>items := map_vals (\<lambda>k x. if P x then f x else x) (items s)\<rparr>
      in (n, if n > 0 then persist_store io s1 else s1))"

definition store_prune ::
  "io \<Rightarrow> ('v \<Rightarrow> bool) \<Rightarrow> ('v, 'z) store_scheme \<Rightarrow> nat \<times> ('v, 'z) store_scheme" where
  "store_prune io P s =
     (let n = length (filter P (map snd (items s)));
          s1 = s\<lparr>items := filter (\<lambda>kx. \<not> P (snd kx)) (items s)\<rparr>
      in (n, if n > 0 then persist_store io s1 else s1))"

definition lookup :: "('v, 'z) store_scheme \<Rightarrow> string \<Rightarrow> 'v option" where
  "lookup s k = map_of (items s) k"

lemma lookup_store_put [simp]: "lookup (store_put io k v s) k' = (if k' = k then Some v else lookup s k')"
  by (simp add: lookup_def store_put_def)

lemma wf_store_put [simp]: "wf_map (items s) \<Longrightarrow> wf_map (items (store_put io k v s))"
  by (simp add: store_put_def)

lemma lookup_store_apply: "lookup (snd (store_apply io k f s)) k' =
    (if k' = k then map_option f (lookup s k) else lookup s k')"
  by (simp add: store_apply_def lookup_def [symmetric] split: option.split)

lemma fst_store_apply: "fst (store_apply io k f s) \<longleftrightarrow> lookup s k \<noteq> None"
  by (simp add: store_apply_def lookup_def split: option.split)

lemma lookup_store_rewrite: "lookup (snd (store_rewrite io P f s)) k =
    map_option (\<lambda>x. if P x then f x else x) (lookup s k)"
  by (simp add: store_rewrite_def lookup_def Let_def)

lemma lookup_store_prune: "wf_map (items s) \<Longrightarrow> lookup (snd (store_prune io P s)) k =
    (case lookup s k of None \<Rightarrow> None | Some x \<Rightarrow> if P x then None else Some x)"
  by (simp add: store_prune_def lookup_def Let_def map_of_filter_wf split: option.split)

text \<open>
  The interface of a store with Put and a lookup: an entry carries its key, some keys are refused,
  and Put may normalise what it stores. Reading gives back what was put and every other key is left
  alone; the lemmas hold for any number of writes.
\<close>

locale keyed_store =
  fixes get :: "'s \<Rightarrow> string \<Rightarrow> 'v option"
    and put :: "io \<Rightarrow> 'v \<Rightarrow> 's \<Rightarrow> 's"
    and key_of :: "'v \<Rightarrow> string"
    and norm :: "'v \<Rightarrow> 'v"
    and refused :: "string \<Rightarrow> bool"
  assumes get_put: "\<not> refused (key_of v) \<Longrightarrow> get (put io v s) k = (if k = key_of v then Some (norm v) else get s k)"
    and put_refused: "refused (key_of v) \<Longrightarrow> put io v s = s"
begin

lemma get_put_list: "get (fold (\<lambda>(io, v). put io v) ws s) k =
    (case find (\<lambda>(io, v). key_of v = k \<and> \<not> refused k) (rev ws) of Some (io, v) \<Rightarrow> Some (norm v) | None \<Rightarrow> get s k)"
proof (induction ws arbitrary: s rule: rev_induct)
  case Nil
  then show ?case by simp
next
  case (snoc w ws)
  obtain io v where w: "w = (io, v)" by (cases w)
  show ?case using snoc.IH by (cases "refused (key_of v)") (auto simp: w get_put put_refused)
qed

lemma other_keys:
  assumes "k \<notin> (\<lambda>(io, v). key_of v) ` set ws" shows "get (fold (\<lambda>(io, v). put io v) ws s) k = get s k"
proof -
  have "find (\<lambda>(io, v). key_of v = k \<and> \<not> refused k) (rev ws) = None"
    using assms by (force simp: find_None_iff)
  then show ?thesis by (simp add: get_put_list)
qed

end

section \<open>The response cache (cache.go)\<close>

record cache_item =
  ci_body :: string
  ci_expires :: instant

record cache = "cache_item store" +
  c_ttl :: duration
  c_max :: int

definition new_cache :: cache where
  "new_cache = \<lparr>items = [], path = '''', disk = blank_disk, c_ttl = 5 * minute, c_max = 500\<rparr>"

definition cache_load :: "string \<Rightarrow> bool \<Rightarrow> instant \<Rightarrow> (string, cache_item) gomap disk \<Rightarrow> cache \<Rightarrow> cache" where
  "cache_load p readable now d c =
     (let c1 = c\<lparr>path := p, disk := d\<rparr> in
      case read_doc readable (d_file d) of
        Parsed x \<Rightarrow> c1\<lparr>items := fold (\<lambda>(k, v). mput k v) (filter (\<lambda>(k, v). ci_expires v > now) x) (items c1)\<rparr>
      | _ \<Rightarrow> c1)"

definition cache_get :: "string \<Rightarrow> instant \<Rightarrow> cache \<Rightarrow> string option \<times> cache" where
  "cache_get k now c =
     (case map_of (items c) k of
        None \<Rightarrow> (None, c\<lparr>items := mdel k (items c)\<rparr>)
      | Some x \<Rightarrow> if now > ci_expires x then (None, c\<lparr>items := mdel k (items c)\<rparr>) else (Some (ci_body x), c))"

text \<open>A full cache drops one entry first; pick is the position the random iteration starts at.\<close>

definition evict :: "nat \<Rightarrow> (string, 'v) gomap \<Rightarrow> (string, 'v) gomap" where
  "evict pick m = (if m = [] then m else mdel (fst (m ! (pick mod length m))) m)"

definition cache_put :: "io \<Rightarrow> nat \<Rightarrow> string \<Rightarrow> string \<Rightarrow> instant \<Rightarrow> cache \<Rightarrow> cache" where
  "cache_put io pick k b now c =
     (let c1 = (if int (length (items c)) \<ge> c_max c then c\<lparr>items := evict pick (items c)\<rparr> else c)
      in store_put io k \<lparr>ci_body = b, ci_expires = now + c_ttl c\<rparr> c1)"

section \<open>Session affinity (session.go)\<close>

record session =
  ss_provider :: string
  ss_model :: string
  ss_uid :: string
  ss_updated_at :: instant

record sessions = "session store" +
  s_ttl :: duration

definition new_sessions :: sessions where
  "new_sessions = \<lparr>items = [], path = '''', disk = blank_disk, s_ttl = 2 * hour\<rparr>"

definition session_live :: "duration \<Rightarrow> instant \<Rightarrow> session \<Rightarrow> bool" where
  "session_live ttl now x \<longleftrightarrow> tsub now (ss_updated_at x) < ttl"

definition sessions_load :: "string \<Rightarrow> bool \<Rightarrow> instant \<Rightarrow> (string, session) gomap disk \<Rightarrow> sessions \<Rightarrow> sessions" where
  "sessions_load p readable now d s =
     (let s1 = s\<lparr>path := p, disk := d\<rparr> in
      case read_doc readable (d_file d) of
        Parsed x \<Rightarrow> s1\<lparr>items := fold (\<lambda>(k, v). mput k v) (filter (\<lambda>(k, v). session_live (s_ttl s) now v) x) (items s1)\<rparr>
      | _ \<Rightarrow> s1)"

definition sessions_get :: "string \<Rightarrow> instant \<Rightarrow> sessions \<Rightarrow> session option" where
  "sessions_get k now s =
     (case map_of (items s) k of None \<Rightarrow> None | Some x \<Rightarrow> if session_live (s_ttl s) now x then Some x else None)"

definition sessions_put :: "io \<Rightarrow> string \<Rightarrow> session \<Rightarrow> instant \<Rightarrow> sessions \<Rightarrow> sessions" where
  "sessions_put io k x now s = (if k = '''' then s else store_put io k (x\<lparr>ss_updated_at := now\<rparr>) s)"

section \<open>Learning statistics (learning.go)\<close>

record stat =
  st_requests :: int
  st_success :: int
  st_failures :: int
  st_latency :: int
  st_updated_at :: instant

definition zero_stat :: stat where
  "zero_stat = \<lparr>st_requests = 0, st_success = 0, st_failures = 0, st_latency = 0, st_updated_at = zero_time\<rparr>"

type_synonym learning = "stat store"

definition new_learning :: learning where
  "new_learning = \<lparr>items = [], path = '''', disk = blank_disk\<rparr>"

definition learning_load :: "string \<Rightarrow> bool \<Rightarrow> (string, stat) gomap disk \<Rightarrow> learning \<Rightarrow> learning" where
  "learning_load p readable d l =
     (let l1 = l\<lparr>path := p, disk := d\<rparr> in
      case read_doc readable (d_file d) of
        Parsed x \<Rightarrow> l1\<lparr>items := fold (\<lambda>(k, v). mput k v) x (items l1)\<rparr>
      | _ \<Rightarrow> l1)"

definition learning_record :: "io \<Rightarrow> string \<Rightarrow> bool \<Rightarrow> duration \<Rightarrow> instant \<Rightarrow> learning \<Rightarrow> learning" where
  "learning_record io key ok lat now l =
     (let x = mget zero_stat (items l) key;
          x1 = x\<lparr>st_requests := i64 (st_requests x + 1)\<rparr>;
          x2 = (if ok then x1\<lparr>st_success := i64 (st_success x1 + 1)\<rparr> else x1\<lparr>st_failures := i64 (st_failures x1 + 1)\<rparr>);
          x3 = x2\<lparr>st_latency := i64 (st_latency x2 + milliseconds lat), st_updated_at := now\<rparr>
      in store_put io key x3 l)"

definition learning_snapshot :: "learning \<Rightarrow> (string, stat) gomap" where
  "learning_snapshot l = items l"

section \<open>Reviews (review.go, retention.go)\<close>

datatype review_status = RUnset | RPending | RProcessing | RReviewed | RFailed | RSkipped | ROther string

record task_features =
  tf_domain :: string
  tf_action :: string
  tf_needs_tools :: bool
  tf_needs_vision :: bool
  tf_needs_structured :: bool
  tf_needs_long_context :: bool
  tf_reasoning :: int
  tf_messages :: int
  tf_input_bytes :: int

record review =
  rv_id :: string
  rv_recorded_at :: instant
  rv_model :: string
  rv_provider :: string
  rv_status :: int
  rv_latency :: int
  rv_stream :: bool
  rv_tools :: bool
  rv_features :: task_features
  rv_review_status :: review_status
  rv_batch :: string
  rv_attempts :: int
  rv_reviewer_model :: string
  rv_reviewed_at :: "instant option"
  rv_recommended :: string
  rv_minimum_tier :: int
  rv_overqualified :: bool
  rv_confidence :: rat
  rv_conclusion :: string
  rv_error :: string
  rv_replayable :: bool
  rv_replay_reason :: string
  rv_task_package :: string
  rv_task_encrypted :: bool
  rv_response_package :: string
  rv_response_captured :: bool
  rv_response_encrypted :: bool

record reviews = "review store" +
  r_locked :: bool

definition new_reviews :: reviews where
  "new_reviews = \<lparr>items = [], path = '''', disk = blank_disk, r_locked = False\<rparr>"

definition default_pending :: "review \<Rightarrow> review" where
  "default_pending x = (if rv_review_status x = RUnset then x\<lparr>rv_review_status := RPending\<rparr> else x)"

definition reviews_load :: "string \<Rightarrow> bool \<Rightarrow> (string, review) gomap disk \<Rightarrow> reviews \<Rightarrow> reviews" where
  "reviews_load p readable d r =
     (let r1 = r\<lparr>path := p, disk := d\<rparr> in
      case read_doc readable (d_file d) of
        Parsed x \<Rightarrow> r1\<lparr>items := map_vals (\<lambda>k. default_pending) x\<rparr>
      | BadJson \<Rightarrow> r1\<lparr>items := map_vals (\<lambda>k. default_pending) (items r1)\<rparr>
      | _ \<Rightarrow> r1)"

definition reviews_add :: "io \<Rightarrow> review \<Rightarrow> reviews \<Rightarrow> reviews" where
  "reviews_add io x r = (if rv_id x = '''' then r else store_put io (rv_id x) (default_pending x) r)"

definition reviews_find :: "string \<Rightarrow> reviews \<Rightarrow> review option" where
  "reviews_find k r = lookup r k"

definition reviews_all :: "reviews \<Rightarrow> review list" where
  "reviews_all r = map snd (items r)"

interpretation review_map: keyed_store lookup reviews_add rv_id default_pending "\<lambda>k. k = ''''"
  by unfold_locales (simp_all add: reviews_add_def)

definition recover_processing :: "io \<Rightarrow> instant \<Rightarrow> duration \<Rightarrow> reviews \<Rightarrow> nat \<times> reviews" where
  "recover_processing io now max_age r =
     store_rewrite io
       (\<lambda>x. rv_review_status x = RProcessing \<and> (max_age \<le> 0 \<or> tsub now (rv_recorded_at x) > max_age))
       (\<lambda>x. x\<lparr>rv_review_status := RFailed, rv_error := ''processing batch recovered after interruption''\<rparr>) r"

definition claimable :: "instant \<Rightarrow> review \<Rightarrow> bool" where
  "claimable before x \<longleftrightarrow>
     rv_recorded_at x < before \<and> (rv_review_status x = RPending \<or> rv_review_status x = RFailed)"

definition reviews_pending :: "instant \<Rightarrow> reviews \<Rightarrow> review list" where
  "reviews_pending before r = filter (claimable before) (map snd (items r))"

definition claim_one :: "string \<Rightarrow> review \<Rightarrow> review" where
  "claim_one batch x = x\<lparr>rv_review_status := RProcessing, rv_batch := batch, rv_attempts := i64 (rv_attempts x + 1)\<rparr>"

fun claim_loop ::
  "instant \<Rightarrow> string \<Rightarrow> int \<Rightarrow> (string, review) gomap \<Rightarrow> review list \<Rightarrow> review list \<times> (string, review) gomap" where
  "claim_loop before batch limit [] out = (out, [])"
| "claim_loop before batch limit ((k, x) # kxs) out =
     (if int (length out) \<ge> limit then (out, (k, x) # kxs)
      else if claimable before x
      then (case claim_loop before batch limit kxs (out @ [claim_one batch x]) of
              (o', m) \<Rightarrow> (o', (k, claim_one batch x) # m))
      else (case claim_loop before batch limit kxs out of (o', m) \<Rightarrow> (o', (k, x) # m)))"

text \<open>
  Claim takes the lock; the goroutine it starts persists and gives the lock back later, in
  claim_done.
\<close>

definition reviews_claim :: "instant \<Rightarrow> string \<Rightarrow> int \<Rightarrow> reviews \<Rightarrow> review list \<times> reviews" where
  "reviews_claim before batch limit r =
     (if r_locked r then ([], r)
      else (case claim_loop before batch limit (items r) [] of
              (out, m) \<Rightarrow> (out, r\<lparr>items := m, r_locked := True\<rparr>)))"

definition claim_done :: "io \<Rightarrow> reviews \<Rightarrow> reviews" where
  "claim_done io r = (persist_store io r)\<lparr>r_locked := False\<rparr>"

text \<open>Apply persists whether or not the review exists.\<close>

definition reviews_apply :: "io \<Rightarrow> string \<Rightarrow> (review \<Rightarrow> review) \<Rightarrow> reviews \<Rightarrow> reviews" where
  "reviews_apply io k f r =
     persist_store io (case map_of (items r) k of None \<Rightarrow> r | Some x \<Rightarrow> r\<lparr>items := mput k (f x) (items r)\<rparr>)"

definition reviews_prune :: "io \<Rightarrow> instant \<Rightarrow> reviews \<Rightarrow> nat \<times> reviews" where
  "reviews_prune io before r = store_prune io (\<lambda>x. rv_recorded_at x < before) r"

section \<open>Shadow results (shadow.go)\<close>

datatype failure_cause =
  CauseNone | CauseUnknown | CauseCapability | CauseProvider | CauseRateLimit | CauseContext | CauseProtocol
| CauseUserRetry | CauseTeacher | CauseOther string

datatype shadow_status = ShadowPending | ShadowRunning | ShadowCompleted | ShadowSkipped | ShadowFailed | ShadowOther string

record shadow_result =
  sr_id :: string
  sr_knowledge :: string
  sr_review :: string
  sr_batch :: string
  sr_candidate :: string
  sr_status :: shadow_status
  sr_http_status :: int
  sr_latency :: int
  sr_protocol_ok :: bool
  sr_structured_ok :: bool
  sr_tool_compatible :: bool
  sr_semantic_match :: bool
  sr_conclusion :: string
  sr_success :: bool
  sr_cause :: failure_cause
  sr_error :: string
  sr_created_at :: instant
  sr_updated_at :: instant

type_synonym shadow_store = "shadow_result store"

definition new_shadow_store :: shadow_store where
  "new_shadow_store = \<lparr>items = [], path = '''', disk = blank_disk\<rparr>"

definition shadow_load :: "string \<Rightarrow> bool \<Rightarrow> (string, shadow_result) gomap disk \<Rightarrow> shadow_store \<Rightarrow> shadow_store" where
  "shadow_load p readable d s =
     (let s1 = s\<lparr>path := p, disk := d\<rparr> in
      case read_doc readable (d_file d) of Parsed x \<Rightarrow> s1\<lparr>items := x\<rparr> | _ \<Rightarrow> s1)"

definition shadow_all :: "shadow_store \<Rightarrow> shadow_result list" where
  "shadow_all s = map snd (items s)"

definition shadow_put :: "io \<Rightarrow> shadow_result \<Rightarrow> shadow_store \<Rightarrow> shadow_store" where
  "shadow_put io x s = store_put io (sr_id x) x s"

interpretation shadow_map: keyed_store lookup shadow_put sr_id "\<lambda>x. x" "\<lambda>k. False"
  by unfold_locales (simp_all add: shadow_put_def)

definition shadow_has :: "string \<Rightarrow> shadow_store \<Rightarrow> bool" where
  "shadow_has k s \<longleftrightarrow> map_of (items s) k \<noteq> None"

definition shadow_apply ::
  "io \<Rightarrow> string \<Rightarrow> (shadow_result \<Rightarrow> shadow_result) \<Rightarrow> instant \<Rightarrow> shadow_store \<Rightarrow> bool \<times> shadow_store" where
  "shadow_apply io k f now s = store_apply io k (\<lambda>x. (f x)\<lparr>sr_updated_at := now\<rparr>) s"

definition shadow_prune :: "io \<Rightarrow> instant \<Rightarrow> shadow_store \<Rightarrow> nat \<times> shadow_store" where
  "shadow_prune io before s = store_prune io (\<lambda>x. sr_created_at x < before) s"

section \<open>Shadow batches (shadow_batch.go)\<close>

datatype batch_status = BPending | BRunning | BCompleted | BStopped | BFailed | BOther string

record shadow_batch =
  sb_id :: string
  sb_knowledge :: string
  sb_reviews :: "string list"
  sb_candidate :: string
  sb_status :: batch_status
  sb_total :: int
  sb_completed :: int
  sb_succeeded :: int
  sb_failed :: int
  sb_stopped :: int
  sb_last_error :: string
  sb_created_at :: instant
  sb_updated_at :: instant

type_synonym shadow_batches = "shadow_batch store"

definition new_batches :: shadow_batches where
  "new_batches = \<lparr>items = [], path = '''', disk = blank_disk\<rparr>"

definition interrupted :: "shadow_batch \<Rightarrow> bool" where
  "interrupted x \<longleftrightarrow> sb_status x = BPending \<or> sb_status x = BRunning"

definition recover_batch :: "instant \<Rightarrow> shadow_batch \<Rightarrow> shadow_batch" where
  "recover_batch now x =
     x\<lparr>sb_status := BStopped, sb_last_error := ''batch recovered after process restart'', sb_updated_at := now\<rparr>"

definition batches_load ::
  "io \<Rightarrow> string \<Rightarrow> bool \<Rightarrow> instant \<Rightarrow> (string, shadow_batch) gomap disk \<Rightarrow> shadow_batches \<Rightarrow> shadow_batches" where
  "batches_load io p readable now d s =
     (let s1 = s\<lparr>path := p, disk := d\<rparr>;
          s2 = (case read_doc readable (d_file d) of Parsed x \<Rightarrow> s1\<lparr>items := x\<rparr> | _ \<Rightarrow> s1);
          s3 = s2\<lparr>items := map_vals (\<lambda>k x. if interrupted x then recover_batch now x else x) (items s2)\<rparr>
      in persist_store io s3)"

definition recover_interrupted :: "io \<Rightarrow> instant \<Rightarrow> shadow_batches \<Rightarrow> nat \<times> shadow_batches" where
  "recover_interrupted io now s = store_rewrite io interrupted (recover_batch now) s"

definition batches_put :: "io \<Rightarrow> shadow_batch \<Rightarrow> shadow_batches \<Rightarrow> shadow_batches" where
  "batches_put io x s = (if sb_id x = '''' then s else store_put io (sb_id x) x s)"

interpretation batch_map: keyed_store lookup batches_put sb_id "\<lambda>x. x" "\<lambda>k. k = ''''"
  by unfold_locales (simp_all add: batches_put_def)

definition batches_get :: "string \<Rightarrow> shadow_batches \<Rightarrow> shadow_batch option" where
  "batches_get k s = lookup s k"

definition batches_all :: "shadow_batches \<Rightarrow> shadow_batch list" where
  "batches_all s = map snd (items s)"

definition batches_apply ::
  "io \<Rightarrow> string \<Rightarrow> (shadow_batch \<Rightarrow> shadow_batch) \<Rightarrow> instant \<Rightarrow> shadow_batches \<Rightarrow> bool \<times> shadow_batches" where
  "batches_apply io k f now s = store_apply io k (\<lambda>x. (f x)\<lparr>sb_updated_at := now\<rparr>) s"

definition stop_batch :: "shadow_batch \<Rightarrow> shadow_batch" where
  "stop_batch x =
     (if interrupted x then
        (let x1 = x\<lparr>sb_status := BStopped\<rparr>; remaining = i64 (sb_total x1 - sb_completed x1)
         in if remaining > 0 then x1\<lparr>sb_stopped := i64 (sb_stopped x1 + remaining)\<rparr> else x1)
      else x)"

definition retry_batch :: "shadow_batch \<Rightarrow> shadow_batch" where
  "retry_batch x =
     (if sb_status x = BFailed \<or> sb_status x = BStopped
      then x\<lparr>sb_status := BPending, sb_completed := 0, sb_succeeded := 0, sb_failed := 0, sb_stopped := 0,
             sb_last_error := ''''\<rparr>
      else x)"

definition batches_stop :: "io \<Rightarrow> string \<Rightarrow> instant \<Rightarrow> shadow_batches \<Rightarrow> bool \<times> shadow_batches" where
  "batches_stop io k now s = batches_apply io k stop_batch now s"

definition batches_retry :: "io \<Rightarrow> string \<Rightarrow> instant \<Rightarrow> shadow_batches \<Rightarrow> bool \<times> shadow_batches" where
  "batches_retry io k now s = batches_apply io k retry_batch now s"

section \<open>The teacher: selection and conversation (reviewer_config.go, review_session.go)\<close>

record review_message =
  msg_role :: string
  msg_content :: string

record session_doc =
  sd_summary :: string
  sd_messages :: "review_message list"
  sd_turns :: int
  sd_compactions :: int
  sd_updated_at :: instant

text \<open>A store of one document instead of a map.\<close>

record 'd doc_store =
  doc :: 'd
  doc_path :: string
  doc_disk :: "'d disk"

definition persist_doc :: "io \<Rightarrow> 'd doc_store \<Rightarrow> 'd doc_store" where
  "persist_doc io s = (if doc_path s = '''' then s else s\<lparr>doc_disk := snd (write_atomic io (doc s) (doc_disk s))\<rparr>)"

interpretation one_doc: durable_store doc doc_disk "\<lambda>s. doc_path s \<noteq> ''''" persist_doc
  by unfold_locales (auto simp: persist_doc_def)

lemma doc_persist_doc [simp]: "doc (persist_doc io s) = doc s"
  by (rule one_doc.persist_entries)

definition doc_set :: "io \<Rightarrow> 'd \<Rightarrow> 'd doc_store \<Rightarrow> 'd doc_store" where
  "doc_set io v s = persist_doc io (s\<lparr>doc := v\<rparr>)"

lemma doc_doc_set [simp]: "doc (doc_set io v s) = v"
  by (simp add: doc_set_def)

definition doc_load :: "string \<Rightarrow> bool \<Rightarrow> 'd disk \<Rightarrow> 'd doc_store \<Rightarrow> 'd doc_store" where
  "doc_load p readable d s =
     (let s1 = s\<lparr>doc_path := p, doc_disk := d\<rparr> in
      case read_doc readable (d_file d) of Parsed x \<Rightarrow> s1\<lparr>doc := x\<rparr> | _ \<Rightarrow> s1)"

type_synonym review_session = "session_doc doc_store"

definition new_review_session :: review_session where
  "new_review_session = \<lparr>doc = \<lparr>sd_summary = '''', sd_messages = [], sd_turns = 0, sd_compactions = 0,
      sd_updated_at = zero_time\<rparr>, doc_path = '''', doc_disk = blank_disk\<rparr>"

definition session_load :: "string \<Rightarrow> bool \<Rightarrow> session_doc disk \<Rightarrow> review_session \<Rightarrow> review_session" where
  "session_load p readable d s = doc_load p readable d s"

definition session_snapshot :: "review_session \<Rightarrow> review_message list \<times> string \<times> int \<times> int" where
  "session_snapshot s = (sd_messages (doc s), sd_summary (doc s), sd_turns (doc s), sd_compactions (doc s))"

definition raw_bytes :: "nat list \<Rightarrow> string" where
  "raw_bytes ns = map char_of ns"

text \<open>The handoff message, a UTF-8 text with the five arguments in it.\<close>

definition handoff_text :: "string \<Rightarrow> string \<Rightarrow> string \<Rightarrow> string \<Rightarrow> string \<Rightarrow> string" where
  "handoff_text from_model from_provider to_model to_provider reason =
     raw_bytes [230, 149, 153, 229, 184, 136, 228, 186, 164, 230, 142, 165, 239, 188, 154, 228, 184, 138, 228, 184, 128,
           228, 189, 141, 230, 149, 153, 229, 184, 136, 61] @ from_model @
     raw_bytes [239, 188, 136] @ from_provider @
     raw_bytes [239, 188, 137, 239, 188, 140, 229, 189, 147, 229, 137, 141, 230, 149, 153, 229, 184, 136, 61] @ to_model @
     raw_bytes [239, 188, 136] @ to_provider @
     raw_bytes [239, 188, 137, 227, 128, 130, 229, 142, 159, 229, 155, 160, 61] @ reason @
     raw_bytes [227, 128, 130, 232, 175, 183, 231, 187, 167, 231, 187, 173, 228, 189, 191, 231, 148, 168, 230, 156, 172,
           228, 188, 154, 232, 175, 157, 231, 154, 132, 233, 149, 191, 230, 156, 159, 229, 164, 141, 231, 155, 152,
           232, 174, 176, 229, 191, 134, 239, 188, 140, 228, 184, 141, 232, 166, 129, 230, 184, 133, 231, 169, 186,
           229, 142, 134, 229, 143, 178, 227, 128, 130]"

definition session_handoff ::
  "io \<Rightarrow> string \<Rightarrow> string \<Rightarrow> string \<Rightarrow> string \<Rightarrow> string \<Rightarrow> instant \<Rightarrow> review_session \<Rightarrow> review_session" where
  "session_handoff io fm fp tm tp reason now s =
     (let x = doc s in doc_set io
        (x\<lparr>sd_messages := sd_messages x @ [\<lparr>msg_role = ''system'', msg_content = handoff_text fm fp tm tp reason\<rparr>],
           sd_turns := i64 (sd_turns x + 1), sd_updated_at := now\<rparr>) s)"

definition session_append :: "io \<Rightarrow> string \<Rightarrow> string \<Rightarrow> instant \<Rightarrow> review_session \<Rightarrow> review_session" where
  "session_append io user assistant now s =
     (let x = doc s;
          m1 = (if user \<noteq> '''' then sd_messages x @ [\<lparr>msg_role = ''user'', msg_content = user\<rparr>] else sd_messages x);
          m2 = (if assistant \<noteq> '''' then m1 @ [\<lparr>msg_role = ''assistant'', msg_content = assistant\<rparr>] else m1)
      in doc_set io (x\<lparr>sd_messages := m2, sd_turns := i64 (sd_turns x + 1), sd_updated_at := now\<rparr>) s)"

definition session_replace :: "io \<Rightarrow> string \<Rightarrow> review_message list \<Rightarrow> instant \<Rightarrow> review_session \<Rightarrow> review_session" where
  "session_replace io summary msgs now s =
     (let x = doc s in doc_set io
        (x\<lparr>sd_summary := summary, sd_messages := msgs, sd_compactions := i64 (sd_compactions x + 1),
           sd_updated_at := now\<rparr>) s)"

definition approx_chars :: "review_session \<Rightarrow> int" where
  "approx_chars s = int (length (sd_summary (doc s)) +
     sum_list (map (\<lambda>m. length (msg_role m) + length (msg_content m)) (sd_messages (doc s))))"

record reviewer_config =
  rg_model :: string
  rg_provider :: string
  rg_selected_at :: "instant option"
  rg_checked_at :: "instant option"
  rg_failures :: int
  rg_last_error :: string

definition blank_reviewer :: reviewer_config where
  "blank_reviewer = \<lparr>rg_model = '''', rg_provider = '''', rg_selected_at = None, rg_checked_at = None,
     rg_failures = 0, rg_last_error = ''''\<rparr>"

type_synonym reviewer_selection = "reviewer_config doc_store"

definition new_selection :: reviewer_selection where
  "new_selection = \<lparr>doc = blank_reviewer, doc_path = '''', doc_disk = blank_disk\<rparr>"

definition selection_load :: "string \<Rightarrow> bool \<Rightarrow> reviewer_config disk \<Rightarrow> reviewer_selection \<Rightarrow> reviewer_selection" where
  "selection_load p readable d s = doc_load p readable d s"

definition selection_get :: "reviewer_selection \<Rightarrow> reviewer_config" where
  "selection_get s = doc s"

definition selection_set ::
  "io \<Rightarrow> io \<Rightarrow> string \<Rightarrow> string \<Rightarrow> instant \<Rightarrow> review_session option \<Rightarrow> reviewer_selection \<Rightarrow>
     review_session option \<times> reviewer_selection" where
  "selection_set io io' model provider now sess s =
     (let old = doc s;
          s1 = doc_set io (blank_reviewer\<lparr>rg_model := model, rg_provider := provider, rg_selected_at := Some now\<rparr>) s
      in (if (rg_model old \<noteq> '''' \<or> rg_provider old \<noteq> '''') \<and> (rg_model old \<noteq> model \<or> rg_provider old \<noteq> provider)
          then map_option (session_handoff io' (rg_model old) (rg_provider old) model provider
                 (raw_bytes [231, 148, 168, 230, 136, 183, 230, 155, 180, 230, 141, 162, 230, 149, 153, 229, 184, 136,
                        230, 168, 161, 229, 158, 139]) now) sess
          else sess, s1))"

definition selection_clear ::
  "io \<Rightarrow> io \<Rightarrow> string \<Rightarrow> instant \<Rightarrow> review_session option \<Rightarrow> reviewer_selection \<Rightarrow>
     review_session option \<times> reviewer_selection" where
  "selection_clear io io' reason now sess s =
     (let old = doc s;
          s1 = doc_set io (blank_reviewer\<lparr>rg_last_error := reason\<rparr>) s
      in (if rg_model old \<noteq> ''''
          then map_option (session_handoff io' (rg_model old) (rg_provider old)
                 (raw_bytes [230, 156, 170, 233, 128, 137, 230, 139, 169]) '''' reason now) sess
          else sess, s1))"

definition selection_available :: "reviewer_selection \<Rightarrow> bool" where
  "selection_available s \<longleftrightarrow> rg_model (doc s) \<noteq> ''''"

definition selection_failure ::
  "io \<Rightarrow> io \<Rightarrow> string \<Rightarrow> int \<Rightarrow> instant \<Rightarrow> review_session option \<Rightarrow> reviewer_selection \<Rightarrow>
     review_session option \<times> reviewer_selection" where
  "selection_failure io io' err threshold now sess s =
     (let x = (doc s)\<lparr>rg_failures := i64 (rg_failures (doc s) + 1), rg_last_error := err, rg_checked_at := Some now\<rparr>;
          s1 = s\<lparr>doc := x\<rparr>
      in if threshold > 0 \<and> rg_failures x \<ge> threshold then selection_clear io io' err now sess s1
         else (sess, persist_doc io s1))"

definition selection_success :: "io \<Rightarrow> instant \<Rightarrow> reviewer_selection \<Rightarrow> reviewer_selection" where
  "selection_success io now s =
     doc_set io ((doc s)\<lparr>rg_failures := 0, rg_last_error := '''', rg_checked_at := Some now\<rparr>) s"

end
