(* ===== verification/Knowledge.thy ===== *)
theory Knowledge
  imports Runtime_Stores
begin

text \<open>
  Routing knowledge (internal/runtime/knowledge.go): what a teacher's review proposed, how it is
  validated, promoted, rejected, expired and restored. The counters are Go ints.
\<close>

section \<open>State\<close>

datatype knowledge_status = KProposed | KValidated | KTrusted | KRejected | KExpired | KOther string

record validation =
  vd_id :: string
  vd_at :: instant
  vd_success :: bool
  vd_cause :: failure_cause
  vd_note :: string
  vd_from :: knowledge_status
  vd_to :: knowledge_status

record knowledge =
  kn_id :: string
  kn_signature :: string
  kn_features :: task_features
  kn_actual_model :: string
  kn_actual_provider :: string
  kn_recommended :: string
  kn_minimum_tier :: int
  kn_confidence :: rat
  kn_samples :: int
  kn_validated :: int
  kn_successful :: int
  kn_failed :: int
  kn_status :: knowledge_status
  kn_cause :: failure_cause
  kn_sources :: "string list"
  kn_validation_ids :: "string list"
  kn_history :: "validation list"
  kn_created_at :: instant
  kn_updated_at :: instant
  kn_expires_at :: "instant option"
  kn_note :: string

type_synonym knowledge_store = "knowledge store"

definition new_knowledge_store :: knowledge_store where
  "new_knowledge_store = \<lparr>items = [], path = '''', disk = blank_disk\<rparr>"

definition in_force :: "knowledge_status \<Rightarrow> bool" where
  "in_force st \<longleftrightarrow> st = KTrusted \<or> st = KValidated"

definition run_out :: "instant \<Rightarrow> knowledge \<Rightarrow> bool" where
  "run_out now x \<longleftrightarrow>
     (case kn_expires_at x of None \<Rightarrow> False | Some e \<Rightarrow> e < now) \<and> in_force (kn_status x)"

section \<open>Operations\<close>

definition knowledge_load ::
  "string \<Rightarrow> bool \<Rightarrow> instant \<Rightarrow> (string, knowledge) gomap disk \<Rightarrow> knowledge_store \<Rightarrow> knowledge_store" where
  "knowledge_load p readable now d s =
     (let s1 = s\<lparr>path := p, disk := d\<rparr>;
          s2 = (case read_doc readable (d_file d) of Parsed x \<Rightarrow> s1\<lparr>items := x\<rparr> | _ \<Rightarrow> s1)
      in s2\<lparr>items := map_vals (\<lambda>k x. if run_out now x then x\<lparr>kn_status := KExpired\<rparr> else x) (items s2)\<rparr>)"

definition knowledge_all :: "knowledge_store \<Rightarrow> knowledge list" where
  "knowledge_all s = map snd (items s)"

text \<open>Sources not seen before are appended, and counted.\<close>

fun merge_sources :: "string list \<Rightarrow> string list \<Rightarrow> string list \<times> int" where
  "merge_sources old [] = (old, 0)"
| "merge_sources old (x # xs) =
     (if x \<in> set old then merge_sources old xs
      else (case merge_sources (old @ [x]) xs of (o', n) \<Rightarrow> (o', n + 1)))"

definition merge_knowledge :: "knowledge \<Rightarrow> knowledge \<Rightarrow> knowledge" where
  "merge_knowledge old x =
     (let n = i64 (kn_samples old + snd (merge_sources (kn_sources old) (kn_sources x)))
      in x\<lparr>kn_samples := (if n = 0 then 1 else n),
           kn_validated := kn_validated old, kn_successful := kn_successful old, kn_failed := kn_failed old,
           kn_validation_ids := kn_validation_ids old, kn_history := kn_history old, kn_status := kn_status old,
           kn_cause := kn_cause old, kn_note := kn_note old, kn_expires_at := kn_expires_at old,
           kn_created_at := (if kn_created_at x = zero_time then kn_created_at old else kn_created_at x)\<rparr>)"

definition knowledge_upsert :: "io \<Rightarrow> knowledge \<Rightarrow> knowledge_store \<Rightarrow> knowledge_store" where
  "knowledge_upsert io x s =
     (if kn_id x = '''' then s
      else store_put io (kn_id x)
             (case map_of (items s) (kn_id x) of None \<Rightarrow> x | Some old \<Rightarrow> merge_knowledge old x) s)"

definition knowledge_apply ::
  "io \<Rightarrow> string \<Rightarrow> (knowledge \<Rightarrow> knowledge) \<Rightarrow> instant \<Rightarrow> knowledge_store \<Rightarrow> bool \<times> knowledge_store" where
  "knowledge_apply io k f now s = store_apply io k (\<lambda>x. (f x)\<lparr>kn_updated_at := now\<rparr>) s"

definition promote :: "knowledge \<Rightarrow> knowledge" where
  "promote k =
     (let k1 = (if kn_validated k \<ge> 3 \<and> i64 (kn_successful k * 100) \<ge> i64 (kn_validated k * 80) \<and> kn_status k = KProposed
                then k\<lparr>kn_status := KValidated\<rparr> else k)
      in if kn_validated k1 \<ge> 10 \<and> i64 (kn_successful k1 * 100) \<ge> i64 (kn_validated k1 * 90) \<and> kn_status k1 = KValidated
         then k1\<lparr>kn_status := KTrusted\<rparr> else k1)"

definition count_validation :: "string \<Rightarrow> bool \<Rightarrow> failure_cause \<Rightarrow> knowledge \<Rightarrow> knowledge" where
  "count_validation vid success cause k =
     (let k1 = k\<lparr>kn_validation_ids := kn_validation_ids k @ [vid], kn_validated := i64 (kn_validated k + 1)\<rparr>
      in if success then k1\<lparr>kn_successful := i64 (kn_successful k1 + 1)\<rparr>
         else k1\<lparr>kn_failed := i64 (kn_failed k1 + 1), kn_cause := cause\<rparr>)"

definition validity :: duration where
  "validity = 30 * 24 * hour"

definition validated :: "string \<Rightarrow> bool \<Rightarrow> failure_cause \<Rightarrow> string \<Rightarrow> instant \<Rightarrow> knowledge \<Rightarrow> knowledge" where
  "validated vid success cause note now k =
     (let k1 = promote (count_validation vid success cause k);
          k2 = (if note \<noteq> '''' then k1\<lparr>kn_note := note\<rparr> else k1);
          k3 = (if kn_expires_at k2 = None then k2\<lparr>kn_expires_at := Some (now + validity)\<rparr> else k2)
      in k3\<lparr>kn_updated_at := now,
            kn_history := kn_history k3 @ [\<lparr>vd_id = vid, vd_at = now, vd_success = success, vd_cause = cause,
                                            vd_note = note, vd_from = kn_status k, vd_to = kn_status k3\<rparr>]\<rparr>)"

definition record_validation ::
  "io \<Rightarrow> string \<Rightarrow> string \<Rightarrow> bool \<Rightarrow> failure_cause \<Rightarrow> string \<Rightarrow> instant \<Rightarrow> knowledge_store \<Rightarrow> bool \<times> knowledge_store" where
  "record_validation io k vid success cause note now s =
     (if vid = '''' then (False, s)
      else (case map_of (items s) k of
          None \<Rightarrow> (False, s)
        | Some x \<Rightarrow> if vid \<in> set (kn_validation_ids x) then (False, s)
                    else (True, store_put io k (validated vid success cause note now x) s)))"

definition known_status :: "knowledge_status \<Rightarrow> bool" where
  "known_status st \<longleftrightarrow> st \<in> {KProposed, KValidated, KTrusted, KRejected, KExpired}"

definition change_status ::
  "io \<Rightarrow> string \<Rightarrow> knowledge_status \<Rightarrow> string \<Rightarrow> failure_cause \<Rightarrow> instant \<Rightarrow> knowledge_store \<Rightarrow> bool \<times> knowledge_store" where
  "change_status io k st note cause now s =
     (if \<not> known_status st then (False, s)
      else (case map_of (items s) k of
          None \<Rightarrow> (False, s)
        | Some x \<Rightarrow>
            if kn_status x = st then (False, s)
            else (True, store_put io k
                   (x\<lparr>kn_status := st, kn_note := note, kn_cause := cause, kn_updated_at := now,
                      kn_history := kn_history x @
                        [\<lparr>vd_id = ''decision-'' @ format_stamp now, vd_at = now,
                          vd_success = (st \<noteq> KRejected \<and> st \<noteq> KExpired), vd_cause = cause, vd_note = note,
                          vd_from = kn_status x, vd_to = st\<rparr>]\<rparr>) s)))"

definition knowledge_restore ::
  "io \<Rightarrow> string \<Rightarrow> knowledge_status \<Rightarrow> string \<Rightarrow> instant \<Rightarrow> knowledge_store \<Rightarrow> bool \<times> knowledge_store" where
  "knowledge_restore io k st note now s =
     (if st \<noteq> KValidated \<and> st \<noteq> KTrusted then (False, s)
      else (case map_of (items s) k of
          None \<Rightarrow> (False, s)
        | Some x \<Rightarrow>
            if kn_status x \<noteq> KExpired \<and> kn_status x \<noteq> KRejected then (False, s)
            else (True, store_put io k
                   (x\<lparr>kn_status := st, kn_note := note, kn_expires_at := Some (now + validity), kn_updated_at := now,
                      kn_history := kn_history x @
                        [\<lparr>vd_id = ''restore-'' @ format_stamp now, vd_at = now, vd_success = True, vd_cause = CauseNone,
                          vd_note = note, vd_from = kn_status x, vd_to = st\<rparr>]\<rparr>) s)))"

definition knowledge_expire :: "io \<Rightarrow> instant \<Rightarrow> knowledge_store \<Rightarrow> nat \<times> knowledge_store" where
  "knowledge_expire io now s =
     store_rewrite io (run_out now) (\<lambda>x. x\<lparr>kn_status := KExpired, kn_updated_at := now\<rparr>) s"

definition bool_string :: "bool \<Rightarrow> string" where
  "bool_string b = (if b then ''1'' else ''0'')"

definition signature :: "task_features \<Rightarrow> string" where
  "signature f = tf_domain f @ ''|'' @ tf_action f @ ''|tools='' @ bool_string (tf_needs_tools f) @ ''|vision='' @
     bool_string (tf_needs_vision f) @ ''|json='' @ bool_string (tf_needs_structured f) @ ''|reason='' @ itoa (tf_reasoning f)"

section \<open>Steps, and who can revive a rejected entry\<close>

datatype knowledge_event =
  KUpsert knowledge
| KValidate string string bool failure_cause string instant
| KChange string knowledge_status string failure_cause instant
| KRestore string knowledge_status string instant
| KExpire instant

fun knowledge_step :: "knowledge_store \<Rightarrow> knowledge_event \<times> io \<Rightarrow> knowledge_store" where
  "knowledge_step s (KUpsert x, io) = knowledge_upsert io x s"
| "knowledge_step s (KValidate k vid success cause note now, io) = snd (record_validation io k vid success cause note now s)"
| "knowledge_step s (KChange k st note cause now, io) = snd (change_status io k st note cause now s)"
| "knowledge_step s (KRestore k st note now, io) = snd (knowledge_restore io k st note now s)"
| "knowledge_step s (KExpire now, io) = snd (knowledge_expire io now s)"

text \<open>An operator's decision about this very entry.\<close>

fun decides :: "knowledge_event \<times> io \<Rightarrow> string \<Rightarrow> bool" where
  "decides (KChange k' st note cause now, io) k = (k' = k)"
| "decides (KRestore k' st note now, io) k = (k' = k)"
| "decides _ k = False"

definition withdrawn :: "knowledge_store \<Rightarrow> string \<Rightarrow> bool" where
  "withdrawn s k \<longleftrightarrow> (\<exists>x. lookup s k = Some x \<and> (kn_status x = KRejected \<or> kn_status x = KExpired))"

lemma status_count_validation [simp]: "kn_status (count_validation vid b c k) = kn_status k"
  by (simp add: count_validation_def Let_def)

lemma promote_withdrawn: "kn_status k \<noteq> KProposed \<Longrightarrow> kn_status k \<noteq> KValidated \<Longrightarrow> promote k = k"
  by (simp add: promote_def Let_def)

lemma validated_withdrawn: "kn_status k = KRejected \<or> kn_status k = KExpired \<Longrightarrow>
    kn_status (validated vid b c n t k) = kn_status k"
  by (auto simp: validated_def Let_def promote_withdrawn)

lemma merge_status [simp]: "kn_status (merge_knowledge old x) = kn_status old"
  by (simp add: merge_knowledge_def Let_def)

lemma withdrawn_step: "withdrawn s k \<Longrightarrow> \<not> decides e k \<Longrightarrow> withdrawn (knowledge_step s e) k"
proof (cases "(s, e)" rule: knowledge_step.cases)
  case (1 s' x io)
  assume "withdrawn s k"
  then show ?thesis using 1 by (auto simp: withdrawn_def knowledge_upsert_def lookup_def [symmetric] split: option.split)
next
  case (2 s' k' vid b c n t io)
  assume "withdrawn s k"
  then show ?thesis using 2
    by (auto simp: withdrawn_def record_validation_def lookup_def [symmetric] validated_withdrawn split: option.split)
next
  case (3 s' k' st n c t io)
  assume "withdrawn s k" "\<not> decides e k"
  then show ?thesis using 3
    by (auto simp: withdrawn_def change_status_def lookup_def [symmetric] split: option.split)
next
  case (4 s' k' st n t io)
  assume "withdrawn s k" "\<not> decides e k"
  then show ?thesis using 4
    by (auto simp: withdrawn_def knowledge_restore_def lookup_def [symmetric] split: option.split)
next
  case (5 s' t io)
  assume "withdrawn s k"
  then obtain x where x: "lookup s k = Some x" "kn_status x = KRejected \<or> kn_status x = KExpired"
    by (auto simp: withdrawn_def)
  then have "\<not> run_out t x" by (auto simp: run_out_def in_force_def)
  then show ?thesis using 5 x by (auto simp: withdrawn_def knowledge_expire_def lookup_store_rewrite)
qed

interpretation withdrawal: latch knowledge_step withdrawn decides
  by unfold_locales (rule withdrawn_step)

text \<open>
  Knowledge that was rejected or has expired comes back only by an operator's decision about that
  very entry: no sequence of new reviews, validations, expiries and decisions about other entries
  makes it validated or trusted again, however many validations succeed.
\<close>

theorem withdrawn_needs_a_decision:
  assumes "withdrawn s k" and "\<exists>x. lookup (foldl knowledge_step s es) k = Some x \<and> in_force (kn_status x)"
  shows "\<exists>e \<in> set es. decides e k"
proof -
  have "\<not> withdrawn (foldl knowledge_step s es) k" using assms(2) by (auto simp: withdrawn_def in_force_def)
  with assms(1) show ?thesis by (rule withdrawal.released_by)
qed

definition sample_knowledge :: "knowledge_status \<Rightarrow> knowledge" where
  "sample_knowledge st = \<lparr>kn_id = ''k'', kn_signature = ''s'',
     kn_features = \<lparr>tf_domain = '''', tf_action = '''', tf_needs_tools = False, tf_needs_vision = False, tf_needs_structured = False,
       tf_needs_long_context = False, tf_reasoning = 0, tf_messages = 0, tf_input_bytes = 0\<rparr>,
     kn_actual_model = ''a'', kn_actual_provider = ''p'', kn_recommended = ''m'', kn_minimum_tier = 0, kn_confidence = 1,
     kn_samples = 1, kn_validated = 0, kn_successful = 0, kn_failed = 0, kn_status = st, kn_cause = CauseNone, kn_sources = [''r''],
     kn_validation_ids = [], kn_history = [], kn_created_at = 0, kn_updated_at = 0, kn_expires_at = None, kn_note = ''''\<rparr>"

theorem withdrawn_needs_a_decision_witness:
  "\<exists>e \<in> set [(KRestore ''k'' KTrusted '''' 5, good_io)]. decides e ''k''"
proof -
  let ?s = "knowledge_upsert good_io (sample_knowledge KRejected) new_knowledge_store"
  let ?es = "[(KRestore ''k'' KTrusted '''' 5, good_io)]"
  have s: "lookup ?s ''k'' = Some (sample_knowledge KRejected)"
    by (simp add: knowledge_upsert_def sample_knowledge_def new_knowledge_store_def)
  have "withdrawn ?s ''k''" using s by (simp add: withdrawn_def sample_knowledge_def)
  moreover have "\<exists>x. lookup (foldl knowledge_step ?s ?es) ''k'' = Some x \<and> in_force (kn_status x)"
    using s by (simp add: knowledge_restore_def lookup_def [symmetric] in_force_def) (simp add: sample_knowledge_def)
  ultimately show ?thesis by (rule withdrawn_needs_a_decision)
qed

section \<open>Promotion\<close>

record trial =
  tr_id :: string
  tr_success :: bool
  tr_cause :: failure_cause
  tr_note :: string
  tr_at :: instant
  tr_io :: io

definition run_trials :: "string \<Rightarrow> trial list \<Rightarrow> knowledge_store \<Rightarrow> knowledge_store" where
  "run_trials k ts s =
     foldl knowledge_step s (map (\<lambda>t. (KValidate k (tr_id t) (tr_success t) (tr_cause t) (tr_note t) (tr_at t), tr_io t)) ts)"

definition wins :: "trial list \<Rightarrow> int" where
  "wins ts = int (length (filter tr_success ts))"

text \<open>At least so many trials, and at least so many percent of them successful.\<close>

definition earned :: "nat \<Rightarrow> int \<Rightarrow> trial list \<Rightarrow> bool" where
  "earned n pct ts \<longleftrightarrow> n \<le> length ts \<and> wins ts * 100 \<ge> int (length ts) * pct"

definition ever_earned :: "nat \<Rightarrow> int \<Rightarrow> trial list \<Rightarrow> bool" where
  "ever_earned n pct ts \<longleftrightarrow> list_ex (\<lambda>m. earned n pct (take m ts)) [0..<Suc (length ts)]"

lemma ever_earned_iff: "ever_earned n pct ts \<longleftrightarrow> (\<exists>m \<le> length ts. earned n pct (take m ts))"
proof -
  have "set [0..<Suc (length ts)] = {m. m \<le> length ts}" by auto
  then show ?thesis unfolding ever_earned_def list_ex_iff by simp
qed

lemma ever_earned_snoc: "ever_earned n pct (ts @ [t]) \<longleftrightarrow> ever_earned n pct ts \<or> earned n pct (ts @ [t])"
proof -
  have "(\<exists>m \<le> length (ts @ [t]). earned n pct (take m (ts @ [t]))) \<longleftrightarrow>
      (\<exists>m \<le> length ts. earned n pct (take m (ts @ [t]))) \<or> earned n pct (ts @ [t])"
    by (auto simp: le_Suc_eq)
  moreover have "take m (ts @ [t]) = take m ts" if "m \<le> length ts" for m using that by simp
  ultimately show ?thesis unfolding ever_earned_iff by (metis (no_types))
qed

lemma wins_snoc: "wins (ts @ [t]) = wins ts + (if tr_success t then 1 else 0)"
  by (simp add: wins_def)

lemma wins_bounds: "0 \<le> wins ts \<and> wins ts \<le> int (length ts)"
  by (simp add: wins_def)

definition track_record :: "trial list \<Rightarrow> knowledge \<Rightarrow> bool" where
  "track_record ts x \<longleftrightarrow> kn_validated x = int (length ts) \<and> kn_successful x = wins ts \<and>
     kn_failed x = int (length ts) - wins ts \<and> kn_validation_ids x = map tr_id ts \<and>
     kn_status x = (if ever_earned 10 90 ts then KTrusted else if ever_earned 3 80 ts then KValidated else KProposed)"

lemma counts_validated:
  "kn_validated (validated vid b c n t x) = i64 (kn_validated x + 1)"
  "kn_successful (validated vid b c n t x) = (if b then i64 (kn_successful x + 1) else kn_successful x)"
  "kn_failed (validated vid b c n t x) = (if b then kn_failed x else i64 (kn_failed x + 1))"
  "kn_validation_ids (validated vid b c n t x) = kn_validation_ids x @ [vid]"
  "kn_status (validated vid b c n t x) = kn_status (promote (count_validation vid b c x))"
  by (simp_all add: validated_def count_validation_def promote_def Let_def)

lemma status_promote: "kn_status (promote k) =
    (let v = kn_validated k \<ge> 3 \<and> i64 (kn_successful k * 100) \<ge> i64 (kn_validated k * 80);
         t = kn_validated k \<ge> 10 \<and> i64 (kn_successful k * 100) \<ge> i64 (kn_validated k * 90);
         st = (if v \<and> kn_status k = KProposed then KValidated else kn_status k)
     in if t \<and> st = KValidated then KTrusted else st)"
  by (auto simp: promote_def Let_def)

lemma track_record_step:
  assumes tr: "track_record ts x" and small: "int (length ts) < 2 ^ 56"
  shows "track_record (ts @ [t]) (validated (tr_id t) (tr_success t) c n now x)"
proof -
  let ?y = "count_validation (tr_id t) (tr_success t) c x"
  have bounds: "0 \<le> wins ts" "wins ts \<le> int (length ts)" using wins_bounds by auto
  have exact: "i64 (int (length ts) + 1) = int (length ts) + 1" "i64 (wins ts + 1) = wins ts + 1"
    "i64 (int (length ts) - wins ts + 1) = int (length ts) - wins ts + 1"
    using bounds small by (auto intro!: i64_id)
  have y: "kn_validated ?y = int (length (ts @ [t]))" "kn_successful ?y = wins (ts @ [t])" "kn_status ?y = kn_status x"
    using tr exact by (auto simp: track_record_def count_validation_def wins_snoc Let_def)
  have scaled: "i64 (wins (ts @ [t]) * 100) = wins (ts @ [t]) * 100"
    "i64 (int (length (ts @ [t])) * 80) = int (length (ts @ [t])) * 80"
    "i64 (int (length (ts @ [t])) * 90) = int (length (ts @ [t])) * 90"
    using wins_bounds [of "ts @ [t]"] small by (auto intro!: i64_id)
  have "earned 10 90 us \<Longrightarrow> earned 3 80 us" for us by (auto simp: earned_def)
  then have "kn_status (promote ?y) =
      (if ever_earned 10 90 (ts @ [t]) then KTrusted else if ever_earned 3 80 (ts @ [t]) then KValidated else KProposed)"
    using tr unfolding status_promote y scaled Let_def ever_earned_snoc
    by (auto simp: track_record_def earned_def)
  then show ?thesis using tr exact by (auto simp: track_record_def counts_validated wins_snoc)
qed

lemma run_trials_record:
  assumes "lookup s k = Some x" and "track_record [] x" and "distinct (map tr_id ts)" and "'''' \<notin> tr_id ` set ts"
    and "int (length ts) \<le> 2 ^ 56"
  shows "\<exists>y. lookup (run_trials k ts s) k = Some y \<and> track_record ts y"
  using assms(3-5)
proof (induction ts rule: rev_induct)
  case Nil
  then show ?case using assms by (simp add: run_trials_def)
next
  case (snoc t ts)
  then obtain y where y: "lookup (run_trials k ts s) k = Some y" "track_record ts y" by auto
  then have "tr_id t \<notin> set (kn_validation_ids y)" "tr_id t \<noteq> ''''"
    using snoc.prems by (auto simp: track_record_def)
  then have "lookup (run_trials k (ts @ [t]) s) k =
      Some (validated (tr_id t) (tr_success t) (tr_cause t) (tr_note t) (tr_at t) y)"
    using y(1) by (simp add: run_trials_def record_validation_def lookup_def [symmetric])
  then show ?case using track_record_step [OF y(2)] snoc.prems by auto
qed

text \<open>
  C21. Trust has to be earned: a newly proposed entry that is validated by trials with distinct ids is
  trusted exactly when at some point at least ten trials had been recorded of which at least ninety
  percent succeeded, and otherwise validated exactly when at some point at least three had been
  recorded of which eighty percent succeeded; the counters are the exact counts.
\<close>

theorem trust_is_earned:
  assumes "lookup s k = Some x" and "kn_status x = KProposed" and "kn_validated x = 0"
    and "kn_successful x = 0" and "kn_failed x = 0" and "kn_validation_ids x = []"
    and "distinct (map tr_id ts)" and "'''' \<notin> tr_id ` set ts" and "int (length ts) \<le> 2 ^ 56"
  shows "\<exists>y. lookup (run_trials k ts s) k = Some y \<and>
     kn_status y = (if ever_earned 10 90 ts then KTrusted else if ever_earned 3 80 ts then KValidated else KProposed) \<and>
     kn_validated y = int (length ts) \<and> kn_successful y = wins ts \<and> kn_failed y = int (length ts) - wins ts"
proof -
  have "track_record [] x" using assms(2-6) by (simp add: track_record_def ever_earned_def earned_def wins_def)
  from run_trials_record [OF assms(1) this assms(7-9)] show ?thesis by (auto simp: track_record_def)
qed

definition sample_trial :: "string \<Rightarrow> bool \<Rightarrow> trial" where
  "sample_trial v b = \<lparr>tr_id = v, tr_success = b, tr_cause = CauseProvider, tr_note = '''', tr_at = 0, tr_io = good_io\<rparr>"

theorem trust_is_earned_witness:
  "\<exists>y. lookup (run_trials ''k'' [sample_trial ''a'' True, sample_trial ''b'' True, sample_trial ''c'' True]
         (knowledge_upsert good_io (sample_knowledge KProposed) new_knowledge_store)) ''k'' = Some y \<and> kn_status y = KValidated"
proof -
  let ?s = "knowledge_upsert good_io (sample_knowledge KProposed) new_knowledge_store"
  let ?ts = "[sample_trial ''a'' True, sample_trial ''b'' True, sample_trial ''c'' True]"
  have s: "lookup ?s ''k'' = Some (sample_knowledge KProposed)"
    by (simp add: knowledge_upsert_def sample_knowledge_def new_knowledge_store_def)
  have "ever_earned 3 80 ?ts" and "\<not> ever_earned 10 90 ?ts"
    by (simp_all add: ever_earned_def earned_def wins_def sample_trial_def upt_rec)
  moreover have "\<exists>y. lookup (run_trials ''k'' ?ts ?s) ''k'' = Some y \<and>
     kn_status y = (if ever_earned 10 90 ?ts then KTrusted else if ever_earned 3 80 ?ts then KValidated else KProposed) \<and>
     kn_validated y = int (length ?ts) \<and> kn_successful y = wins ?ts \<and> kn_failed y = int (length ?ts) - wins ?ts"
    by (rule trust_is_earned [OF s]) (simp_all add: sample_knowledge_def sample_trial_def)
  ultimately show ?thesis by (metis (no_types))
qed

section \<open>Evidence is counted once\<close>

lemma merge_sources_seen: "set xs \<subseteq> set old \<Longrightarrow> merge_sources old xs = (old, 0)"
  by (induction old xs rule: merge_sources.induct) auto

text \<open>
  Learning from the same evidence twice changes nothing that counts: recording a validation id
  again is refused and leaves the store alone, and a new proposal whose reviews are all in the stored
  list of sources adds no sample; no proposal touches status, counters, history or expiry.
\<close>

theorem evidence_counts_once:
  "(let (ok, s1) = record_validation io k vid b cause note now s in
      record_validation io' k vid b' cause' note' now' s1 = (False, s1)) \<and>
   (lookup s (kn_id x) = Some old \<and> kn_id x \<noteq> '''' \<and> set (kn_sources x) \<subseteq> set (kn_sources old) \<and>
      1 \<le> kn_samples old \<and> kn_samples old < 2 ^ 63 \<longrightarrow>
      (\<exists>y. lookup (knowledge_upsert io x s) (kn_id x) = Some y \<and> kn_samples y = kn_samples old \<and>
         kn_status y = kn_status old \<and> kn_validated y = kn_validated old \<and> kn_successful y = kn_successful old \<and>
         kn_failed y = kn_failed old \<and> kn_history y = kn_history old \<and> kn_expires_at y = kn_expires_at old))"
proof (intro conjI impI)
  show "let (ok, s1) = record_validation io k vid b cause note now s in
      record_validation io' k vid b' cause' note' now' s1 = (False, s1)"
    by (auto simp: record_validation_def lookup_def [symmetric] counts_validated Let_def split: option.splits)
next
  assume *: "lookup s (kn_id x) = Some old \<and> kn_id x \<noteq> '''' \<and> set (kn_sources x) \<subseteq> set (kn_sources old) \<and>
      1 \<le> kn_samples old \<and> kn_samples old < 2 ^ 63"
  then have "merge_sources (kn_sources old) (kn_sources x) = (kn_sources old, 0)" and "i64 (kn_samples old) = kn_samples old"
    by (auto intro: merge_sources_seen i64_id)
  then have "kn_samples (merge_knowledge old x) = kn_samples old" using * by (simp add: merge_knowledge_def)
  then show "\<exists>y. lookup (knowledge_upsert io x s) (kn_id x) = Some y \<and> kn_samples y = kn_samples old \<and>
         kn_status y = kn_status old \<and> kn_validated y = kn_validated old \<and> kn_successful y = kn_successful old \<and>
         kn_failed y = kn_failed old \<and> kn_history y = kn_history old \<and> kn_expires_at y = kn_expires_at old"
    using * by (simp add: knowledge_upsert_def lookup_def [symmetric]) (simp add: merge_knowledge_def Let_def)
qed

theorem evidence_counts_once_witness:
  "\<exists>y. lookup (knowledge_upsert good_io (sample_knowledge KTrusted)
          (knowledge_upsert good_io (sample_knowledge KProposed) new_knowledge_store)) ''k'' = Some y \<and>
       kn_samples y = 1 \<and> kn_status y = KProposed"
proof -
  let ?s = "knowledge_upsert good_io (sample_knowledge KProposed) new_knowledge_store"
  have "lookup ?s (kn_id (sample_knowledge KTrusted)) = Some (sample_knowledge KProposed) \<and>
      kn_id (sample_knowledge KTrusted) \<noteq> '''' \<and>
      set (kn_sources (sample_knowledge KTrusted)) \<subseteq> set (kn_sources (sample_knowledge KProposed)) \<and>
      1 \<le> kn_samples (sample_knowledge KProposed) \<and> kn_samples (sample_knowledge KProposed) < 2 ^ 63"
    by (simp add: knowledge_upsert_def sample_knowledge_def new_knowledge_store_def)
  from mp [OF conjunct2 [OF evidence_counts_once] this, of good_io] obtain y
    where "lookup (knowledge_upsert good_io (sample_knowledge KTrusted) ?s) (kn_id (sample_knowledge KTrusted)) = Some y"
      "kn_samples y = kn_samples (sample_knowledge KProposed)" "kn_status y = kn_status (sample_knowledge KProposed)"
    by blast
  then show ?thesis by (simp add: sample_knowledge_def)
qed

section \<open>Sources are forgotten\<close>

text \<open>One rebuild of the knowledge base from two reviews with the same signature and recommendation.\<close>

definition proposal :: "string \<Rightarrow> knowledge" where
  "proposal r = (sample_knowledge KProposed)\<lparr>kn_sources := [r]\<rparr>"

definition rebuild :: "io \<Rightarrow> knowledge_store \<Rightarrow> knowledge_store" where
  "rebuild io s = knowledge_upsert io (proposal ''b'') (knowledge_upsert io (proposal ''a'') s)"

lemma upsert_other_source:
  assumes "lookup s ''k'' = Some old" and "kn_sources old = [q]" and "q \<noteq> r" and "1 \<le> kn_samples old" and "kn_samples old < 2 ^ 62"
  shows "\<exists>y. lookup (knowledge_upsert io (proposal r) s) ''k'' = Some y \<and> kn_sources y = [r] \<and>
    kn_samples y = kn_samples old + 1"
proof -
  have "i64 (kn_samples old + 1) = kn_samples old + 1" using assms by (intro i64_id) auto
  then show ?thesis using assms
    by (simp add: knowledge_upsert_def proposal_def sample_knowledge_def lookup_def [symmetric] merge_knowledge_def)
qed

lemma rebuild_again:
  assumes "lookup s ''k'' = Some old" and "kn_sources old = [''b'']" and "1 \<le> kn_samples old" and "kn_samples old < 2 ^ 61"
  shows "\<exists>y. lookup (rebuild io s) ''k'' = Some y \<and> kn_sources y = [''b''] \<and> kn_samples y = kn_samples old + 2"
proof -
  have small: "kn_samples old < 2 ^ 62" and ne: "''b'' \<noteq> ''a''" using assms by auto
  obtain y where y: "lookup (knowledge_upsert io (proposal ''a'') s) ''k'' = Some y" "kn_sources y = [''a'']"
      "kn_samples y = kn_samples old + 1"
    using upsert_other_source [OF assms(1,2) ne assms(3) small] by blast
  have "1 \<le> kn_samples y" and "kn_samples y < 2 ^ 62" using assms y by auto
  from upsert_other_source [OF y(1,2) ne [symmetric] this, of io] y(3) show ?thesis by (simp add: rebuild_def add.commute)
qed

text \<open>
  Upsert merges the review ids into the old entry's list and then stores the new entry, whose list
  holds only the caller's ids; so with two reviews behind one entry every rebuild counts both of
  them again: after n + 1 rebuilds from the same two reviews the entry has 2 n + 2 samples.
\<close>

theorem rebuilds_inflate_samples:
  assumes "n < 2 ^ 60"
  shows "\<exists>y. lookup ((rebuild io ^^ Suc n) new_knowledge_store) ''k'' = Some y \<and> kn_samples y = 2 * int n + 2"
proof -
  have first: "\<exists>y. lookup (rebuild io new_knowledge_store) ''k'' = Some y \<and> kn_sources y = [''b''] \<and> kn_samples y = 2"
  proof -
    have "lookup (knowledge_upsert io (proposal ''a'') new_knowledge_store) ''k'' = Some (proposal ''a'')"
      by (simp add: knowledge_upsert_def proposal_def sample_knowledge_def new_knowledge_store_def)
    moreover have "kn_sources (proposal ''a'') = [''a'']" "''a'' \<noteq> ''b''" "1 \<le> kn_samples (proposal ''a'')"
      "kn_samples (proposal ''a'') < 2 ^ 62" "kn_samples (proposal ''a'') + 1 = 2"
      by (simp_all add: proposal_def sample_knowledge_def)
    ultimately show ?thesis using upsert_other_source [of _ "proposal ''a''" "''a''" "''b''" io] by (simp add: rebuild_def)
  qed
  have "\<exists>y. lookup ((rebuild io ^^ Suc n) new_knowledge_store) ''k'' = Some y \<and> kn_sources y = [''b''] \<and> kn_samples y = 2 * int n + 2"
    using assms
  proof (induction n)
    case 0
    then show ?case using first by simp
  next
    case (Suc n)
    then obtain y where y: "lookup ((rebuild io ^^ Suc n) new_knowledge_store) ''k'' = Some y" "kn_sources y = [''b'']"
        "kn_samples y = 2 * int n + 2" by auto
    have "1 \<le> kn_samples y" and "kn_samples y < 2 ^ 61" using Suc.prems y(3) by auto
    from rebuild_again [OF y(1,2) this, of io] y(3) show ?case by simp
  qed
  then show ?thesis by blast
qed

theorem rebuilds_inflate_samples_witness:
  "\<exists>y. lookup ((rebuild good_io ^^ Suc 49) new_knowledge_store) ''k'' = Some y \<and> kn_samples y = 100"
  using rebuilds_inflate_samples [of 49 good_io] by simp

end
