(* ===== verification/Go_Order.thy ===== *)
theory Go_Order
  imports Prelude "HOL-Library.Multiset"
begin

text \<open>
  Orders on Go values and sorting by them. Go compares strings bytewise. Package sort promises a
  sorted permutation for any strict weak order; where the order is total on the elements, as it is
  for strings and for records with distinct keys, that permutation is unique, so an insertion sort
  computes what sort.Strings and sort.Slice return. The interface of such an order is the locale
  weak_order.
\<close>

fun string_less :: "string \<Rightarrow> string \<Rightarrow> bool" where
  "string_less [] [] = False"
| "string_less [] (d # ds) = True"
| "string_less (c # cs) [] = False"
| "string_less (c # cs) (d # ds) =
     (if (of_char c :: nat) < of_char d then True
      else if (of_char d :: nat) < of_char c then False
      else string_less cs ds)"

lemma string_less_asym: "string_less x y \<Longrightarrow> \<not> string_less y x"
  by (induction x y rule: string_less.induct) (auto split: if_splits)

lemma string_less_split: "string_less x z \<Longrightarrow> string_less x y \<or> string_less y z"
proof (induction x z arbitrary: y rule: string_less.induct)
  case (2 d ds)
  then show ?case by (cases y) auto
next
  case (4 c cs d ds)
  then show ?case by (cases y) (auto split: if_splits)
qed auto

lemma string_less_total: "x \<noteq> y \<Longrightarrow> string_less x y \<or> string_less y x"
proof (induction x y rule: string_less.induct)
  case (4 c cs d ds)
  have "c = d" if "\<not> (of_char c :: nat) < of_char d" "\<not> (of_char d :: nat) < of_char c"
    using that by (metis char_of_char not_less_iff_gr_or_eq)
  with 4 show ?case by auto
qed auto

section \<open>Insertion sort\<close>

text \<open>The sorted part is kept reversed, so that the neighbour to the left is its head.\<close>

fun sift_by :: "('a \<Rightarrow> 'a \<Rightarrow> bool) \<Rightarrow> 'a \<Rightarrow> 'a list \<Rightarrow> 'a list" where
  "sift_by before x [] = [x]"
| "sift_by before x (y # ys) = (if before x y then y # sift_by before x ys else x # y # ys)"

definition sort_by :: "('a \<Rightarrow> 'a \<Rightarrow> bool) \<Rightarrow> 'a list \<Rightarrow> 'a list" where
  "sort_by before xs = rev (fold (sift_by before) xs [])"

lemma mset_sift_by: "mset (sift_by before x ys) = add_mset x (mset ys)"
  by (induction ys) auto

lemma set_sift_by [simp]: "set (sift_by before x ys) = insert x (set ys)"
  using mset_sift_by [of before x ys] by (metis set_mset_add_mset_insert set_mset_mset)

lemma mset_fold_sift: "mset (fold (sift_by before) xs acc) = mset xs + mset acc"
  by (induction xs arbitrary: acc) (auto simp: mset_sift_by)

lemma mset_sort_by: "mset (sort_by before xs) = mset xs"
  by (simp add: sort_by_def mset_fold_sift)

lemma set_sort_by [simp]: "set (sort_by before xs) = set xs"
  using mset_sort_by [of before xs] by (metis set_mset_mset)

lemma distinct_sort_by [simp]: "distinct (sort_by before xs) = distinct xs"
  using mset_sort_by [of before xs] by (metis mset_eq_imp_distinct_iff)

locale weak_order =
  fixes before :: "'a \<Rightarrow> 'a \<Rightarrow> bool"
  assumes asym: "before x y \<Longrightarrow> \<not> before y x"
    and split: "before x z \<Longrightarrow> before x y \<or> before y z"
begin

lemma sorted_sift: "sorted_wrt (\<lambda>x y. \<not> before x y) ys \<Longrightarrow> sorted_wrt (\<lambda>x y. \<not> before x y) (sift_by before x ys)"
proof (induction ys)
  case Nil
  then show ?case by simp
next
  case (Cons y ys)
  then show ?case using asym split by auto blast+
qed

lemma sorted_fold: "sorted_wrt (\<lambda>x y. \<not> before x y) acc \<Longrightarrow> sorted_wrt (\<lambda>x y. \<not> before x y) (fold (sift_by before) xs acc)"
  by (induction xs arbitrary: acc) (auto simp: sorted_sift)

lemma sorted_sort: "sorted_wrt (\<lambda>x y. \<not> before y x) (sort_by before xs)"
  using sorted_fold [of "[]" xs] by (simp add: sort_by_def sorted_wrt_rev)

lemma sift_end: "\<forall>y \<in> set ys. \<not> before x y \<Longrightarrow> sift_by before x ys = x # ys"
  by (cases ys) auto

lemma sort_sorted: "sorted_wrt (\<lambda>x y. \<not> before y x) xs \<Longrightarrow> sort_by before xs = xs"
proof (induction xs rule: rev_induct)
  case Nil
  then show ?case by (simp add: sort_by_def)
next
  case (snoc x xs)
  then have "fold (sift_by before) xs [] = rev xs" by (simp add: sort_by_def sorted_wrt_append) (metis rev_swap)
  moreover have "sift_by before x (rev xs) = x # rev xs"
    using snoc.prems by (intro sift_end) (auto simp: sorted_wrt_append)
  ultimately show ?case by (simp add: sort_by_def)
qed

lemma sort_idem: "sort_by before (sort_by before xs) = sort_by before xs"
  by (rule sort_sorted [OF sorted_sort])

end

interpretation bytewise: weak_order string_less
  by unfold_locales (rule string_less_asym string_less_split, assumption)+

definition sort_strings :: "string list \<Rightarrow> string list" where
  "sort_strings xs = sort_by string_less xs"

end
