(* ===== verification/Routing_Service.thy ===== *)
theory Routing_Service
  imports Capability Health Quota Knowledge Go_Order
begin

text \<open>
  What the router knows and how it ranks models (internal/routing/service.go, knowledge.go,
  router.go, and the first half of reliable.go). The service record holds the answers of the
  collaborators at one moment: the provider configurations, the gates, the quota lookups, the
  disabled switch, the catalog snapshot, the knowledge entries, the learning table and the health
  table. A request body is its bytes together with the value they parse to, None when they are not
  JSON.
\<close>

section \<open>Requests\<close>

record request =
  rq_raw :: string
  rq_json :: "json option"

definition rq_doc :: "request \<Rightarrow> json" where
  "rq_doc b = (case rq_json b of None \<Rightarrow> JObj [] | Some j \<Rightarrow> j)"

definition task_features_of :: "request \<Rightarrow> task_features" where
  "task_features_of b =
     \<lparr>tf_domain = '''', tf_action = '''',
      tf_needs_tools = (field ''tools'' dec_list [] (rq_doc b) \<noteq> []), tf_needs_vision = False,
      tf_needs_structured = (field ''response_format'' dec_any JNull (rq_doc b) \<noteq> JNull),
      tf_needs_long_context = False, tf_reasoning = 0,
      tf_messages = int (length (field ''messages'' dec_list [] (rq_doc b))),
      tf_input_bytes = int (length (rq_raw b))\<rparr>"

definition risky_words :: "string list" where
  "risky_words = [''production'', ''deploy'', ''database'', ''migration'', ''credential'', ''password'', ''api_key'',
     ''docker'', ''nas'', ''delete'']"

definition high_risk :: "request \<Rightarrow> bool" where
  "high_risk b \<longleftrightarrow> list_ex (contains_str (to_lower (rq_raw b))) risky_words"

text \<open>A message struct with a content of any type; a message that is not an object stays zero.\<close>

definition dec_message :: "json \<Rightarrow> json \<times> bool" where
  "dec_message j = dec_field ''content'' dec_any JNull j"

definition image_part :: "json \<Rightarrow> bool" where
  "image_part part \<longleftrightarrow>
     is_obj part \<and> (obj_get part ''type'' = Some (JStr ''image_url'') \<or> obj_get part ''type'' = Some (JStr ''input_image''))"

definition has_image :: "json \<Rightarrow> bool" where
  "has_image content \<longleftrightarrow> (case content of JArr parts \<Rightarrow> list_ex image_part parts | _ \<Rightarrow> False)"

definition required_capabilities :: "request \<Rightarrow> string list" where
  "required_capabilities b =
     (let j = rq_doc b;
          tools = (if field ''tools'' dec_list [] j \<noteq> [] then [''tools''] else []);
          fmt = (if field ''response_format'' dec_any JNull j \<noteq> JNull then [''structured_output''] else []);
          vision = (if list_ex has_image (field ''messages'' (dec_slice dec_message) [] j) then [''vision''] else [])
      in tools @ fmt @ vision)"

definition needs :: "request \<Rightarrow> string" where
  "needs b = (case required_capabilities b of [] \<Rightarrow> ''general'' | n # _ \<Rightarrow> n)"

text \<open>
  replaceModel: a body that is not JSON, or not an object, is sent as it is; None is the panic of
  assigning into the nil map that the body null decodes to.
\<close>

definition replace_model :: "json option \<Rightarrow> string \<Rightarrow> json option option" where
  "replace_model body name =
     (case body of
        None \<Rightarrow> Some None
      | Some JNull \<Rightarrow> None
      | Some j \<Rightarrow> Some (Some (if is_obj j then obj_put ''model'' (JStr name) j else j)))"

section \<open>The service\<close>

record route_config =
  pr_id :: string
  pr_base_url :: string
  pr_api_key :: string
  pr_kind :: string

definition provider_configs :: "(string, provider_config) gomap \<Rightarrow> (string, route_config) gomap" where
  "provider_configs cs = map (\<lambda>(k, c). (k, \<lparr>pr_id = pc_id c, pr_base_url = pc_base_url c,
     pr_api_key = pc_api_key c, pr_kind = pc_kind c\<rparr>)) cs"

record service =
  sv_providers :: "(string, route_config) gomap"
  sv_gate :: "(string, bool) gomap"
  sv_quota_provider :: "string \<Rightarrow> quota_snapshot option"
  sv_quota :: "(string, quota_snapshot) gomap"
  sv_models :: "model list"
  sv_disabled :: "string \<Rightarrow> bool"
  sv_knowledge :: "knowledge list option"
  sv_learning :: "learning option"
  sv_health :: "health option"

definition hard_in :: "instant \<Rightarrow> quota_snapshot option \<Rightarrow> bool" where
  "hard_in now q \<longleftrightarrow> (case q of None \<Rightarrow> False | Some x \<Rightarrow> hard_exhausted now x)"

definition quota_exhausted :: "instant \<Rightarrow> service \<Rightarrow> string \<Rightarrow> bool" where
  "quota_exhausted now s p \<longleftrightarrow> hard_in now (sv_quota_provider s p) \<or> hard_in now (map_of (sv_quota s) p)"

definition has_provider :: "instant \<Rightarrow> service \<Rightarrow> string \<Rightarrow> bool" where
  "has_provider now s p \<longleftrightarrow>
     (if map_of (sv_gate s) p = Some False then False
      else if sv_disabled s p then False
      else if hard_in now (sv_quota_provider s p) then False
      else if hard_in now (map_of (sv_quota s) p) then False
      else (case map_of (sv_providers s) p of None \<Rightarrow> False | Some c \<Rightarrow> pr_base_url c \<noteq> ''''))"

text \<open>A name with an optional openai/ prefix and an optional provider before the first slash.\<close>

definition split_name :: "string \<Rightarrow> string \<times> string" where
  "split_name raw =
     (let name = trim_prefix raw ''openai/'' in
      case split_slash name of
        None \<Rightarrow> ('''', name)
      | Some (p, m) \<Rightarrow> if p = '''' then ('''', name) else (p, m))"

definition has_model :: "instant \<Rightarrow> service \<Rightarrow> string \<Rightarrow> bool" where
  "has_model now s raw =
     (case split_name raw of (p, name) \<Rightarrow>
        list_ex (\<lambda>m. m_id m = name \<and> (p = '''' \<or> m_provider m = p) \<and> m_admitted m \<and> m_auto_routable m \<and>
                     has_provider now s (m_provider m)) (sv_models s))"

definition provider_for :: "service \<Rightarrow> string \<Rightarrow> string" where
  "provider_for s raw =
     (case split_name raw of (p, name) \<Rightarrow>
        (case find (\<lambda>m. m_id m = name \<and> (p = '''' \<or> m_provider m = p)) (sv_models s) of
           None \<Rightarrow> '''' | Some m \<Rightarrow> m_provider m))"

section \<open>Bonuses\<close>

text \<open>Duration.Hours: the whole hours plus the rest as a fraction.\<close>

definition duration_hours :: "duration \<Rightarrow> rat" where
  "duration_hours d = fadd (float_of (go_div d hour)) (fdiv (float_of (go_rem d hour)) 3600000000000)"

definition freshness :: "duration \<Rightarrow> rat" where
  "freshness d = (let left = fdiv (duration_hours d) 720 in if left < 1 / 4 then fmul left 4 else 1)"

definition success_rate :: "knowledge \<Rightarrow> rat" where
  "success_rate k = (if kn_validated k > 0 then fdiv (float_of (kn_successful k)) (float_of (kn_validated k)) else 1)"

definition sample_weight :: "knowledge \<Rightarrow> rat" where
  "sample_weight k = (let w = float_of (kn_validated k) in if w > 10 then 10 else w)"

definition knowledge_points :: "instant \<Rightarrow> knowledge \<Rightarrow> int" where
  "knowledge_points now k =
     (case kn_expires_at k of None \<Rightarrow> 0 | Some e \<Rightarrow>
        trunc (fmul (fmul (fmul (fmul (kn_confidence k) (success_rate k)) (freshness (tsub e now)))
                          (fdiv (sample_weight k) 10)) 100))"

definition knowledge_applies :: "instant \<Rightarrow> request \<Rightarrow> model \<Rightarrow> knowledge \<Rightarrow> bool" where
  "knowledge_applies now b m k \<longleftrightarrow>
     kn_status k = KTrusted \<and> (case kn_expires_at k of None \<Rightarrow> False | Some e \<Rightarrow> e > now) \<and>
     kn_recommended k \<noteq> '''' \<and> kn_signature k = signature (task_features_of b) \<and> kn_recommended k = m_id m"

definition knowledge_bonus :: "instant \<Rightarrow> service \<Rightarrow> request \<Rightarrow> model \<Rightarrow> int" where
  "knowledge_bonus now s b m =
     (case sv_knowledge s of
        None \<Rightarrow> 0
      | Some ks \<Rightarrow>
          if high_risk b then 0
          else foldl (\<lambda>acc k. if knowledge_applies now b m k then i64 (acc + knowledge_points now k) else acc) 0 ks)"

definition learning_points :: "stat \<Rightarrow> int" where
  "learning_points st =
     (if st_requests st = 0 then 0
      else
        (let success = trunc (fmul (fdiv (float_of (st_success st)) (float_of (st_requests st))) 30);
             avg = go_div (st_latency st) (st_requests st);
             latency = (if avg > 5000 then 0 else if avg > 1000 then 5 else 10)
         in i64 (success + latency)))"

definition learning_bonus :: "service \<Rightarrow> string \<Rightarrow> string \<Rightarrow> int" where
  "learning_bonus s p m =
     (case sv_learning s of
        None \<Rightarrow> 0
      | Some l \<Rightarrow>
          (case (case map_of (items l) (route_key p m) of Some st \<Rightarrow> Some st | None \<Rightarrow> map_of (items l) m) of
             None \<Rightarrow> 0 | Some st \<Rightarrow> learning_points st))"

section \<open>Availability\<close>

definition provider_health_available :: "instant \<Rightarrow> health option \<Rightarrow> string \<Rightarrow> bool" where
  "provider_health_available now h p =
     (case h of None \<Rightarrow> True
      | Some h \<Rightarrow> \<not> list_ex (\<lambda>x. rh_provider x = p \<and> rh_model x = ''*'' \<and> (rh_cooldown_until x > now \<or> rh_needs_probe x))
                    (health_snapshot h))"

definition route_available :: "instant \<Rightarrow> health option \<Rightarrow> string \<Rightarrow> string \<Rightarrow> bool" where
  "route_available now h p m \<longleftrightarrow>
     provider_health_available now h p \<and> (case h of None \<Rightarrow> True | Some h \<Rightarrow> health_available p m now h)"

section \<open>Ranking\<close>

record ranked =
  rk_provider :: string
  rk_model :: string
  rk_score :: int
  rk_base :: int
  rk_knowledge :: int
  rk_learning :: int

definition route_eligible :: "instant \<Rightarrow> service \<Rightarrow> request \<Rightarrow> model \<Rightarrow> bool" where
  "route_eligible now s b m \<longleftrightarrow>
     m_admitted m \<and> m_auto_routable m \<and> m_status m = Active \<and> has_provider now s (m_provider m) \<and>
     list_all (supports m) (required_capabilities b) \<and>
     route_available now (sv_health s) (m_provider m) (m_id m)"

definition rank_model :: "instant \<Rightarrow> service \<Rightarrow> request \<Rightarrow> model \<Rightarrow> ranked" where
  "rank_model now s b m =
     (let base = m_score m;
          k = knowledge_bonus now s b m;
          l = learning_bonus s (m_provider m) (m_id m)
      in \<lparr>rk_provider = m_provider m, rk_model = m_id m, rk_score = i64 (base + k + l + 0),
          rk_base = base, rk_knowledge = k, rk_learning = l\<rparr>)"

definition ranks_before :: "ranked \<Rightarrow> ranked \<Rightarrow> bool" where
  "ranks_before x y \<longleftrightarrow>
     rk_score x > rk_score y \<or>
     (rk_score x = rk_score y \<and> string_less (route_key (rk_provider x) (rk_model x)) (route_key (rk_provider y) (rk_model y)))"

text \<open>
  The insertion sort of sortRanked: the element at position i moves left past every element it ranks
  before. The sorted part is kept reversed, so that the neighbour to the left is the head.
\<close>

fun sift_left :: "ranked \<Rightarrow> ranked list \<Rightarrow> ranked list" where
  "sift_left x [] = [x]"
| "sift_left x (y # ys) = (if ranks_before x y then y # sift_left x ys else x # y # ys)"

definition sort_ranked :: "ranked list \<Rightarrow> ranked list" where
  "sort_ranked xs = rev (fold sift_left xs [])"

definition ranked_candidates :: "instant \<Rightarrow> service \<Rightarrow> request \<Rightarrow> ranked list" where
  "ranked_candidates now s b = sort_ranked (map (rank_model now s b) (filter (route_eligible now s b) (sv_models s)))"

definition select_auto :: "instant \<Rightarrow> service \<Rightarrow> request \<Rightarrow> string" where
  "select_auto now s b = (case ranked_candidates now s b of [] \<Rightarrow> '''' | c # _ \<Rightarrow> rk_model c)"

section \<open>The older candidate list (router.go)\<close>

record need =
  nd_capability :: string
  nd_provider :: string

definition old_candidate :: "(string, quota_snapshot) gomap \<Rightarrow> need \<Rightarrow> model \<Rightarrow> bool" where
  "old_candidate q n m \<longleftrightarrow>
     m_auto_routable m \<and> m_status m = Active \<and>
     (nd_provider n = '''' \<or> m_provider m = nd_provider n) \<and>
     (nd_capability n = '''' \<or> supports m (nd_capability n)) \<and>
     (case map_of q (m_provider m) of None \<Rightarrow> True | Some x \<Rightarrow> qs_state x = Available)"

text \<open>sort.SliceStable by descending score, which is a whole number here.\<close>

definition candidates :: "model list \<Rightarrow> (string, quota_snapshot) gomap \<Rightarrow> need \<Rightarrow> model list" where
  "candidates models q n = sort_key (\<lambda>m. - m_score m) (filter (old_candidate q n) models)"

definition pick :: "model list \<Rightarrow> (string, quota_snapshot) gomap \<Rightarrow> string \<Rightarrow> model list" where
  "pick models q cap = candidates models q \<lparr>nd_capability = cap, nd_provider = ''''\<rparr>"

end
