(* ===== verification/Reliable.thy ===== *)
theory Reliable
  imports Routing_Service
begin

text \<open>
  Sending a request over the ranked routes (internal/routing/reliable.go, Complete of service.go).
  Every attempt has an environment of its own: what the upstream answers to the request it is
  sent, the readings of the clock, and the faults of the writes it causes; so a theorem for every
  sequence of environments covers every behaviour of the network, the clock and the disk. The
  recursion over the candidates carries the providers to skip, the attempts so far and the last
  error, as the loop does. None as a result is a panic.
\<close>

section \<open>Responses and what counts as a failure\<close>

text \<open>
  The body is what can be read of it; it is broken when reading ends with an error instead of the
  end of the body. The last two fields are whether the body (its first 32 MiB) is JSON, and
  http.ParseTime of the Retry-After header.
\<close>

record response =
  rp_status :: int
  rp_body :: string
  rp_broken :: bool
  rp_retry_after :: string
  rp_is_json :: bool
  rp_retry_date :: "instant option"

datatype upstream = UpError bool string | UpNil | UpResponse response

text \<open>UpError carries whether the error is a passed deadline.\<close>

definition failure_for :: "int \<Rightarrow> bool option \<Rightarrow> failure_kind \<times> bool" where
  "failure_for status err =
     (case err of
        Some deadline \<Rightarrow> (if deadline then FailureTimeout else FailureNetwork, True)
      | None \<Rightarrow>
          (if status = 401 \<or> status = 403 then (FailureAuth, True)
           else if status = 408 \<or> status = 425 then (FailureTimeout, True)
           else if status = 429 then (FailureRateLimited, True)
           else if status \<ge> 500 then (FailureServer, True)
           else if status \<ge> 400 then (FailureProtocol, False)
           else (NoFailure, False)))"

text \<open>strconv.Atoi: an optional sign and decimal digits within int64.\<close>

fun digits_value :: "string \<Rightarrow> int \<Rightarrow> int option" where
  "digits_value [] acc = Some acc"
| "digits_value (c # cs) acc = (case digit_val 10 c of None \<Rightarrow> None | Some d \<Rightarrow> digits_value cs (acc * 10 + int d))"

definition atoi :: "string \<Rightarrow> int option" where
  "atoi s =
     (case strip_sign s of (neg, t) \<Rightarrow>
        (if t = [] then None
         else (case digits_value t 0 of
             None \<Rightarrow> None
           | Some n \<Rightarrow> let v = (if neg then - n else n) in
               if - (2 ^ 63) \<le> v \<and> v < 2 ^ 63 then Some v else None)))"

definition retry_after :: "response option \<Rightarrow> instant \<Rightarrow> instant" where
  "retry_after resp now =
     (case resp of
        None \<Rightarrow> zero_time
      | Some r \<Rightarrow>
          (case atoi (trim_space (rp_retry_after r)) of
             Some n \<Rightarrow> if n > 0 then now + i64 (n * second)
                       else (case rp_retry_date r of Some t \<Rightarrow> t | None \<Rightarrow> zero_time)
           | None \<Rightarrow> (case rp_retry_date r of Some t \<Rightarrow> t | None \<Rightarrow> zero_time)))"

section \<open>Validating a success\<close>

text \<open>The complete lines of a text, without their newline, and the rest after the last newline.\<close>

fun split_lines :: "string \<Rightarrow> string \<Rightarrow> string list \<times> string" where
  "split_lines [] cur = ([], rev cur)"
| "split_lines (c # cs) cur =
     (if c = CHR 0x0A then (case split_lines cs [] of (ls, r) \<Rightarrow> (rev cur # ls, r))
      else split_lines cs (c # cur))"

definition event_line :: "string \<Rightarrow> bool" where
  "event_line t \<longleftrightarrow> has_prefix t ''data:'' \<or> has_prefix t ''event:''"

text \<open>Reading lines until an event is complete: whether one was seen, and whether the loop stopped there.\<close>

fun sse_scan :: "bool \<Rightarrow> string list \<Rightarrow> bool \<times> bool" where
  "sse_scan valid [] = (valid, False)"
| "sse_scan valid (l # ls) =
     (let t = trim_space l; v = (valid \<or> event_line t) in if v \<and> t = [] then (v, True) else sse_scan v ls)"

definition sse_limit :: nat where
  "sse_limit = 64 * 1024"

definition sse_error :: "response \<Rightarrow> string option" where
  "sse_error r =
     (case split_lines (take sse_limit (rp_body r)) [] of (ls, lst) \<Rightarrow>
        (case sse_scan False ls of (valid, stopped) \<Rightarrow>
           let full = (length (rp_body r) \<ge> sse_limit \<and> lst = []);
               v = (if stopped \<or> full then valid else valid \<or> event_line (trim_space lst));
               ended = (stopped \<or> full \<or> (v \<and> trim_space lst = []));
               broken = (\<not> ended \<and> rp_broken r \<and> length (rp_body r) < sse_limit)
           in if broken then Some ''read error''
              else if \<not> v then Some ''invalid SSE response before first event''
              else None))"

definition body_limit :: nat where
  "body_limit = 32 * 1024 * 1024"

definition json_error :: "response \<Rightarrow> string option" where
  "json_error r =
     (if rp_broken r \<and> length (rp_body r) < body_limit then Some ''read error''
      else if \<not> rp_is_json r then Some ''invalid JSON response'' else None)"

definition validate_success :: "bool \<Rightarrow> response \<Rightarrow> string option" where
  "validate_success stream r =
     (if \<not> success_status (rp_status r) then None
      else if stream then sse_error r else json_error r)"

section \<open>One attempt\<close>

record verdict =
  vt_status :: int
  vt_kind :: failure_kind
  vt_retryable :: bool
  vt_error :: "string option"
  vt_response :: "response option"

definition judge :: "bool \<Rightarrow> upstream \<Rightarrow> verdict" where
  "judge stream up =
     (case up of
        UpError deadline e \<Rightarrow>
          (case failure_for 0 (Some deadline) of (k, r) \<Rightarrow>
             \<lparr>vt_status = 0, vt_kind = k, vt_retryable = r, vt_error = Some e, vt_response = None\<rparr>)
      | UpNil \<Rightarrow>
          \<lparr>vt_status = 0, vt_kind = FailureProtocol, vt_retryable = True,
           vt_error = Some ''empty upstream response'', vt_response = None\<rparr>
      | UpResponse r \<Rightarrow>
          (case failure_for (rp_status r) None of (k, again) \<Rightarrow>
             if success_status (rp_status r) then
               (case validate_success stream r of
                  None \<Rightarrow> \<lparr>vt_status = rp_status r, vt_kind = k, vt_retryable = again, vt_error = None, vt_response = Some r\<rparr>
                | Some e \<Rightarrow> \<lparr>vt_status = rp_status r, vt_kind = FailureProtocol, vt_retryable = True,
                             vt_error = Some e, vt_response = Some r\<rparr>)
             else \<lparr>vt_status = rp_status r, vt_kind = k, vt_retryable = again, vt_error = None, vt_response = Some r\<rparr>))"

definition succeeded :: "verdict \<Rightarrow> bool" where
  "succeeded v \<longleftrightarrow> vt_error v = None \<and> success_status (vt_status v)"

record attempt =
  at_provider :: string
  at_model :: string
  at_status :: int
  at_kind :: failure_kind
  at_error :: string
  at_ttfb :: int
  at_latency :: int
  at_retryable :: bool

record attempt_env =
  ae_send :: "string \<Rightarrow> string \<Rightarrow> json option \<Rightarrow> upstream"
  ae_started :: instant
  ae_headers :: instant
  ae_checked :: instant
  ae_learned :: instant
  ae_ended :: instant
  ae_io_learning :: io
  ae_io_health :: io
  ae_io_until :: io

record route_state =
  ro_learning :: "learning option"
  ro_health :: health

record outcome =
  oc_response :: "response option"
  oc_provider :: string
  oc_model :: string
  oc_attempts :: "attempt list"
  oc_error :: "string option"
  oc_state :: route_state

definition zero_route :: route_config where
  "zero_route = \<lparr>pr_id = '''', pr_base_url = '''', pr_api_key = '''', pr_kind = ''''\<rparr>"

definition learn :: "attempt_env \<Rightarrow> string \<Rightarrow> bool \<Rightarrow> route_state \<Rightarrow> route_state" where
  "learn e key ok st =
     st\<lparr>ro_learning := map_option
          (learning_record (ae_io_learning e) key ok (tsub (ae_learned e) (ae_started e)) (ae_learned e)) (ro_learning st)\<rparr>"

text \<open>Failures of the provider rather than of one model: the whole provider is closed and skipped.\<close>

definition provider_wide :: "failure_kind \<Rightarrow> bool" where
  "provider_wide k \<longleftrightarrow> k \<in> {FailureNetwork, FailureTimeout, FailureRateLimited, FailureServer, FailureAuth}"

definition note_failure :: "attempt_env \<Rightarrow> ranked \<Rightarrow> verdict \<Rightarrow> route_state \<Rightarrow> route_state" where
  "note_failure e c v st =
     (if vt_kind v = NoFailure then st
      else
        (let scope = (if provider_wide (vt_kind v) then ''*'' else rk_model c)
         in if vt_kind v = FailureRateLimited
            then st\<lparr>ro_health := health_fail_until (ae_io_health e) (ae_io_until e) (rk_provider c) scope (vt_kind v)
                                  (ae_ended e) (retry_after (vt_response v) (ae_ended e)) (ro_health st)\<rparr>
            else st\<lparr>ro_health := health_fail (ae_io_health e) (rk_provider c) scope (vt_kind v) (ae_ended e) (ro_health st)\<rparr>))"

definition attempt_of :: "attempt_env \<Rightarrow> ranked \<Rightarrow> verdict \<Rightarrow> attempt" where
  "attempt_of e c v =
     \<lparr>at_provider = rk_provider c, at_model = rk_model c, at_status = vt_status v, at_kind = vt_kind v,
      at_error = (case vt_error v of None \<Rightarrow> '''' | Some x \<Rightarrow> x),
      at_ttfb = milliseconds (tsub (ae_headers e) (ae_started e)),
      at_latency = milliseconds (tsub (ae_checked e) (ae_started e)), at_retryable = vt_retryable v\<rparr>"

definition send_to :: "attempt_env \<Rightarrow> route_config \<Rightarrow> json option \<Rightarrow> upstream" where
  "send_to e cfg body = ae_send e (chat_url (pr_base_url cfg)) (bearer (pr_api_key cfg)) body"

section \<open>The loop over the candidates\<close>

definition give_up :: "attempt list \<Rightarrow> string option \<Rightarrow> route_state \<Rightarrow> outcome" where
  "give_up attempts lst st =
     \<lparr>oc_response = None, oc_provider = '''', oc_model = '''', oc_attempts = attempts,
      oc_error = Some (case lst of None \<Rightarrow> ''catalog empty'' | Some e \<Rightarrow> e), oc_state = st\<rparr>"

fun try_routes ::
  "(nat \<Rightarrow> attempt_env) \<Rightarrow> (string, route_config) gomap \<Rightarrow> json \<Rightarrow> bool \<Rightarrow> int \<Rightarrow> ranked list \<Rightarrow> string list \<Rightarrow>
     attempt list \<Rightarrow> string option \<Rightarrow> route_state \<Rightarrow> outcome option" where
  "try_routes env provs body stream most [] skipped attempts lst st = Some (give_up attempts lst st)"
| "try_routes env provs body stream most (c # cs) skipped attempts lst st =
     (if int (length attempts) \<ge> most then Some (give_up attempts lst st)
      else if rk_provider c \<in> set skipped then try_routes env provs body stream most cs skipped attempts lst st
      else
        (case replace_model (Some body) (rk_model c) of
           None \<Rightarrow> None
         | Some sent \<Rightarrow>
             (let e = env (length attempts);
                  v = judge stream (send_to e (mget zero_route provs (rk_provider c)) sent);
                  attempts1 = attempts @ [attempt_of e c v];
                  st1 = learn e (route_key (rk_provider c) (rk_model c)) (succeeded v) st
              in if succeeded v
                 then Some \<lparr>oc_response = vt_response v, oc_provider = rk_provider c, oc_model = rk_model c,
                            oc_attempts = attempts1, oc_error = None,
                            oc_state = st1\<lparr>ro_health := health_success (ae_io_health e) (rk_provider c) (rk_model c)
                                                          (ae_ended e) (ro_health st1)\<rparr>\<rparr>
                 else
                   (let st2 = note_failure e c v st1;
                        skipped1 = (if provider_wide (vt_kind v) then rk_provider c # skipped else skipped)
                    in if \<not> vt_retryable v
                       then Some ((give_up attempts1 None st2)\<lparr>oc_error := Some (''upstream '' @ rk_provider c @ ''/'' @
                               rk_model c @ '' failed with HTTP '' @ itoa (vt_status v))\<rparr>)
                       else try_routes env provs body stream most cs skipped1 attempts1
                              (Some (case vt_error v of Some x \<Rightarrow> x | None \<Rightarrow> ''upstream HTTP '' @ itoa (vt_status v)))
                              st2))))"

definition requested_routes :: "string \<Rightarrow> ranked list \<Rightarrow> ranked list" where
  "requested_routes model cs =
     (if model = '''' \<or> model = ''auto'' then cs
      else (case split_name model of (p, name) \<Rightarrow>
              filter (\<lambda>c. rk_model c = name \<and> (p = '''' \<or> rk_provider c = p)) cs))"

definition flags_ok :: "json \<Rightarrow> bool" where
  "flags_ok j \<longleftrightarrow> field_ok ''model'' dec_string '''' j \<and> field_ok ''stream'' dec_bool False j"

definition initial_state :: "service \<Rightarrow> route_state" where
  "initial_state s = \<lparr>ro_learning = sv_learning s,
     ro_health = (case sv_health s of None \<Rightarrow> new_health \<lparr>ho_network = 0, ho_rate_limit = 0, ho_server = 0, ho_auth = 0, ho_protocol = 0\<rparr>
                  | Some h \<Rightarrow> h)\<rparr>"

definition failed_outcome :: "service \<Rightarrow> string \<Rightarrow> outcome" where
  "failed_outcome s e = \<lparr>oc_response = None, oc_provider = '''', oc_model = '''', oc_attempts = [], oc_error = Some e,
     oc_state = initial_state s\<rparr>"

definition complete_reliable ::
  "(nat \<Rightarrow> attempt_env) \<Rightarrow> instant \<Rightarrow> service \<Rightarrow> request \<Rightarrow> int \<Rightarrow> outcome option" where
  "complete_reliable env now s b max_attempts =
     (let most = (if max_attempts \<le> 0 then 3 else max_attempts) in
      case rq_json b of
        None \<Rightarrow> Some (failed_outcome s ''invalid request JSON'')
      | Some j \<Rightarrow>
          if \<not> flags_ok j then Some (failed_outcome s ''invalid request JSON'')
          else
            (let s1 = s\<lparr>sv_health := Some (ro_health (initial_state s))\<rparr>;
                 cs = requested_routes (field ''model'' dec_string '''' j) (ranked_candidates now s1 b)
             in if cs = [] then Some (failed_outcome s ''catalog empty'')
                else try_routes env (sv_providers s) j (field ''stream'' dec_bool False j) most cs [] [] None (initial_state s)))"

definition mark_interrupted :: "io \<Rightarrow> string \<Rightarrow> string \<Rightarrow> instant \<Rightarrow> health option \<Rightarrow> health option" where
  "mark_interrupted io p m now h = map_option (health_fail io p m FailureProtocol now) h"

section \<open>Recovery probes\<close>

record probe_env =
  pe_send :: "string \<Rightarrow> string \<Rightarrow> string \<Rightarrow> upstream"
  pe_now :: instant
  pe_io :: io

definition probe_body :: "string \<Rightarrow> string" where
  "probe_body m = [CHR 0x7B, CHR 0x22] @ ''model'' @ [CHR 0x22] @ '':'' @ [CHR 0x22] @ m @ [CHR 0x22] @ '','' @ [CHR 0x22] @
     ''messages'' @ [CHR 0x22] @ '':[{'' @ [CHR 0x22] @ ''role'' @ [CHR 0x22] @ '':'' @ [CHR 0x22] @ ''user'' @ [CHR 0x22] @ '','' @
     [CHR 0x22] @ ''content'' @ [CHR 0x22] @ '':'' @ [CHR 0x22] @ ''Reply OK'' @ [CHR 0x22] @ ''}],'' @ [CHR 0x22] @ ''max_tokens'' @
     [CHR 0x22] @ '':2,'' @ [CHR 0x22] @ ''stream'' @ [CHR 0x22] @ '':false}''"

text \<open>The model a route is probed with: its own, or for a provider entry the first routable one.\<close>

definition probe_model :: "model list \<Rightarrow> route_health \<Rightarrow> string option" where
  "probe_model ms x =
     (if rh_model x \<noteq> ''*'' then Some (rh_model x)
      else (case find (\<lambda>m. m_provider m = rh_provider x \<and> m_status m = Active \<and> m_auto_routable m) ms of
              None \<Rightarrow> None
            | Some m \<Rightarrow> if m_id m = '''' then None else Some (m_id m)))"

definition probe_ok :: "upstream \<Rightarrow> bool" where
  "probe_ok up \<longleftrightarrow> (case up of UpResponse r \<Rightarrow> success_status (rp_status r) | _ \<Rightarrow> False)"

fun probe_each ::
  "(nat \<Rightarrow> probe_env) \<Rightarrow> (string, route_config) gomap \<Rightarrow> model list \<Rightarrow> nat \<Rightarrow> route_health list \<Rightarrow> health \<Rightarrow>
     route_health list \<times> health" where
  "probe_each env provs ms n [] h = ([], h)"
| "probe_each env provs ms n (x # xs) h =
     (case (map_of provs (rh_provider x), probe_model ms x) of
        (Some cfg, Some m) \<Rightarrow>
          (let e = env n in
           if probe_ok (pe_send e (chat_url (pr_base_url cfg)) (bearer (pr_api_key cfg)) (probe_body m))
           then (case probe_each env provs ms (n + 1) xs (health_success (pe_io e) (rh_provider x) (rh_model x) (pe_now e) h) of
                   (rs, h') \<Rightarrow> (x # rs, h'))
           else probe_each env provs ms (n + 1) xs (health_probe_failed (pe_io e) (rh_provider x) (rh_model x) (pe_now e) h))
      | _ \<Rightarrow> probe_each env provs ms (n + 1) xs h)"

definition probe_recovery ::
  "(nat \<Rightarrow> probe_env) \<Rightarrow> instant \<Rightarrow> service \<Rightarrow> route_health list \<times> health option" where
  "probe_recovery env now s =
     (case sv_health s of
        None \<Rightarrow> ([], None)
      | Some h \<Rightarrow> (case probe_each env (sv_providers s) (sv_models s) 0 (due_for_probe now h) h of (rs, h') \<Rightarrow> (rs, Some h')))"

section \<open>Complete without retries\<close>

text \<open>Where service.go sends a request, and the body; the error ErrCatalogEmpty is Inl.\<close>

datatype route_target = CatalogEmpty | Panic | SendTo route_config "json option"

definition catalog_route :: "service \<Rightarrow> string \<Rightarrow> string \<Rightarrow> route_config" where
  "catalog_route s p name =
     (case find (\<lambda>m. m_id m = name \<and> m_admitted m \<and> m_auto_routable m \<and> (p = '''' \<or> m_provider m = p)) (sv_models s) of
        None \<Rightarrow> zero_route | Some m \<Rightarrow> mget zero_route (sv_providers s) (m_provider m))"

definition complete_target :: "instant \<Rightarrow> service \<Rightarrow> request \<Rightarrow> string \<Rightarrow> route_target" where
  "complete_target now s b model =
     (case rq_json b of
        None \<Rightarrow> CatalogEmpty
      | Some j \<Rightarrow>
          if \<not> field_ok ''model'' dec_string '''' j then CatalogEmpty
          else
            (case split_name (if model \<noteq> '''' then model else field ''model'' dec_string '''' j) of (p, name0) \<Rightarrow>
               let auto = (name0 = ''auto'' \<or> name0 = '''');
                   name = (if auto then select_auto now s b else name0);
                   body = (if auto then replace_model (Some j) name else Some (Some j))
               in if auto \<and> name = '''' then CatalogEmpty
                  else (case body of
                      None \<Rightarrow> Panic
                    | Some sent \<Rightarrow>
                        (let r1 = catalog_route s p name;
                             r2 = (if pr_id r1 \<noteq> '''' then r1
                                   else (case find (\<lambda>kv. has_prefix name (pr_id (snd kv) @ ''/'')) (sv_providers s) of
                                           None \<Rightarrow> r1 | Some kv \<Rightarrow> snd kv))
                         in if pr_id r2 = '''' then CatalogEmpty
                            else if map_of (sv_gate s) (pr_id r2) = Some False then CatalogEmpty
                            else SendTo r2 sent))))"

end
