(* ===== verification/Routing_Props.thy ===== *)
theory Routing_Props
  imports Routing_Service
begin

text \<open>
  The ranking: which models are candidates, in which order, and how much history can move a model.
  The order of sortRanked is a weak order, so the insertion sort returns a sorted permutation.
\<close>

section \<open>The order of the ranking\<close>

lemma ranks_before_asym: "ranks_before x y \<Longrightarrow> \<not> ranks_before y x"
  by (auto simp: ranks_before_def dest: string_less_asym)

lemma ranks_before_split: "ranks_before x z \<Longrightarrow> ranks_before x y \<or> ranks_before y z"
  using string_less_split [of "route_key (rk_provider x) (rk_model x)" "route_key (rk_provider z) (rk_model z)"
      "route_key (rk_provider y) (rk_model y)"]
  by (auto simp: ranks_before_def)

definition ranked_order :: "ranked \<Rightarrow> ranked \<Rightarrow> bool" where
  "ranked_order x y \<longleftrightarrow> rk_score y < rk_score x \<or>
     (rk_score y = rk_score x \<and> \<not> string_less (route_key (rk_provider y) (rk_model y)) (route_key (rk_provider x) (rk_model x)))"

lemma ranked_order_eq: "ranked_order x y \<longleftrightarrow> \<not> ranks_before y x"
  by (auto simp: ranked_order_def ranks_before_def)

interpretation ranking: weak_order ranks_before
  by unfold_locales (rule ranks_before_asym ranks_before_split, assumption)+

lemma sift_left_eq: "sift_left x ys = sift_by ranks_before x ys"
  by (induction ys) auto

lemma sort_ranked_eq: "sort_ranked xs = sort_by ranks_before xs"
  by (simp add: sort_ranked_def sort_by_def sift_left_eq [abs_def])

lemma sort_ranked_spec: "sorted_wrt ranked_order (sort_ranked xs) \<and> mset (sort_ranked xs) = mset xs"
  using ranking.sorted_sort [of xs] by (simp add: sort_ranked_eq ranked_order_eq [abs_def] mset_sort_by)

lemma set_sort_ranked [simp]: "set (sort_ranked xs) = set xs"
  using sort_ranked_spec [of xs] by (metis set_mset_mset)

lemma ranked_member:
  "c \<in> set (ranked_candidates now s b) \<longleftrightarrow> (\<exists>m \<in> set (sv_models s). route_eligible now s b m \<and> c = rank_model now s b m)"
  by (auto simp: ranked_candidates_def)

lemma rank_model_fields [simp]: "rk_provider (rank_model now s b m) = m_provider m" "rk_model (rank_model now s b m) = m_id m"
  by (simp_all add: rank_model_def Let_def)

text \<open>
  C9. The ranking is exactly the routable models: a sorted permutation, by score and then by key, of
  the candidates of those catalog models that are admitted, approved, active, offered by a
  configured provider that is neither gated, disabled nor exhausted, able to do everything the
  request needs, and on a route that health has not closed; nothing else is in it.
\<close>

theorem ranking_is_exactly_the_routable_models:
  "mset (ranked_candidates now s b) = mset (map (rank_model now s b) (filter (route_eligible now s b) (sv_models s))) \<and>
   sorted_wrt ranked_order (ranked_candidates now s b) \<and>
   (\<forall>c \<in> set (ranked_candidates now s b). \<exists>m \<in> set (sv_models s).
      m_provider m = rk_provider c \<and> m_id m = rk_model c \<and> m_admitted m \<and> m_auto_routable m \<and> m_status m = Active \<and>
      \<not> sv_disabled s (rk_provider c) \<and> map_of (sv_gate s) (rk_provider c) \<noteq> Some False \<and>
      \<not> quota_exhausted now s (rk_provider c) \<and>
      (\<exists>cfg. map_of (sv_providers s) (rk_provider c) = Some cfg \<and> pr_base_url cfg \<noteq> '''') \<and>
      (\<forall>need \<in> set (required_capabilities b). supports m need) \<and>
      (case sv_health s of None \<Rightarrow> True | Some h \<Rightarrow> health_available (rk_provider c) (rk_model c) now h))"
proof (intro conjI)
  show "mset (ranked_candidates now s b) = mset (map (rank_model now s b) (filter (route_eligible now s b) (sv_models s)))"
    unfolding ranked_candidates_def by (rule conjunct2 [OF sort_ranked_spec])
  show "sorted_wrt ranked_order (ranked_candidates now s b)"
    unfolding ranked_candidates_def by (rule conjunct1 [OF sort_ranked_spec])
  show "\<forall>c \<in> set (ranked_candidates now s b). \<exists>m \<in> set (sv_models s).
      m_provider m = rk_provider c \<and> m_id m = rk_model c \<and> m_admitted m \<and> m_auto_routable m \<and> m_status m = Active \<and>
      \<not> sv_disabled s (rk_provider c) \<and> map_of (sv_gate s) (rk_provider c) \<noteq> Some False \<and>
      \<not> quota_exhausted now s (rk_provider c) \<and>
      (\<exists>cfg. map_of (sv_providers s) (rk_provider c) = Some cfg \<and> pr_base_url cfg \<noteq> '''') \<and>
      (\<forall>need \<in> set (required_capabilities b). supports m need) \<and>
      (case sv_health s of None \<Rightarrow> True | Some h \<Rightarrow> health_available (rk_provider c) (rk_model c) now h)"
  proof
    fix c assume "c \<in> set (ranked_candidates now s b)"
    then obtain m where m: "m \<in> set (sv_models s)" "route_eligible now s b m" "c = rank_model now s b m"
      by (auto simp: ranked_member)
    from m(2) have hp: "has_provider now s (m_provider m)" by (simp add: route_eligible_def)
    then have gate: "map_of (sv_gate s) (m_provider m) \<noteq> Some False" "\<not> sv_disabled s (m_provider m)"
      "\<not> quota_exhausted now s (m_provider m)"
      "\<exists>cfg. map_of (sv_providers s) (m_provider m) = Some cfg \<and> pr_base_url cfg \<noteq> ''''"
      by (auto simp: has_provider_def quota_exhausted_def split: if_splits option.splits)
    with m show "\<exists>m \<in> set (sv_models s).
      m_provider m = rk_provider c \<and> m_id m = rk_model c \<and> m_admitted m \<and> m_auto_routable m \<and> m_status m = Active \<and>
      \<not> sv_disabled s (rk_provider c) \<and> map_of (sv_gate s) (rk_provider c) \<noteq> Some False \<and>
      \<not> quota_exhausted now s (rk_provider c) \<and>
      (\<exists>cfg. map_of (sv_providers s) (rk_provider c) = Some cfg \<and> pr_base_url cfg \<noteq> '''') \<and>
      (\<forall>need \<in> set (required_capabilities b). supports m need) \<and>
      (case sv_health s of None \<Rightarrow> True | Some h \<Rightarrow> health_available (rk_provider c) (rk_model c) now h)"
      by (intro bexI [of _ m]) (auto simp: route_eligible_def route_available_def list_all_iff split: option.splits)
  qed
qed

section \<open>How much history can move a model\<close>

definition stat_ok :: "stat \<Rightarrow> bool" where
  "stat_ok st \<longleftrightarrow> 0 \<le> st_success st \<and> st_success st \<le> st_requests st \<and> st_requests st < 2 ^ 53"

definition learning_ok :: "nat \<Rightarrow> learning \<Rightarrow> bool" where
  "learning_ok n l \<longleftrightarrow> (\<forall>k st. map_of (items l) k = Some st \<longrightarrow> stat_ok st \<and> st_requests st \<le> int n)"

lemma learning_points_bounds:
  assumes "stat_ok st" shows "0 \<le> learning_points st \<and> learning_points st \<le> 40"
proof (cases "st_requests st = 0")
  case False
  with assms have n: "0 < st_requests st" "0 \<le> st_success st" "st_success st \<le> st_requests st" by (auto simp: stat_ok_def)
  have "0 \<le> fdiv (float_of (st_success st)) (float_of (st_requests st)) \<and> fdiv (float_of (st_success st)) (float_of (st_requests st)) \<le> 1"
    using n by (intro fdiv_unit float_of_nonneg float_of_mono)
  then have "0 \<le> fmul (fdiv (float_of (st_success st)) (float_of (st_requests st))) (rat_of_int 30) \<and>
      fmul (fdiv (float_of (st_success st)) (float_of (st_requests st))) (rat_of_int 30) \<le> rat_of_int 30"
    by (intro fmul_scale) auto
  then have t: "0 \<le> trunc (fmul (fdiv (float_of (st_success st)) (float_of (st_requests st))) 30) \<and>
      trunc (fmul (fdiv (float_of (st_success st)) (float_of (st_requests st))) 30) \<le> 30"
    using trunc_bounds by fastforce
  show ?thesis using False t by (auto simp: learning_points_def Let_def i64_id)
qed (simp add: learning_points_def)

definition knowledge_sound :: "knowledge \<Rightarrow> bool" where
  "knowledge_sound k \<longleftrightarrow> 0 \<le> kn_confidence k \<and> kn_confidence k \<le> 1 \<and>
     0 \<le> kn_successful k \<and> kn_successful k \<le> kn_validated k \<and> kn_validated k < 2 ^ 53"

lemma freshness_unit:
  assumes "0 \<le> d" shows "0 \<le> freshness d \<and> freshness d \<le> 1"
proof -
  have q: "0 \<le> go_div d hour" and r: "0 \<le> go_rem d hour"
    using assms by (simp_all add: go_rem_def go_div_nonneg duration_units minus_mult_div_eq_mod)
  have "0 \<le> duration_hours d"
    using q r by (auto simp: duration_hours_def fadd_def fdiv_def intro!: f64_nonneg add_nonneg_nonneg divide_nonneg_nonneg float_of_nonneg)
  then have left: "0 \<le> fdiv (duration_hours d) 720" by (simp add: fdiv_def f64_nonneg)
  show ?thesis
  proof (cases "fdiv (duration_hours d) 720 < 1 / 4")
    case True
    then have "fmul (fdiv (duration_hours d) 720) 4 \<le> 1"
      using f64_mono [of "fdiv (duration_hours d) 720 * 4" 1] by (simp add: fmul_def)
    then show ?thesis using True left fmul_nonneg [of "fdiv (duration_hours d) 720" 4] by (simp add: freshness_def Let_def)
  qed (simp add: freshness_def Let_def)
qed

lemma knowledge_points_bounds:
  assumes "knowledge_sound k" and "kn_expires_at k = Some e" and "e > now"
  shows "0 \<le> knowledge_points now k \<and> knowledge_points now k \<le> 100"
proof -
  let ?rate = "success_rate k" and ?f = "freshness (tsub e now)" and ?w = "fdiv (sample_weight k) 10"
  have k: "0 \<le> kn_confidence k" "kn_confidence k \<le> 1" "0 \<le> kn_successful k" "kn_successful k \<le> kn_validated k"
    using assms(1) by (auto simp: knowledge_sound_def)
  have rate: "0 \<le> ?rate" "?rate \<le> 1"
    using k fdiv_unit [OF float_of_nonneg float_of_mono] by (auto simp: success_rate_def)
  have "0 \<le> tsub e now" using assms(3) by (simp add: tsub_def)
  then have f: "0 \<le> ?f" "?f \<le> 1" using freshness_unit by auto
  have "0 \<le> sample_weight k" "sample_weight k \<le> 10"
    using k float_of_nonneg [of "kn_validated k"] by (auto simp: sample_weight_def Let_def)
  then have w: "0 \<le> ?w" "?w \<le> 1" using fdiv_unit [of "sample_weight k" 10] by auto
  have a: "0 \<le> fmul (kn_confidence k) ?rate" "fmul (kn_confidence k) ?rate \<le> 1" using fmul_unit k rate by auto
  have b: "0 \<le> fmul (fmul (kn_confidence k) ?rate) ?f" "fmul (fmul (kn_confidence k) ?rate) ?f \<le> 1" using fmul_unit a f by auto
  have c: "0 \<le> fmul (fmul (fmul (kn_confidence k) ?rate) ?f) ?w" "fmul (fmul (fmul (kn_confidence k) ?rate) ?f) ?w \<le> 1"
    using fmul_unit b w by auto
  have "0 \<le> fmul (fmul (fmul (fmul (kn_confidence k) ?rate) ?f) ?w) (rat_of_int 100) \<and>
      fmul (fmul (fmul (fmul (kn_confidence k) ?rate) ?f) ?w) (rat_of_int 100) \<le> rat_of_int 100"
    using c by (intro fmul_scale) auto
  then show ?thesis using trunc_bounds [of _ 100] by (simp add: knowledge_points_def assms(2))
qed

text \<open>Entries are keyed by signature and recommendation, so at most one applies to a model.\<close>

lemma knowledge_bonus_bounds:
  assumes "sv_knowledge s = Some ks" and "\<forall>k \<in> set ks. knowledge_sound k"
    and "distinct (map (\<lambda>k. (kn_signature k, kn_recommended k)) ks)"
  shows "0 \<le> knowledge_bonus now s b m \<and> knowledge_bonus now s b m \<le> 100"
proof -
  let ?step = "\<lambda>acc k. if knowledge_applies now b m k then i64 (acc + knowledge_points now k) else acc"
  have none: "foldl ?step acc xs = acc" if "\<forall>k \<in> set xs. \<not> knowledge_applies now b m k" for xs acc
    using that by (induction xs arbitrary: acc) auto
  have "0 \<le> foldl ?step 0 ks \<and> foldl ?step 0 ks \<le> 100"
    using assms(2,3)
  proof (induction ks)
    case Nil
    then show ?case by simp
  next
    case (Cons k ks)
    show ?case
    proof (cases "knowledge_applies now b m k")
      case True
      then obtain e where e: "kn_expires_at k = Some e" "e > now" by (auto simp: knowledge_applies_def split: option.splits)
      have "(kn_signature k, kn_recommended k) = (kn_signature j, kn_recommended j)" if "knowledge_applies now b m j" for j
        using True that by (simp add: knowledge_applies_def)
      then have "\<forall>j \<in> set ks. \<not> knowledge_applies now b m j"
        using Cons.prems(2) by (metis (no_types, lifting) distinct.simps(2) image_eqI list.set_map list.simps(9))
      moreover have "0 \<le> knowledge_points now k \<and> knowledge_points now k \<le> 100"
        using knowledge_points_bounds [OF _ e] Cons.prems(1) by auto
      ultimately show ?thesis using True none by (simp add: i64_id)
    next
      case False
      then show ?thesis using Cons by simp
    qed
  qed
  then show ?thesis using assms(1) by (auto simp: knowledge_bonus_def)
qed

lemma learning_record_ok:
  assumes "learning_ok n l" and "n < 2 ^ 52" shows "learning_ok (Suc n) (learning_record io key ok lat now l)"
proof -
  have base: "stat_ok (mget zero_stat (items l) key)" "st_requests (mget zero_stat (items l) key) \<le> int n"
    using assms(1) by (auto simp: mget_def learning_ok_def zero_stat_def stat_ok_def split: option.split)
  then have "i64 (st_requests (mget zero_stat (items l) key) + 1) = st_requests (mget zero_stat (items l) key) + 1"
    "i64 (st_success (mget zero_stat (items l) key) + 1) = st_success (mget zero_stat (items l) key) + 1"
    using assms(2) by (auto simp: stat_ok_def intro!: i64_id)
  then have new: "stat_ok st \<and> st_requests st \<le> int (Suc n)"
    if "map_of (items (learning_record io key ok lat now l)) key = Some st" for st
    using that assms(2) base by (auto simp: learning_record_def store_put_def stat_ok_def Let_def split: if_splits)
  have old: "stat_ok st \<and> st_requests st \<le> int (Suc n)"
    if "map_of (items (learning_record io key ok lat now l)) k = Some st" "k \<noteq> key" for k st
  proof -
    have "map_of (items l) k = Some st" using that by (simp add: learning_record_def store_put_def Let_def)
    then have "stat_ok st" "st_requests st \<le> int n" using assms(1) by (auto simp: learning_ok_def)
    then show ?thesis by simp
  qed
  show ?thesis unfolding learning_ok_def using new old by metis
qed

text \<open>
  C27. History moves a model by a bounded amount: after any n recorded calls the learning bonus of
  every route is between 0 and 40 points, and knowledge adds between 0 and 100 when the entries are
  sound (confidence and success rate at most one) and keyed by signature and recommendation; so
  neither can hide a base score that leads by more than 140.
\<close>

theorem bonuses_are_bounded:
  assumes "sv_learning s = Some (foldl (\<lambda>l (io, key, ok, lat, now). learning_record io key ok lat now l) new_learning calls)"
    and "length calls < 2 ^ 52"
    and "sv_knowledge s = Some ks" and "\<forall>k \<in> set ks. knowledge_sound k"
    and "distinct (map (\<lambda>k. (kn_signature k, kn_recommended k)) ks)"
  shows "0 \<le> learning_bonus s p m \<and> learning_bonus s p m \<le> 40 \<and>
     0 \<le> knowledge_bonus now s b x \<and> knowledge_bonus now s b x \<le> 100"
proof -
  let ?run = "\<lambda>calls. foldl (\<lambda>l (io, key, ok, lat, now). learning_record io key ok lat now l) new_learning calls"
  have "learning_ok (length cs) (?run cs)" if "length cs < 2 ^ 52" for cs
    using that
  proof (induction cs rule: rev_induct)
    case Nil
    then show ?case by (simp add: learning_ok_def new_learning_def)
  next
    case (snoc c cs)
    then show ?case using learning_record_ok by (cases c) auto
  qed
  from this [OF assms(2)] have "0 \<le> learning_bonus s p m \<and> learning_bonus s p m \<le> 40"
    using learning_points_bounds by (auto simp: learning_bonus_def assms(1) learning_ok_def split: option.splits)
  with knowledge_bonus_bounds [OF assms(3-5)] show ?thesis by blast
qed

definition sample_service :: service where
  "sample_service = \<lparr>sv_providers = [(''p'', \<lparr>pr_id = ''p'', pr_base_url = ''http://p'', pr_api_key = ''k'', pr_kind = ''''\<rparr>)],
     sv_gate = [], sv_quota_provider = (\<lambda>p. None), sv_quota = [], sv_models = [sample_model], sv_disabled = (\<lambda>p. False),
     sv_knowledge = Some [sample_knowledge KTrusted],
     sv_learning = Some (learning_record good_io ''p/m'' True millisecond 5 new_learning), sv_health = None\<rparr>"

definition sample_request :: request where
  "sample_request = \<lparr>rq_raw = '''', rq_json = Some (JObj [(''model'', JStr ''auto'')])\<rparr>"

theorem bonuses_are_bounded_witness:
  "0 \<le> learning_bonus sample_service ''p'' ''m'' \<and> learning_bonus sample_service ''p'' ''m'' \<le> 40 \<and>
   0 \<le> knowledge_bonus 7 sample_service sample_request sample_model \<and> knowledge_bonus 7 sample_service sample_request sample_model \<le> 100"
  by (rule bonuses_are_bounded [where calls = "[(good_io, ''p/m'', True, millisecond, 5)]" and ks = "[sample_knowledge KTrusted]"])
     (simp_all add: sample_service_def sample_knowledge_def knowledge_sound_def)

theorem ranking_is_exactly_the_routable_models_witness:
  "\<exists>c (m :: model). c \<in> set (ranked_candidates 9 sample_service sample_request) \<and> m_id m = rk_model c \<and> m_admitted m \<and> m_auto_routable m"
proof -
  let ?c = "rank_model 9 sample_service sample_request sample_model"
  have "route_eligible 9 sample_service sample_request sample_model"
    by (simp add: route_eligible_def sample_service_def sample_model_def has_provider_def hard_in_def required_capabilities_def
        rq_doc_def sample_request_def route_available_def provider_health_available_def json_key_eq_def lower_byte_def Let_def)
  then have "?c \<in> set (ranked_candidates 9 sample_service sample_request)"
    by (auto simp: ranked_member sample_service_def)
  moreover from bspec [OF conjunct2 [OF conjunct2 [OF ranking_is_exactly_the_routable_models]] this]
  obtain m :: model where "m_id m = rk_model ?c" "m_admitted m" "m_auto_routable m" by blast
  ultimately show ?thesis by blast
qed

end
