(* ===== verification/Reliable_Props.thy ===== *)
theory Reliable_Props
  imports Reliable Routing_Props "HOL-Library.Sublist"
begin

text \<open>
  What the attempt loop guarantees for every behaviour of the upstreams, the clock and the disk: a
  bounded number of attempts in ranking order, no second attempt on a provider that failed as a
  whole, health that reflects every attempt, failover to a provider that works, and recovery
  probes that touch nothing but the routes that were due.
\<close>

section \<open>Shape of the loop\<close>

abbreviation at_key :: "attempt \<Rightarrow> string \<times> string" where
  "at_key a \<equiv> (at_provider a, at_model a)"

abbreviation rk_key :: "ranked \<Rightarrow> string \<times> string" where
  "rk_key c \<equiv> (rk_provider c, rk_model c)"

lemma attempt_of_fields [simp]: "at_key (attempt_of e c v) = rk_key c" "at_provider (attempt_of e c v) = rk_provider c"
  "at_model (attempt_of e c v) = rk_model c"
  "at_kind (attempt_of e c v) = vt_kind v" "at_retryable (attempt_of e c v) = vt_retryable v"
  by (simp_all add: attempt_of_def)

lemma give_up_fields [simp]: "oc_attempts (give_up as l st) = as" "oc_error (give_up as l st) \<noteq> None"
  "oc_response (give_up as l st) = None" "oc_state (give_up as l st) = st"
  by (simp_all add: give_up_def)

lemma succeeded_kind: "succeeded (judge stream up) \<Longrightarrow> vt_kind (judge stream up) = NoFailure \<and>
    (\<exists>r. vt_response (judge stream up) = Some r \<and> success_status (rp_status r))"
  by (auto simp: succeeded_def judge_def failure_for_def success_status_def split: upstream.splits option.splits if_splits)

text \<open>The invariant of one run: what the attempts of the outcome look like.\<close>

definition attempts_shape :: "int \<Rightarrow> string list \<Rightarrow> attempt list \<Rightarrow> ranked list \<Rightarrow> outcome \<Rightarrow> bool" where
  "attempts_shape most skipped before cs oc \<longleftrightarrow>
     (\<exists>new. oc_attempts oc = before @ new \<and> int (length new) \<le> max 0 (most - int (length before)) \<and>
        subseq (map at_key new) (map rk_key cs) \<and>
        (\<forall>a \<in> set new. at_provider a \<notin> set skipped) \<and>
        sorted_wrt (\<lambda>a b. provider_wide (at_kind a) \<longrightarrow> at_provider b \<noteq> at_provider a) new \<and>
        (oc_error oc = None \<longrightarrow> new \<noteq> [] \<and> at_key (last new) = (oc_provider oc, oc_model oc) \<and>
           (\<exists>r. oc_response oc = Some r \<and> success_status (rp_status r))) \<and>
        (oc_error oc \<noteq> None \<longrightarrow> oc_response oc = None) \<and>
        (\<forall>a \<in> set (butlast new). at_retryable a))"

lemma shape_stop: "oc_attempts oc = before \<Longrightarrow> oc_error oc \<noteq> None \<Longrightarrow> oc_response oc = None \<Longrightarrow> attempts_shape most skipped before cs oc"
  by (simp add: attempts_shape_def)

lemma shape_skip: "attempts_shape most skipped before cs oc \<Longrightarrow> attempts_shape most skipped before (c # cs) oc"
  by (auto simp: attempts_shape_def intro: list_emb.intros)

lemma shape_one:
  assumes "int (length before) < most" and "rk_provider c \<notin> set skipped" and "oc_attempts oc = before @ [a]" and "at_key a = rk_key c"
    and "oc_error oc = None \<longrightarrow> (rk_provider c, rk_model c) = (oc_provider oc, oc_model oc) \<and> (\<exists>r. oc_response oc = Some r \<and> success_status (rp_status r))"
    and "oc_error oc \<noteq> None \<longrightarrow> oc_response oc = None"
  shows "attempts_shape most skipped before (c # cs) oc"
  unfolding attempts_shape_def using assms by (intro exI [of _ "[a]"]) auto

lemma shape_more:
  assumes room: "int (length before) < most" and fresh: "rk_provider c \<notin> set skipped" and key: "at_key a = rk_key c"
    and again: "at_retryable a"
    and skip: "set skipped' = (if provider_wide (at_kind a) then insert (rk_provider c) (set skipped) else set skipped)"
    and rest: "attempts_shape most skipped' (before @ [a]) cs oc"
  shows "attempts_shape most skipped before (c # cs) oc"
proof -
  obtain new where new: "oc_attempts oc = (before @ [a]) @ new" "int (length new) \<le> max 0 (most - int (length (before @ [a])))"
      "subseq (map at_key new) (map rk_key cs)" "\<forall>x \<in> set new. at_provider x \<notin> set skipped'"
      "sorted_wrt (\<lambda>a b. provider_wide (at_kind a) \<longrightarrow> at_provider b \<noteq> at_provider a) new"
      "oc_error oc = None \<longrightarrow> new \<noteq> [] \<and> at_key (last new) = (oc_provider oc, oc_model oc) \<and>
           (\<exists>r. oc_response oc = Some r \<and> success_status (rp_status r))"
      "oc_error oc \<noteq> None \<longrightarrow> oc_response oc = None" "\<forall>x \<in> set (butlast new). at_retryable x"
    using rest by (auto simp: attempts_shape_def)
  show ?thesis unfolding attempts_shape_def
  proof (intro exI [of _ "a # new"] conjI)
    show "oc_attempts oc = before @ a # new" using new(1) by simp
    show "int (length (a # new)) \<le> max 0 (most - int (length before))" using new(2) room by auto
    show "subseq (map at_key (a # new)) (map rk_key (c # cs))" using new(3) key by simp
    show "\<forall>x \<in> set (a # new). at_provider x \<notin> set skipped" using new(4) fresh key skip by (auto split: if_splits)
    show "sorted_wrt (\<lambda>a b. provider_wide (at_kind a) \<longrightarrow> at_provider b \<noteq> at_provider a) (a # new)"
      using new(4,5) key skip by auto
    show "oc_error oc = None \<longrightarrow> a # new \<noteq> [] \<and> at_key (last (a # new)) = (oc_provider oc, oc_model oc) \<and>
           (\<exists>r. oc_response oc = Some r \<and> success_status (rp_status r))" using new(6) by auto
    show "oc_error oc \<noteq> None \<longrightarrow> oc_response oc = None" by (rule new(7))
    show "\<forall>x \<in> set (butlast (a # new)). at_retryable x" using new(8) again by auto
  qed
qed

text \<open>One step of the loop, as a case rule.\<close>

lemma try_routes_step:
  assumes "try_routes env provs body stream most (c # cs) skipped attempts prev st = Some oc"
  obtains
    (full) "int (length attempts) \<ge> most" "oc = give_up attempts prev st"
  | (skip) "int (length attempts) < most" "rk_provider c \<in> set skipped"
      "try_routes env provs body stream most cs skipped attempts prev st = Some oc"
  | (sent) sent v e where "int (length attempts) < most" "rk_provider c \<notin> set skipped"
      "replace_model (Some body) (rk_model c) = Some sent" "e = env (length attempts)"
      "v = judge stream (send_to e (mget zero_route provs (rk_provider c)) sent)"
      "if succeeded v
       then oc = \<lparr>oc_response = vt_response v, oc_provider = rk_provider c, oc_model = rk_model c,
                   oc_attempts = attempts @ [attempt_of e c v], oc_error = None,
                   oc_state = (learn e (route_key (rk_provider c) (rk_model c)) True st)\<lparr>ro_health :=
                       health_success (ae_io_health e) (rk_provider c) (rk_model c) (ae_ended e) (ro_health st)\<rparr>\<rparr>
       else if \<not> vt_retryable v
       then \<exists>msg. oc = (give_up (attempts @ [attempt_of e c v]) None
                 (note_failure e c v (learn e (route_key (rk_provider c) (rk_model c)) False st)))\<lparr>oc_error := Some msg\<rparr>
       else \<exists>prev'. try_routes env provs body stream most cs
                 (if provider_wide (vt_kind v) then rk_provider c # skipped else skipped)
                 (attempts @ [attempt_of e c v]) prev'
                 (note_failure e c v (learn e (route_key (rk_provider c) (rk_model c)) False st)) = Some oc"
proof -
  have h: "ro_health (learn e k b st) = ro_health st" for e k b by (simp add: learn_def)
  consider "int (length attempts) \<ge> most" | "int (length attempts) < most" "rk_provider c \<in> set skipped"
    | "int (length attempts) < most" "rk_provider c \<notin> set skipped" by linarith
  then show thesis
  proof cases
    case 1
    then show ?thesis using assms full by simp
  next
    case 2
    then show ?thesis using assms skip by simp
  next
    case 3
    obtain sent where s: "replace_model (Some body) (rk_model c) = Some sent"
      using assms 3 by (auto split: option.splits)
    let ?e = "env (length attempts)"
    let ?v = "judge stream (send_to ?e (mget zero_route provs (rk_provider c)) sent)"
    show ?thesis
      by (rule sent [OF 3 s refl refl]) (use assms 3 s h in \<open>auto simp: Let_def\<close>)
  qed
qed

lemma try_routes_shape:
  "try_routes env provs body stream most cs skipped attempts prev st = Some oc \<Longrightarrow> attempts_shape most skipped attempts cs oc"
proof (induction cs arbitrary: skipped attempts prev st)
  case Nil
  then have "oc = give_up attempts prev st" by simp
  then show ?case by (intro shape_stop) simp_all
next
  case (Cons c cs)
  from Cons.prems show ?case
  proof (cases rule: try_routes_step)
    case full
    then show ?thesis by (intro shape_stop) simp_all
  next
    case skip
    then show ?thesis using Cons.IH by (intro shape_skip)
  next
    case (sent sent v e)
    have ok: "succeeded v \<Longrightarrow> \<exists>r. vt_response v = Some r \<and> success_status (rp_status r)"
      using sent(5) succeeded_kind by blast
    consider (good) "succeeded v" | (final) "\<not> succeeded v" "\<not> vt_retryable v" | (again) "\<not> succeeded v" "vt_retryable v" by blast
    then show ?thesis
    proof cases
      case good
      then show ?thesis using sent ok by (intro shape_one [where a = "attempt_of e c v"]) auto
    next
      case final
      then show ?thesis using sent by (intro shape_one [where a = "attempt_of e c v"]) (auto simp: give_up_def)
    next
      case again
      let ?sk = "if provider_wide (vt_kind v) then rk_provider c # skipped else skipped"
      from again sent(6) have "attempts_shape most ?sk (attempts @ [attempt_of e c v]) cs oc" using Cons.IH by auto
      then show ?thesis using sent again by (intro shape_more [where a = "attempt_of e c v" and skipped' = ?sk]) auto
    qed
  qed
qed

section \<open>A whole request\<close>

definition attempt_limit :: "int \<Rightarrow> int" where
  "attempt_limit n = (if n \<le> 0 then 3 else n)"

definition with_health :: "service \<Rightarrow> service" where
  "with_health s = s\<lparr>sv_health := Some (ro_health (initial_state s))\<rparr>"

lemma complete_cases:
  assumes "complete_reliable env now s b n = Some oc"
  obtains (refused) e where "oc = failed_outcome s e"
  | (tried) j where "rq_json b = Some j" "flags_ok j"
      "try_routes env (sv_providers s) j (field ''stream'' dec_bool False j) (attempt_limit n)
         (requested_routes (field ''model'' dec_string '''' j) (ranked_candidates now (with_health s) b)) [] [] None (initial_state s) = Some oc"
  using assms
  by (auto simp: complete_reliable_def attempt_limit_def with_health_def Let_def split: option.splits if_splits)

lemma requested_subseq: "subseq (requested_routes model cs) cs"
  by (auto simp: requested_routes_def split: prod.split)

lemma failed_fields [simp]: "oc_attempts (failed_outcome s e) = []" "oc_error (failed_outcome s e) = Some e"
  "oc_response (failed_outcome s e) = None" "oc_state (failed_outcome s e) = initial_state s"
  by (simp_all add: failed_outcome_def)

text \<open>
  C7. Whatever the upstreams answer, a request makes at most the configured number of attempts (three
  by default), on routes of the ranking, in its order and each at most once in that order; a
  provider that failed as a whole (network, timeout, rate limit, server or authentication) is not
  asked again; only retryable failures are followed by another attempt; and a reported success
  carries a 2xx response of the last attempt.
\<close>

theorem attempts_follow_the_ranking:
  assumes "complete_reliable env now s b n = Some oc"
  shows "int (length (oc_attempts oc)) \<le> attempt_limit n \<and>
     subseq (map at_key (oc_attempts oc)) (map rk_key (ranked_candidates now (with_health s) b)) \<and>
     sorted_wrt (\<lambda>a b. provider_wide (at_kind a) \<longrightarrow> at_provider b \<noteq> at_provider a) (oc_attempts oc) \<and>
     (\<forall>a \<in> set (butlast (oc_attempts oc)). at_retryable a) \<and>
     (oc_error oc = None \<longrightarrow> oc_attempts oc \<noteq> [] \<and> at_key (last (oc_attempts oc)) = (oc_provider oc, oc_model oc) \<and>
        (\<exists>r. oc_response oc = Some r \<and> success_status (rp_status r))) \<and>
     (oc_error oc \<noteq> None \<longrightarrow> oc_response oc = None)"
  using assms
proof (cases rule: complete_cases)
  case (refused e)
  then show ?thesis by (simp add: attempt_limit_def)
next
  case (tried j)
  let ?cs = "ranked_candidates now (with_health s) b" and ?m = "field ''model'' dec_string '''' j"
  have lim: "0 < attempt_limit n" by (simp add: attempt_limit_def)
  have "subseq (map rk_key (requested_routes ?m ?cs)) (map rk_key ?cs)"
    by (rule subseq_map) (rule requested_subseq)
  moreover have "attempts_shape (attempt_limit n) [] [] (requested_routes ?m ?cs) oc" by (rule try_routes_shape [OF tried(3)])
  ultimately show ?thesis using lim by (auto simp: attempts_shape_def intro: subseq_order.trans)
qed

text \<open>An upstream for the witnesses: every request gets a JSON answer.\<close>

definition good_response :: response where
  "good_response = \<lparr>rp_status = 200, rp_body = ''{}'', rp_broken = False, rp_retry_after = '''', rp_is_json = True, rp_retry_date = None\<rparr>"

definition good_env :: "nat \<Rightarrow> attempt_env" where
  "good_env n = \<lparr>ae_send = (\<lambda>u k b. UpResponse good_response), ae_started = 0, ae_headers = 1, ae_checked = 2, ae_learned = 3, ae_ended = 4,
     ae_io_learning = good_io, ae_io_health = good_io, ae_io_until = good_io\<rparr>"

lemma sample_ranking: "ranked_candidates now (with_health sample_service) sample_request =
    [rank_model now (with_health sample_service) sample_request sample_model]"
proof -
  have "route_eligible now (with_health sample_service) sample_request sample_model"
    by (simp add: route_eligible_def with_health_def initial_state_def sample_service_def sample_model_def has_provider_def hard_in_def
        required_capabilities_def rq_doc_def sample_request_def route_available_def provider_health_available_def health_snapshot_def
        new_health_def health_available_def entry_closed_def json_key_eq_def lower_byte_def Let_def)
  then show ?thesis by (simp add: ranked_candidates_def with_health_def sample_service_def sort_ranked_def)
qed

lemma sample_run_on:
  assumes "ranked_candidates 9 (with_health s) sample_request = [rank_model 9 (with_health s) sample_request x]"
  shows "\<exists>oc. complete_reliable good_env 9 s sample_request 0 = Some oc \<and> oc_error oc = None \<and>
    map at_key (oc_attempts oc) = [(m_provider x, m_id x)]"
proof -
  have j: "rq_json sample_request = Some (JObj [(''model'', JStr ''auto'')])" by (simp add: sample_request_def)
  have f: "flags_ok (JObj [(''model'', JStr ''auto'')])" "field ''model'' dec_string '''' (JObj [(''model'', JStr ''auto'')]) = ''auto''"
    "field ''stream'' dec_bool False (JObj [(''model'', JStr ''auto'')]) = False"
    by (simp_all add: flags_ok_def json_key_eq_def lower_byte_def)
  have v: "judge False (send_to (good_env 0) c b) =
     \<lparr>vt_status = 200, vt_kind = NoFailure, vt_retryable = False, vt_error = None, vt_response = Some good_response\<rparr>" for c b
    by (simp add: judge_def send_to_def good_env_def good_response_def failure_for_def success_status_def validate_success_def json_error_def)
  show ?thesis
    using assms [unfolded with_health_def]
    by (simp add: complete_reliable_def j f requested_routes_def replace_model_def v succeeded_def success_status_def Let_def)
qed

lemma sample_run: "\<exists>oc. complete_reliable good_env 9 sample_service sample_request 0 = Some oc \<and> oc_error oc = None \<and>
    map at_key (oc_attempts oc) = [(''p'', ''m'')]"
  using sample_run_on [OF sample_ranking] by (simp add: sample_model_def)

theorem attempts_follow_the_ranking_witness:
  "\<exists>oc. complete_reliable good_env 9 sample_service sample_request 0 = Some oc \<and> int (length (oc_attempts oc)) \<le> 3 \<and>
     (\<exists>r. oc_response oc = Some r \<and> success_status (rp_status r))"
proof -
  obtain oc where oc: "complete_reliable good_env 9 sample_service sample_request 0 = Some oc" "oc_error oc = None" using sample_run by blast
  from attempts_follow_the_ranking [OF oc(1)] oc show ?thesis by (auto simp: attempt_limit_def)
qed

section \<open>Health after a request\<close>

definition scope_key :: "attempt \<Rightarrow> string" where
  "scope_key a = health_key (at_provider a) (if provider_wide (at_kind a) then ''*'' else at_model a)"

definition reopened :: "outcome \<Rightarrow> string \<Rightarrow> bool" where
  "reopened oc k \<longleftrightarrow> oc_error oc = None \<and> k = health_key (oc_provider oc) (oc_model oc)"

lemma quarantined_event: "quarantined h k \<Longrightarrow> \<not> reopens e k \<Longrightarrow> quarantined (health_step h e) k"
  by (rule route_latch.held_step)

lemma note_failure_keeps: "quarantined (ro_health st) k \<Longrightarrow> quarantined (ro_health (note_failure e c v st)) k"
  using quarantined_event [of "ro_health st" k "(HFail (rk_provider c) m kd t, io, io')" for m kd t io io']
    quarantined_event [of "ro_health st" k "(HFailUntil (rk_provider c) m kd t u, io, io')" for m kd t u io io']
  by (auto simp: note_failure_def Let_def)

lemma note_failure_closes: "vt_kind v \<noteq> NoFailure \<Longrightarrow> quarantined (ro_health (note_failure e c v st)) (scope_key (attempt_of e c v))"
  using failed_quarantined by (auto simp: note_failure_def scope_key_def Let_def)

lemma learn_health [simp]: "ro_health (learn e k b st) = ro_health st"
  by (simp add: learn_def)

lemma give_up_state [simp]: "oc_state ((give_up as l st)\<lparr>oc_error := x\<rparr>) = st" "oc_error ((give_up as l st)\<lparr>oc_error := x\<rparr>) = x"
  "oc_attempts ((give_up as l st)\<lparr>oc_error := x\<rparr>) = as"
  by (simp_all add: give_up_def)

lemma success_keeps: "quarantined h k \<Longrightarrow> k \<noteq> health_key p m \<Longrightarrow> quarantined (health_success io p m t h) k"
  using quarantined_event [of h k "(HSuccess p m t, io, io)"] by auto

lemma try_routes_health:
  "try_routes env provs body stream most cs skipped attempts prev st = Some oc \<Longrightarrow>
     (\<forall>k. quarantined (ro_health st) k \<longrightarrow> quarantined (ro_health (oc_state oc)) k \<or> reopened oc k) \<and>
     (\<forall>a \<in> set (oc_attempts oc). a \<in> set attempts \<or> at_kind a = NoFailure \<or>
        quarantined (ro_health (oc_state oc)) (scope_key a) \<or> reopened oc (scope_key a))"
proof (induction cs arbitrary: skipped attempts prev st)
  case Nil
  then have "oc = give_up attempts prev st" by simp
  then show ?case by simp
next
  case (Cons c cs)
  from Cons.prems show ?case
  proof (cases rule: try_routes_step)
    case full
    then show ?thesis by simp
  next
    case skip
    then show ?thesis using Cons.IH by blast
  next
    case (sent sent v e)
    let ?st = "learn e (route_key (rk_provider c) (rk_model c)) False st"
    let ?st2 = "note_failure e c v ?st"
    have keep: "quarantined (ro_health st) k \<Longrightarrow> quarantined (ro_health ?st2) k" for k
      using note_failure_keeps [of ?st k] by simp
    have closes: "vt_kind v \<noteq> NoFailure \<Longrightarrow> quarantined (ro_health ?st2) (scope_key (attempt_of e c v))"
      by (rule note_failure_closes)
    consider (good) "succeeded v" | (final) "\<not> succeeded v" "\<not> vt_retryable v" | (again) "\<not> succeeded v" "vt_retryable v" by blast
    then show ?thesis
    proof cases
      case good
      have "vt_kind v = NoFailure" using good sent(5) succeeded_kind by blast
      then show ?thesis using sent(6) good success_keeps by (auto simp: reopened_def)
    next
      case final
      then show ?thesis using sent(6) keep closes by (auto simp: reopened_def)
    next
      case again
      with sent(6) obtain prev' where "try_routes env provs body stream most cs
          (if provider_wide (vt_kind v) then rk_provider c # skipped else skipped) (attempts @ [attempt_of e c v]) prev' ?st2 = Some oc"
        by auto
      from Cons.IH [OF this] show ?thesis using keep closes by (auto simp del: attempt_of_fields) (metis attempt_of_fields(4))+
    qed
  qed
qed

text \<open>
  C8. Health remembers every failure of a request. After it, an attempt that failed with a failure of
  the provider as a whole (network, timeout, rate limit, server error, refused key) has closed every
  model of that provider, asked for or not, at any time; an attempt that failed otherwise with a
  classified failure has closed its route; and everything that was closed before is closed still. The
  one entry of the table that can be open again is the one of the route that just answered.
\<close>

theorem failures_close_routes:
  assumes "complete_reliable env now s b n = Some oc"
  shows "(\<forall>a \<in> set (oc_attempts oc).
            at_kind a \<in> {FailureNetwork, FailureTimeout, FailureRateLimited, FailureServer, FailureAuth} \<and>
            \<not> reopened oc (health_key (at_provider a) ''*'') \<longrightarrow>
            (\<forall>m t. \<not> health_available (at_provider a) m t (ro_health (oc_state oc)))) \<and>
     (\<forall>a \<in> set (oc_attempts oc).
            at_kind a \<notin> {NoFailure, FailureNetwork, FailureTimeout, FailureRateLimited, FailureServer, FailureAuth} \<and>
            \<not> reopened oc (health_key (at_provider a) (at_model a)) \<longrightarrow>
            (\<forall>t. \<not> health_available (at_provider a) (at_model a) t (ro_health (oc_state oc)))) \<and>
     (\<forall>h k. sv_health s = Some h \<and> quarantined h k \<longrightarrow> quarantined (ro_health (oc_state oc)) k \<or> reopened oc k)"
  using assms
proof (cases rule: complete_cases)
  case (refused e)
  then show ?thesis by (auto simp: initial_state_def)
next
  case (tried j)
  note shape = try_routes_health [OF tried(3)]
  have wide: "quarantined (ro_health (oc_state oc)) (health_key (at_provider a) ''*'')"
    if "a \<in> set (oc_attempts oc)" "provider_wide (at_kind a)" "\<not> reopened oc (health_key (at_provider a) ''*'')" for a
    using shape that by (auto simp: scope_key_def provider_wide_def)
  have one: "quarantined (ro_health (oc_state oc)) (health_key (at_provider a) (at_model a))"
    if "a \<in> set (oc_attempts oc)" "at_kind a \<noteq> NoFailure" "\<not> provider_wide (at_kind a)"
      "\<not> reopened oc (health_key (at_provider a) (at_model a))" for a
    using shape that by (auto simp: scope_key_def)
  show ?thesis
  proof (intro conjI ballI allI impI)
    fix a m t
    assume "a \<in> set (oc_attempts oc)"
      "at_kind a \<in> {FailureNetwork, FailureTimeout, FailureRateLimited, FailureServer, FailureAuth} \<and>
        \<not> reopened oc (health_key (at_provider a) ''*'')"
    then show "\<not> health_available (at_provider a) m t (ro_health (oc_state oc))"
      using quarantined_unavailable(2) [OF wide] by (simp add: provider_wide_def)
  next
    fix a t
    assume "a \<in> set (oc_attempts oc)"
      "at_kind a \<notin> {NoFailure, FailureNetwork, FailureTimeout, FailureRateLimited, FailureServer, FailureAuth} \<and>
        \<not> reopened oc (health_key (at_provider a) (at_model a))"
    then show "\<not> health_available (at_provider a) (at_model a) t (ro_health (oc_state oc))"
      using quarantined_unavailable(1) [OF one] by (simp add: provider_wide_def)
  next
    fix h k
    assume "sv_health s = Some h \<and> quarantined h k"
    then show "quarantined (ro_health (oc_state oc)) k \<or> reopened oc k" using shape by (auto simp: initial_state_def)
  qed
qed

definition bad_env :: "nat \<Rightarrow> attempt_env" where
  "bad_env n = (good_env n)\<lparr>ae_send := (\<lambda>u k b. UpResponse (good_response\<lparr>rp_status := 503\<rparr>))\<rparr>"

theorem failures_close_routes_witness:
  "\<exists>oc. complete_reliable bad_env 9 sample_service sample_request 0 = Some oc \<and>
     oc_attempts oc \<noteq> [] \<and> (\<forall>m. \<not> health_available ''p'' m 99 (ro_health (oc_state oc)))"
proof -
  have j: "rq_json sample_request = Some (JObj [(''model'', JStr ''auto'')])" by (simp add: sample_request_def)
  have f: "flags_ok (JObj [(''model'', JStr ''auto'')])" "field ''model'' dec_string '''' (JObj [(''model'', JStr ''auto'')]) = ''auto''"
    "field ''stream'' dec_bool False (JObj [(''model'', JStr ''auto'')]) = False"
    by (simp_all add: flags_ok_def json_key_eq_def lower_byte_def)
  have v: "judge False (send_to (bad_env 0) c x) =
     \<lparr>vt_status = 503, vt_kind = FailureServer, vt_retryable = True, vt_error = None,
      vt_response = Some (good_response\<lparr>rp_status := 503\<rparr>)\<rparr>" for c x
    by (simp add: judge_def send_to_def bad_env_def good_env_def good_response_def failure_for_def success_status_def)
  obtain oc a where oc: "complete_reliable bad_env 9 sample_service sample_request 0 = Some oc" "oc_error oc \<noteq> None"
      "a \<in> set (oc_attempts oc)" "at_kind a = FailureServer" "at_provider a = ''p''" "at_model a = ''m''"
    using sample_ranking [of 9, unfolded with_health_def]
    by (simp add: complete_reliable_def j f requested_routes_def replace_model_def v succeeded_def success_status_def Let_def
        sample_model_def attempt_of_def give_up_def)
  have "\<not> reopened oc (health_key (at_provider a) ''*'')" using oc(2) by (simp add: reopened_def)
  then have "\<forall>m t. \<not> health_available (at_provider a) m t (ro_health (oc_state oc))"
    using failures_close_routes [OF oc(1)] oc(3,4) by simp
  then show ?thesis using oc by auto
qed

section \<open>Failover\<close>

text \<open>An upstream whose failures can all be retried, and a provider that always answers well.\<close>

definition retryable_world :: "(nat \<Rightarrow> attempt_env) \<Rightarrow> (string, route_config) gomap \<Rightarrow> bool \<Rightarrow> bool" where
  "retryable_world env provs stream \<longleftrightarrow> (\<forall>n p b.
     let v = judge stream (send_to (env n) (mget zero_route provs p) b) in succeeded v \<or> vt_retryable v)"

definition working :: "(nat \<Rightarrow> attempt_env) \<Rightarrow> (string, route_config) gomap \<Rightarrow> bool \<Rightarrow> string \<Rightarrow> bool" where
  "working env provs stream p \<longleftrightarrow> (\<forall>n b. succeeded (judge stream (send_to (env n) (mget zero_route provs p) b)))"

lemma replace_model_object: "is_obj body \<Longrightarrow> replace_model (Some body) m = Some (Some (obj_put ''model'' (JStr m) body))"
  by (cases body) (auto simp: replace_model_def)

lemma failover:
  assumes world: "retryable_world env provs stream" and body: "is_obj body"
    and good: "working env provs stream (rk_provider g)"
  shows "int (length attempts + length pre) < most \<Longrightarrow> rk_provider g \<notin> set skipped \<Longrightarrow>
    \<exists>oc. try_routes env provs body stream most (pre @ g # post) skipped attempts prev st = Some oc \<and> oc_error oc = None"
proof (induction pre arbitrary: skipped attempts prev st)
  case Nil
  have "succeeded (judge stream (send_to (env (length attempts)) (mget zero_route provs (rk_provider g)) b))" for b
    using good by (simp add: working_def)
  then show ?case using Nil by (simp add: replace_model_object [OF body] Let_def)
next
  case (Cons c pre)
  have room: "\<not> int (length attempts) \<ge> most" using Cons.prems by simp
  show ?case
  proof (cases "rk_provider c \<in> set skipped")
    case True
    then show ?thesis using Cons room by simp
  next
    case False
    let ?e = "env (length attempts)"
    let ?v = "judge stream (send_to ?e (mget zero_route provs (rk_provider c)) (Some (obj_put ''model'' (JStr (rk_model c)) body)))"
    show ?thesis
    proof (cases "succeeded ?v")
      case True
      then show ?thesis using False room by (simp add: replace_model_object [OF body] Let_def)
    next
      case failed: False
      then have again: "vt_retryable ?v" using world by (auto simp: retryable_world_def Let_def)
      have "rk_provider c \<noteq> rk_provider g" using failed good by (auto simp: working_def)
      then have sk: "rk_provider g \<notin> set (if provider_wide (vt_kind ?v) then rk_provider c # skipped else skipped)"
        using Cons.prems by auto
      have len: "int (length (attempts @ [attempt_of ?e c ?v]) + length pre) < most" using Cons.prems by simp
      from Cons.IH [OF len sk] show ?thesis using False room failed again
        by (simp add: replace_model_object [OF body] Let_def)
    qed
  qed
qed

text \<open>
  C6. Failover reaches a provider that works: when the upstream failures can be retried (nothing
  answers with an unclassified or a client error status), a request whose body is an object succeeds
  if any of the routes that may be tried within the attempt limit belongs to a provider that answers
  every request well, however the routes before it fail.
\<close>

theorem failover_reaches_a_working_provider:
  assumes "rq_json b = Some j" and "is_obj j" and "flags_ok j"
    and "retryable_world env (sv_providers s) (field ''stream'' dec_bool False j)"
    and "requested_routes (field ''model'' dec_string '''' j) (ranked_candidates now (with_health s) b) = pre @ g # post"
    and "int (length pre) < attempt_limit n"
    and "working env (sv_providers s) (field ''stream'' dec_bool False j) (rk_provider g)"
  shows "\<exists>oc. complete_reliable env now s b n = Some oc \<and> oc_error oc = None"
  using failover [OF assms(4,2,7), of "[]" pre "attempt_limit n" "[]" post None "initial_state s"] assms
  by (simp add: complete_reliable_def attempt_limit_def with_health_def Let_def)

theorem failover_reaches_a_working_provider_witness:
  "\<exists>oc. complete_reliable good_env 9 sample_service sample_request 0 = Some oc \<and> oc_error oc = None"
proof -
  let ?j = "JObj [(''model'', JStr ''auto'')]"
  have good: "succeeded (judge str (send_to (good_env k) c x))" if "\<not> str" for str k c x
    using that
    by (simp add: judge_def send_to_def good_env_def good_response_def failure_for_def success_status_def
        validate_success_def json_error_def succeeded_def)
  have f: "flags_ok ?j" "field ''model'' dec_string '''' ?j = ''auto''" "field ''stream'' dec_bool False ?j = False"
    by (simp_all add: flags_ok_def json_key_eq_def lower_byte_def)
  show ?thesis
    by (rule failover_reaches_a_working_provider [where j = ?j and pre = "[]" and post = "[]" and
            g = "rank_model 9 (with_health sample_service) sample_request sample_model"])
       (simp_all add: f sample_request_def requested_routes_def sample_ranking [unfolded sample_request_def] retryable_world_def working_def good
            attempt_limit_def)
qed

section \<open>The body null\<close>

lemma try_routes_not_null: "body \<noteq> JNull \<Longrightarrow> try_routes env provs body stream most cs skipped attempts prev st \<noteq> None"
proof (induction cs arbitrary: skipped attempts prev st)
  case (Cons c cs)
  obtain sent where "replace_model (Some body) (rk_model c) = Some sent"
    using Cons.prems by (cases body) (auto simp: replace_model_def)
  then show ?case using Cons by (simp add: Let_def)
qed simp

text \<open>
  A request panics exactly when its body is the JSON value null and there is a route to try:
  replaceModel decodes null into a nil map and assigns into it. Every other body gets a result or an
  error.
\<close>

theorem null_body_panics:
  "complete_reliable env now s b n = None \<longleftrightarrow>
     rq_json b = Some JNull \<and> ranked_candidates now (with_health s) b \<noteq> []"
proof (cases "rq_json b")
  case None
  then show ?thesis by (simp add: complete_reliable_def)
next
  case (Some j)
  show ?thesis
  proof (cases "j = JNull")
    case True
    have null: "flags_ok JNull" "field ''model'' dec_string '''' JNull = ''''" by (simp_all add: flags_ok_def)
    have lim: "0 < attempt_limit n" by (simp add: attempt_limit_def)
    show ?thesis
    proof (cases "ranked_candidates now (with_health s) b")
      case Nil
      then show ?thesis using True Some by (simp add: complete_reliable_def null requested_routes_def with_health_def)
    next
      case (Cons c cs)
      then show ?thesis using True Some lim
        by (simp add: complete_reliable_def null requested_routes_def with_health_def attempt_limit_def replace_model_def)
    qed
  next
    case False
    then show ?thesis using Some try_routes_not_null [OF False]
      by (auto simp: complete_reliable_def Let_def)
  qed
qed

section \<open>Recovery\<close>

text \<open>A route answered its probe: the request that was sent for it, and the answer that came back.\<close>

definition answered_probe ::
  "(nat \<Rightarrow> probe_env) \<Rightarrow> (string, route_config) gomap \<Rightarrow> model list \<Rightarrow> route_health \<Rightarrow> bool" where
  "answered_probe env provs ms x \<longleftrightarrow> (\<exists>n cfg m r. map_of provs (rh_provider x) = Some cfg \<and>
     (if rh_model x = ''*'' then (\<exists>y \<in> set ms. m_provider y = rh_provider x \<and> m_id y = m \<and> m_status y = Active \<and> m_auto_routable y)
      else m = rh_model x) \<and>
     pe_send (env n) (chat_url (pr_base_url cfg)) (bearer (pr_api_key cfg)) (probe_body m) = UpResponse r \<and>
     200 \<le> rp_status r \<and> rp_status r < 300)"

lemma probe_model_of: "probe_model ms x = Some m \<Longrightarrow>
    (if rh_model x = ''*'' then (\<exists>y \<in> set ms. m_provider y = rh_provider x \<and> m_id y = m \<and> m_status y = Active \<and> m_auto_routable y)
     else m = rh_model x)"
  by (auto simp: probe_model_def find_Some_iff split: if_splits option.splits)

lemma answered_probeI:
  assumes "map_of provs (rh_provider x) = Some cfg" and "probe_model ms x = Some m"
    and "probe_ok (pe_send (env n) (chat_url (pr_base_url cfg)) (bearer (pr_api_key cfg)) (probe_body m))"
  shows "answered_probe env provs ms x"
proof -
  obtain r where "pe_send (env n) (chat_url (pr_base_url cfg)) (bearer (pr_api_key cfg)) (probe_body m) = UpResponse r"
      "200 \<le> rp_status r" "rp_status r < 300"
    using assms(3) by (auto simp: probe_ok_def success_status_def split: upstream.splits)
  then show ?thesis unfolding answered_probe_def using assms(1) probe_model_of [OF assms(2)] by blast
qed

lemma probe_each_spec:
  "probe_each env provs ms n xs h = (rs, h') \<Longrightarrow>
     set rs \<subseteq> set xs \<and> (\<forall>x \<in> set rs. answered_probe env provs ms x) \<and>
     (\<forall>k. k \<notin> (\<lambda>x. health_key (rh_provider x) (rh_model x)) ` set xs \<longrightarrow> map_of (items h') k = map_of (items h) k) \<and>
     (\<forall>k. quarantined h k \<longrightarrow> quarantined h' k \<or> (\<exists>x \<in> set rs. k = health_key (rh_provider x) (rh_model x)))"
proof (induction xs arbitrary: n h rs h')
  case Nil
  then show ?case by simp
next
  case (Cons x xs)
  let ?e = "env n" and ?key = "health_key (rh_provider x) (rh_model x)"
  let ?good = "health_success (pe_io ?e) (rh_provider x) (rh_model x) (pe_now ?e) h"
  let ?bad = "health_probe_failed (pe_io ?e) (rh_provider x) (rh_model x) (pe_now ?e) h"
  have items: "map_of (items ?good) k = map_of (items h) k" "map_of (items ?bad) k = map_of (items h) k" if "k \<noteq> ?key" for k
    using that by (simp_all add: health_ops)
  have good: "quarantined h k \<Longrightarrow> k \<noteq> ?key \<Longrightarrow> quarantined ?good k" for k by (rule success_keeps)
  have bad: "quarantined h k \<Longrightarrow> quarantined ?bad k" for k
    using quarantined_event [of h k "(HProbeFailed (rh_provider x) (rh_model x) (pe_now ?e), pe_io ?e, pe_io ?e)"] by simp
  show ?case
  proof (cases "map_of provs (rh_provider x) = None \<or> probe_model ms x = None")
    case True
    then have "probe_each env provs ms (n + 1) xs h = (rs, h')" using Cons.prems by (auto split: option.splits)
    from Cons.IH [OF this] show ?thesis by auto
  next
    case False
    then obtain cfg m where cm: "map_of provs (rh_provider x) = Some cfg" "probe_model ms x = Some m" by auto
    show ?thesis
    proof (cases "probe_ok (pe_send ?e (chat_url (pr_base_url cfg)) (bearer (pr_api_key cfg)) (probe_body m))")
      case True
      obtain rs1 where r: "probe_each env provs ms (n + 1) xs ?good = (rs1, h')" "rs = x # rs1"
        using Cons.prems cm True by (auto simp: Let_def split: prod.splits)
      have "answered_probe env provs ms x" using cm True by (rule answered_probeI)
      then show ?thesis using Cons.IH [OF r(1)] items(1) good by (auto simp: r(2)) blast+
    next
      case no: False
      have "probe_each env provs ms (n + 1) xs ?bad = (rs, h')" using Cons.prems cm no by (simp add: Let_def)
      from Cons.IH [OF this] show ?thesis using items(2) bad by auto
    qed
  qed
qed

text \<open>
  C13. A recovery round reopens only routes that answered: every route it returns was due for a probe, and
  the chat completion sent for it, to the base URL and with the key of its provider, for its own model (or an
  active, routable model of the provider when the entry stands for the provider as a whole), was
  answered with a 2xx status; every entry of the health table that was closed and is open
  afterwards belongs to a returned route; and entries that were not due are unchanged.
\<close>

theorem recovery_reopens_only_probed_routes:
  assumes "sv_health s = Some h" and "probe_recovery env now s = (rs, h')"
  shows "\<exists>h2. h' = Some h2 \<and> set rs \<subseteq> set (due_for_probe now h) \<and>
     (\<forall>x \<in> set rs. \<exists>n cfg m r. map_of (sv_providers s) (rh_provider x) = Some cfg \<and>
        (if rh_model x = ''*'' then (\<exists>y \<in> set (sv_models s). m_provider y = rh_provider x \<and> m_id y = m \<and> m_status y = Active \<and> m_auto_routable y)
         else m = rh_model x) \<and>
        pe_send (env n) (chat_url (pr_base_url cfg)) (bearer (pr_api_key cfg)) (probe_body m) = UpResponse r \<and>
        200 \<le> rp_status r \<and> rp_status r < 300) \<and>
     (\<forall>k. quarantined h k \<and> \<not> quarantined h2 k \<longrightarrow> (\<exists>x \<in> set rs. k = health_key (rh_provider x) (rh_model x))) \<and>
     (\<forall>k. k \<notin> (\<lambda>x. health_key (rh_provider x) (rh_model x)) ` set (due_for_probe now h) \<longrightarrow>
        map_of (items h2) k = map_of (items h) k)"
proof -
  obtain h2 where p: "probe_each env (sv_providers s) (sv_models s) 0 (due_for_probe now h) h = (rs, h2)" "h' = Some h2"
    using assms by (auto simp: probe_recovery_def split: prod.splits)
  from probe_each_spec [OF p(1)] p(2) show ?thesis unfolding answered_probe_def by blast
qed

text \<open>A provider whose key was refused answers its probe, and the entry of the provider is open again.\<close>

definition probed_health :: health where
  "probed_health = health_fail good_io ''p'' ''m'' FailureServer (- (10 ^ 12)) fresh_health"

definition probed_env :: "nat \<Rightarrow> probe_env" where
  "probed_env n = \<lparr>pe_send = (\<lambda>u k b. UpResponse good_response), pe_now = 5, pe_io = good_io\<rparr>"

lemma probed_due: "\<exists>x. due_for_probe 99 probed_health = [x] \<and> rh_provider x = ''p'' \<and> rh_model x = ''m''"
  by (simp add: probed_health_def fresh_health_def new_health_def due_for_probe_def health_ops mget_def zero_health_def
      health_key_def good_io_def kind_cooldown_def default_options_def zero_options_def second_def i64_id)

theorem recovery_reopens_only_probed_routes_witness:
  "\<exists>h2 rs. probe_recovery probed_env 99 (sample_service\<lparr>sv_health := Some probed_health\<rparr>) = (rs, Some h2) \<and>
     rs \<noteq> [] \<and> quarantined probed_health (health_key ''p'' ''m'') \<and> \<not> quarantined h2 (health_key ''p'' ''m'') \<and>
     (\<forall>x \<in> set rs. rh_provider x = ''p'' \<and> map_of (sv_providers sample_service) (rh_provider x) \<noteq> None)"
proof -
  let ?s = "sample_service\<lparr>sv_health := Some probed_health\<rparr>"
  obtain x where x: "due_for_probe 99 probed_health = [x]" "rh_provider x = ''p''" "rh_model x = ''m''" using probed_due by blast
  have run: "probe_recovery probed_env 99 ?s = ([x], Some (health_success good_io ''p'' ''m'' 5 probed_health))"
    using x by (simp add: probe_recovery_def probed_env_def probe_model_def probe_ok_def good_response_def success_status_def
        sample_service_def Let_def)
  have closed: "quarantined probed_health (health_key ''p'' ''m'')" unfolding probed_health_def by (rule failed_quarantined)
  have "\<not> quarantined (health_success good_io ''p'' ''m'' 5 probed_health) (health_key ''p'' ''m'')"
    by (simp add: quarantined_def health_ops)
  moreover have "sv_health ?s = Some probed_health" by simp
  ultimately show ?thesis using recovery_reopens_only_probed_routes [OF _ run] run closed x(2) by fastforce
qed

text \<open>
  The probes of a recovery round do not look at the switches of the operator: with providers switched off, or the
  gate of the integration closed, the same requests are sent.
\<close>

lemma probes_ignore_the_switches:
  "probe_recovery env now (s\<lparr>sv_disabled := d, sv_gate := g\<rparr>) = probe_recovery env now s"
  by (cases "sv_health s") (simp_all add: probe_recovery_def)

end
