(* ===== verification/Runtime_Props.thy ===== *)
theory Runtime_Props
  imports Runtime_Stores
begin

text \<open>
  What the runtime stores guarantee: the cache never answers with anything but the last body put
  under the key and stays within its limit, a review is claimed by one batch only, a batch is never
  left in flight by a restart and its counters add up, and a teacher is dropped exactly when its
  consecutive failures reach the threshold.
\<close>

section \<open>The cache\<close>

datatype cache_event = CPut io nat string string instant | CGet string instant

fun cache_step :: "cache \<Rightarrow> cache_event \<Rightarrow> cache" where
  "cache_step c (CPut io pick k b now) = cache_put io pick k b now c"
| "cache_step c (CGet k now) = snd (cache_get k now c)"

fun last_put :: "string \<Rightarrow> cache_event list \<Rightarrow> (string \<times> instant) option" where
  "last_put k [] = None"
| "last_put k (CPut io pick k' b now # es) = (case last_put k es of Some r \<Rightarrow> Some r | None \<Rightarrow> if k' = k then Some (b, now) else None)"
| "last_put k (CGet k' now # es) = last_put k es"

lemma last_put_snoc: "last_put k (es @ [e]) =
    (case e of CPut io pick k' b now \<Rightarrow> if k' = k then Some (b, now) else last_put k es | CGet k' now \<Rightarrow> last_put k es)"
  by (induction k es rule: last_put.induct) (auto split: cache_event.split)

definition cache_ok :: "cache_event list \<Rightarrow> cache \<Rightarrow> bool" where
  "cache_ok es c \<longleftrightarrow> wf_map (items c) \<and> int (length (items c)) \<le> c_max c \<and> c_max c = 500 \<and> c_ttl c = 5 * minute \<and>
     (\<forall>k x. map_of (items c) k = Some x \<longrightarrow> (\<exists>t. last_put k es = Some (ci_body x, t) \<and> ci_expires x = t + 5 * minute))"

lemma length_mput: "length (mput k v m) = (if k \<in> fst ` set m then length m else Suc (length m))"
  by (induction m) auto

lemma length_mdel_in: "k \<in> fst ` set m \<Longrightarrow> length (mdel k m) < length m"
  by (induction m) (auto simp: AList.delete_eq intro: le_imp_less_Suc length_filter_le)

lemma length_mdel: "length (mdel k m) \<le> length m"
  by (simp add: AList.delete_eq)

lemma evict_laws:
  "wf_map m \<Longrightarrow> wf_map (evict pick m)" "m \<noteq> [] \<Longrightarrow> length (evict pick m) < length m"
  "map_of (evict pick m) k = Some x \<Longrightarrow> map_of m k = Some x"
  by (auto simp: evict_def split: if_splits intro!: length_mdel_in imageI nth_mem)

lemma cache_fields [simp]: "c_max (cache_put io pick k b now c) = c_max c" "c_ttl (cache_put io pick k b now c) = c_ttl c"
  by (simp_all add: cache_put_def store_put_def persist_store_def Let_def)

lemma cache_put_items: "items (cache_put io pick k b now c) =
    mput k \<lparr>ci_body = b, ci_expires = now + c_ttl c\<rparr>
      (if int (length (items c)) \<ge> c_max c then evict pick (items c) else items c)"
  by (simp add: cache_put_def store_put_def Let_def)

definition room :: "nat \<Rightarrow> cache \<Rightarrow> (string, cache_item) gomap" where
  "room pick c = (if int (length (items c)) \<ge> c_max c then evict pick (items c) else items c)"

lemma room_laws:
  assumes "wf_map (items c)" and "int (length (items c)) \<le> c_max c" and "0 < c_max c"
  shows "wf_map (room pick c)" and "int (length (room pick c)) < c_max c"
    and "map_of (room pick c) k = Some x \<Longrightarrow> map_of (items c) k = Some x"
proof -
  show "wf_map (room pick c)" using assms by (simp add: room_def evict_laws)
  show "int (length (room pick c)) < c_max c"
  proof (cases "int (length (items c)) \<ge> c_max c")
    case True
    then have "items c \<noteq> []" using assms by auto
    then show ?thesis using evict_laws(2) [of "items c" pick] assms True by (simp add: room_def)
  qed (simp add: room_def)
  show "map_of (room pick c) k = Some x \<Longrightarrow> map_of (items c) k = Some x"
    by (auto simp: room_def dest: evict_laws(3) split: if_splits)
qed

lemma cache_ok_put:
  assumes ok: "cache_ok es c" shows "cache_ok (es @ [CPut io pick k b now]) (cache_put io pick k b now c)"
proof -
  have c: "wf_map (items c)" "int (length (items c)) \<le> c_max c" "c_max c = 500" "c_ttl c = 5 * minute"
    and hits: "map_of (items c) k' = Some x \<Longrightarrow> \<exists>t. last_put k' es = Some (ci_body x, t) \<and> ci_expires x = t + 5 * minute" for k' x
    using ok by (auto simp: cache_ok_def)
  have "0 < c_max c" using c by simp
  note m = room_laws [OF c(1,2) this, where pick = pick]
  show ?thesis unfolding cache_ok_def cache_put_items room_def [symmetric] cache_fields
    using m c by (auto simp: length_mput last_put_snoc intro: hits)
qed

lemma cache_ok_get: "cache_ok es c \<Longrightarrow> cache_ok (es @ [CGet k now]) (snd (cache_get k now c))"
  using length_mdel [of k "items c"]
  by (auto simp: cache_ok_def cache_get_def last_put_snoc split: option.split)

lemma cache_ok_run: "cache_ok es (foldl cache_step new_cache es)"
proof (induction es rule: rev_induct)
  case Nil
  then show ?case by (simp add: cache_ok_def new_cache_def)
next
  case (snoc e es)
  then show ?case by (cases e) (auto intro: cache_ok_put cache_ok_get)
qed

text \<open>
  C23. Whatever is put and got in whatever order, and whichever entries the full cache evicts, the
  cache holds at most 500 entries, and a hit is exactly the body most recently put under that key,
  no more than five minutes ago.
\<close>

theorem cache_hits_are_fresh:
  "let c = foldl cache_step new_cache es in
     length (items c) \<le> 500 \<and>
     (\<forall>k now b. fst (cache_get k now c) = Some b \<longrightarrow>
        (\<exists>t. last_put k es = Some (b, t) \<and> now \<le> t + 5 * minute))"
  using cache_ok_run [of es]
  by (force simp: Let_def cache_ok_def cache_get_def split: option.splits if_splits)

theorem cache_hits_are_fresh_witness:
  "fst (cache_get ''k'' 7 (foldl cache_step new_cache [CPut good_io 0 ''k'' ''b'' 5])) = Some ''b'' \<and>
   (\<exists>t. last_put ''k'' [CPut good_io 0 ''k'' ''b'' 5] = Some (''b'', t) \<and> 7 \<le> t + 5 * minute)"
proof -
  have "fst (cache_get ''k'' 7 (foldl cache_step new_cache [CPut good_io 0 ''k'' ''b'' 5])) = Some ''b''"
    by (simp add: cache_get_def cache_put_items new_cache_def duration_units)
  with cache_hits_are_fresh [of "[CPut good_io 0 ''k'' ''b'' 5]"] show ?thesis by (auto simp: Let_def duration_units)
qed

section \<open>Claiming reviews\<close>

lemma claim_loop_spec:
  "claim_loop before batch limit m out = (out', m') \<Longrightarrow>
     map fst m' = map fst m \<and> int (length out') \<le> max limit (int (length out)) \<and>
     (\<exists>ys. out' = out @ ys \<and> (\<forall>y \<in> set ys. \<exists>k x. (k, x) \<in> set m \<and> claimable before x \<and> y = claim_one batch x \<and> (k, y) \<in> set m')) \<and>
     (\<forall>k y. (k, y) \<in> set m' \<longrightarrow> (k, y) \<in> set m \<or> (\<exists>x. (k, x) \<in> set m \<and> y = claim_one batch x)) \<and>
     (int (length out') < limit \<longrightarrow> (\<forall>k y. (k, y) \<in> set m' \<longrightarrow> \<not> claimable before y))"
proof (induction m arbitrary: out out' m')
  case Nil
  then show ?case by auto
next
  case (Cons kx m)
  obtain k x where kx: "kx = (k, x)" by (cases kx)
  consider (full) "int (length out) \<ge> limit" | (take) "int (length out) < limit" "claimable before x"
    | (skip) "int (length out) < limit" "\<not> claimable before x" by linarith
  then show ?case
  proof cases
    case full
    then show ?thesis using Cons.prems by (auto simp: kx)
  next
    case take
    obtain m1 where m1: "claim_loop before batch limit m (out @ [claim_one batch x]) = (out', m1)"
      and m': "m' = (k, claim_one batch x) # m1"
      using Cons.prems take by (auto simp: kx split: prod.splits)
    have taken: "\<not> claimable before (claim_one batch x)" by (simp add: claimable_def claim_one_def)
    from Cons.IH [OF m1] take obtain ys where
      IH: "out' = (out @ [claim_one batch x]) @ ys"
        "\<forall>y \<in> set ys. \<exists>k x. (k, x) \<in> set m \<and> claimable before x \<and> y = claim_one batch x \<and> (k, y) \<in> set m1"
        "map fst m1 = map fst m" "int (length out') \<le> limit"
        "\<forall>k y. (k, y) \<in> set m1 \<longrightarrow> (k, y) \<in> set m \<or> (\<exists>x. (k, x) \<in> set m \<and> y = claim_one batch x)"
        "int (length out') < limit \<longrightarrow> (\<forall>k y. (k, y) \<in> set m1 \<longrightarrow> \<not> claimable before y)"
      by (auto simp del: append_assoc)
    have "\<exists>zs. out' = out @ zs \<and> (\<forall>y \<in> set zs. \<exists>k x. (k, x) \<in> set (kx # m) \<and> claimable before x \<and> y = claim_one batch x \<and> (k, y) \<in> set m')"
      using IH(1,2) take by (intro exI [of _ "claim_one batch x # ys"]) (auto simp: kx m', blast+)
    then show ?thesis using IH taken by (auto simp: m' kx)
  next
    case skip
    obtain m1 where m1: "claim_loop before batch limit m out = (out', m1)" and m': "m' = (k, x) # m1"
      using Cons.prems skip by (auto simp: kx split: prod.splits)
    show ?thesis using Cons.IH [OF m1] skip by (auto simp: m' kx) (metis)+
  qed
qed

definition reviews_keyed :: "reviews \<Rightarrow> bool" where
  "reviews_keyed r \<longleftrightarrow> wf_map (items r) \<and> (\<forall>k x. (k, x) \<in> set (items r) \<longrightarrow> rv_id x = k)"

lemma claim_one_fields [simp]: "rv_id (claim_one batch x) = rv_id x" "rv_review_status (claim_one batch x) = RProcessing"
  "rv_batch (claim_one batch x) = batch" "rv_recorded_at (claim_one batch x) = rv_recorded_at x"
  by (simp_all add: claim_one_def)

lemma claim_members:
  assumes keyed: "reviews_keyed r" and claim: "reviews_claim before batch limit r = (out, r')"
  shows "reviews_keyed r' \<and> (\<forall>y \<in> set out. lookup r' (rv_id y) = Some y \<and> rv_review_status y = RProcessing \<and> rv_batch y = batch \<and>
      (\<exists>x. lookup r (rv_id y) = Some x \<and> claimable before x))"
proof (cases "r_locked r")
  case True
  then show ?thesis using assms by (auto simp: reviews_claim_def)
next
  case False
  obtain m where loop: "claim_loop before batch limit (items r) [] = (out, m)" and r': "r' = r\<lparr>items := m, r_locked := True\<rparr>"
    using claim False by (auto simp: reviews_claim_def split: prod.splits)
  note spec = claim_loop_spec [OF loop]
  have wf: "wf_map m" using spec keyed by (simp add: reviews_keyed_def wf_map_def)
  have out: "\<exists>x. (rv_id y, x) \<in> set (items r) \<and> claimable before x \<and> y = claim_one batch x \<and> (rv_id y, y) \<in> set m"
    if "y \<in> set out" for y
    using spec that keyed by (fastforce simp: reviews_keyed_def)
  have ids: "rv_id y = k" if "(k, y) \<in> set m" for k y
    using that spec keyed unfolding reviews_keyed_def by (metis claim_one_fields(1))
  have "lookup r' (rv_id y) = Some y" and "\<exists>x. lookup r (rv_id y) = Some x \<and> claimable before x" if "y \<in> set out" for y
    using out [OF that] wf keyed by (auto simp: r' lookup_def reviews_keyed_def intro: map_of_wf)
  moreover have "rv_review_status y = RProcessing \<and> rv_batch y = batch" if "y \<in> set out" for y
    using out [OF that] by auto
  ultimately show ?thesis using ids wf by (auto simp: reviews_keyed_def r')
qed

lemma keyed_claim_done [simp]: "reviews_keyed (claim_done io r) = reviews_keyed r" "lookup (claim_done io r) k = lookup r k"
  by (simp_all add: reviews_keyed_def claim_done_def lookup_def)

text \<open>
  C24. Two batches never hold the same review: a claim takes at most the limit, marks everything it
  returns as processing, leaves nothing claimable when it stays under the limit, and while it is
  being persisted a second claim gets nothing; after that, a second claim, whatever its deadline and
  limit, returns no review the first one returned.
\<close>

theorem claims_are_disjoint:
  assumes "reviews_keyed r" and "\<not> r_locked r"
    and "reviews_claim before batch limit r = (out, r')"
    and "reviews_claim before2 batch2 limit2 (claim_done io r') = (out2, r2)"
  shows "int (length out) \<le> max limit 0 \<and> fst (reviews_claim before2 batch2 limit2 r') = [] \<and>
     (\<forall>y \<in> set out. rv_review_status y = RProcessing \<and> rv_batch y = batch) \<and>
     (int (length out) < limit \<longrightarrow> reviews_pending before r' = []) \<and>
     rv_id ` set out \<inter> rv_id ` set out2 = {}"
proof -
  obtain m where loop: "claim_loop before batch limit (items r) [] = (out, m)" and r': "r' = r\<lparr>items := m, r_locked := True\<rparr>"
    using assms(2,3) by (auto simp: reviews_claim_def split: prod.splits)
  note spec = claim_loop_spec [OF loop]
  note first = claim_members [OF assms(1,3)]
  have "reviews_keyed (claim_done io r')" using first by simp
  note second = claim_members [OF this assms(4)]
  have "rv_id y \<noteq> rv_id z" if y: "y \<in> set out" and z: "z \<in> set out2" for y z
  proof
    assume same: "rv_id y = rv_id z"
    from second z obtain x where "lookup r' (rv_id y) = Some x" "claimable before2 x" using same by auto
    moreover have "lookup r' (rv_id y) = Some y" "rv_review_status y = RProcessing" using first y by auto
    ultimately show False by (simp add: claimable_def)
  qed
  moreover have "int (length out) < limit \<longrightarrow> reviews_pending before r' = []"
    using spec by (auto simp: reviews_pending_def r' filter_empty_conv)
  ultimately show ?thesis using spec first by (auto simp: r' reviews_claim_def)
qed

definition sample_review :: "string \<Rightarrow> review" where
  "sample_review k = \<lparr>rv_id = k, rv_recorded_at = 0, rv_model = ''m'', rv_provider = ''p'', rv_status = 200, rv_latency = 0,
     rv_stream = False, rv_tools = False,
     rv_features = \<lparr>tf_domain = '''', tf_action = '''', tf_needs_tools = False, tf_needs_vision = False, tf_needs_structured = False,
       tf_needs_long_context = False, tf_reasoning = 0, tf_messages = 0, tf_input_bytes = 0\<rparr>,
     rv_review_status = RPending, rv_batch = '''', rv_attempts = 0, rv_reviewer_model = '''', rv_reviewed_at = None,
     rv_recommended = '''', rv_minimum_tier = 0, rv_overqualified = False, rv_confidence = 0, rv_conclusion = '''', rv_error = '''',
     rv_replayable = False, rv_replay_reason = '''', rv_task_package = '''', rv_task_encrypted = False, rv_response_package = '''',
     rv_response_captured = False, rv_response_encrypted = False\<rparr>"

theorem claims_are_disjoint_witness:
  "rv_id ` set (fst (reviews_claim 5 ''b1'' 1 (reviews_add good_io (sample_review ''x'') (reviews_add good_io (sample_review ''y'') new_reviews))))
   \<inter> rv_id ` set (fst (reviews_claim 9 ''b2'' 7 (claim_done good_io (snd (reviews_claim 5 ''b1'' 1
       (reviews_add good_io (sample_review ''x'') (reviews_add good_io (sample_review ''y'') new_reviews))))))) = {}"
proof -
  let ?r = "reviews_add good_io (sample_review ''x'') (reviews_add good_io (sample_review ''y'') new_reviews)"
  have sample: "default_pending (sample_review k) = sample_review k" "rv_id (sample_review k) = k" for k
    by (simp_all add: sample_review_def default_pending_def)
  have "reviews_keyed ?r" and "\<not> r_locked ?r"
    by (auto simp: reviews_add_def sample store_put_def new_reviews_def reviews_keyed_def wf_map_def persist_store_def)
  then show ?thesis using claims_are_disjoint [of ?r] by (metis prod.collapse)
qed

section \<open>Batches\<close>

definition batch_ok :: "shadow_batch \<Rightarrow> bool" where
  "batch_ok x \<longleftrightarrow> 0 \<le> sb_completed x \<and> sb_completed x \<le> sb_total x \<and> sb_total x < 2 ^ 63 \<and>
     (interrupted x \<longrightarrow> sb_stopped x = 0)"

lemma stop_batch_counts:
  "batch_ok x \<Longrightarrow> interrupted x \<Longrightarrow> sb_status (stop_batch x) = BStopped \<and>
     sb_completed (stop_batch x) + sb_stopped (stop_batch x) = sb_total (stop_batch x)"
  by (auto simp: batch_ok_def stop_batch_def Let_def i64_id)

lemma stop_batch_total: "sb_total (stop_batch x) = sb_total x"
  by (simp add: stop_batch_def Let_def)

lemma stop_batch_idem: "stop_batch (stop_batch x) = stop_batch x"
  by (auto simp: stop_batch_def interrupted_def Let_def)

lemma batch_ok_stop: "batch_ok x \<Longrightarrow> batch_ok (stop_batch x)"
  by (auto simp: batch_ok_def stop_batch_def interrupted_def Let_def)

lemma batch_ok_retry: "batch_ok x \<Longrightarrow> batch_ok (retry_batch x)"
  by (auto simp: batch_ok_def retry_batch_def interrupted_def)

lemma recovered_not_interrupted [simp]: "\<not> interrupted (recover_batch now x)"
  by (simp add: interrupted_def recover_batch_def)

text \<open>
  After a restart no batch is pending or running, whether or not the document could be read or
  written, and recovering again changes nothing. Stopping a batch in flight accounts for the rest of
  it (completed and stopped add up to the total), stopping it again changes no counter, and only a
  failed or stopped batch can be retried, which starts its counters at zero.
\<close>

theorem batch_lifecycle:
  "(\<forall>x \<in> set (batches_all (batches_load io p readable now d s)). \<not> interrupted x) \<and>
   fst (recover_interrupted io' now' (batches_load io p readable now d s)) = 0 \<and>
   (\<forall>k x. lookup t k = Some x \<and> batch_ok x \<longrightarrow>
      (\<exists>y. lookup (snd (batches_stop io k now t)) k = Some y \<and> batch_ok y \<and> \<not> interrupted y \<and>
         (interrupted x \<longrightarrow> sb_status y = BStopped \<and> sb_completed y + sb_stopped y = sb_total y) \<and>
         lookup (snd (batches_stop io' k now (snd (batches_stop io k now t)))) k = Some y) \<and>
      (\<exists>z. lookup (snd (batches_retry io k now t)) k = Some z \<and> batch_ok z \<and>
         sb_status z = (if sb_status x = BFailed \<or> sb_status x = BStopped then BPending else sb_status x) \<and>
         (sb_status z \<noteq> sb_status x \<longrightarrow> sb_completed z = 0 \<and> sb_stopped z = 0)))"
proof (intro conjI allI impI)
  show rest: "\<forall>x \<in> set (batches_all (batches_load io p readable now d s)). \<not> interrupted x"
    by (auto simp: batches_all_def batches_load_def map_vals_def Let_def split: if_splits)
  then show "fst (recover_interrupted io' now' (batches_load io p readable now d s)) = 0"
    by (simp add: recover_interrupted_def store_rewrite_def batches_all_def Let_def filter_empty_conv)
next
  fix k x assume x: "lookup t k = Some x \<and> batch_ok x"
  let ?y = "(stop_batch x)\<lparr>sb_updated_at := now\<rparr>"
  have time: "batch_ok (u\<lparr>sb_updated_at := now\<rparr>) = batch_ok u" "interrupted (u\<lparr>sb_updated_at := now\<rparr>) = interrupted u"
    "stop_batch (u\<lparr>sb_updated_at := now\<rparr>) = (stop_batch u)\<lparr>sb_updated_at := now\<rparr>" for u
    by (simp_all add: batch_ok_def interrupted_def stop_batch_def Let_def)
  have "\<not> interrupted (stop_batch x)" by (auto simp: stop_batch_def interrupted_def Let_def)
  then show "\<exists>y. lookup (snd (batches_stop io k now t)) k = Some y \<and> batch_ok y \<and> \<not> interrupted y \<and>
         (interrupted x \<longrightarrow> sb_status y = BStopped \<and> sb_completed y + sb_stopped y = sb_total y) \<and>
         lookup (snd (batches_stop io' k now (snd (batches_stop io k now t)))) k = Some y"
    using x stop_batch_counts [of x] batch_ok_stop [of x]
    by (intro exI [of _ ?y]) (simp add: batches_stop_def batches_apply_def lookup_store_apply time stop_batch_idem)
  show "\<exists>z. lookup (snd (batches_retry io k now t)) k = Some z \<and> batch_ok z \<and>
         sb_status z = (if sb_status x = BFailed \<or> sb_status x = BStopped then BPending else sb_status x) \<and>
         (sb_status z \<noteq> sb_status x \<longrightarrow> sb_completed z = 0 \<and> sb_stopped z = 0)"
    using x batch_ok_retry [of x]
    by (simp add: batches_retry_def batches_apply_def lookup_store_apply time) (simp add: retry_batch_def)
qed

definition sample_batch :: shadow_batch where
  "sample_batch = \<lparr>sb_id = ''b'', sb_knowledge = ''k'', sb_reviews = [''r1'', ''r2'', ''r3''], sb_candidate = ''m'',
     sb_status = BRunning, sb_total = 3, sb_completed = 1, sb_succeeded = 1, sb_failed = 0, sb_stopped = 0,
     sb_last_error = '''', sb_created_at = 0, sb_updated_at = 0\<rparr>"

theorem batch_lifecycle_witness:
  "\<exists>y. lookup (snd (batches_stop good_io ''b'' 0 (batches_put good_io sample_batch new_batches))) ''b'' = Some y \<and>
     sb_completed y + sb_stopped y = 3"
proof -
  let ?t = "batches_put good_io sample_batch new_batches"
  have "lookup ?t ''b'' = Some sample_batch \<and> batch_ok sample_batch \<and> interrupted sample_batch"
    by (simp add: batches_put_def sample_batch_def batch_ok_def interrupted_def)
  with batch_lifecycle [of good_io "''f''" True 0 blank_disk new_batches good_io 0 ?t]
  obtain y where "lookup (snd (batches_stop good_io ''b'' 0 ?t)) ''b'' = Some y" "sb_completed y + sb_stopped y = sb_total y"
    by blast
  moreover from this have "sb_total y = 3"
    by (auto simp: batches_stop_def batches_apply_def batches_put_def lookup_store_apply sample_batch_def stop_batch_total)
  ultimately show ?thesis by auto
qed

section \<open>The teacher\<close>

fun teacher_failures :: "nat \<Rightarrow> io \<Rightarrow> io \<Rightarrow> string \<Rightarrow> int \<Rightarrow> instant \<Rightarrow> review_session option \<times> reviewer_selection \<Rightarrow>
    review_session option \<times> reviewer_selection" where
  "teacher_failures 0 io io' err threshold now s = s"
| "teacher_failures (Suc n) io io' err threshold now s =
     (case teacher_failures n io io' err threshold now s of (sess, sel) \<Rightarrow> selection_failure io io' err threshold now sess sel)"

definition history_of :: "review_session option \<Rightarrow> review_message list" where
  "history_of sess = (case sess of None \<Rightarrow> [] | Some s \<Rightarrow> sd_messages (doc s))"

lemma history_handoff: "history_of (Some (session_handoff io fm fp tm tp reason now s)) =
    history_of (Some s) @ [\<lparr>msg_role = ''system'', msg_content = handoff_text fm fp tm tp reason\<rparr>]"
  by (simp add: history_of_def session_handoff_def Let_def)

lemma failure_cases:
  assumes "selection_failure io io' err threshold now (Some sess) sel = (sess', sel')"
  shows "if threshold > 0 \<and> i64 (rg_failures (doc sel) + 1) \<ge> threshold
     then rg_model (doc sel') = '''' \<and> rg_failures (doc sel') = 0 \<and>
          (\<exists>xs. sess' \<noteq> None \<and> history_of sess' = history_of (Some sess) @ xs \<and> length xs = (if rg_model (doc sel) \<noteq> '''' then 1 else 0))
     else rg_model (doc sel') = rg_model (doc sel) \<and> rg_failures (doc sel') = i64 (rg_failures (doc sel) + 1) \<and> sess' = Some sess"
  using assms
  by (auto simp: selection_failure_def selection_clear_def Let_def blank_reviewer_def history_handoff)

text \<open>
  A selected teacher with no failure on record survives n consecutive failures exactly when n is
  below the threshold (for ever when the threshold is not positive). When it is dropped the review
  conversation is kept and gains one message, the handoff; until then it is not touched.
\<close>

theorem teacher_dropped_at_threshold:
  assumes "selection_available s" and "rg_failures (doc s) = 0" and "int n < 2 ^ 63"
  shows "case teacher_failures n io io' err threshold now (Some sess, s) of (sess', s') \<Rightarrow>
     (selection_available s' \<longleftrightarrow> threshold \<le> 0 \<or> int n < threshold) \<and>
     (\<exists>xs. history_of sess' = history_of (Some sess) @ xs \<and> length xs = (if selection_available s' then 0 else 1))"
proof -
  have "case teacher_failures n io io' err threshold now (Some sess, s) of (sess', s') \<Rightarrow>
     (selection_available s' \<longleftrightarrow> threshold \<le> 0 \<or> int n < threshold) \<and> sess' \<noteq> None \<and>
     (selection_available s' \<longrightarrow> rg_failures (doc s') = int n) \<and>
     (\<exists>xs. history_of sess' = history_of (Some sess) @ xs \<and> length xs = (if selection_available s' then 0 else 1))"
    using assms(3)
  proof (induction n)
    case 0
    then show ?case using assms by auto
  next
    case (Suc n)
    obtain sess1 s1 where s1: "teacher_failures n io io' err threshold now (Some sess, s) = (Some sess1, s1)"
      using Suc by (auto split: prod.splits)
    obtain sess2 s2 where s2: "selection_failure io io' err threshold now (Some sess1) s1 = (sess2, s2)" by fastforce
    note step = failure_cases [OF s2]
    have small: "i64 (int n + 1) = int n + 1" using Suc.prems by (intro i64_id) auto
    show ?case
    proof (cases "selection_available s1")
      case True
      then show ?thesis using Suc s1 s2 step small
        by (cases "threshold > 0 \<and> int n + 1 \<ge> threshold") (auto simp: selection_available_def)
    next
      case False
      then show ?thesis using Suc s1 s2 step
        by (cases "threshold > 0 \<and> i64 (rg_failures (doc s1) + 1) \<ge> threshold") (auto simp: selection_available_def)
    qed
  qed
  then show ?thesis by auto
qed

theorem teacher_dropped_at_threshold_witness:
  "\<not> selection_available (snd (teacher_failures 2 good_io good_io ''e'' 2 9
      (Some new_review_session, snd (selection_set good_io good_io ''m'' ''p'' 1 None new_selection))))"
proof -
  let ?s = "snd (selection_set good_io good_io ''m'' ''p'' 1 None new_selection)"
  have "selection_available ?s" and "rg_failures (doc ?s) = 0" and "int 2 < 2 ^ 63"
    by (simp_all add: selection_set_def selection_available_def blank_reviewer_def Let_def)
  from teacher_dropped_at_threshold [OF this, where io = good_io and io' = good_io and err = "''e''" and threshold = 2
      and now = 9 and sess = new_review_session]
  show ?thesis by (simp split: prod.splits)
qed

end
