(* ===== verification/Chat.thy ===== *)
theory Chat
  imports Reliable_Props Runtime_Props
begin

text \<open>
  The chat endpoint (internal/api/chat.go): session affinity, the response cache, routing, and what
  is recorded. The runtime is configured, as main wires it, and the learning table is the one the
  router uses. Parameters are the SHA-256 key of a body, json.Marshal of a rewritten body, and the
  identifier of a new review. The audit log is not modelled. None is a panic.
\<close>

section \<open>Requests and replies\<close>

record chat_request =
  cr_method :: string
  cr_conversation :: string
  cr_session :: string
  cr_affinity :: string
  cr_readable :: bool
  cr_body :: request

record chat_flags =
  fl_model :: string
  fl_stream :: bool
  fl_tools :: "json list"

definition parse_flags :: "request \<Rightarrow> chat_flags" where
  "parse_flags b = \<lparr>fl_model = field ''model'' dec_string '''' (rq_doc b),
     fl_stream = field ''stream'' dec_bool False (rq_doc b), fl_tools = field ''tools'' dec_list [] (rq_doc b)\<rparr>"

definition session_of :: "chat_request \<Rightarrow> string" where
  "session_of r =
     (let vs = filter (\<lambda>v. v \<noteq> '''') (map trim_space [cr_conversation r, cr_session r, cr_affinity r])
      in case vs of [] \<Rightarrow> '''' | v # _ \<Rightarrow> v)"

datatype chat_reply = ChatError int string | CacheHit string | Answer response

record chat_state =
  cs_cache :: cache
  cs_sessions :: sessions
  cs_reviews :: reviews
  cs_service :: service

record chat_env =
  ce_hash :: "string \<Rightarrow> string"
  ce_marshal :: "json \<Rightarrow> string"
  ce_now :: instant
  ce_pick :: nat
  ce_io :: io
  ce_review_id :: string
  ce_latency :: duration
  ce_attempts :: "nat \<Rightarrow> attempt_env"

section \<open>Steps of ServeHTTP\<close>

text \<open>The body with the pinned model; None when the body is null.\<close>

definition pin_body :: "chat_env \<Rightarrow> string \<Rightarrow> request \<Rightarrow> request option" where
  "pin_body e model b =
     (case rq_json b of
        None \<Rightarrow> Some b
      | Some JNull \<Rightarrow> None
      | Some j \<Rightarrow> if is_obj j
                  then (let j' = obj_put ''model'' (JStr model) j
                        in Some \<lparr>rq_raw = ce_marshal e j', rq_json = Some j'\<rparr>)
                  else Some b)"

definition apply_affinity :: "chat_env \<Rightarrow> string \<Rightarrow> chat_flags \<Rightarrow> request \<Rightarrow> chat_state \<Rightarrow> (chat_flags \<times> request) option" where
  "apply_affinity e sid fl b st =
     (case (if sid = '''' then None else sessions_get sid (ce_now e) (cs_sessions st)) of
        None \<Rightarrow> Some (fl, b)
      | Some x \<Rightarrow>
          if (fl_model fl = ''auto'' \<or> fl_model fl = '''') \<and> ss_model x \<noteq> ''''
          then map_option (\<lambda>b'. (fl\<lparr>fl_model := ss_model x\<rparr>, b')) (pin_body e (ss_model x) b)
          else Some (fl, b))"

definition cacheable :: "chat_flags \<Rightarrow> bool" where
  "cacheable fl \<longleftrightarrow> fl_model fl \<noteq> ''auto'' \<and> \<not> fl_stream fl \<and> fl_tools fl = []"

definition chat_learn :: "chat_env \<Rightarrow> string \<Rightarrow> bool \<Rightarrow> chat_state \<Rightarrow> chat_state" where
  "chat_learn e key ok st =
     st\<lparr>cs_service := (cs_service st)\<lparr>sv_learning :=
          map_option (learning_record (ce_io e) key ok (ce_latency e) (ce_now e)) (sv_learning (cs_service st))\<rparr>\<rparr>"

text \<open>
  The task package is stored as EncryptTaskPackage returns it, which is today the text itself and
  cannot fail.
\<close>

definition review_record :: "chat_env \<Rightarrow> chat_flags \<Rightarrow> int \<Rightarrow> request \<Rightarrow> string \<Rightarrow> chat_state \<Rightarrow> chat_state" where
  "review_record e fl status b captured st =
     st\<lparr>cs_reviews := reviews_add (ce_io e)
        \<lparr>rv_id = ce_review_id e, rv_recorded_at = ce_now e, rv_model = fl_model fl,
         rv_provider = provider_for (cs_service st) (fl_model fl), rv_status = status,
         rv_latency = milliseconds (ce_latency e), rv_stream = fl_stream fl, rv_tools = (fl_tools fl \<noteq> []),
         rv_features = \<lparr>tf_domain = '''', tf_action = '''', tf_needs_tools = (fl_tools fl \<noteq> []), tf_needs_vision = False,
            tf_needs_structured = contains_str (rq_raw b) ''response_format'', tf_needs_long_context = False,
            tf_reasoning = 0, tf_messages = 0, tf_input_bytes = int (length (rq_raw b))\<rparr>,
         rv_review_status = RUnset, rv_batch = '''', rv_attempts = 0, rv_reviewer_model = '''', rv_reviewed_at = None,
         rv_recommended = '''', rv_minimum_tier = 0, rv_overqualified = False, rv_confidence = 0, rv_conclusion = '''',
         rv_error = '''', rv_replayable = True, rv_replay_reason = '''', rv_task_package = rq_raw b, rv_task_encrypted = True,
         rv_response_package = captured, rv_response_captured = (captured \<noteq> ''''), rv_response_encrypted = True\<rparr>
        (cs_reviews st)\<rparr>"

text \<open>
  forward: a body that is not streamed has been read in full by the router; a stream is copied and may
  break. The result is whether the response was delivered in full.
\<close>

definition chat_forward :: "chat_env \<Rightarrow> response \<Rightarrow> chat_flags \<Rightarrow> string \<Rightarrow> request \<Rightarrow> chat_state \<Rightarrow> bool \<times> chat_state" where
  "chat_forward e r fl ck b st =
     (let ok2xx = success_status (rp_status r) in
      if \<not> fl_stream fl
      then (let body = take body_limit (rp_body r);
                st1 = (if ck \<noteq> '''' \<and> ok2xx then st\<lparr>cs_cache := cache_put (ce_io e) (ce_pick e) ck body (ce_now e) (cs_cache st)\<rparr> else st)
            in (ok2xx, review_record e fl (rp_status r) b body st1))
      else (ok2xx \<and> \<not> rp_broken r, review_record e fl (rp_status r) b '''' st))"

definition set_route_state :: "route_state \<Rightarrow> chat_state \<Rightarrow> chat_state" where
  "set_route_state ro st =
     st\<lparr>cs_service := (cs_service st)\<lparr>sv_learning := ro_learning ro, sv_health := Some (ro_health ro)\<rparr>\<rparr>"

definition chat_route :: "chat_env \<Rightarrow> string \<Rightarrow> chat_flags \<Rightarrow> request \<Rightarrow> string \<Rightarrow> chat_state \<Rightarrow> (chat_reply \<times> chat_state) option" where
  "chat_route e sid fl b ck st =
     (case complete_reliable (ce_attempts e) (ce_now e) (cs_service st) b 3 of
        None \<Rightarrow> None
      | Some oc \<Rightarrow>
          (let st1 = set_route_state (oc_state oc) st in
           case (oc_error oc, oc_response oc) of
             (None, Some r) \<Rightarrow>
               (let fl1 = fl\<lparr>fl_model := oc_model oc\<rparr>;
                    st2 = (if sid \<noteq> ''''
                           then st1\<lparr>cs_sessions := sessions_put (ce_io e) sid
                                  \<lparr>ss_provider = '''', ss_model = oc_model oc, ss_uid = '''', ss_updated_at = zero_time\<rparr>
                                  (ce_now e) (cs_sessions st1)\<rparr>
                           else st1);
                    (ok, st3) = chat_forward e r fl1 ck b st2
                in Some (Answer r,
                     if ok then st3
                     else st3\<lparr>cs_service := (cs_service st3)\<lparr>sv_health :=
                            mark_interrupted (ce_io e) (oc_provider oc) (oc_model oc) (ce_now e) (sv_health (cs_service st3))\<rparr>\<rparr>))
           | _ \<Rightarrow> Some (ChatError 503 ''all approved routes unavailable'', chat_learn e (fl_model fl) False st1)))"

definition chat_serve :: "chat_env \<Rightarrow> chat_request \<Rightarrow> chat_state \<Rightarrow> (chat_reply \<times> chat_state) option" where
  "chat_serve e r st =
     (if cr_method r \<noteq> ''POST'' then Some (ChatError 405 ''method not allowed'', st)
      else if \<not> cr_readable r then Some (ChatError 400 ''read error'', st)
      else
        (let sid = session_of r in
         case apply_affinity e sid (parse_flags (cr_body r)) (cr_body r) st of
           None \<Rightarrow> None
         | Some (fl, b) \<Rightarrow>
             (let ck = (if cacheable fl then ce_hash e (rq_raw b) else '''');
                  (hit, cache1) = (if cacheable fl then cache_get ck (ce_now e) (cs_cache st) else (None, cs_cache st));
                  st1 = st\<lparr>cs_cache := cache1\<rparr>
              in case hit of
                   Some body \<Rightarrow> Some (CacheHit body, chat_learn e (fl_model fl) True st1)
                 | None \<Rightarrow>
                     if fl_model fl \<noteq> '''' \<and> fl_model fl \<noteq> ''auto'' \<and> \<not> has_model (ce_now e) (cs_service st1) (fl_model fl)
                     then Some (ChatError 503 ''requested model unavailable'', chat_learn e (fl_model fl) False st1)
                     else chat_route e sid fl b ck st1)))"

section \<open>Sessions and model ids with a slash\<close>

lemma split_name_slash:
  assumes "CHR ''/'' \<notin> set p" and "p \<noteq> ''''" and "\<not> has_prefix (p @ ''/'' @ m) ''openai/''"
  shows "split_name (p @ ''/'' @ m) = (p, m)"
  using assms split_slash_append [of p m] by (simp add: split_name_def trim_prefix_def)

text \<open>
  Session affinity stores only the model id of the route that answered. When that id contains a
  slash (as many catalog ids do), the next automatic request of the session is read as a request for
  the provider before the slash: it is refused with 503 and no route is tried, although routing the
  very same request without its session would rank the model; unless that provider happens to offer
  the rest of the id, the session stays unusable until it expires.
\<close>

theorem slash_model_breaks_its_session:
  assumes "cr_method r = ''POST''" and "cr_readable r" and "session_of r \<noteq> ''''"
    and "rq_json (cr_body r) = Some (JObj [(''model'', JStr ''auto'')])"
    and "sessions_get (session_of r) (ce_now e) (cs_sessions st) = Some x" and "ss_model x = p @ ''/'' @ m"
    and "CHR ''/'' \<notin> set p" and "p \<noteq> ''''" and "\<not> has_prefix (p @ ''/'' @ m) ''openai/''"
    and "\<forall>y \<in> set (sv_models (cs_service st)). m_provider y \<noteq> p"
    and "fst (cache_get (ce_hash e (ce_marshal e (JObj [(''model'', JStr (p @ ''/'' @ m))]))) (ce_now e) (cs_cache st)) = None"
  shows "\<exists>st'. chat_serve e r st = Some (ChatError 503 ''requested model unavailable'', st') \<and>
     cs_sessions st' = cs_sessions st"
proof -
  let ?mm = "p @ ''/'' @ m" and ?fl = "parse_flags (cr_body r)"
  have fl: "fl_model ?fl = ''auto''" "fl_stream ?fl = False" "fl_tools ?fl = []"
    by (simp_all add: parse_flags_def rq_doc_def assms(4) json_key_eq_def lower_byte_def)
  let ?b = "\<lparr>rq_raw = ce_marshal e (JObj [(''model'', JStr ?mm)]), rq_json = Some (JObj [(''model'', JStr ?mm)])\<rparr>"
  have pin: "pin_body e ?mm (cr_body r) = Some ?b" unfolding pin_body_def assms(4) by (simp add: Let_def)
  have aff: "apply_affinity e (session_of r) ?fl (cr_body r) st = Some (?fl\<lparr>fl_model := ?mm\<rparr>, ?b)"
    using pin by (simp add: apply_affinity_def assms(3,5,6) fl)
  have not_auto: "?mm \<noteq> ''auto''"
  proof
    assume "?mm = ''auto''"
    then have "CHR ''/'' \<in> set ''auto''" by (metis in_set_conv_decomp append_Cons append_Nil)
    then show False by simp
  qed
  then have ca: "cacheable (?fl\<lparr>fl_model := ?mm\<rparr>)" by (simp add: cacheable_def fl)
  have gone: "\<not> has_model (ce_now e) (cs_service st) ?mm"
    using assms(10) split_name_slash [OF assms(7-9)] assms(8) by (auto simp: has_model_def list_ex_iff)
  obtain c1 where c1: "cache_get (ce_hash e (rq_raw ?b)) (ce_now e) (cs_cache st) = (None, c1)"
    using assms(11) by (metis prod.collapse request.select_convs(1))
  show ?thesis
    using assms(1,2) aff ca c1 gone not_auto assms(8) by (simp add: chat_serve_def chat_learn_def Let_def)
qed

definition slash_request :: chat_request where
  "slash_request = \<lparr>cr_method = ''POST'', cr_conversation = ''s1'', cr_session = '''', cr_affinity = '''', cr_readable = True,
     cr_body = sample_request\<rparr>"

definition slash_session :: session where
  "slash_session = \<lparr>ss_provider = '''', ss_model = ''org/m'', ss_uid = '''', ss_updated_at = 0\<rparr>"

definition slash_state :: chat_state where
  "slash_state = \<lparr>cs_cache = new_cache, cs_sessions = sessions_put good_io ''s1'' slash_session 0 new_sessions,
     cs_reviews = new_reviews, cs_service = sample_service\<lparr>sv_models := [sample_model\<lparr>m_id := ''org/m''\<rparr>]\<rparr>\<rparr>"

definition plain_env :: chat_env where
  "plain_env = \<lparr>ce_hash = (\<lambda>s. ''h''), ce_marshal = (\<lambda>j. ''b''), ce_now = 5, ce_pick = 0, ce_io = good_io, ce_review_id = ''r'',
     ce_latency = 1, ce_attempts = good_env\<rparr>"

theorem slash_model_breaks_its_session_witness:
  "\<exists>st'. chat_serve plain_env slash_request slash_state = Some (ChatError 503 ''requested model unavailable'', st')"
proof -
  have s: "trim_space ''s1'' = ''s1''" "trim_space '''' = ''''" by code_simp+
  then have sid: "session_of slash_request = ''s1''" by (simp add: session_of_def slash_request_def)
  have sess: "sessions_get (session_of slash_request) (ce_now plain_env) (cs_sessions slash_state) = Some slash_session"
    unfolding sid
    by (simp add: slash_state_def sessions_put_def sessions_get_def store_put_def new_sessions_def slash_session_def session_live_def
        persist_store_def tsub_def duration_units plain_env_def)
  have req: "cr_method slash_request = ''POST''" "cr_readable slash_request" "session_of slash_request \<noteq> ''''"
    "rq_json (cr_body slash_request) = Some (JObj [(''model'', JStr ''auto'')])"
    unfolding sid by (simp_all add: slash_request_def sample_request_def)
  have mid: "ss_model slash_session = ''org'' @ ''/'' @ ''m''" by (simp add: slash_session_def)
  have names: "CHR ''/'' \<notin> set ''org''" "''org'' \<noteq> ''''" "\<not> has_prefix (''org'' @ ''/'' @ ''m'') ''openai/''"
    by (simp_all add: has_prefix_def)
  have other: "\<forall>y \<in> set (sv_models (cs_service slash_state)). m_provider y \<noteq> ''org''"
    by (simp add: slash_state_def sample_service_def sample_model_def)
  have cold: "fst (cache_get k t (cs_cache slash_state)) = None" for k t
    by (simp add: slash_state_def cache_get_def new_cache_def)
  show ?thesis
    using slash_model_breaks_its_session [OF req sess mid names other cold] by blast
qed

section \<open>Cached answers\<close>

text \<open>
  A cached answer is given without asking the router: for a request without a session whose key is
  in the cache, the reply and the learning entry are the same whatever the catalog, the approvals,
  the disabled providers and the route health have become since; by the laws of the cache it is the
  body stored under that key no more than five minutes before.
\<close>

theorem cache_hits_bypass_the_router:
  assumes "cr_method r = ''POST''" and "cr_readable r" and "session_of r = ''''"
    and "cacheable (parse_flags (cr_body r))"
    and "cs_cache st = foldl cache_step new_cache es"
    and "fst (cache_get (ce_hash e (rq_raw (cr_body r))) (ce_now e) (cs_cache st)) = Some body"
  shows "(\<exists>st'. chat_serve e r st = Some (CacheHit body, st') \<and> sv_health (cs_service st') = sv_health (cs_service st)) \<and>
     (\<exists>t. last_put (ce_hash e (rq_raw (cr_body r))) es = Some (body, t) \<and> ce_now e \<le> t + 5 * minute)"
proof
  obtain c1 where c1: "cache_get (ce_hash e (rq_raw (cr_body r))) (ce_now e) (cs_cache st) = (Some body, c1)"
    using assms(6) by (metis prod.collapse)
  have aff: "apply_affinity e '''' (parse_flags (cr_body r)) (cr_body r) st = Some (parse_flags (cr_body r), cr_body r)"
    by (simp add: apply_affinity_def)
  show "\<exists>st'. chat_serve e r st = Some (CacheHit body, st') \<and> sv_health (cs_service st') = sv_health (cs_service st)"
    using assms(1-4) aff c1 by (simp add: chat_serve_def chat_learn_def Let_def)
  show "\<exists>t. last_put (ce_hash e (rq_raw (cr_body r))) es = Some (body, t) \<and> ce_now e \<le> t + 5 * minute"
    using cache_ok_run [of es] assms(5,6)
    by (force simp: cache_ok_def cache_get_def split: option.splits if_splits)
qed

definition named_request :: chat_request where
  "named_request = slash_request\<lparr>cr_conversation := '''', cr_body := \<lparr>rq_raw = ''b'', rq_json = Some (JObj [(''model'', JStr ''gone'')])\<rparr>\<rparr>"

theorem cache_hits_bypass_the_router_witness:
  "\<exists>st'. chat_serve plain_env named_request
      (slash_state\<lparr>cs_cache := foldl cache_step new_cache [CPut good_io 0 ''h'' ''answer'' 1],
                   cs_service := sample_service\<lparr>sv_models := []\<rparr>\<rparr>) = Some (CacheHit ''answer'', st')"
proof -
  let ?st = "slash_state\<lparr>cs_cache := foldl cache_step new_cache [CPut good_io 0 ''h'' ''answer'' 1],
                   cs_service := sample_service\<lparr>sv_models := []\<rparr>\<rparr>"
  have "trim_space '''' = ''''" by code_simp
  then have sid: "session_of named_request = ''''" by (simp add: session_of_def named_request_def slash_request_def)
  have fl: "cacheable (parse_flags (cr_body named_request))"
    by (simp add: named_request_def cacheable_def parse_flags_def rq_doc_def json_key_eq_def lower_byte_def)
  have hit: "fst (cache_get (ce_hash plain_env (rq_raw (cr_body named_request))) (ce_now plain_env) (cs_cache ?st)) = Some ''answer''"
    by (simp add: plain_env_def cache_get_def cache_put_items new_cache_def duration_units)
  have "cr_method named_request = ''POST''" "cr_readable named_request" "cs_cache ?st = foldl cache_step new_cache [CPut good_io 0 ''h'' ''answer'' 1]"
    by (simp_all add: named_request_def slash_request_def)
  from cache_hits_bypass_the_router [OF this(1,2) sid fl this(3) hit] show ?thesis by blast
qed

end
