(* ===== verification/Go_Encoding.thy ===== *)
theory Go_Encoding
  imports Prelude
begin

text \<open>
  encoding/hex and encoding/base64, as the credential stores use them: the four base64 encodings
  differ in the alphabet and in padding. Decoding skips line breaks, as Go does, and rejects
  everything else outside the alphabet; it does not ask for zero trailing bits.
\<close>

abbreviation byte :: "char \<Rightarrow> nat" where
  "byte c \<equiv> of_char c"

lemma byte_less [simp]: "byte c < 256"
  by (rule nat_of_char_less_256)

lemma char_byte [simp]: "char_of (byte c) = c"
  by simp

section \<open>Hexadecimal\<close>

definition hex_digit :: "nat \<Rightarrow> char" where
  "hex_digit n = (if n < 10 then char_of (48 + n) else char_of (87 + n))"

definition hex_value :: "char \<Rightarrow> nat option" where
  "hex_value c =
     (let n = byte c in
      if 48 \<le> n \<and> n \<le> 57 then Some (n - 48)
      else if 97 \<le> n \<and> n \<le> 102 then Some (n - 87)
      else if 65 \<le> n \<and> n \<le> 70 then Some (n - 55)
      else None)"

fun hex_encode :: "string \<Rightarrow> string" where
  "hex_encode [] = []"
| "hex_encode (c # cs) = hex_digit (byte c div 16) # hex_digit (byte c mod 16) # hex_encode cs"

fun hex_decode :: "string \<Rightarrow> string option" where
  "hex_decode [] = Some []"
| "hex_decode [c] = None"
| "hex_decode (c # d # cs) =
     (case (hex_value c, hex_value d, hex_decode cs) of
        (Some h, Some l, Some r) \<Rightarrow> Some (char_of (16 * h + l) # r)
      | _ \<Rightarrow> None)"

lemma hex_value_digit [simp]: "n < 16 \<Longrightarrow> hex_value (hex_digit n) = Some n"
  by (auto simp: hex_value_def hex_digit_def)

lemma byte_div [simp]: "byte c div 16 < 16"
  using byte_less [of c] by linarith

lemma hex_decode_encode [simp]: "hex_decode (hex_encode s) = Some s"
  by (induction s) auto

lemma length_hex_encode [simp]: "length (hex_encode s) = 2 * length s"
  by (induction s) auto

lemma hex_encode_inj: "hex_encode s = hex_encode t \<longleftrightarrow> s = t"
  by (metis hex_decode_encode option.inject)

section \<open>Base64\<close>

definition std_alphabet :: string where
  "std_alphabet = ''ABCDEFGHIJKLMNOPQRSTUVWXYZabcdefghijklmnopqrstuvwxyz0123456789+/''"

definition url_alphabet :: string where
  "url_alphabet = ''ABCDEFGHIJKLMNOPQRSTUVWXYZabcdefghijklmnopqrstuvwxyz0123456789-_''"

fun index_of :: "char \<Rightarrow> string \<Rightarrow> nat option" where
  "index_of c [] = None"
| "index_of c (d # ds) = (if c = d then Some 0 else map_option Suc (index_of c ds))"

fun b64_encode :: "string \<Rightarrow> bool \<Rightarrow> string \<Rightarrow> string" where
  "b64_encode al pad [] = []"
| "b64_encode al pad [a] =
     [al ! (byte a div 4), al ! (byte a mod 4 * 16)] @ (if pad then ''=='' else [])"
| "b64_encode al pad [a, b] =
     [al ! (byte a div 4), al ! (byte a mod 4 * 16 + byte b div 16), al ! (byte b mod 16 * 4)] @ (if pad then ''='' else [])"
| "b64_encode al pad (a # b # c # r) =
     [al ! (byte a div 4), al ! (byte a mod 4 * 16 + byte b div 16), al ! (byte b mod 16 * 4 + byte c div 64), al ! (byte c mod 64)]
     @ b64_encode al pad r"

text \<open>One, two or three bytes of the six-bit values of a quantum.\<close>

definition quantum1 :: "nat \<Rightarrow> nat \<Rightarrow> string" where
  "quantum1 w x = [char_of (w * 4 + x div 16)]"

definition quantum2 :: "nat \<Rightarrow> nat \<Rightarrow> nat \<Rightarrow> string" where
  "quantum2 w x y = [char_of (w * 4 + x div 16), char_of (x mod 16 * 16 + y div 4)]"

definition quantum3 :: "nat \<Rightarrow> nat \<Rightarrow> nat \<Rightarrow> nat \<Rightarrow> string" where
  "quantum3 w x y z = [char_of (w * 4 + x div 16), char_of (x mod 16 * 16 + y div 4), char_of (y mod 4 * 64 + z)]"

fun b64_quanta :: "string \<Rightarrow> bool \<Rightarrow> string \<Rightarrow> string option" where
  "b64_quanta al pad [] = Some []"
| "b64_quanta al pad [a] = None"
| "b64_quanta al pad [a, b] =
     (case (pad, index_of a al, index_of b al) of (False, Some w, Some x) \<Rightarrow> Some (quantum1 w x) | _ \<Rightarrow> None)"
| "b64_quanta al pad [a, b, c] =
     (case (pad, index_of a al, index_of b al, index_of c al) of
        (False, Some w, Some x, Some y) \<Rightarrow> Some (quantum2 w x y) | _ \<Rightarrow> None)"
| "b64_quanta al pad (a # b # c # d # r) =
     (if pad \<and> c = CHR ''='' \<and> d = CHR ''='' \<and> r = []
      then (case (index_of a al, index_of b al) of (Some w, Some x) \<Rightarrow> Some (quantum1 w x) | _ \<Rightarrow> None)
      else if pad \<and> d = CHR ''='' \<and> r = []
      then (case (index_of a al, index_of b al, index_of c al) of (Some w, Some x, Some y) \<Rightarrow> Some (quantum2 w x y) | _ \<Rightarrow> None)
      else (case (index_of a al, index_of b al, index_of c al, index_of d al, b64_quanta al pad r) of
              (Some w, Some x, Some y, Some z, Some t) \<Rightarrow> Some (quantum3 w x y z @ t) | _ \<Rightarrow> None))"

definition b64_decode :: "string \<Rightarrow> bool \<Rightarrow> string \<Rightarrow> string option" where
  "b64_decode al pad s = b64_quanta al pad (filter (\<lambda>c. c \<noteq> CHR 0x0A \<and> c \<noteq> CHR 0x0D) s)"

definition good_alphabet :: "string \<Rightarrow> bool" where
  "good_alphabet al \<longleftrightarrow> length al = 64 \<and> distinct al \<and> set al \<inter> {CHR ''='', CHR 0x0A, CHR 0x0D} = {}"

lemma good_alphabets [simp]: "good_alphabet std_alphabet" "good_alphabet url_alphabet"
  by code_simp+

lemma index_of_nth: "distinct al \<Longrightarrow> n < length al \<Longrightarrow> index_of (al ! n) al = Some n"
  by (induction al arbitrary: n) (auto simp: nth_Cons' split: if_splits)

lemma quantum_encode:
  "quantum1 (byte a div 4) (byte a mod 4 * 16) = [a]"
  "quantum2 (byte a div 4) (byte a mod 4 * 16 + byte b div 16) (byte b mod 16 * 4) = [a, b]"
  "quantum3 (byte a div 4) (byte a mod 4 * 16 + byte b div 16) (byte b mod 16 * 4 + byte c div 64) (byte c mod 64) = [a, b, c]"
proof -
  have top: "byte a div 4 * 4 + (byte a mod 4 * 16 + n) div 16 = byte a" if "n < 16" for n a
    using that by simp
  have mid: "(byte a mod 4 * 16 + byte b div 16) mod 16 * 16 + (byte b mod 16 * 4 + n) div 4 = byte b" if "n < 4" for n a b
  proof -
    have "byte b div 16 < 16" using byte_less [of b] by linarith
    then have "(byte a mod 4 * 16 + byte b div 16) mod 16 = byte b div 16" by simp
    moreover have "(byte b mod 16 * 4 + n) div 4 = byte b mod 16" using that by simp
    ultimately show ?thesis by simp
  qed
  have low: "(byte b mod 16 * 4 + byte c div 64) mod 4 * 64 + byte c mod 64 = byte c" for b c
  proof -
    have "byte c div 64 < 4" using byte_less [of c] by linarith
    then have "(byte b mod 16 * 4 + byte c div 64) mod 4 = byte c div 64" by simp
    then show ?thesis by simp
  qed
  have b16: "byte b div 16 < 16" and c64: "byte c div 64 < 4" using byte_less [of b] byte_less [of c] by linarith+
  show "quantum1 (byte a div 4) (byte a mod 4 * 16) = [a]" using top [of 0 a] by (simp add: quantum1_def)
  show "quantum2 (byte a div 4) (byte a mod 4 * 16 + byte b div 16) (byte b mod 16 * 4) = [a, b]"
    using top [OF b16, of a] mid [of 0 a b] by (simp add: quantum2_def)
  show "quantum3 (byte a div 4) (byte a mod 4 * 16 + byte b div 16) (byte b mod 16 * 4 + byte c div 64) (byte c mod 64) = [a, b, c]"
    using top [OF b16, of a] mid [OF c64, of a b] low [of b c] by (simp add: quantum3_def)
qed

lemma index_sextet: "good_alphabet al \<Longrightarrow> n < 64 \<Longrightarrow> index_of (al ! n) al = Some n"
  by (simp add: good_alphabet_def index_of_nth)

lemma sextets:
  "byte a div 4 < 64" "byte a mod 4 * 16 < 64" "byte a mod 4 * 16 + byte b div 16 < 64" "byte b mod 16 * 4 < 64"
  "byte b mod 16 * 4 + byte c div 64 < 64" "byte c mod 64 < 64"
  using byte_less [of a] byte_less [of b] byte_less [of c] mod_less_divisor [of 4 "byte a"] mod_less_divisor [of 16 "byte b"]
  by linarith+

lemma sextet_char: "good_alphabet al \<Longrightarrow> n < 64 \<Longrightarrow> al ! n \<noteq> CHR ''='' \<and> al ! n \<noteq> CHR 0x0A \<and> al ! n \<noteq> CHR 0x0D"
proof -
  assume al: "good_alphabet al" and "n < 64"
  then have "al ! n \<in> set al" by (simp add: good_alphabet_def)
  then show ?thesis using al unfolding good_alphabet_def by blast
qed

lemma index_pad: "good_alphabet al \<Longrightarrow> index_of (CHR ''='') al = None"
proof -
  have "CHR ''='' \<notin> set al \<Longrightarrow> index_of (CHR ''='') al = None" by (induction al) auto
  then show "good_alphabet al \<Longrightarrow> index_of (CHR ''='') al = None" by (simp add: good_alphabet_def)
qed

lemma b64_quanta_encode: "good_alphabet al \<Longrightarrow> b64_quanta al pad (b64_encode al pad s) = Some s"
proof (induction al pad s rule: b64_encode.induct)
  case (2 al pad a)
  then show ?case by (cases pad) (simp_all add: index_sextet sextets sextet_char quantum_encode)
next
  case (3 al pad a b)
  then show ?case
    by (cases pad) (simp_all add: index_sextet sextets sextet_char quantum_encode del: One_nat_def)
next
  case (4 al pad a b c r)
  then show ?case
    by (simp add: index_sextet sextets sextet_char quantum_encode)
qed simp

lemma b64_encode_no_breaks: "good_alphabet al \<Longrightarrow> list_all (\<lambda>c. c \<noteq> CHR 0x0A \<and> c \<noteq> CHR 0x0D) (b64_encode al pad s)"
  by (induction al pad s rule: b64_encode.induct) (simp_all add: sextet_char sextets)

theorem b64_decode_encode [simp]: "good_alphabet al \<Longrightarrow> b64_decode al pad (b64_encode al pad s) = Some s"
proof -
  assume al: "good_alphabet al"
  have "filter (\<lambda>c. c \<noteq> CHR 0x0A \<and> c \<noteq> CHR 0x0D) (b64_encode al pad s) = b64_encode al pad s"
    using b64_encode_no_breaks [OF al] by (intro filter_True) (simp add: list_all_iff)
  then show ?thesis using b64_quanta_encode [OF al] by (simp add: b64_decode_def)
qed

section \<open>UTF-8\<close>

text \<open>The runes of a string, each as its encoding; a byte that starts no rune becomes U+FFFD.\<close>

definition tail_byte :: "nat \<Rightarrow> nat \<Rightarrow> char \<Rightarrow> bool" where
  "tail_byte lo hi c \<longleftrightarrow> lo \<le> byte c \<and> byte c \<le> hi"

definition rune_size :: "string \<Rightarrow> nat" where
  "rune_size s =
     (case s of [] \<Rightarrow> 0
      | a # r \<Rightarrow>
          (let n = byte a; t = tail_byte 0x80 0xBF;
               second = (if n = 0xE0 then tail_byte 0xA0 0xBF else if n = 0xED then tail_byte 0x80 0x9F
                         else if n = 0xF0 then tail_byte 0x90 0xBF else if n = 0xF4 then tail_byte 0x80 0x8F else t)
           in if n < 0x80 then 1
              else if 0xC2 \<le> n \<and> n \<le> 0xDF then (case r of b # _ \<Rightarrow> if t b then 2 else 0 | _ \<Rightarrow> 0)
              else if 0xE0 \<le> n \<and> n \<le> 0xEF then (case r of b # c # _ \<Rightarrow> if second b \<and> t c then 3 else 0 | _ \<Rightarrow> 0)
              else if 0xF0 \<le> n \<and> n \<le> 0xF4 then (case r of b # c # d # _ \<Rightarrow> if second b \<and> t c \<and> t d then 4 else 0 | _ \<Rightarrow> 0)
              else 0))"

function runes :: "string \<Rightarrow> string list" where
  "runes s =
     (if s = [] then []
      else if rune_size s = 0 then [CHR 0xEF, CHR 0xBF, CHR 0xBD] # runes (tl s)
      else take (rune_size s) s # runes (drop (rune_size s) s))"
  by pat_completeness auto
termination by (relation "measure length") auto

declare runes.simps [simp del]

definition replacement :: string where
  "replacement = [CHR 0xEF, CHR 0xBF, CHR 0xBD]"

text \<open>The encoding of a code point; a surrogate or a number out of range becomes U+FFFD.\<close>

definition utf8 :: "int \<Rightarrow> string" where
  "utf8 n =
     (let b = (\<lambda>k. char_of (nat k) :: char); tail = (\<lambda>k. b (0x80 + k mod 64)) in
      if n < 0x80 then [b n]
      else if n < 0x800 then [b (0xC0 + n div 64), tail n]
      else if 0xD800 \<le> n \<and> n \<le> 0xDFFF \<or> 0x10FFFF < n then replacement
      else if n < 0x10000 then [b (0xE0 + n div 4096), tail (n div 64), tail n]
      else [b (0xF0 + n div 262144), tail (n div 4096), tail (n div 64), tail n])"

lemma rune_size_le: "rune_size s \<le> length s"
  by (simp add: rune_size_def Let_def split: list.split)

end
