(* ===== verification/Client_Key.thy ===== *)
theory Client_Key
  imports Storage Go_Encoding Go_Order
begin

text \<open>
  The API keys of the clients (internal/clientkey): the store of keys with its document, and the
  middleware that guards the client endpoints. SHA-256 is the parameter sha, a function to byte
  strings; the random bytes that crypto/rand delivers are arguments, None when reading them fails.
  Every method runs under the lock of the store, so each operation is one step. The order of the
  association list of keys stands for the order of Go's iteration over the map.
\<close>

section \<open>Keys, the document, the store\<close>

record ckey =
  ck_id :: string
  ck_name :: string
  ck_prefix :: string
  ck_scopes :: "string list"
  ck_enabled :: bool
  ck_created_at :: instant
  ck_expires_at :: "instant option"
  ck_last_used :: "instant option"
  ck_revoked_at :: "instant option"
  ck_hash :: string
  ck_secret :: string

record create_input =
  in_name :: string
  in_scopes :: "string list"
  in_expires :: "instant option"

record key_doc =
  kd_mode :: string
  kd_keys :: "ckey list"

record key_store =
  ks_keys :: "(string, ckey) gomap"
  ks_mode :: string
  ks_disk :: "key_doc disk"

datatype key_error =
    InvalidMode | NoActiveKey | NameRequired | ScopeRequired | RandomFailed | WriteFailed | NoSuchKey
  | RevokedStays | Unauthorized | Forbidden

definition key_doc_of :: "key_store \<Rightarrow> key_doc" where
  "key_doc_of s = \<lparr>kd_mode = ks_mode s, kd_keys = map snd (ks_keys s)\<rparr>"

text \<open>persistLocked: whether the document was written, and the store with its files.\<close>

definition keys_persist :: "io \<Rightarrow> key_store \<Rightarrow> bool \<times> key_store" where
  "keys_persist io s =
     (case write_atomic io (key_doc_of s) (ks_disk s) of (ok, d) \<Rightarrow> (ok, s\<lparr>ks_disk := d\<rparr>))"

interpretation key_file: durable_store key_doc_of ks_disk "\<lambda>s. True" "\<lambda>io s. snd (keys_persist io s)"
  by unfold_locales (auto simp: keys_persist_def key_doc_of_def split: prod.split)

lemma keys_persist_eq: "keys_persist io s = (io_ok io, s\<lparr>ks_disk := snd (write_atomic io (key_doc_of s) (ks_disk s))\<rparr>)"
  using write_atomic_ok [of io "key_doc_of s" "ks_disk s"] by (auto simp: keys_persist_def split: prod.split)

definition open_keys :: "bool \<Rightarrow> key_doc disk \<Rightarrow> key_store option" where
  "open_keys readable d =
     (case read_doc readable (d_file d) of
        NotExist \<Rightarrow> Some \<lparr>ks_keys = [], ks_mode = '''', ks_disk = d\<rparr>
      | ReadFailed \<Rightarrow> None
      | BadJson \<Rightarrow> None
      | Parsed st \<Rightarrow>
          Some \<lparr>ks_keys = fold (\<lambda>k. mput (ck_id k) k) (kd_keys st) [],
                ks_mode = (if kd_mode st = '''' then ''optional'' else kd_mode st), ks_disk = d\<rparr>)"

section \<open>Helpers of the operations\<close>

definition known_scope :: "string \<Rightarrow> bool" where
  "known_scope v \<longleftrightarrow> v = ''models:read'' \<or> v = ''chat:write''"

definition add_scope :: "string \<Rightarrow> string list \<Rightarrow> string list" where
  "add_scope v out = (let t = trim_space v in if known_scope t \<and> t \<notin> set out then out @ [t] else out)"

definition normalize_scopes :: "string list \<Rightarrow> string list" where
  "normalize_scopes vs = sort_strings (fold add_scope vs [])"

definition random_token :: "string option \<Rightarrow> string option" where
  "random_token bytes = map_option (b64_encode url_alphabet False) bytes"

definition hash_secret :: "(string \<Rightarrow> string) \<Rightarrow> string \<Rightarrow> string" where
  "hash_secret sha v = hex_encode (sha v)"

definition sanitized :: "ckey \<Rightarrow> ckey" where
  "sanitized k = k\<lparr>ck_hash := '''', ck_secret := ''''\<rparr>"

definition key_mode :: "key_store \<Rightarrow> string" where
  "key_mode s = (if ks_mode s = '''' then ''optional'' else ks_mode s)"

text \<open>Enabled, not revoked, not expired.\<close>

definition key_active :: "instant \<Rightarrow> ckey \<Rightarrow> bool" where
  "key_active now k \<longleftrightarrow>
     ck_enabled k \<and> ck_revoked_at k = None \<and> (case ck_expires_at k of None \<Rightarrow> True | Some e \<Rightarrow> e > now)"

definition key_prefix :: "string \<Rightarrow> string" where
  "key_prefix secret = (if length secret > 12 then take 12 secret else secret)"

section \<open>Operations of the store\<close>

definition key_set_mode :: "io \<Rightarrow> string \<Rightarrow> instant \<Rightarrow> key_store \<Rightarrow> key_error option \<times> key_store" where
  "key_set_mode io mode now s =
     (if mode \<noteq> ''optional'' \<and> mode \<noteq> ''required'' then (Some InvalidMode, s)
      else if mode = ''required'' \<and> \<not> list_ex (\<lambda>(i, k). key_active now k) (ks_keys s) then (Some NoActiveKey, s)
      else (case keys_persist io (s\<lparr>ks_mode := mode\<rparr>) of (ok, s') \<Rightarrow> (if ok then None else Some WriteFailed, s')))"

definition fresh_key :: "(string \<Rightarrow> string) \<Rightarrow> string \<Rightarrow> string \<Rightarrow> string list \<Rightarrow> instant option \<Rightarrow> string \<Rightarrow> instant \<Rightarrow> ckey" where
  "fresh_key sha kid name scopes expires secret now =
     \<lparr>ck_id = kid, ck_name = name, ck_prefix = key_prefix secret, ck_scopes = scopes, ck_enabled = True, ck_created_at = now,
      ck_expires_at = expires, ck_last_used = None, ck_revoked_at = None, ck_hash = hash_secret sha secret, ck_secret = ''''\<rparr>"

text \<open>The two tokens of a new key: nine bytes for its id, 32 for the secret.\<close>

definition new_tokens :: "string option \<Rightarrow> string option \<Rightarrow> (string \<times> string) option" where
  "new_tokens rid rsec =
     (case (random_token rid, random_token rsec) of (Some i, Some r) \<Rightarrow> Some (i, ''xsk_'' @ r) | _ \<Rightarrow> None)"

definition key_create ::
  "(string \<Rightarrow> string) \<Rightarrow> io \<Rightarrow> string option \<Rightarrow> string option \<Rightarrow> create_input \<Rightarrow> instant \<Rightarrow> key_store \<Rightarrow>
     (key_error + ckey \<times> string) \<times> key_store" where
  "key_create sha io rid rsec inp now s =
     (let name = trim_space (in_name inp); scopes = normalize_scopes (in_scopes inp) in
      if name = '''' then (Inl NameRequired, s)
      else if scopes = [] then (Inl ScopeRequired, s)
      else (case new_tokens rid rsec of
          None \<Rightarrow> (Inl RandomFailed, s)
        | Some (kid, secret) \<Rightarrow>
            (let k = fresh_key sha kid name scopes (in_expires inp) secret now in
             case keys_persist io (s\<lparr>ks_keys := mput kid k (ks_keys s)\<rparr>) of
               (ok, s') \<Rightarrow> (if ok then Inr (sanitized k, secret) else Inl WriteFailed, s'))))"

definition key_list :: "key_store \<Rightarrow> ckey list" where
  "key_list s = sort_by (\<lambda>x y. ck_created_at x > ck_created_at y) (map (\<lambda>(i, k). sanitized k) (ks_keys s))"

definition key_revoke :: "io \<Rightarrow> string \<Rightarrow> instant \<Rightarrow> key_store \<Rightarrow> key_error option \<times> key_store" where
  "key_revoke io kid now s =
     (case map_of (ks_keys s) kid of
        None \<Rightarrow> (Some NoSuchKey, s)
      | Some k \<Rightarrow>
          (case keys_persist io (s\<lparr>ks_keys := mput kid (k\<lparr>ck_enabled := False, ck_revoked_at := Some now\<rparr>) (ks_keys s)\<rparr>) of
             (ok, s') \<Rightarrow> (if ok then None else Some WriteFailed, s')))"

definition key_set_enabled :: "io \<Rightarrow> string \<Rightarrow> bool \<Rightarrow> key_store \<Rightarrow> key_error option \<times> key_store" where
  "key_set_enabled io kid enabled s =
     (case map_of (ks_keys s) kid of
        None \<Rightarrow> (Some NoSuchKey, s)
      | Some k \<Rightarrow>
          if ck_revoked_at k \<noteq> None \<and> enabled then (Some RevokedStays, s)
          else (case keys_persist io (s\<lparr>ks_keys := mput kid (k\<lparr>ck_enabled := enabled\<rparr>) (ks_keys s)\<rparr>) of
             (ok, s') \<Rightarrow> (if ok then None else Some WriteFailed, s')))"

definition key_rotate ::
  "(string \<Rightarrow> string) \<Rightarrow> io \<Rightarrow> string option \<Rightarrow> string option \<Rightarrow> string \<Rightarrow> instant \<Rightarrow> key_store \<Rightarrow>
     (key_error + ckey \<times> string) \<times> key_store" where
  "key_rotate sha io rid rsec kid now s =
     (case new_tokens rid rsec of
        None \<Rightarrow> (Inl RandomFailed, s)
      | Some (nid, secret) \<Rightarrow>
          (case map_of (ks_keys s) kid of
             None \<Rightarrow> (Inl NoSuchKey, s)
           | Some original \<Rightarrow>
               (let old = original\<lparr>ck_enabled := False, ck_revoked_at := Some now\<rparr>;
                    fresh = fresh_key sha nid (ck_name old @ '' (rotated)'') (ck_scopes old) (ck_expires_at old) secret now
                in case keys_persist io (s\<lparr>ks_keys := mput nid fresh (mput kid old (ks_keys s))\<rparr>) of
                  (ok, s') \<Rightarrow>
                    if ok then (Inr (sanitized fresh, secret), s')
                    else (Inl WriteFailed, s'\<lparr>ks_keys := mput kid original (mdel nid (ks_keys s'))\<rparr>))))"

section \<open>Authentication\<close>

definition presented :: "string \<Rightarrow> string option" where
  "presented hdr = (let h = trim_space hdr in
     if has_prefix (to_lower h) ''bearer '' then Some (trim_space (drop 7 h)) else None)"

definition key_matches :: "string \<Rightarrow> ckey \<Rightarrow> bool" where
  "key_matches digest k \<longleftrightarrow> (case hex_decode (ck_hash k) of None \<Rightarrow> False | Some h \<Rightarrow> length h = 32 \<and> digest = h)"

definition key_used :: "instant \<Rightarrow> ckey \<Rightarrow> bool" where
  "key_used now k \<longleftrightarrow> (case ck_last_used k of None \<Rightarrow> True | Some t \<Rightarrow> tsub now t \<ge> minute)"

definition authenticate ::
  "(string \<Rightarrow> string) \<Rightarrow> io \<Rightarrow> string \<Rightarrow> string \<Rightarrow> instant \<Rightarrow> key_store \<Rightarrow> (key_error + ckey) \<times> key_store" where
  "authenticate sha io hdr scope now s =
     (case presented hdr of
        None \<Rightarrow> (Inl Unauthorized, s)
      | Some secret \<Rightarrow>
          (case find (\<lambda>(i, k). key_matches (sha secret) k) (ks_keys s) of
             None \<Rightarrow> (Inl Unauthorized, s)
           | Some (kid, k) \<Rightarrow>
               if \<not> key_active now k then (Inl Unauthorized, s)
               else if scope \<notin> set (ck_scopes k) then (Inl Forbidden, s)
               else (let k1 = k\<lparr>ck_last_used := Some now\<rparr>;
                         s1 = s\<lparr>ks_keys := mput kid k1 (ks_keys s)\<rparr>
                     in (Inr (sanitized k1), if key_used now k then snd (keys_persist io s1) else s1))))"

text \<open>What the middleware does with a request: it answers itself, or hands it to the handler.\<close>

datatype gate = NoStore | Anonymous | Denied int | Passed ckey

definition middleware ::
  "(string \<Rightarrow> string) \<Rightarrow> io \<Rightarrow> string \<Rightarrow> string \<Rightarrow> instant \<Rightarrow> key_store option \<Rightarrow> gate \<times> key_store option" where
  "middleware sha io scope hdr now st =
     (case st of
        None \<Rightarrow> (NoStore, None)
      | Some s \<Rightarrow>
          if trim_space hdr = '''' \<and> key_mode s = ''optional'' then (Anonymous, Some s)
          else (case authenticate sha io hdr scope now s of
                  (Inl e, s') \<Rightarrow> (Denied (if e = Forbidden then 403 else 401), Some s')
                | (Inr k, s') \<Rightarrow> (Passed k, Some s')))"

end
