(* ===== verification/Client_Key_Props.thy ===== *)
theory Client_Key_Props
  imports Client_Key
begin

text \<open>
  What the client keys guarantee for every sequence of operations, clocks and disk faults: only an
  active key with the scope opens an endpoint, a revocation is final, rotation moves the access of a
  key to its successor, the entries stay well formed, and a restart reads back what was written.
\<close>

section \<open>Reading the results\<close>

lemmas key_ops = key_set_mode_def key_create_def key_revoke_def key_set_enabled_def key_rotate_def authenticate_def keys_persist_eq

text \<open>One call of the store, with the clock, the random bytes and the disk of that call.\<close>

datatype key_event =
    KCreate io "string option" "string option" create_input instant
  | KMode io string instant
  | KRevoke io string instant
  | KEnable io string bool
  | KRotate io "string option" "string option" string instant
  | KAuth io string string instant

fun key_step :: "(string \<Rightarrow> string) \<Rightarrow> key_store \<Rightarrow> key_event \<Rightarrow> key_store" where
  "key_step sha s (KCreate io rid rsec inp now) = snd (key_create sha io rid rsec inp now s)"
| "key_step sha s (KMode io mode now) = snd (key_set_mode io mode now s)"
| "key_step sha s (KRevoke io kid now) = snd (key_revoke io kid now s)"
| "key_step sha s (KEnable io kid b) = snd (key_set_enabled io kid b s)"
| "key_step sha s (KRotate io rid rsec kid now) = snd (key_rotate sha io rid rsec kid now s)"
| "key_step sha s (KAuth io hdr scope now) = snd (authenticate sha io hdr scope now s)"

text \<open>An authentication either leaves the store alone or stamps the one key it admits.\<close>

lemma authenticate_cases:
  assumes "authenticate sha io hdr scope now s = (r, s')"
  obtains (refused) e where "r = Inl e" "s' = s"
  | (admitted) secret i k d where "presented hdr = Some secret" "find (\<lambda>(i, k). key_matches (sha secret) k) (ks_keys s) = Some (i, k)"
      "key_active now k" "scope \<in> set (ck_scopes k)" "r = Inr (sanitized (k\<lparr>ck_last_used := Some now\<rparr>))"
      "s' = s\<lparr>ks_keys := mput i (k\<lparr>ck_last_used := Some now\<rparr>) (ks_keys s), ks_disk := d\<rparr>"
      "d = ks_disk s \<or> d = snd (write_atomic io (key_doc_of (s\<lparr>ks_keys := mput i (k\<lparr>ck_last_used := Some now\<rparr>) (ks_keys s)\<rparr>)) (ks_disk s))"
proof (cases "presented hdr")
  case None
  then have "r = Inl Unauthorized" "s' = s" using assms by (auto simp: authenticate_def)
  then show ?thesis by (rule refused)
next
  case (Some secret)
  show ?thesis
  proof (cases "find (\<lambda>(i, k). key_matches (sha secret) k) (ks_keys s)")
    case None
    then have "r = Inl Unauthorized" "s' = s" using assms Some by (auto simp: authenticate_def)
    then show ?thesis by (rule refused)
  next
    case (Some p)
    obtain i k where p: "p = (i, k)" by (cases p)
    let ?s1 = "s\<lparr>ks_keys := mput i (k\<lparr>ck_last_used := Some now\<rparr>) (ks_keys s)\<rparr>"
    have same: "?s1 = s\<lparr>ks_keys := mput i (k\<lparr>ck_last_used := Some now\<rparr>) (ks_keys s), ks_disk := ks_disk s\<rparr>" by simp
    show ?thesis
    proof (cases "key_active now k \<and> scope \<in> set (ck_scopes k)")
      case True
      show ?thesis
        by (rule admitted [of secret i k "if key_used now k then snd (write_atomic io (key_doc_of ?s1) (ks_disk s)) else ks_disk s"])
           (use assms \<open>presented hdr = Some secret\<close> Some p True same in \<open>auto simp: authenticate_def keys_persist_eq Let_def\<close>)
    next
      case False
      then show ?thesis using assms \<open>presented hdr = Some secret\<close> Some p refused
        by (auto simp: authenticate_def split: if_splits)
    qed
  qed
qed

lemma found_key: "find (\<lambda>(i, k). key_matches d k) keys = Some (i, k) \<Longrightarrow> (i, k) \<in> set keys \<and> key_matches d k"
  by (auto simp: find_Some_iff in_set_conv_nth)

section \<open>Revocation\<close>

definition revoked :: "key_store \<Rightarrow> string \<Rightarrow> bool" where
  "revoked s kid \<longleftrightarrow> wf_map (ks_keys s) \<and> (\<exists>k. map_of (ks_keys s) kid = Some k \<and> ck_revoked_at k \<noteq> None)"

text \<open>A random identifier that comes out equal to one in use.\<close>

fun reissues :: "key_event \<Rightarrow> string \<Rightarrow> bool" where
  "reissues (KCreate io rid rsec inp now) kid \<longleftrightarrow> random_token rid = Some kid"
| "reissues (KRotate io rid rsec k now) kid \<longleftrightarrow> random_token rid = Some kid"
| "reissues _ kid \<longleftrightarrow> False"

lemma new_tokens_id: "new_tokens rid rsec = Some (i, secret) \<Longrightarrow> random_token rid = Some i"
  by (auto simp: new_tokens_def split: option.splits)

lemma wf_key_step: "wf_map (ks_keys s) \<Longrightarrow> wf_map (ks_keys (key_step sha s e))"
proof (cases e)
  case (KAuth io hdr scope now)
  assume wf: "wf_map (ks_keys s)"
  obtain r s' where a: "authenticate sha io hdr scope now s = (r, s')" by (cases "authenticate sha io hdr scope now s")
  from a show ?thesis using wf KAuth a by (cases rule: authenticate_cases) auto
qed (auto simp: key_ops Let_def split: option.split)

lemma revoked_step: "revoked s kid \<Longrightarrow> \<not> reissues e kid \<Longrightarrow> revoked (key_step sha s e) kid"
proof -
  assume rev: "revoked s kid" and new: "\<not> reissues e kid"
  have wf: "wf_map (ks_keys s)" using rev by (simp add: revoked_def)
  have "\<exists>k. map_of (ks_keys (key_step sha s e)) kid = Some k \<and> ck_revoked_at k \<noteq> None"
  proof (cases e)
    case (KCreate io rid rsec inp now)
    then show ?thesis using rev new by (auto simp: revoked_def key_ops Let_def dest: new_tokens_id split: option.split)
  next
    case (KRotate io rid rsec k now)
    then show ?thesis using rev new by (auto simp: revoked_def key_ops Let_def dest: new_tokens_id split: option.split)
  next
    case (KAuth io hdr scope now)
    obtain r s' where a: "authenticate sha io hdr scope now s = (r, s')" by (cases "authenticate sha io hdr scope now s")
    from a show ?thesis using rev KAuth a
      by (cases rule: authenticate_cases) (auto simp: revoked_def dest!: found_key map_of_wf [OF wf])
  qed (use rev in \<open>auto simp: revoked_def key_ops split: option.split\<close>)
  then show ?thesis using wf_key_step [OF wf] by (simp add: revoked_def)
qed

interpretation revocation: latch "key_step sha" revoked reissues for sha
  by unfold_locales (rule revoked_step)

text \<open>
  C5. A revocation is final: once Revoke has found the key, and even when writing the document
  failed, no sequence of later calls lets that key in again. Whatever request is admitted afterwards
  was admitted by another key, which is active, has the scope, and whose hash is the digest of the
  token presented; the one escape is a random identifier that repeats an old one.
\<close>

theorem revoked_keys_stay_out:
  assumes "wf_map (ks_keys s)" and "map_of (ks_keys s) kid \<noteq> None"
    and "\<forall>e \<in> set es. \<not> reissues e kid"
    and "s' = foldl (key_step sha) (snd (key_revoke io kid now s)) es"
    and "authenticate sha io' hdr scope t s' = (Inr k, s'')"
  shows "\<exists>i k0 secret. i \<noteq> kid \<and> map_of (ks_keys s') i = Some k0 \<and> presented hdr = Some secret \<and>
     key_matches (sha secret) k0 \<and> key_active t k0 \<and> scope \<in> set (ck_scopes k0) \<and> ck_id k = ck_id k0"
proof -
  have "revoked (snd (key_revoke io kid now s)) kid" using assms(1,2) by (auto simp: revoked_def key_ops)
  then have out: "revoked s' kid" unfolding assms(4) by (rule revocation.held_run) (rule assms(3))
  then have wf: "wf_map (ks_keys s')" by (simp add: revoked_def)
  show ?thesis using assms(5)
  proof (cases rule: authenticate_cases)
    case (admitted secret i k0 d)
    have "(i, k0) \<in> set (ks_keys s') \<and> key_matches (sha secret) k0" using admitted(2) by (rule found_key)
    then have m: "map_of (ks_keys s') i = Some k0" "key_matches (sha secret) k0" using map_of_wf [OF wf] by auto
    then have "i \<noteq> kid" using out admitted(3) by (auto simp: revoked_def key_active_def)
    moreover have "ck_id k = ck_id k0" using admitted(5) by (simp add: sanitized_def)
    ultimately show ?thesis using m admitted by blast
  qed simp
qed

definition sample_sha :: "string \<Rightarrow> string" where
  "sample_sha s = take 32 (s @ replicate 32 CHR 0x00)"

lemma sample_sha_size: "length (sample_sha x) = 32"
  by (simp add: sample_sha_def)

definition sample_keys :: key_store where
  "sample_keys = key_step sample_sha \<lparr>ks_keys = [], ks_mode = '''', ks_disk = blank_disk\<rparr>
     (KCreate good_io (Some ''a'') (Some ''s'') \<lparr>in_name = ''app'', in_scopes = [''chat:write''], in_expires = None\<rparr> 5)"

lemma sample_keys_keys: "ks_keys sample_keys = [(''YQ'', fresh_key sample_sha ''YQ'' ''app'' [''chat:write''] None ''xsk_cw'' 5)]"
  by code_simp

definition both_keys :: key_store where
  "both_keys = key_step sample_sha sample_keys
     (KCreate good_io (Some ''b'') (Some ''t'') \<lparr>in_name = ''web'', in_scopes = [''chat:write''], in_expires = None\<rparr> 6)"

theorem revoked_keys_stay_out_witness:
  "\<exists>k s''. authenticate sample_sha good_io ''Bearer xsk_dA'' ''chat:write'' 9
       (foldl (key_step sample_sha) (snd (key_revoke good_io ''YQ'' 7 both_keys)) [KEnable good_io ''YQ'' True]) = (Inr k, s'') \<and>
     ck_id k \<noteq> ''YQ''"
proof -
  let ?s = "foldl (key_step sample_sha) (snd (key_revoke good_io ''YQ'' 7 both_keys)) [KEnable good_io ''YQ'' True]"
  have wf: "wf_map (ks_keys both_keys)" and known: "map_of (ks_keys both_keys) ''YQ'' \<noteq> None" by code_simp+
  have ids: "map (\<lambda>(i, k). (i, ck_id k)) (ks_keys ?s) = [(''YQ'', ''YQ''), (''Yg'', ''Yg'')]" by code_simp
  have "case fst (authenticate sample_sha good_io ''Bearer xsk_dA'' ''chat:write'' 9 ?s) of Inr k \<Rightarrow> True | Inl e \<Rightarrow> False" by code_simp
  then obtain k s'' where a: "authenticate sample_sha good_io ''Bearer xsk_dA'' ''chat:write'' 9 ?s = (Inr k, s'')"
    by (cases "authenticate sample_sha good_io ''Bearer xsk_dA'' ''chat:write'' 9 ?s") (auto split: sum.splits)
  have none: "\<forall>e \<in> set [KEnable good_io ''YQ'' True]. \<not> reissues e ''YQ''" by simp
  obtain i k0 where "i \<noteq> ''YQ''" "map_of (ks_keys ?s) i = Some k0" "ck_id k = ck_id k0"
    using revoked_keys_stay_out [OF wf known none refl a] by blast
  moreover have "(i, ck_id k0) \<in> set (map (\<lambda>(i, k). (i, ck_id k)) (ks_keys ?s))"
    using map_of_in_set [OF \<open>map_of (ks_keys ?s) i = Some k0\<close>] by force
  ultimately show ?thesis using a unfolding ids by auto
qed

section \<open>Who is let in\<close>

text \<open>No two stored keys have the same digest, as SHA-256 of random tokens makes certain in practice.\<close>

definition one_owner :: "(string, ckey) gomap \<Rightarrow> bool" where
  "one_owner keys \<longleftrightarrow> (\<forall>d. \<forall>(i, k) \<in> set keys. \<forall>(j, l) \<in> set keys. key_matches d k \<longrightarrow> key_matches d l \<longrightarrow> i = j)"

definition opens :: "gate \<Rightarrow> bool" where
  "opens g \<longleftrightarrow> (case g of Anonymous \<Rightarrow> True | Passed k \<Rightarrow> True | _ \<Rightarrow> False)"

lemma find_key:
  assumes "wf_map keys" and "map_of keys i = Some k" and "key_matches d k"
    and "\<And>j l. map_of keys j = Some l \<Longrightarrow> key_matches d l \<Longrightarrow> j = i"
  shows "find (\<lambda>(i, k). key_matches d k) keys = Some (i, k)"
proof -
  have "(i, k) \<in> set keys" by (rule map_of_in_set [OF assms(2)])
  then have "find (\<lambda>(i, k). key_matches d k) keys \<noteq> None" using assms(3) by (auto simp: find_None_iff)
  then obtain j l where f: "find (\<lambda>(i, k). key_matches d k) keys = Some (j, l)" by auto
  then have "map_of keys j = Some l \<and> key_matches d l" using found_key [OF f] map_of_wf [OF assms(1)] by blast
  then show ?thesis using assms(2,4) f by auto
qed

lemma one_owner_same: "one_owner keys \<Longrightarrow> map_of keys i = Some k \<Longrightarrow> map_of keys j = Some l \<Longrightarrow> key_matches d k \<Longrightarrow>
    key_matches d l \<Longrightarrow> j = i"
  by (fastforce simp: one_owner_def dest: map_of_in_set)

text \<open>
  C15. The guard of a client endpoint opens exactly when the request carries no Authorization header
  while the mode is optional, or carries a bearer token of a stored key that is enabled, not revoked,
  not expired, and has the scope of the endpoint. The order in which the map of keys is walked does
  not matter, as long as no digest belongs to two stored keys (one\_owner): two keys would need the
  same random secret, or secrets with one SHA-256 digest.
\<close>

theorem middleware_admits_active_keys:
  assumes "wf_map (ks_keys s)" and "one_owner (ks_keys s)"
  shows "opens (fst (middleware sha io scope hdr now (Some s))) \<longleftrightarrow>
     trim_space hdr = '''' \<and> key_mode s = ''optional'' \<or>
     (\<exists>secret i k. presented hdr = Some secret \<and> map_of (ks_keys s) i = Some k \<and> key_matches (sha secret) k \<and>
        key_active now k \<and> scope \<in> set (ck_scopes k))" (is "?L \<longleftrightarrow> ?A \<or> ?B")
proof (cases ?A)
  case True
  then show ?thesis by (simp add: middleware_def opens_def)
next
  case False
  have "?L \<longleftrightarrow> (\<exists>k. fst (authenticate sha io hdr scope now s) = Inr k)"
    using False by (auto simp: middleware_def opens_def split: prod.splits sum.splits)
  also have "\<dots> \<longleftrightarrow> ?B"
  proof
    assume "\<exists>k. fst (authenticate sha io hdr scope now s) = Inr k"
    then obtain k s' where "authenticate sha io hdr scope now s = (Inr k, s')" by (metis prod.collapse)
    then show ?B
    proof (cases rule: authenticate_cases)
      case (admitted secret i k0 d)
      have "(i, k0) \<in> set (ks_keys s) \<and> key_matches (sha secret) k0" using admitted(2) by (rule found_key)
      then show ?thesis using admitted map_of_wf [OF assms(1)] by blast
    qed simp
  next
    assume ?B
    then obtain secret i k where k: "presented hdr = Some secret" "map_of (ks_keys s) i = Some k" "key_matches (sha secret) k"
      "key_active now k" "scope \<in> set (ck_scopes k)" by blast
    then have "find (\<lambda>(i, k). key_matches (sha secret) k) (ks_keys s) = Some (i, k)"
      using one_owner_same [OF assms(2)] by (intro find_key [OF assms(1)]) blast+
    then show "\<exists>k. fst (authenticate sha io hdr scope now s) = Inr k" using k by (simp add: authenticate_def Let_def)
  qed
  finally show ?thesis using False by blast
qed

lemma one_owner_single: "one_owner [(i, k)]"
  by (simp add: one_owner_def)

theorem middleware_admits_active_keys_witness:
  "opens (fst (middleware sample_sha good_io ''chat:write'' ''bearer xsk_cw'' 9 (Some sample_keys))) \<and>
   \<not> opens (fst (middleware sample_sha good_io ''models:read'' ''bearer xsk_cw'' 9 (Some sample_keys)))"
proof -
  have wf: "wf_map (ks_keys sample_keys)" and one: "one_owner (ks_keys sample_keys)"
    unfolding sample_keys_keys by (simp_all add: wf_map_def one_owner_single)
  have p: "presented ''bearer xsk_cw'' = Some ''xsk_cw''" "trim_space ''bearer xsk_cw'' = ''bearer xsk_cw''" by code_simp+
  have m: "key_matches (sample_sha ''xsk_cw'') (fresh_key sample_sha ''YQ'' ''app'' [''chat:write''] None ''xsk_cw'' 5)"
    by (simp add: key_matches_def fresh_key_def hash_secret_def sample_sha_size)
  show ?thesis
    unfolding middleware_admits_active_keys [OF wf one] p sample_keys_keys
    using m by (simp add: fresh_key_def key_active_def)
qed

section \<open>Rotation\<close>

lemma graph_alphabet: "list_all graph_char url_alphabet"
  by code_simp

lemma b64_graph: "list_all graph_char (b64_encode url_alphabet False s)"
proof -
  have g: "graph_char (url_alphabet ! n)" if "n < 64" for n
    using graph_alphabet that by (simp add: list_all_length good_alphabet_def [symmetric] url_alphabet_def)
  show ?thesis
    by (induction url_alphabet False s rule: b64_encode.induct) (simp_all add: g sextets)
qed

lemma token_graph: "new_tokens rid rsec = Some (i, secret) \<Longrightarrow> list_all graph_char secret \<and> secret \<noteq> []"
  using b64_graph by (auto simp: new_tokens_def random_token_def graph_char_def split: option.splits)

text \<open>A new token presented as a bearer token is read back as it is.\<close>

lemma presented_token: "list_all graph_char t \<Longrightarrow> t \<noteq> [] \<Longrightarrow> presented (''Bearer '' @ t) = Some t"
proof -
  assume g: "list_all graph_char t" and "t \<noteq> []"
  then have "graph_char (last t)" by (simp add: list_all_iff)
  then have trim: "trim_space (''Bearer '' @ t) = ''Bearer '' @ t"
    using \<open>t \<noteq> []\<close> by (intro trim_space_ends) (simp add: graph_char_def)
  obtain c cs where t: "t = c # cs" using \<open>t \<noteq> []\<close> by (cases t) auto
  have c: "c \<noteq> CHR 0x84" using g t by (auto simp: graph_char_def)
  have "char_of (98 :: nat) = CHR ''b''" by code_simp
  then have low: "take 7 (to_lower (''Bearer '' @ t)) = ''bearer ''"
    using c by (cases cs) (simp_all add: t lower_byte_def)
  have len: "length ''bearer '' = 7" by simp
  have "has_prefix (to_lower (''Bearer '' @ t)) ''bearer ''" unfolding has_prefix_def len by (rule low)
  moreover have "drop 7 (''Bearer '' @ t) = t" by simp
  ultimately show ?thesis unfolding presented_def trim Let_def using trim_space_graph [OF g] by (simp only: if_True)
qed

lemma rotate_success:
  assumes "key_rotate sha io rid rsec kid now s = (Inr (kv, secret), s')"
  obtains k where "map_of (ks_keys s) kid = Some k" "list_all graph_char secret" "secret \<noteq> []"
    "ks_keys s' = mput (ck_id kv) (fresh_key sha (ck_id kv) (ck_name k @ '' (rotated)'') (ck_scopes k) (ck_expires_at k) secret now)
       (mput kid (k\<lparr>ck_enabled := False, ck_revoked_at := Some now\<rparr>) (ks_keys s))"
    "ks_mode s' = ks_mode s" "ck_prefix kv = key_prefix secret" "random_token rid = Some (ck_id kv)"
  using assms token_graph [of rid rsec] new_tokens_id [of rid rsec]
  by (auto simp: key_rotate_def keys_persist_eq Let_def sanitized_def fresh_key_def split: option.splits if_splits)

text \<open>The random bytes repeat neither an identifier nor a secret in use.\<close>

definition fresh_tokens :: "(string \<Rightarrow> string) \<Rightarrow> string option \<Rightarrow> string option \<Rightarrow> key_store \<Rightarrow> bool" where
  "fresh_tokens sha rid rsec s \<longleftrightarrow>
     (case new_tokens rid rsec of
        None \<Rightarrow> True
      | Some (nid, secret) \<Rightarrow> map_of (ks_keys s) nid = None \<and> list_all (\<lambda>(i, l). \<not> key_matches (sha secret) l) (ks_keys s))"

text \<open>
  A successful rotation moves the access of a key to its successor: a request with the old
  token is refused from then on, and the new token, in the usual header, opens exactly the scopes of
  the old key until its expiry. A failed rotation leaves every key as it was.
\<close>

theorem rotation_moves_access:
  assumes "wf_map (ks_keys s)" and "one_owner (ks_keys s)" and "\<forall>x. length (sha x) = 32"
    and "key_rotate sha io rid rsec kid now s = (r, s')" and "map_of (ks_keys s) kid = Some k" and "fresh_tokens sha rid rsec s"
  shows "case r of
      Inl e \<Rightarrow> map_of (ks_keys s') = map_of (ks_keys s) \<and> ks_mode s' = ks_mode s
    | Inr (kv, secret) \<Rightarrow>
        (\<forall>old hdr scope t io'. presented hdr = Some old \<and> key_matches (sha old) k \<longrightarrow>
           fst (authenticate sha io' hdr scope t s') = Inl Unauthorized) \<and>
        (\<forall>scope t io'. (\<exists>kv'. fst (authenticate sha io' (''Bearer '' @ secret) scope t s') = Inr kv') \<longleftrightarrow>
           scope \<in> set (ck_scopes k) \<and> (case ck_expires_at k of None \<Rightarrow> True | Some e \<Rightarrow> e > t))"
proof (cases r)
  case (Inl e)
  have "map_of (ks_keys s') = map_of (ks_keys s) \<and> ks_mode s' = ks_mode s"
    using assms(4-6) Inl
    by (fastforce simp: key_rotate_def fresh_tokens_def keys_persist_eq Let_def split: option.splits if_splits)
  then show ?thesis using Inl by auto
next
  case (Inr p)
  obtain kv secret where p: "p = (kv, secret)" by (cases p)
  have rot: "key_rotate sha io rid rsec kid now s = (Inr (kv, secret), s')" using assms(4) Inr p by simp
  then have "new_tokens rid rsec = Some (ck_id kv, secret)"
    by (auto simp: key_rotate_def keys_persist_eq Let_def sanitized_def fresh_key_def split: option.splits if_splits)
  then have free: "map_of (ks_keys s) (ck_id kv) = None"
    and other: "map_of (ks_keys s) i = Some l \<Longrightarrow> \<not> key_matches (sha secret) l" for i l
    using assms(6) by (auto simp: fresh_tokens_def list_all_iff dest: map_of_in_set)
  from rotate_success [OF rot] assms(5) obtain
    tok: "list_all graph_char secret" "secret \<noteq> []" and
    keys: "ks_keys s' = mput (ck_id kv) (fresh_key sha (ck_id kv) (ck_name k @ '' (rotated)'') (ck_scopes k) (ck_expires_at k) secret now)
       (mput kid (k\<lparr>ck_enabled := False, ck_revoked_at := Some now\<rparr>) (ks_keys s))"
    by (metis option.inject)
  let ?old = "k\<lparr>ck_enabled := False, ck_revoked_at := Some now\<rparr>"
  let ?new = "fresh_key sha (ck_id kv) (ck_name k @ '' (rotated)'') (ck_scopes k) (ck_expires_at k) secret now"
  have wf: "wf_map (ks_keys s')" using assms(1) keys by simp
  have mnew: "key_matches d ?new \<longleftrightarrow> d = sha secret" for d
    using assms(3) by (simp add: key_matches_def fresh_key_def hash_secret_def)
  have mold: "key_matches d ?old \<longleftrightarrow> key_matches d k" for d by (simp add: key_matches_def)
  have main: "(\<forall>old hdr scope t io'. presented hdr = Some old \<and> key_matches (sha old) k \<longrightarrow>
           fst (authenticate sha io' hdr scope t s') = Inl Unauthorized) \<and>
        (\<forall>scope t io'. (\<exists>kv'. fst (authenticate sha io' (''Bearer '' @ secret) scope t s') = Inr kv') \<longleftrightarrow>
           scope \<in> set (ck_scopes k) \<and> (case ck_expires_at k of None \<Rightarrow> True | Some e \<Rightarrow> e > t))"
  proof (intro conjI allI impI)
    have ne: "kid \<noteq> ck_id kv" using free assms(5) by auto
    fix old hdr scope t io'
    assume h: "presented hdr = Some old \<and> key_matches (sha old) k"
    have "find (\<lambda>(i, k). key_matches (sha old) k) (ks_keys s') = Some (kid, ?old)"
    proof (rule find_key [OF wf])
      show "map_of (ks_keys s') kid = Some ?old" using ne by (simp add: keys)
      show "key_matches (sha old) ?old" using h mold by simp
      fix j l assume j: "map_of (ks_keys s') j = Some l" "key_matches (sha old) l"
      show "j = kid"
      proof (cases "j = ck_id kv")
        case True
        then have "sha old = sha secret" using j mnew by (simp add: keys)
        then show ?thesis using h other [OF assms(5)] by simp
      next
        case False
        then show ?thesis using j h one_owner_same [OF assms(2,5)] by (auto simp: keys split: if_splits)
      qed
    qed
    then show "fst (authenticate sha io' hdr scope t s') = Inl Unauthorized"
      using h by (simp add: authenticate_def key_active_def)
  next
    fix scope t io'
    have "find (\<lambda>(i, k). key_matches (sha secret) k) (ks_keys s') = Some (ck_id kv, ?new)"
    proof (rule find_key [OF wf])
      show "map_of (ks_keys s') (ck_id kv) = Some ?new" by (simp add: keys)
      show "key_matches (sha secret) ?new" by (simp add: mnew)
      fix j l assume "map_of (ks_keys s') j = Some l" "key_matches (sha secret) l"
      then show "j = ck_id kv" using other mold other [OF assms(5)] by (auto simp: keys split: if_splits)
    qed
    then show "(\<exists>kv'. fst (authenticate sha io' (''Bearer '' @ secret) scope t s') = Inr kv') \<longleftrightarrow>
           scope \<in> set (ck_scopes k) \<and> (case ck_expires_at k of None \<Rightarrow> True | Some e \<Rightarrow> e > t)"
      unfolding authenticate_def presented_token [OF tok] by (simp add: fresh_key_def key_active_def Let_def)
  qed
  show ?thesis unfolding Inr p sum.case prod.case by (rule main)
qed

theorem rotation_moves_access_witness:
  "\<exists>kv secret s'. key_rotate sample_sha good_io (Some ''b'') (Some ''t'') ''YQ'' 7 sample_keys = (Inr (kv, secret), s') \<and>
     fst (authenticate sample_sha good_io ''Bearer xsk_cw'' ''chat:write'' 9 s') = Inl Unauthorized \<and>
     (\<exists>k. fst (authenticate sample_sha good_io (''Bearer '' @ secret) ''chat:write'' 9 s') = Inr k)"
proof -
  let ?r = "key_rotate sample_sha good_io (Some ''b'') (Some ''t'') ''YQ'' 7 sample_keys"
  have wf: "wf_map (ks_keys sample_keys)" and one: "one_owner (ks_keys sample_keys)" and fresh: "fresh_tokens sample_sha (Some ''b'') (Some ''t'') sample_keys"
    unfolding sample_keys_keys by (simp_all add: wf_map_def one_owner_single) code_simp
  have k: "map_of (ks_keys sample_keys) ''YQ'' = Some (fresh_key sample_sha ''YQ'' ''app'' [''chat:write''] None ''xsk_cw'' 5)"
    by (simp add: sample_keys_keys)
  have "case fst ?r of Inr x \<Rightarrow> True | Inl e \<Rightarrow> False" by code_simp
  then obtain kv secret s' where r: "?r = (Inr (kv, secret), s')" by (cases ?r) (auto split: sum.splits)
  have sha: "\<forall>x. length (sample_sha x) = 32" by (simp add: sample_sha_size)
  have p: "presented ''Bearer xsk_cw'' = Some ''xsk_cw''" by code_simp
  have m: "key_matches (sample_sha ''xsk_cw'') (fresh_key sample_sha ''YQ'' ''app'' [''chat:write''] None ''xsk_cw'' 5)"
    by (simp add: key_matches_def fresh_key_def hash_secret_def sample_sha_size)
  from rotation_moves_access [OF wf one sha r k fresh] p m
  have "fst (authenticate sample_sha good_io ''Bearer xsk_cw'' ''chat:write'' 9 s') = Inl Unauthorized"
    "\<exists>k. fst (authenticate sample_sha good_io (''Bearer '' @ secret) ''chat:write'' 9 s') = Inr k"
    by (auto simp: fresh_key_def)
  with r show ?thesis by blast
qed

text \<open>
  Rotation does not look at the state of the key it replaces. A revoked key cannot be enabled,
  but rotating it issues a new key that is active and has all its scopes.
\<close>

theorem rotation_revives_revoked_keys:
  assumes "map_of (ks_keys s) kid = Some k" and "ck_revoked_at k \<noteq> None" and "ck_expires_at k = None"
    and "random_token rid = Some nid" and "rsec \<noteq> None" and "io_ok io"
  shows "key_set_enabled io kid True s = (Some RevokedStays, s) \<and>
    (\<exists>kv secret s'. key_rotate sha io rid rsec kid now s = (Inr (kv, secret), s') \<and>
       (\<exists>n. map_of (ks_keys s') nid = Some n \<and> key_active t n \<and> ck_scopes n = ck_scopes k))"
  using assms
  by (auto simp: key_set_enabled_def key_rotate_def keys_persist_eq new_tokens_def random_token_def fresh_key_def key_active_def Let_def)

theorem rotation_revives_revoked_keys_witness:
  "\<exists>kv secret s'. key_rotate sample_sha good_io (Some ''b'') (Some ''t'') ''YQ'' 8 (snd (key_revoke good_io ''YQ'' 7 sample_keys))
      = (Inr (kv, secret), s') \<and> (\<exists>n. map_of (ks_keys s') ''Yg'' = Some n \<and> key_active 9 n)"
proof -
  let ?s = "snd (key_revoke good_io ''YQ'' 7 sample_keys)"
  have rev: "map_of (ks_keys ?s) ''YQ'' =
      Some ((fresh_key sample_sha ''YQ'' ''app'' [''chat:write''] None ''xsk_cw'' 5)\<lparr>ck_enabled := False, ck_revoked_at := Some 7\<rparr>)"
    by (simp add: key_ops sample_keys_keys)
  have tok: "random_token (Some ''b'') = Some ''Yg''" by code_simp
  from rotation_revives_revoked_keys [OF rev _ _ tok, of "Some ''t''" good_io sample_sha 8 9]
  show ?thesis by (simp add: fresh_key_def) blast
qed

section \<open>Well-formed entries\<close>

definition scopes_wf :: "string list \<Rightarrow> bool" where
  "scopes_wf vs \<longleftrightarrow> vs \<noteq> [] \<and> distinct vs \<and> list_all known_scope vs \<and> sorted_wrt string_less vs"

definition key_wf :: "string \<Rightarrow> ckey \<Rightarrow> bool" where
  "key_wf i k \<longleftrightarrow> ck_id k = i \<and> ck_name k \<noteq> '''' \<and> scopes_wf (ck_scopes k) \<and> length (ck_prefix k) \<le> 12 \<and>
     (\<exists>h. hex_decode (ck_hash k) = Some h \<and> length h = 32) \<and> ck_secret k = '''' \<and> (ck_revoked_at k \<noteq> None \<longrightarrow> \<not> ck_enabled k)"

definition keys_wf :: "key_store \<Rightarrow> bool" where
  "keys_wf s \<longleftrightarrow> wf_map (ks_keys s) \<and> (\<forall>i k. map_of (ks_keys s) i = Some k \<longrightarrow> key_wf i k)"

lemma fold_add_scope: "distinct acc \<and> list_all known_scope acc \<Longrightarrow> distinct (fold add_scope vs acc) \<and> list_all known_scope (fold add_scope vs acc)"
  by (induction vs arbitrary: acc) (auto simp: add_scope_def Let_def)

lemma sorted_strict: "distinct xs \<Longrightarrow> sorted_wrt (\<lambda>x y. \<not> string_less y x) xs \<Longrightarrow> sorted_wrt string_less xs"
  using string_less_total by (induction xs) (auto, metis)

lemma normalize_scopes_wf: "normalize_scopes vs \<noteq> [] \<Longrightarrow> scopes_wf (normalize_scopes vs)"
  using fold_add_scope [of "[]" vs] bytewise.sorted_sort [of "fold add_scope vs []"]
  by (auto simp: scopes_wf_def normalize_scopes_def sort_strings_def list_all_iff intro!: sorted_strict)

lemma fresh_key_wf: "(\<forall>x. length (sha x) = 32) \<Longrightarrow> name \<noteq> '''' \<Longrightarrow> scopes_wf vs \<Longrightarrow> key_wf i (fresh_key sha i name vs ex secret now)"
  by (auto simp: key_wf_def fresh_key_def hash_secret_def key_prefix_def)

lemma keys_wf_put: "keys_wf s \<Longrightarrow> key_wf i k \<Longrightarrow> ks_keys s' = mput i k (ks_keys s) \<Longrightarrow> keys_wf s'"
  by (auto simp: keys_wf_def)

lemma keys_wf_same: "keys_wf s \<Longrightarrow> ks_keys s' = ks_keys s \<Longrightarrow> keys_wf s'"
  by (simp add: keys_wf_def)

lemma key_wf_changes:
  "key_wf i k \<Longrightarrow> key_wf i (k\<lparr>ck_enabled := False, ck_revoked_at := Some now\<rparr>)"
  "key_wf i k \<Longrightarrow> \<not> (ck_revoked_at k \<noteq> None \<and> b) \<Longrightarrow> key_wf i (k\<lparr>ck_enabled := b\<rparr>)"
  "key_wf i k \<Longrightarrow> key_wf i (k\<lparr>ck_last_used := Some now\<rparr>)"
  by (auto simp: key_wf_def)

lemma keys_wf_get: "keys_wf s \<Longrightarrow> map_of (ks_keys s) i = Some k \<Longrightarrow> key_wf i k"
  by (simp add: keys_wf_def)

lemma keys_wf_step:
  assumes sha: "\<forall>x. length (sha x) = 32" and wf: "keys_wf s" shows "keys_wf (key_step sha s e)"
proof (cases e)
  case (KCreate io rid rsec inp now)
  then show ?thesis using wf
    by (auto simp: key_create_def keys_persist_eq Let_def split: option.split
        intro!: keys_wf_put [OF wf fresh_key_wf [OF sha]] normalize_scopes_wf)
next
  case (KMode io mode now)
  then show ?thesis by (auto simp: key_set_mode_def keys_persist_eq intro: keys_wf_same [OF wf] wf)
next
  case (KRevoke io kid now)
  then show ?thesis
    by (auto simp: key_revoke_def keys_persist_eq wf split: option.split
        intro!: keys_wf_put [OF wf key_wf_changes(1) [OF keys_wf_get [OF wf]]])
next
  case (KEnable io kid b)
  show ?thesis
  proof (cases "\<exists>k. map_of (ks_keys s) kid = Some k \<and> \<not> (ck_revoked_at k \<noteq> None \<and> b)")
    case True
    then obtain k where k: "map_of (ks_keys s) kid = Some k" "\<not> (ck_revoked_at k \<noteq> None \<and> b)" by blast
    have "keys_wf (s\<lparr>ks_keys := mput kid (k\<lparr>ck_enabled := b\<rparr>) (ks_keys s)\<rparr>)"
      by (rule keys_wf_put [OF wf key_wf_changes(2) [OF keys_wf_get [OF wf k(1)] k(2)]]) simp
    then show ?thesis using KEnable k by (auto simp: key_set_enabled_def keys_persist_eq keys_wf_def)
  next
    case False
    then show ?thesis using KEnable wf by (auto simp: key_set_enabled_def split: option.split)
  qed
next
  case (KRotate io rid rsec kid now)
  show ?thesis
  proof (cases "new_tokens rid rsec = None \<or> map_of (ks_keys s) kid = None")
    case True
    then show ?thesis using KRotate wf by (auto simp: key_rotate_def split: option.split)
  next
    case False
    then obtain nid secret k where t: "new_tokens rid rsec = Some (nid, secret)" "map_of (ks_keys s) kid = Some k" by auto
    have k: "key_wf kid k" by (rule keys_wf_get [OF wf t(2)])
    let ?s1 = "s\<lparr>ks_keys := mput kid (k\<lparr>ck_enabled := False, ck_revoked_at := Some now\<rparr>) (ks_keys s)\<rparr>"
    let ?n = "fresh_key sha nid (ck_name k @ '' (rotated)'') (ck_scopes k) (ck_expires_at k) secret now"
    have s1: "keys_wf ?s1" by (rule keys_wf_put [OF wf key_wf_changes(1) [OF k]]) simp
    have n: "key_wf nid ?n" using k by (intro fresh_key_wf [OF sha]) (auto simp: key_wf_def)
    have s2: "keys_wf (s\<lparr>ks_keys := mput nid ?n (ks_keys ?s1)\<rparr>)" by (rule keys_wf_put [OF s1 n]) simp
    have undone: "keys_wf (s\<lparr>ks_keys := mput kid k (mdel nid (mput nid ?n (ks_keys ?s1)))\<rparr>)"
      using s2 k by (auto simp: keys_wf_def)
    show ?thesis using KRotate t keys_wf_same [OF s2] keys_wf_same [OF undone]
      by (simp add: key_rotate_def keys_persist_eq Let_def)
  qed
next
  case (KAuth io hdr scope now)
  obtain r s' where a: "authenticate sha io hdr scope now s = (r, s')" by (cases "authenticate sha io hdr scope now s")
  from a have "keys_wf s'"
  proof (cases rule: authenticate_cases)
    case (admitted secret i k d)
    have "map_of (ks_keys s) i = Some k" using found_key [OF admitted(2)] wf by (auto simp: keys_wf_def intro: map_of_wf)
    then show ?thesis using admitted(6) by (intro keys_wf_put [OF wf key_wf_changes(3) [OF keys_wf_get [OF wf]]]) simp_all
  qed (simp add: wf)
  then show ?thesis using KAuth a by simp
qed

text \<open>
  C28. Every stored key is well formed, whatever calls were made on a new store: its entry is under its
  own identifier, it has a name, its scopes are a sorted non-empty list of known scopes without
  duplicates, its display prefix is at most twelve bytes, its hash is the hexadecimal text of 32
  bytes, no secret is kept, and a revoked key is disabled.
\<close>

theorem keys_stay_wellformed:
  assumes "\<forall>x. length (sha x) = 32" and "open_keys readable blank_disk = Some s0" and "s = foldl (key_step sha) s0 es"
  shows "wf_map (ks_keys s) \<and> (\<forall>i k. map_of (ks_keys s) i = Some k \<longrightarrow> key_wf i k)"
proof -
  have "keys_wf s0" using assms(2) by (auto simp: open_keys_def read_doc_def blank_disk_def keys_wf_def)
  then have "keys_wf s" unfolding assms(3) by (induction es arbitrary: s0) (simp_all add: keys_wf_step [OF assms(1)])
  then show ?thesis by (simp add: keys_wf_def)
qed

theorem keys_stay_wellformed_witness:
  "\<exists>k. map_of (ks_keys sample_keys) ''YQ'' = Some k \<and> key_wf ''YQ'' k \<and> ck_scopes k = [''chat:write'']"
proof -
  let ?s0 = "\<lparr>ks_keys = [], ks_mode = '''', ks_disk = blank_disk\<rparr>"
  have "open_keys True blank_disk = Some ?s0" by (simp add: open_keys_def read_doc_def blank_disk_def)
  from keys_stay_wellformed [OF _ this, of sample_sha sample_keys
      "[KCreate good_io (Some ''a'') (Some ''s'') \<lparr>in_name = ''app'', in_scopes = [''chat:write''], in_expires = None\<rparr> 5]"]
  show ?thesis by (simp add: sample_sha_size sample_keys_keys fresh_key_def) (simp add: sample_keys_def)
qed

section \<open>Restarting\<close>

text \<open>The time of last use is written at most once a minute, so it is the one field a restart may lose.\<close>

definition forget :: "ckey \<Rightarrow> ckey" where
  "forget k = k\<lparr>ck_last_used := None\<rparr>"

lemma forget_simps [simp]: "ck_id (forget k) = ck_id k" "forget (k\<lparr>ck_last_used := x\<rparr>) = forget k"
  by (simp_all add: forget_def)

definition keys_saved :: "key_store \<Rightarrow> bool" where
  "keys_saved s \<longleftrightarrow>
     (case d_file (ks_disk s) of
        Missing \<Rightarrow> ks_keys s = [] \<and> ks_mode s = ''''
      | Torn \<Rightarrow> False
      | Doc st \<Rightarrow> kd_mode st = ks_mode s \<and> map forget (kd_keys st) = map (\<lambda>(i, k). forget k) (ks_keys s))"

fun event_io :: "key_event \<Rightarrow> io" where
  "event_io (KCreate io rid rsec inp now) = io"
| "event_io (KMode io mode now) = io"
| "event_io (KRevoke io kid now) = io"
| "event_io (KEnable io kid b) = io"
| "event_io (KRotate io rid rsec kid now) = io"
| "event_io (KAuth io hdr scope now) = io"

lemma keys_saved_write: "io_ok io \<Longrightarrow> keys_saved (s\<lparr>ks_disk := snd (write_atomic io (key_doc_of s) (ks_disk s))\<rparr>)"
  by (simp add: keys_saved_def write_atomic_file key_doc_of_def case_prod_beta')

lemma map_mput_same: "map_of m i = Some k \<Longrightarrow> f k' = f k \<Longrightarrow> map (\<lambda>(i, k). f k) (mput i k' m) = map (\<lambda>(i, k). f k) m"
  by (induction m) auto

lemma keys_persist_ok: "fst (keys_persist io s) = io_ok io"
  by (simp add: keys_persist_eq)

lemma step_writes:
  assumes "io_ok (event_io e)" and "\<forall>io hdr scope now. e \<noteq> KAuth io hdr scope now"
  shows "key_step sha s e = s \<or> (\<exists>s1. key_step sha s e = snd (keys_persist (event_io e) s1))"
proof (cases e)
  case (KCreate io rid rsec inp now)
  then show ?thesis by (simp add: key_create_def case_prod_beta' Let_def split: option.split) blast
next
  case (KMode io mode now)
  then show ?thesis by (simp add: key_set_mode_def case_prod_beta') blast
next
  case (KRevoke io kid now)
  then show ?thesis by (simp add: key_revoke_def case_prod_beta' split: option.split) blast
next
  case (KEnable io kid b)
  then show ?thesis by (simp add: key_set_enabled_def case_prod_beta' split: option.split) blast
next
  case (KRotate io rid rsec kid now)
  then show ?thesis using assms(1) by (simp add: key_rotate_def case_prod_beta' keys_persist_ok Let_def split: option.split) blast
qed (use assms(2) in blast)

lemma keys_saved_step:
  assumes "keys_saved s" and "wf_map (ks_keys s)" and "io_ok (event_io e)" shows "keys_saved (key_step sha s e)"
proof (cases e)
  case (KAuth io hdr scope now)
  obtain r s' where a: "authenticate sha io hdr scope now s = (r, s')" by (cases "authenticate sha io hdr scope now s")
  from a have "keys_saved s'"
  proof (cases rule: authenticate_cases)
    case (admitted secret i k d)
    let ?k = "k\<lparr>ck_last_used := Some now\<rparr>"
    have k: "map_of (ks_keys s) i = Some k" using found_key [OF admitted(2)] assms(2) by (auto intro: map_of_wf)
    have same: "map (\<lambda>(i, k). forget k) (mput i ?k (ks_keys s)) = map (\<lambda>(i, k). forget k) (ks_keys s)"
      by (rule map_mput_same [OF k]) simp
    have ne: "ks_keys s \<noteq> []" using k by auto
    from admitted(7) show ?thesis
    proof
      assume "d = ks_disk s"
      then show ?thesis using assms(1) same ne by (simp add: admitted(6) keys_saved_def split: content.splits)
    next
      assume d: "d = snd (write_atomic io (key_doc_of (s\<lparr>ks_keys := mput i ?k (ks_keys s)\<rparr>)) (ks_disk s))"
      show ?thesis using keys_saved_write [of io "s\<lparr>ks_keys := mput i ?k (ks_keys s)\<rparr>"] assms(3) KAuth
        by (simp add: admitted(6) d)
    qed
  qed (simp add: assms(1))
  then show ?thesis using KAuth a by simp
qed (use assms step_writes [of e sha s] keys_saved_write in \<open>auto simp: keys_persist_eq\<close>)

lemma map_of_fold_put: "map_of (fold (\<lambda>k. mput (ck_id k) k) ks m) i = (case map_of (rev (map (\<lambda>k. (ck_id k, k)) ks)) i of
     Some k \<Rightarrow> Some k | None \<Rightarrow> map_of m i)"
  by (induction ks arbitrary: m) (auto simp: map_add_def split: option.split)

lemma forgotten_lookup: "map_option forget (map_of (map (\<lambda>k. (ck_id k, k)) ks) i) = map_of (map (\<lambda>k. (ck_id k, k)) (map forget ks)) i"
  by (induction ks) auto

text \<open>
  C29. A restart reads back the keys: after any calls on a new store whose writes succeeded, opening
  the document gives the same authentication mode and the same keys, up to their time of last use.
\<close>

theorem restart_keeps_keys:
  assumes "\<forall>x. length (sha x) = 32" and "open_keys readable blank_disk = Some s0" and "s = foldl (key_step sha) s0 es"
    and "\<forall>e \<in> set es. io_ok (event_io e)"
  shows "\<exists>t. open_keys True (ks_disk s) = Some t \<and> key_mode t = key_mode s \<and>
     (\<forall>i. map_option forget (map_of (ks_keys t) i) = map_option forget (map_of (ks_keys s) i))"
proof -
  have start: "keys_wf s0 \<and> keys_saved s0"
    using assms(2) by (auto simp: open_keys_def read_doc_def blank_disk_def keys_wf_def keys_saved_def)
  have "keys_wf s \<and> keys_saved s"
    unfolding assms(3) using start assms(4)
    by (induction es arbitrary: s0) (simp_all add: keys_wf_step [OF assms(1)] keys_saved_step keys_wf_def [THEN iffD1])
  then have wf: "wf_map (ks_keys s)" "\<forall>i k. map_of (ks_keys s) i = Some k \<longrightarrow> ck_id k = i" and saved: "keys_saved s"
    by (auto simp: keys_wf_def key_wf_def)
  have ids: "map (\<lambda>(i, k). (ck_id k, k)) (ks_keys s) = ks_keys s"
    using wf by (intro map_idI) (auto dest: map_of_wf)
  show ?thesis
  proof (cases "d_file (ks_disk s)")
    case Missing
    then show ?thesis using saved by (auto simp: open_keys_def read_doc_def keys_saved_def key_mode_def)
  next
    case Torn
    then show ?thesis using saved by (simp add: keys_saved_def)
  next
    case (Doc st)
    have mode: "kd_mode st = ks_mode s" and doc: "map forget (kd_keys st) = map forget (map snd (ks_keys s))"
      using saved Doc by (auto simp: keys_saved_def case_prod_beta')
    have "map ck_id (kd_keys st) = map ck_id (map forget (kd_keys st))" by simp
    also have "\<dots> = map fst (map (\<lambda>(i, k). (ck_id k, k)) (ks_keys s))" unfolding doc by (simp add: case_prod_beta' comp_def)
    finally have "distinct (map ck_id (kd_keys st))" using wf(1) unfolding ids by (simp add: wf_map_def)
    then have rev: "map_of (rev (map (\<lambda>k. (ck_id k, k)) (kd_keys st))) i = map_of (map (\<lambda>k. (ck_id k, k)) (kd_keys st)) i" for i
      by (simp add: map_of_rev_wf wf_map_def comp_def)
    have "map_option forget (map_of (map (\<lambda>k. (ck_id k, k)) (kd_keys st)) i) = map_option forget (map_of (ks_keys s) i)" for i
      unfolding forgotten_lookup doc using forgotten_lookup [of "map snd (ks_keys s)" i] ids by (simp add: case_prod_beta' comp_def)
    then have "map_option forget (map_of (fold (\<lambda>k. mput (ck_id k) k) (kd_keys st) []) i) = map_option forget (map_of (ks_keys s) i)" for i
      by (simp add: map_of_fold_put rev option.case_eq_if) (metis not_None_eq option.simps(8,9))
    then show ?thesis using Doc mode by (simp add: open_keys_def key_mode_def)
  qed
qed

theorem restart_keeps_keys_witness:
  "\<exists>t. open_keys True (ks_disk sample_keys) = Some t \<and> key_mode t = ''optional'' \<and> map_of (ks_keys t) ''YQ'' \<noteq> None"
proof -
  let ?s0 = "\<lparr>ks_keys = [], ks_mode = '''', ks_disk = blank_disk\<rparr>"
  have start: "open_keys True blank_disk = Some ?s0" by (simp add: open_keys_def read_doc_def blank_disk_def)
  have mode: "key_mode sample_keys = ''optional''" by code_simp
  obtain t where t: "open_keys True (ks_disk sample_keys) = Some t" "key_mode t = key_mode sample_keys"
    "\<forall>i. map_option forget (map_of (ks_keys t) i) = map_option forget (map_of (ks_keys sample_keys) i)"
    using restart_keeps_keys [OF _ start, of sample_sha sample_keys
        "[KCreate good_io (Some ''a'') (Some ''s'') \<lparr>in_name = ''app'', in_scopes = [''chat:write''], in_expires = None\<rparr> 5]"]
    by (auto simp: sample_sha_size sample_keys_def)
  have "map_of (ks_keys t) ''YQ'' \<noteq> None"
    using spec [OF t(3), of "''YQ''"] by (auto simp: sample_keys_keys)
  then show ?thesis using t(1,2) mode by metis
qed

end
