(* ===== verification/Provider_Registry.thy ===== *)
theory Provider_Registry
  imports Provider_Client Storage Go_Encoding Go_Order
begin

text \<open>
  The registry of upstream providers (internal/provider/registry.go and config.go): providers from
  the environment, which are read-only, providers that operators add, whose API keys are stored
  encrypted, and providers that an integration registers. Parameters are net/url (a parser from
  strings to the parts the code looks at), AES-GCM (seal and open), the hash suffix of a generated
  identifier, and the random nonce. Every method is one step under the lock of the registry.
\<close>

section \<open>Base URLs (NormalizeBaseURL)\<close>

text \<open>
  A parsed URL: ur_host is the Host field, ur_host_text how String prints it, ur_path the escaped
  path; ur_force_query marks a URL that ends in a bare question mark.
\<close>

record url =
  ur_scheme :: string
  ur_user :: bool
  ur_host :: string
  ur_host_text :: string
  ur_path :: string
  ur_query :: string
  ur_force_query :: bool
  ur_fragment :: string

type_synonym url_parser = "string \<Rightarrow> url option"

datatype reg_error =
    UrlRequired | UrlNotAbsolute | UrlHasExtras | UrlBadPath
  | BadId | NameTooLong | BadKind | KeyTooLong
  | KeyUnavailable | Duplicate | NotFound | ReadOnly
  | BadMasterKey | DecryptFailed | RegistryUnreadable | RegistryBadJson | RegistryWrite | NonceFailed

function strip_v1 :: "string \<Rightarrow> string" where
  "strip_v1 p = (if has_suffix p ''/v1/v1'' then strip_v1 (trim_suffix p ''/v1'') else p)"
  by pat_completeness auto
termination
proof (relation "measure length", goal_cases)
  case (2 p)
  then obtain t where t: "rev p = rev ''/v1/v1'' @ t" by (auto simp: has_suffix_def has_prefix_iff)
  then have "length (rev p) = length (rev ''/v1/v1'' @ t)" by (rule arg_cong)
  then have "length p = 6 + length t" by simp
  moreover have "has_suffix p ''/v1''" unfolding has_suffix_def has_prefix_def t by simp
  ultimately show ?case by (simp add: trim_suffix_def)
qed simp

declare strip_v1.simps [simp del]

definition url_path :: "url \<Rightarrow> string" where
  "url_path u = (let p = strip_v1 (trim_right_cutset ''/'' (ur_path u)) in if p = '''' then ''/v1'' else p)"

text \<open>URL.String of an absolute URL without user, query and fragment.\<close>

definition url_text :: "url \<Rightarrow> string \<Rightarrow> string" where
  "url_text u p = ur_scheme u @ ''://'' @ ur_host_text u @ p @ (if ur_force_query u then ''?'' else '''')"

definition normalize_base_url :: "url_parser \<Rightarrow> string \<Rightarrow> reg_error + string" where
  "normalize_base_url parse raw =
     (let r = trim_space raw in
      if r = '''' then Inl UrlRequired
      else (case parse r of
          None \<Rightarrow> Inl UrlNotAbsolute
        | Some u \<Rightarrow>
            if ur_host u = '''' \<or> (ur_scheme u \<noteq> ''http'' \<and> ur_scheme u \<noteq> ''https'') then Inl UrlNotAbsolute
            else if ur_user u \<or> ur_query u \<noteq> '''' \<or> ur_fragment u \<noteq> '''' then Inl UrlHasExtras
            else if url_path u \<noteq> ''/v1'' then Inl UrlBadPath
            else Inr (trim_right_cutset ''/'' (url_text u (url_path u)))))"

section \<open>Identifiers and inputs\<close>

definition slug_char :: "char \<Rightarrow> bool" where
  "slug_char c \<longleftrightarrow> (let n = byte c in 97 \<le> n \<and> n \<le> 122 \<or> 48 \<le> n \<and> n \<le> 57 \<or> c = CHR ''.'' \<or> c = CHR ''_'')"

text \<open>
  The loop of ProviderIDFromName over the lower-cased name. It runs over bytes where the code runs
  over runes: every byte of a rune outside ASCII is replaced, and a run of replaced bytes leaves one
  dash, as one rune does.
\<close>

fun slug :: "string \<Rightarrow> bool \<Rightarrow> string \<Rightarrow> string" where
  "slug [] dash out = out"
| "slug (c # cs) dash out =
     (if slug_char c then slug cs False (out @ [c])
      else if \<not> dash \<and> out \<noteq> [] then slug cs True (out @ ''-'')
      else slug cs dash out)"

definition slug_id :: "string \<Rightarrow> string" where
  "slug_id name =
     (let a = trim_cutset ''-._'' (slug (to_lower (trim_space name)) False []);
          b = (if length a > 48 then trim_cutset ''-._'' (take 48 a) else a)
      in if length b < 2 then ''provider'' else b)"

text \<open>The suffix is the parameter: six hexadecimal digits of the digest of the lower-cased name.\<close>

definition provider_id_from_name :: "(string \<Rightarrow> string) \<Rightarrow> string \<Rightarrow> string" where
  "provider_id_from_name id_hash name = slug_id name @ ''-'' @ id_hash name"

definition id_char :: "char \<Rightarrow> bool" where
  "id_char c \<longleftrightarrow> slug_char c \<or> c = CHR ''-''"

definition id_start :: "char \<Rightarrow> bool" where
  "id_start c \<longleftrightarrow> (let n = byte c in 97 \<le> n \<and> n \<le> 122 \<or> 48 \<le> n \<and> n \<le> 57)"

definition valid_provider_id :: "string \<Rightarrow> bool" where
  "valid_provider_id s \<longleftrightarrow>
     (case s of [] \<Rightarrow> False | c # cs \<Rightarrow> id_start c \<and> list_all id_char cs \<and> 1 \<le> length cs \<and> length cs \<le> 63)"

record provider_input =
  pi_id :: string
  pi_name :: string
  pi_base_url :: string
  pi_api_key :: string
  pi_kind :: string
  pi_enabled :: "bool option"

definition validate_input ::
  "url_parser \<Rightarrow> (string \<Rightarrow> string) \<Rightarrow> bool \<Rightarrow> provider_input \<Rightarrow> reg_error + provider_input" where
  "validate_input parse id_hash require_id inp =
     (let i0 = to_lower (trim_space (pi_id inp)); name0 = trim_space (pi_name inp);
          i = (if i0 = '''' \<and> name0 \<noteq> '''' then provider_id_from_name id_hash name0 else i0);
          name = (if name0 = '''' then i else name0);
          kind0 = trim_space (pi_kind inp)
      in if require_id \<and> \<not> valid_provider_id i then Inl BadId
         else if length name > 80 then Inl NameTooLong
         else (case normalize_base_url parse (pi_base_url inp) of
             Inl e \<Rightarrow> Inl e
           | Inr base \<Rightarrow>
               (let kind = (if kind0 = '''' then ''standard'' else kind0) in
                if kind \<noteq> ''standard'' then Inl BadKind
                else if length (pi_api_key inp) > 8192 then Inl KeyTooLong
                else Inr (inp\<lparr>pi_id := i, pi_name := name, pi_base_url := base, pi_kind := kind\<rparr>))))"

section \<open>Records, secrets, masks\<close>

record secret =
  sx_nonce :: string
  sx_cipher :: string

record dyn_provider =
  dp_id :: string
  dp_name :: string
  dp_base_url :: string
  dp_kind :: string
  dp_enabled :: bool
  dp_secret :: secret
  dp_mask :: string
  dp_verified :: instant
  dp_created :: instant
  dp_updated :: instant

record provider_view =
  pv_id :: string
  pv_name :: string
  pv_base_url :: string
  pv_kind :: string
  pv_source :: string
  pv_read_only :: bool
  pv_enabled :: bool
  pv_mask :: string
  pv_has_key :: bool
  pv_verified :: instant
  pv_created :: instant
  pv_updated :: instant

text \<open>AES-GCM with a 32-byte key: seal and open take the key, the nonce and the text.\<close>

record aead =
  ax_seal :: "string \<Rightarrow> string \<Rightarrow> string \<Rightarrow> string"
  ax_open :: "string \<Rightarrow> string \<Rightarrow> string \<Rightarrow> string option"

definition decode_master_key :: "string \<Rightarrow> string option" where
  "decode_master_key raw =
     (case find (\<lambda>r. case r of None \<Rightarrow> False | Some k \<Rightarrow> length k = 32)
         (map (\<lambda>(al, pad). b64_decode al pad raw)
            [(std_alphabet, False), (std_alphabet, True), (url_alphabet, False), (url_alphabet, True)]) of
        None \<Rightarrow> None | Some r \<Rightarrow> r)"

definition nonce_size :: nat where
  "nonce_size = 12"

definition encrypt_key :: "aead \<Rightarrow> string \<Rightarrow> string option \<Rightarrow> string \<Rightarrow> secret option" where
  "encrypt_key ax key nonce plain =
     (case nonce of None \<Rightarrow> None
      | Some n \<Rightarrow> Some \<lparr>sx_nonce = b64_encode std_alphabet False n,
                        sx_cipher = b64_encode std_alphabet False (ax_seal ax key n plain)\<rparr>)"

text \<open>Opening with a nonce of the wrong size is a panic of crypto/cipher, not an error.\<close>

datatype opened = Opened string | OpenFailed reg_error | OpenPanic

definition decrypt_key :: "aead \<Rightarrow> string \<Rightarrow> secret \<Rightarrow> opened" where
  "decrypt_key ax key s =
     (if length key \<noteq> 32 then OpenFailed KeyUnavailable
      else (case (b64_decode std_alphabet False (sx_nonce s), b64_decode std_alphabet False (sx_cipher s)) of
          (Some n, Some c) \<Rightarrow>
            (if length n \<noteq> nonce_size then OpenPanic
             else (case ax_open ax key n c of None \<Rightarrow> OpenFailed DecryptFailed | Some p \<Rightarrow> Opened p))
        | _ \<Rightarrow> OpenFailed DecryptFailed))"

definition bullet :: string where
  "bullet = [CHR 0xE2, CHR 0x80, CHR 0xA2]"

definition mask_api_key :: "string \<Rightarrow> string" where
  "mask_api_key key =
     (let rs = runes key in
      if key = '''' then ''''
      else if length rs \<le> 8 then concat (replicate (length rs) bullet)
      else concat (take 4 rs) @ concat (replicate 6 bullet) @ concat (drop (length rs - 4) rs))"

definition view_dynamic :: "dyn_provider \<Rightarrow> provider_view" where
  "view_dynamic r =
     \<lparr>pv_id = dp_id r, pv_name = dp_name r, pv_base_url = dp_base_url r, pv_kind = dp_kind r, pv_source = ''dynamic'',
      pv_read_only = False, pv_enabled = dp_enabled r, pv_mask = dp_mask r, pv_has_key = (dp_mask r \<noteq> ''''),
      pv_verified = dp_verified r, pv_created = dp_created r, pv_updated = dp_updated r\<rparr>"

definition first_of :: "string list \<Rightarrow> string" where
  "first_of vs = (case filter (\<lambda>v. v \<noteq> '''') vs of [] \<Rightarrow> '''' | v # _ \<Rightarrow> v)"

definition view_env :: "string \<Rightarrow> provider_config \<Rightarrow> provider_view" where
  "view_env i c =
     \<lparr>pv_id = i, pv_name = first_of [pc_name c, i], pv_base_url = pc_base_url c, pv_kind = first_of [pc_kind c, ''standard''],
      pv_source = ''environment'', pv_read_only = True, pv_enabled = enabled_or_default c,
      pv_mask = mask_api_key (pc_api_key c), pv_has_key = (pc_api_key c \<noteq> ''''),
      pv_verified = zero_time, pv_created = zero_time, pv_updated = zero_time\<rparr>"

section \<open>Providers of an integration and of the environment (config.go)\<close>

type_synonym configs = "(string, provider_config) gomap"

definition register_external :: "string \<Rightarrow> provider_config \<Rightarrow> configs \<Rightarrow> configs" where
  "register_external i c ext = (if i = '''' \<or> pc_base_url c = '''' then ext else mput i c ext)"

definition unregister_external :: "string \<Rightarrow> configs \<Rightarrow> configs" where
  "unregister_external i ext = mdel i ext"

definition external_configs :: "configs \<Rightarrow> configs" where
  "external_configs ext =
     map_vals (\<lambda>i c. c\<lparr>pc_source := (if pc_source c = '''' then ''external'' else pc_source c), pc_enabled := True\<rparr>) ext"

definition env_config :: "(string \<Rightarrow> string) \<Rightarrow> string \<Rightarrow> string \<Rightarrow> string \<Rightarrow> string \<Rightarrow> provider_config" where
  "env_config getenv i url key kind =
     \<lparr>pc_id = i, pc_name = i, pc_base_url = getenv url, pc_api_key = getenv key, pc_kind = kind,
      pc_source = ''environment'', pc_enabled = True\<rparr>"

definition environment_configs :: "(string \<Rightarrow> string) \<Rightarrow> configs" where
  "environment_configs getenv =
     filter (\<lambda>(i, c). pc_base_url c \<noteq> '''')
       (map (\<lambda>(i, e). (i, env_config getenv i (e @ ''_URL'') (e @ ''_KEY'') ''standard''))
          [(''provider-a'', ''PROVIDER_A''), (''provider-b'', ''PROVIDER_B''), (''provider-c'', ''PROVIDER_C''),
           (''workbuddy'', ''WORKBUDDY''), (''trae'', ''TRAE''), (''qoder'', ''QODER''), (''cctq'', ''CCTQ'')])"

definition overlay :: "configs \<Rightarrow> configs \<Rightarrow> configs" where
  "overlay base over = fold (\<lambda>(i, c). mput i c) over base"

definition load_configs :: "(string \<Rightarrow> string) \<Rightarrow> configs \<Rightarrow> configs" where
  "load_configs getenv ext = overlay (environment_configs getenv) ext"

definition load_configs_with_external :: "(string \<Rightarrow> string) \<Rightarrow> configs \<Rightarrow> configs \<Rightarrow> configs" where
  "load_configs_with_external getenv ext free = overlay (load_configs getenv ext) free"

section \<open>The registry\<close>

record registry =
  rr_path :: string
  rr_key :: string
  rr_env :: configs
  rr_dynamic :: "(string, dyn_provider) gomap"
  rr_disk :: "dyn_provider list disk"
  rr_hook :: bool
  rr_notified :: nat

text \<open>notify runs the hook when there is one; the count stands for its calls.\<close>

definition notify :: "registry \<Rightarrow> registry" where
  "notify r = (if rr_hook r then r\<lparr>rr_notified := rr_notified r + 1\<rparr> else r)"

definition set_on_changed :: "registry \<Rightarrow> registry" where
  "set_on_changed r = r\<lparr>rr_hook := True\<rparr>"

definition set_environment :: "configs \<Rightarrow> registry \<Rightarrow> registry" where
  "set_environment env r = notify (r\<lparr>rr_env := env\<rparr>)"

definition registry_doc :: "registry \<Rightarrow> dyn_provider list" where
  "registry_doc r = sort_by (\<lambda>x y. string_less (dp_id x) (dp_id y)) (map snd (rr_dynamic r))"

definition registry_persist :: "io \<Rightarrow> registry \<Rightarrow> bool \<times> registry" where
  "registry_persist io r =
     (if rr_path r = '''' then (True, r)
      else (case write_atomic io (registry_doc r) (rr_disk r) of (ok, d) \<Rightarrow> (ok, r\<lparr>rr_disk := d\<rparr>)))"

interpretation registry_file: durable_store registry_doc rr_disk "\<lambda>r. rr_path r \<noteq> ''''" "\<lambda>io r. snd (registry_persist io r)"
  by unfold_locales (auto simp: registry_persist_def registry_doc_def split: prod.split)

datatype 'a ran = Ran 'a | Stopped reg_error | Crashed

fun load_records :: "aead \<Rightarrow> string \<Rightarrow> dyn_provider list \<Rightarrow> (string, dyn_provider) gomap \<Rightarrow> (string, dyn_provider) gomap ran" where
  "load_records ax key [] m = Ran m"
| "load_records ax key (x # xs) m =
     (case decrypt_key ax key (dp_secret x) of
        Opened p \<Rightarrow> load_records ax key xs (mput (dp_id x) x m)
      | OpenFailed e \<Rightarrow> Stopped DecryptFailed
      | OpenPanic \<Rightarrow> Crashed)"

definition registry_load :: "aead \<Rightarrow> bool \<Rightarrow> registry \<Rightarrow> registry ran" where
  "registry_load ax readable r =
     (if rr_path r = '''' then Ran r
      else (case read_doc readable (d_file (rr_disk r)) of
          NotExist \<Rightarrow> Ran r
        | ReadFailed \<Rightarrow> Stopped RegistryUnreadable
        | BadJson \<Rightarrow> Stopped RegistryBadJson
        | Parsed xs \<Rightarrow>
            if xs \<noteq> [] \<and> length (rr_key r) \<noteq> 32 then Stopped KeyUnavailable
            else (case load_records ax (rr_key r) xs (rr_dynamic r) of
                Ran m \<Rightarrow> Ran (r\<lparr>rr_dynamic := m\<rparr>) | Stopped e \<Rightarrow> Stopped e | Crashed \<Rightarrow> Crashed)))"

definition registry_new :: "aead \<Rightarrow> bool \<Rightarrow> string \<Rightarrow> string \<Rightarrow> configs \<Rightarrow> dyn_provider list disk \<Rightarrow> registry ran" where
  "registry_new ax readable p key_text env d =
     (let t = trim_space key_text;
          r = \<lparr>rr_path = p, rr_key = '''', rr_env = env, rr_dynamic = [], rr_disk = d, rr_hook = False, rr_notified = 0\<rparr>
      in if t = '''' then registry_load ax readable r
         else (case decode_master_key t of None \<Rightarrow> Stopped BadMasterKey
               | Some k \<Rightarrow> registry_load ax readable (r\<lparr>rr_key := k\<rparr>)))"

definition registry_ready :: "registry \<Rightarrow> bool" where
  "registry_ready r \<longleftrightarrow> length (rr_key r) = 32"

section \<open>Operations\<close>

definition view_after :: "bool \<times> registry \<Rightarrow> dyn_provider \<Rightarrow> provider_view ran \<times> registry" where
  "view_after res x = (case res of (ok, r) \<Rightarrow> if ok then (Ran (view_dynamic x), notify r) else (Stopped RegistryWrite, r))"

definition registry_create ::
  "url_parser \<Rightarrow> (string \<Rightarrow> string) \<Rightarrow> aead \<Rightarrow> io \<Rightarrow> string option \<Rightarrow> configs \<Rightarrow> provider_input \<Rightarrow> instant \<Rightarrow> registry \<Rightarrow>
     provider_view ran \<times> registry" where
  "registry_create parse id_hash ax io nonce ext inp now r =
     (case validate_input parse id_hash True inp of
        Inl e \<Rightarrow> (Stopped e, r)
      | Inr v \<Rightarrow>
          if length (rr_key r) \<noteq> 32 then (Stopped KeyUnavailable, r)
          else if map_of (rr_env r) (pi_id v) \<noteq> None then (Stopped Duplicate, r)
          else if map_of (external_configs ext) (pi_id v) \<noteq> None then (Stopped Duplicate, r)
          else if map_of (rr_dynamic r) (pi_id v) \<noteq> None then (Stopped Duplicate, r)
          else (case encrypt_key ax (rr_key r) nonce (pi_api_key v) of
              None \<Rightarrow> (Stopped NonceFailed, r)
            | Some sec \<Rightarrow>
                (let x = \<lparr>dp_id = pi_id v, dp_name = pi_name v, dp_base_url = pi_base_url v, dp_kind = pi_kind v,
                          dp_enabled = (case pi_enabled v of None \<Rightarrow> True | Some b \<Rightarrow> b), dp_secret = sec,
                          dp_mask = mask_api_key (pi_api_key v), dp_verified = now, dp_created = now, dp_updated = now\<rparr>
                 in case registry_persist io (r\<lparr>rr_dynamic := mput (pi_id v) x (rr_dynamic r)\<rparr>) of
                   (ok, r') \<Rightarrow>
                     if ok then (Ran (view_dynamic x), notify r')
                     else (Stopped RegistryWrite, r'\<lparr>rr_dynamic := mdel (pi_id v) (rr_dynamic r')\<rparr>))))"

definition or_else :: "string \<Rightarrow> string \<Rightarrow> string" where
  "or_else v w = (if trim_space v = '''' then w else v)"

definition checked :: "reg_error + provider_input \<Rightarrow> provider_input ran" where
  "checked v = (case v of Inl e \<Rightarrow> Stopped e | Inr i \<Rightarrow> Ran i)"

text \<open>ResolveInput: the fields left empty are filled from the stored provider.\<close>

definition resolve_input ::
  "url_parser \<Rightarrow> (string \<Rightarrow> string) \<Rightarrow> aead \<Rightarrow> string \<Rightarrow> provider_input \<Rightarrow> registry \<Rightarrow> provider_input ran" where
  "resolve_input parse id_hash ax i inp r =
     (case map_of (rr_dynamic r) i of
        None \<Rightarrow>
          (case map_of (rr_env r) i of
             None \<Rightarrow> Stopped NotFound
           | Some c \<Rightarrow>
               checked (validate_input parse id_hash True
                 (inp\<lparr>pi_id := i, pi_name := or_else (pi_name inp) (first_of [pc_name c, i]),
                      pi_base_url := or_else (pi_base_url inp) (pc_base_url c),
                      pi_kind := or_else (pi_kind inp) (first_of [pc_kind c, ''standard'']),
                      pi_enabled := (case pi_enabled inp of None \<Rightarrow> Some (enabled_or_default c) | e \<Rightarrow> e),
                      pi_api_key := (if pi_api_key inp = '''' then pc_api_key c else pi_api_key inp)\<rparr>)))
      | Some x \<Rightarrow>
          (let i1 = inp\<lparr>pi_id := i, pi_name := or_else (pi_name inp) (dp_name x),
                        pi_base_url := or_else (pi_base_url inp) (dp_base_url x),
                        pi_kind := or_else (pi_kind inp) (dp_kind x),
                        pi_enabled := (case pi_enabled inp of None \<Rightarrow> Some (dp_enabled x) | e \<Rightarrow> e)\<rparr>
           in if pi_api_key inp \<noteq> '''' then checked (validate_input parse id_hash True i1)
              else (case decrypt_key ax (rr_key r) (dp_secret x) of
                  OpenPanic \<Rightarrow> Crashed
                | OpenFailed e \<Rightarrow> Stopped e
                | Opened key \<Rightarrow> checked (validate_input parse id_hash True (i1\<lparr>pi_api_key := key\<rparr>)))))"

definition registry_id :: "string \<Rightarrow> string" where
  "registry_id i = to_lower (trim_space i)"

definition update_record :: "provider_input \<Rightarrow> secret \<Rightarrow> string \<Rightarrow> instant \<Rightarrow> instant \<Rightarrow> dyn_provider \<Rightarrow> dyn_provider" where
  "update_record v sec masked now now' old =
     old\<lparr>dp_name := pi_name v, dp_base_url := pi_base_url v, dp_kind := pi_kind v, dp_secret := sec, dp_mask := masked,
         dp_verified := now, dp_updated := now',
         dp_enabled := (case pi_enabled v of None \<Rightarrow> dp_enabled old | Some b \<Rightarrow> b)\<rparr>"

text \<open>
  Update as one step. The code resolves the input under the read lock and takes the write lock afterwards,
  where it looks the record up again: a change that gets in between supplies the record that is
  overwritten, while the fields left empty have been filled from the one before.
\<close>

definition registry_update ::
  "url_parser \<Rightarrow> (string \<Rightarrow> string) \<Rightarrow> aead \<Rightarrow> io \<Rightarrow> string option \<Rightarrow> string \<Rightarrow> provider_input \<Rightarrow> instant \<Rightarrow> instant \<Rightarrow> registry \<Rightarrow>
     provider_view ran \<times> registry" where
  "registry_update parse id_hash ax io nonce raw_id inp now now' r =
     (let i = registry_id raw_id in
      if map_of (rr_env r) i \<noteq> None then (Stopped ReadOnly, r)
      else (case resolve_input parse id_hash ax i inp r of
          Crashed \<Rightarrow> (Crashed, r)
        | Stopped e \<Rightarrow> (Stopped e, r)
        | Ran v \<Rightarrow>
            if length (rr_key r) \<noteq> 32 then (Stopped KeyUnavailable, r)
            else (case map_of (rr_dynamic r) i of
                None \<Rightarrow> (Stopped NotFound, r)
              | Some old \<Rightarrow>
                  (case (if pi_api_key inp = '''' then Some (dp_secret old, dp_mask old)
                         else map_option (\<lambda>s. (s, mask_api_key (pi_api_key v))) (encrypt_key ax (rr_key r) nonce (pi_api_key v))) of
                     None \<Rightarrow> (Stopped NonceFailed, r)
                   | Some (sec, masked) \<Rightarrow>
                       (let x = update_record v sec masked now now' old
                        in view_after (registry_persist io (r\<lparr>rr_dynamic := mput i x (rr_dynamic r)\<rparr>)) x)))))"

definition registry_set_enabled :: "io \<Rightarrow> string \<Rightarrow> bool \<Rightarrow> instant \<Rightarrow> registry \<Rightarrow> provider_view ran \<times> registry" where
  "registry_set_enabled io raw_id enabled now r =
     (let i = registry_id raw_id in
      if map_of (rr_env r) i \<noteq> None then (Stopped ReadOnly, r)
      else (case map_of (rr_dynamic r) i of
          None \<Rightarrow> (Stopped NotFound, r)
        | Some x \<Rightarrow>
            (let y = x\<lparr>dp_enabled := enabled, dp_updated := now\<rparr>
             in view_after (registry_persist io (r\<lparr>rr_dynamic := mput i y (rr_dynamic r)\<rparr>)) y)))"

definition registry_delete :: "io \<Rightarrow> string \<Rightarrow> registry \<Rightarrow> reg_error option \<times> registry" where
  "registry_delete io raw_id r =
     (let i = registry_id raw_id in
      if map_of (rr_env r) i \<noteq> None then (Some ReadOnly, r)
      else (case map_of (rr_dynamic r) i of
          None \<Rightarrow> (Some NotFound, r)
        | Some x \<Rightarrow>
            (case registry_persist io (r\<lparr>rr_dynamic := mdel i (rr_dynamic r)\<rparr>) of
               (ok, r') \<Rightarrow> if ok then (None, notify r') else (Some RegistryWrite, r'))))"

definition registry_views :: "registry \<Rightarrow> provider_view list" where
  "registry_views r =
     sort_by (\<lambda>x y. string_less (pv_id x) (pv_id y))
       (map (\<lambda>(i, c). view_env i c) (rr_env r) @ map (\<lambda>(i, x). view_dynamic x) (rr_dynamic r))"

definition registry_get :: "string \<Rightarrow> registry \<Rightarrow> provider_view option" where
  "registry_get i r = find (\<lambda>v. pv_id v = i) (registry_views r)"

section \<open>What the router uses\<close>

definition dynamic_config :: "string \<Rightarrow> dyn_provider \<Rightarrow> provider_config" where
  "dynamic_config key x =
     \<lparr>pc_id = dp_id x, pc_name = dp_name x, pc_base_url = dp_base_url x, pc_api_key = key, pc_kind = dp_kind x,
      pc_source = ''dynamic'', pc_enabled = True\<rparr>"

text \<open>None is the panic of opening a secret with a nonce of the wrong size.\<close>

fun add_dynamic :: "aead \<Rightarrow> string \<Rightarrow> dyn_provider list \<Rightarrow> configs \<Rightarrow> configs option" where
  "add_dynamic ax key [] out = Some out"
| "add_dynamic ax key (x # xs) out =
     (if \<not> dp_enabled x then add_dynamic ax key xs out
      else (case decrypt_key ax key (dp_secret x) of
          OpenPanic \<Rightarrow> None
        | OpenFailed e \<Rightarrow> add_dynamic ax key xs out
        | Opened k \<Rightarrow> add_dynamic ax key xs (mput (dp_id x) (dynamic_config k x) out)))"

definition registry_snapshot :: "aead \<Rightarrow> configs \<Rightarrow> registry \<Rightarrow> configs option" where
  "registry_snapshot ax ext r =
     map_option (\<lambda>out. overlay out (external_configs ext))
       (add_dynamic ax (rr_key r) (map snd (rr_dynamic r)) (filter (\<lambda>(i, c). enabled_or_default c) (rr_env r)))"

definition registry_config :: "aead \<Rightarrow> configs \<Rightarrow> string \<Rightarrow> registry \<Rightarrow> provider_config option" where
  "registry_config ax ext i r = (case registry_snapshot ax ext r of None \<Rightarrow> None | Some cs \<Rightarrow> map_of cs i)"

end
