(* ===== verification/Registry_Props.thy ===== *)
theory Registry_Props
  imports Provider_Registry
begin

text \<open>
  What the registry guarantees: generated identifiers pass its own check, the configurations it
  offers come from enabled providers with a fixed precedence, a restart reads back what was written,
  and which operations undo their change when the document cannot be written.
\<close>

section \<open>Trimming a cutset\<close>

lemma strip_front_ends: "strip_front (map (\<lambda>c. [c]) cs) s \<noteq> [] \<Longrightarrow> hd (strip_front (map (\<lambda>c. [c]) cs) s) \<notin> set cs"
  using strip_front_done [of "map (\<lambda>c. [c]) cs" s]
  by (cases "strip_front (map (\<lambda>c. [c]) cs) s") (auto simp: find_None_iff has_prefix_def)

lemma trim_right_prefix: "\<exists>q. s = trim_right rs s @ q"
proof -
  obtain p where "rev s = p @ strip_front (map rev rs) (rev s)" using strip_front_suffix by blast
  then have "s = trim_right rs s @ rev p" unfolding trim_right_def by (metis rev_append rev_rev_ident)
  then show ?thesis by blast
qed

lemma trim_cutset_infix: "\<exists>p q. s = p @ trim_cutset cs s @ q"
proof -
  obtain p where "s = p @ trim_left (map (\<lambda>c. [c]) cs) s" using strip_front_suffix [of s] unfolding trim_left_def by blast
  moreover obtain q where "trim_left (map (\<lambda>c. [c]) cs) s = trim_cutset cs s @ q"
    using trim_right_prefix unfolding trim_cutset_def by blast
  ultimately show ?thesis by metis
qed

lemma trim_cutset_start: "trim_cutset cs s \<noteq> [] \<Longrightarrow> hd (trim_cutset cs s) \<notin> set cs"
proof -
  assume ne: "trim_cutset cs s \<noteq> []"
  obtain q where q: "trim_left (map (\<lambda>c. [c]) cs) s = trim_cutset cs s @ q"
    using trim_right_prefix unfolding trim_cutset_def by blast
  then have "hd (trim_cutset cs s) = hd (trim_left (map (\<lambda>c. [c]) cs) s)" "trim_left (map (\<lambda>c. [c]) cs) s \<noteq> []"
    using ne by (auto simp: hd_append)
  then show ?thesis using strip_front_ends [of cs s] by (simp add: trim_left_def)
qed

lemma trim_cutset_length: "length (trim_cutset cs s) \<le> length s"
  using trim_cutset_infix [of s cs] by (metis length_append le_add1 le_add2 le_trans)

lemma trim_cutset_all: "list_all P s \<Longrightarrow> list_all P (trim_cutset cs s)"
  using trim_cutset_infix [of s cs] by (metis list_all_append)

section \<open>Generated identifiers\<close>

lemma slug_all: "list_all id_char out \<Longrightarrow> list_all id_char (slug s dash out)"
  by (induction s dash out rule: slug.induct) (auto simp: id_char_def)

lemma id_char_start: "id_char c \<Longrightarrow> c \<noteq> CHR ''-'' \<Longrightarrow> c \<noteq> CHR ''.'' \<Longrightarrow> c \<noteq> CHR ''_'' \<Longrightarrow> id_start c"
  unfolding id_char_def id_start_def slug_char_def Let_def by blast

lemma hex_id_char: "hex_value c \<noteq> None \<and> (byte c < 65 \<or> 70 < byte c) \<Longrightarrow> id_char c"
  by (simp add: hex_value_def id_char_def slug_char_def Let_def split: if_splits)

definition shorten :: "string \<Rightarrow> string \<Rightarrow> string" where
  "shorten cs s = (if length (trim_cutset cs s) > 48 then trim_cutset cs (take 48 (trim_cutset cs s)) else trim_cutset cs s)"

lemma shorten_shape: "list_all P s \<Longrightarrow> list_all P (shorten cs s) \<and> length (shorten cs s) \<le> 48 \<and> (shorten cs s \<noteq> [] \<longrightarrow> hd (shorten cs s) \<notin> set cs)"
proof (cases "length (trim_cutset cs s) > 48")
  case True
  assume "list_all P s"
  then have "list_all P (take 48 (trim_cutset cs s))" using trim_cutset_all [of P s cs] by (auto simp: list_all_iff dest: in_set_takeD)
  moreover have "length (trim_cutset cs (take 48 (trim_cutset cs s))) \<le> 48"
    using trim_cutset_length [of cs "take 48 (trim_cutset cs s)"] by simp
  ultimately show ?thesis using True trim_cutset_all [of P "take 48 (trim_cutset cs s)" cs] trim_cutset_start [of cs "take 48 (trim_cutset cs s)"]
    by (simp add: shorten_def)
next
  case False
  assume "list_all P s"
  then show ?thesis using False trim_cutset_all [of P s cs] trim_cutset_start [of cs s] by (simp add: shorten_def)
qed

lemma slug_id_shorten: "slug_id name = (let b = shorten ''-._'' (slug (to_lower (trim_space name)) False []) in if length b < 2 then ''provider'' else b)"
  by (simp only: slug_id_def shorten_def Let_def)

lemma provider_shape: "list_all id_char ''provider'' \<and> id_start (hd ''provider'') \<and> length ''provider'' = 8"
  by code_simp

lemma slug_id_shape: "list_all id_char (slug_id name) \<and> 2 \<le> length (slug_id name) \<and> length (slug_id name) \<le> 48 \<and> id_start (hd (slug_id name))"
proof -
  obtain b where def: "shorten ''-._'' (slug (to_lower (trim_space name)) False []) = b" by simp
  have "list_all id_char (slug (to_lower (trim_space name)) False [])" by (rule slug_all) simp
  from shorten_shape [OF this, of "''-._''"] have b: "list_all id_char b" "length b \<le> 48" "b \<noteq> [] \<longrightarrow> hd b \<notin> set ''-._''"
    unfolding def by blast+
  show ?thesis
  proof (cases "length b < 2")
    case True
    then have "slug_id name = ''provider''" unfolding slug_id_shorten def Let_def by (rule if_P)
    then show ?thesis using provider_shape by simp
  next
    case False
    then have ne: "b \<noteq> []" by auto
    then have "id_char (hd b)" using b(1) by (simp add: list_all_iff)
    moreover have "hd b \<notin> set ''-._''" using b(3) ne by blast
    ultimately have "id_start (hd b)" by (intro id_char_start) simp_all
    moreover have "slug_id name = b" unfolding slug_id_shorten def Let_def using False by (rule if_not_P)
    ultimately show ?thesis using b(1,2) False by simp
  qed
qed

text \<open>
  Every identifier that the registry generates from a name passes the check that the registry
  makes of identifiers, for names of any length and in any script, and it is at most 55 bytes long.
\<close>

theorem generated_ids_are_valid:
  assumes "length (id_hash name) = 6" and "list_all (\<lambda>c. hex_value c \<noteq> None \<and> (byte c < 65 \<or> 70 < byte c)) (id_hash name)"
  shows "valid_provider_id (provider_id_from_name id_hash name) \<and> length (provider_id_from_name id_hash name) \<le> 55"
proof -
  have "list_all id_char (id_hash name)"
    using assms(2) hex_id_char by (simp add: list_all_iff)
  moreover have "id_char CHR ''-''" by (simp add: id_char_def)
  ultimately have all: "list_all id_char (provider_id_from_name id_hash name)" using slug_id_shape [of name] by (simp add: provider_id_from_name_def)
  obtain c cs where s: "slug_id name = c # cs" using slug_id_shape [of name] by (cases "slug_id name") auto
  then have "provider_id_from_name id_hash name = c # (cs @ ''-'' @ id_hash name)" by (simp add: provider_id_from_name_def)
  then show ?thesis using slug_id_shape [of name] all s assms(1) by (simp add: valid_provider_id_def)
qed

theorem generated_ids_are_valid_witness:
  "valid_provider_id (provider_id_from_name (\<lambda>n. ''00af19'') '' My  Provider! '') \<and>
   provider_id_from_name (\<lambda>n. ''00af19'') '' My  Provider! '' = ''my-provider-00af19''"
proof -
  have "provider_id_from_name (\<lambda>n. ''00af19'') '' My  Provider! '' = ''my-provider-00af19''" by code_simp
  moreover have "list_all (\<lambda>c. hex_value c \<noteq> None \<and> (byte c < 65 \<or> 70 < byte c)) ''00af19''" by code_simp
  ultimately show ?thesis using generated_ids_are_valid [of "\<lambda>n. ''00af19''" "'' My  Provider! ''"] by simp
qed

section \<open>The invariant of the registry\<close>

definition seal_law :: "aead \<Rightarrow> bool" where
  "seal_law ax \<longleftrightarrow> (\<forall>k n p. ax_open ax k n (ax_seal ax k n p) = Some p)"

definition records_wf :: "aead \<Rightarrow> string \<Rightarrow> (string, dyn_provider) gomap \<Rightarrow> bool" where
  "records_wf ax key m \<longleftrightarrow> wf_map m \<and>
     (\<forall>i x. map_of m i = Some x \<longrightarrow> dp_id x = i \<and> (\<exists>p. decrypt_key ax key (dp_secret x) = Opened p))"

definition registry_wf :: "aead \<Rightarrow> registry \<Rightarrow> bool" where
  "registry_wf ax r \<longleftrightarrow> wf_map (rr_env r) \<and> records_wf ax (rr_key r) (rr_dynamic r)"

lemma records_wf_Nil [simp]: "records_wf ax key []"
  by (simp add: records_wf_def)

lemma records_wf_mput: "records_wf ax key m \<Longrightarrow> dp_id x = i \<Longrightarrow> decrypt_key ax key (dp_secret x) = Opened p \<Longrightarrow> records_wf ax key (mput i x m)"
  by (auto simp: records_wf_def)

lemma records_wf_mdel: "records_wf ax key m \<Longrightarrow> records_wf ax key (mdel i m)"
  by (auto simp: records_wf_def)

lemma registry_wfD:
  assumes "registry_wf ax r"
  shows "wf_map (rr_env r)" "wf_map (rr_dynamic r)" "map_of (rr_dynamic r) i = Some x \<Longrightarrow> dp_id x = i"
    "map_of (rr_dynamic r) i = Some x \<Longrightarrow> \<exists>p. decrypt_key ax (rr_key r) (dp_secret x) = Opened p"
  using assms by (auto simp: registry_wf_def records_wf_def)

lemma decrypt_encrypt:
  assumes "seal_law ax" and "length key = 32" and "length n = nonce_size" and "encrypt_key ax key (Some n) p = Some s"
  shows "decrypt_key ax key s = Opened p"
  using assms by (auto simp: encrypt_key_def decrypt_key_def seal_law_def)

lemma load_records_wf: "load_records ax key xs m = Ran m' \<Longrightarrow> records_wf ax key m \<Longrightarrow> records_wf ax key m'"
  by (induction xs arbitrary: m) (auto split: opened.splits intro: records_wf_mput)

lemma registry_load_wf:
  assumes "registry_load ax readable r0 = Ran r" and "wf_map (rr_env r0)" and "rr_dynamic r0 = []" shows "registry_wf ax r"
proof -
  have "rr_dynamic r = [] \<and> rr_env r = rr_env r0 \<or>
     (\<exists>xs. load_records ax (rr_key r0) xs [] = Ran (rr_dynamic r) \<and> rr_env r = rr_env r0 \<and> rr_key r = rr_key r0)"
    using assms(1,3) by (auto simp: registry_load_def split: if_splits read.splits ran.splits)
  then show ?thesis using assms(2) load_records_wf [of ax "rr_key r0" _ "[]" "rr_dynamic r"] by (auto simp: registry_wf_def)
qed

lemma registry_new_wf: "registry_new ax readable p kt env d = Ran r \<Longrightarrow> wf_map env \<Longrightarrow> registry_wf ax r"
  by (auto simp: registry_new_def Let_def split: if_splits option.splits intro: registry_load_wf)

lemma notify_fields [simp]: "rr_dynamic (notify r) = rr_dynamic r" "rr_env (notify r) = rr_env r" "rr_key (notify r) = rr_key r"
  "rr_path (notify r) = rr_path r" "rr_disk (notify r) = rr_disk r"
  by (simp_all add: notify_def)

text \<open>One call of the registry.\<close>

datatype registry_event =
    RCreate io "string option" configs provider_input instant
  | RUpdate io "string option" string provider_input instant instant
  | REnable io string bool instant
  | RDelete io string
  | REnv configs
  | RHook

fun registry_step :: "url_parser \<Rightarrow> (string \<Rightarrow> string) \<Rightarrow> aead \<Rightarrow> registry \<Rightarrow> registry_event \<Rightarrow> registry" where
  "registry_step parse id_hash ax r (RCreate io nonce ext inp now) = snd (registry_create parse id_hash ax io nonce ext inp now r)"
| "registry_step parse id_hash ax r (RUpdate io nonce i inp now now') = snd (registry_update parse id_hash ax io nonce i inp now now' r)"
| "registry_step parse id_hash ax r (REnable io i b now) = snd (registry_set_enabled io i b now r)"
| "registry_step parse id_hash ax r (RDelete io i) = snd (registry_delete io i r)"
| "registry_step parse id_hash ax r (REnv env) = set_environment env r"
| "registry_step parse id_hash ax r RHook = set_on_changed r"

text \<open>The nonce is as long as it was asked for, and an environment is a map.\<close>

fun event_ok :: "registry_event \<Rightarrow> bool" where
  "event_ok (RCreate io nonce ext inp now) \<longleftrightarrow> (\<forall>n. nonce = Some n \<longrightarrow> length n = nonce_size)"
| "event_ok (RUpdate io nonce i inp now now') \<longleftrightarrow> (\<forall>n. nonce = Some n \<longrightarrow> length n = nonce_size)"
| "event_ok (REnv env) \<longleftrightarrow> wf_map env"
| "event_ok _ \<longleftrightarrow> True"

lemma registry_persist_eq: "registry_persist io r =
    (rr_path r = '''' \<or> io_ok io, r\<lparr>rr_disk := (if rr_path r = '''' then rr_disk r else snd (write_atomic io (registry_doc r) (rr_disk r)))\<rparr>)"
  using write_atomic_ok [of io "registry_doc r" "rr_disk r"] by (auto simp: registry_persist_def split: prod.split)

lemma registry_wf_same: "registry_wf ax r \<Longrightarrow> rr_env r' = rr_env r \<Longrightarrow> rr_dynamic r' = rr_dynamic r \<Longrightarrow> rr_key r' = rr_key r \<Longrightarrow> registry_wf ax r'"
  by (simp add: registry_wf_def)

lemma registry_wf_put:
  "registry_wf ax r \<Longrightarrow> dp_id x = i \<Longrightarrow> decrypt_key ax (rr_key r) (dp_secret x) = Opened p \<Longrightarrow>
     registry_wf ax (r\<lparr>rr_dynamic := mput i x (rr_dynamic r)\<rparr>)"
  by (auto simp: registry_wf_def intro: records_wf_mput)

lemma registry_wf_del: "registry_wf ax r \<Longrightarrow> registry_wf ax (r\<lparr>rr_dynamic := mdel i (rr_dynamic r)\<rparr>)"
  by (auto simp: registry_wf_def intro: records_wf_mdel)

lemma registry_wf_frame [simp]:
  "registry_wf ax (r\<lparr>rr_disk := d\<rparr>) = registry_wf ax r" "registry_wf ax (notify r) = registry_wf ax r"
  "registry_wf ax (r\<lparr>rr_notified := n\<rparr>) = registry_wf ax r" "registry_wf ax (r\<lparr>rr_hook := b\<rparr>) = registry_wf ax r"
  by (auto simp: registry_wf_def notify_def)

lemma encrypt_opened:
  assumes "seal_law ax" and "length key = 32" and "\<forall>n. nonce = Some n \<longrightarrow> length n = nonce_size" and "encrypt_key ax key nonce p = Some s"
  shows "decrypt_key ax key s = Opened p"
  using assms decrypt_encrypt by (cases nonce) (auto simp: encrypt_key_def)

lemma create_cases:
  assumes "registry_create parse id_hash ax io nonce ext inp now r = (res, r')"
  obtains (refused) e where "res = Stopped e" "r' = r"
  | (stored) v x where "validate_input parse id_hash True inp = Inr v" "length (rr_key r) = 32"
      "encrypt_key ax (rr_key r) nonce (pi_api_key v) = Some (dp_secret x)" "dp_id x = pi_id v"
      "map_of (rr_env r) (pi_id v) = None" "map_of (rr_dynamic r) (pi_id v) = None"
      "let p = registry_persist io (r\<lparr>rr_dynamic := mput (pi_id v) x (rr_dynamic r)\<rparr>) in
       if fst p then res = Ran (view_dynamic x) \<and> r' = notify (snd p)
       else res = Stopped RegistryWrite \<and> r' = (snd p)\<lparr>rr_dynamic := mdel (pi_id v) (rr_dynamic (snd p))\<rparr>"
proof (cases "validate_input parse id_hash True inp")
  case (Inl e)
  then have "res = Stopped e" "r' = r" using assms by (simp_all add: registry_create_def)
  then show ?thesis by (rule refused)
next
  case (Inr v)
  let ?bad = "length (rr_key r) \<noteq> 32 \<or> map_of (rr_env r) (pi_id v) \<noteq> None \<or>
      map_of (external_configs ext) (pi_id v) \<noteq> None \<or> map_of (rr_dynamic r) (pi_id v) \<noteq> None \<or>
      encrypt_key ax (rr_key r) nonce (pi_api_key v) = None"
  show ?thesis
  proof (cases ?bad)
    case True
    then have "(\<exists>e. res = Stopped e) \<and> r' = r" using assms Inr
      by (auto simp: registry_create_def split: if_splits option.splits)
    then show ?thesis using refused by blast
  next
    case False
    then obtain sec where sec: "encrypt_key ax (rr_key r) nonce (pi_api_key v) = Some sec" by auto
    let ?x = "\<lparr>dp_id = pi_id v, dp_name = pi_name v, dp_base_url = pi_base_url v, dp_kind = pi_kind v,
                dp_enabled = (case pi_enabled v of None \<Rightarrow> True | Some b \<Rightarrow> b), dp_secret = sec,
                dp_mask = mask_api_key (pi_api_key v), dp_verified = now, dp_created = now, dp_updated = now\<rparr>"
    show ?thesis
      by (rule stored [OF Inr, of ?x])
         (use assms Inr False sec in \<open>simp_all add: registry_create_def case_prod_beta' Let_def split: if_splits\<close>)
  qed
qed

lemma update_cases:
  assumes "registry_update parse id_hash ax io nonce i inp now now' r = (res, r')"
  obtains (refused) "r' = r"
  | (stored) v old sec m where "map_of (rr_dynamic r) (registry_id i) = Some old" "length (rr_key r) = 32"
      "sec = dp_secret old \<or> encrypt_key ax (rr_key r) nonce (pi_api_key v) = Some sec"
      "(res, r') = view_after (registry_persist io (r\<lparr>rr_dynamic := mput (registry_id i) (update_record v sec m now now' old) (rr_dynamic r)\<rparr>))
         (update_record v sec m now now' old)"
proof (cases "map_of (rr_env r) (registry_id i) \<noteq> None \<or> (\<forall>v. resolve_input parse id_hash ax (registry_id i) inp r \<noteq> Ran v)")
  case True
  then have "r' = r" using assms by (auto simp: registry_update_def Let_def split: ran.splits if_splits)
  then show ?thesis by (rule refused)
next
  case False
  then obtain v where v: "map_of (rr_env r) (registry_id i) = None" "resolve_input parse id_hash ax (registry_id i) inp r = Ran v" by auto
  show ?thesis
  proof (cases "length (rr_key r) = 32 \<and> map_of (rr_dynamic r) (registry_id i) \<noteq> None")
    case False
    then have "r' = r" using assms v by (auto simp: registry_update_def Let_def split: if_splits)
    then show ?thesis by (rule refused)
  next
    case True
    then obtain old where old: "length (rr_key r) = 32" "map_of (rr_dynamic r) (registry_id i) = Some old" by auto
    let ?pick = "if pi_api_key inp = '''' then Some (dp_secret old, dp_mask old)
        else map_option (\<lambda>s. (s, mask_api_key (pi_api_key v))) (encrypt_key ax (rr_key r) nonce (pi_api_key v))"
    show ?thesis
    proof (cases ?pick)
      case None
      then have "r' = r" using assms v old by (simp add: registry_update_def)
      then show ?thesis by (rule refused)
    next
      case (Some p)
      obtain sec m where p: "p = (sec, m)" by (cases p)
      have "sec = dp_secret old \<or> encrypt_key ax (rr_key r) nonce (pi_api_key v) = Some sec"
        using Some p by (auto split: if_splits)
      then show ?thesis
        by (rule stored [where v = v and sec = sec and m = m, OF old(2,1)]) (use assms v old Some p in \<open>simp add: registry_update_def Let_def\<close>)
    qed
  qed
qed

text \<open>What a successful create, update or enable stores; everything else leaves the dynamic records alone or deletes one.\<close>

lemma registry_changes:
  assumes law: "seal_law ax" and wf: "registry_wf ax r" and ok: "event_ok e" and "registry_step parse id_hash ax r e = r'"
  shows "rr_key r' = rr_key r \<and> rr_path r' = rr_path r \<and> wf_map (rr_env r') \<and>
     (rr_dynamic r' = rr_dynamic r \<or> (\<exists>i. rr_dynamic r' = mdel i (rr_dynamic r)) \<or>
      (\<exists>i x. rr_dynamic r' = mdel i (mput i x (rr_dynamic r))) \<or>
      (\<exists>i x p. rr_dynamic r' = mput i x (rr_dynamic r) \<and> dp_id x = i \<and> decrypt_key ax (rr_key r) (dp_secret x) = Opened p))"
proof (cases e)
  case (RCreate io nonce ext inp now)
  have nonce: "\<forall>n. nonce = Some n \<longrightarrow> length n = nonce_size" using ok RCreate by simp
  obtain res where "registry_create parse id_hash ax io nonce ext inp now r = (res, r')"
    using assms(4) RCreate by (metis prod.collapse registry_step.simps(1))
  then show ?thesis
  proof (cases rule: create_cases)
    case (refused e)
    then show ?thesis using registry_wfD(1) [OF wf] by simp
  next
    case (stored v x)
    have "decrypt_key ax (rr_key r) (dp_secret x) = Opened (pi_api_key v)"
      by (rule encrypt_opened [OF law stored(2) nonce stored(3)])
    then show ?thesis using stored(4,7) registry_wfD(1) [OF wf]
      by (auto simp: registry_persist_eq Let_def split: if_splits)
  qed
next
  case (RUpdate io nonce i inp now now')
  have nonce: "\<forall>n. nonce = Some n \<longrightarrow> length n = nonce_size" using ok RUpdate by simp
  obtain res where "registry_update parse id_hash ax io nonce i inp now now' r = (res, r')"
    using assms(4) RUpdate by (metis prod.collapse registry_step.simps(2))
  then show ?thesis
  proof (cases rule: update_cases)
    case refused
    then show ?thesis using registry_wfD(1) [OF wf] by simp
  next
    case (stored v old sec m)
    have old: "dp_id old = registry_id i" "\<exists>p. decrypt_key ax (rr_key r) (dp_secret old) = Opened p"
      using registry_wfD(3,4) [OF wf stored(1)] by blast+
    have "\<exists>p. decrypt_key ax (rr_key r) sec = Opened p"
      using stored(3) old(2) encrypt_opened [OF law stored(2) nonce] by blast
    moreover have "dp_id (update_record v sec m now now' old) = registry_id i" "dp_secret (update_record v sec m now now' old) = sec"
      using old(1) by (simp_all add: update_record_def)
    moreover have "rr_dynamic r' = mput (registry_id i) (update_record v sec m now now' old) (rr_dynamic r) \<and>
        rr_key r' = rr_key r \<and> rr_path r' = rr_path r \<and> rr_env r' = rr_env r"
      using stored(4) by (auto simp: view_after_def registry_persist_eq split: if_splits)
    ultimately show ?thesis using registry_wfD(1) [OF wf] by metis
  qed
next
  case (REnable io i b now)
  show ?thesis
  proof (cases "map_of (rr_env r) (registry_id i) = None \<and> map_of (rr_dynamic r) (registry_id i) \<noteq> None")
    case True
    then obtain x where x: "map_of (rr_dynamic r) (registry_id i) = Some x" by blast
    let ?y = "x\<lparr>dp_enabled := b, dp_updated := now\<rparr>"
    have "rr_dynamic r' = mput (registry_id i) ?y (rr_dynamic r) \<and> rr_key r' = rr_key r \<and> rr_path r' = rr_path r \<and> rr_env r' = rr_env r"
      using assms(4) REnable True x
      by (auto simp: registry_set_enabled_def view_after_def registry_persist_eq Let_def)
    moreover have "dp_id ?y = registry_id i" "\<exists>p. decrypt_key ax (rr_key r) (dp_secret ?y) = Opened p"
      using registry_wfD(3,4) [OF wf x] by simp_all
    ultimately show ?thesis using registry_wfD(1) [OF wf] by metis
  next
    case False
    then have "r' = r" using assms(4) REnable by (auto simp: registry_set_enabled_def Let_def split: option.splits)
    then show ?thesis using registry_wfD(1) [OF wf] by simp
  qed
next
  case (RDelete io i)
  then show ?thesis using assms(4) registry_wfD [OF wf]
    by (auto simp: registry_delete_def registry_persist_eq Let_def split: option.splits if_splits)
qed (use assms(3,4) registry_wfD(1) [OF wf] in \<open>auto simp: set_environment_def set_on_changed_def\<close>)

lemma registry_wf_step:
  assumes "seal_law ax" and "registry_wf ax r" and "event_ok e" shows "registry_wf ax (registry_step parse id_hash ax r e)"
proof -
  have "records_wf ax (rr_key r) (rr_dynamic r)" using assms(2) by (simp add: registry_wf_def)
  moreover have "records_wf ax key (mdel i (mput i x m))" if "records_wf ax key m" for key i x m
    using that by (auto simp: records_wf_def)
  ultimately show ?thesis
    using registry_changes [OF assms refl, of parse id_hash] unfolding registry_wf_def
    by (auto intro: records_wf_mput records_wf_mdel)
qed

lemma registry_wf_run:
  "seal_law ax \<Longrightarrow> registry_wf ax r \<Longrightarrow> \<forall>e \<in> set es. event_ok e \<Longrightarrow> registry_wf ax (foldl (registry_step parse id_hash ax) r es)"
  by (induction es arbitrary: r) (simp_all add: registry_wf_step)

section \<open>What the registry offers\<close>

lemma overlay_lookup: "wf_map over \<Longrightarrow> map_of (overlay base over) i = (case map_of over i of Some c \<Rightarrow> Some c | None \<Rightarrow> map_of base i)"
proof (induction over arbitrary: base)
  case Nil
  then show ?case by (simp add: overlay_def)
next
  case (Cons p over)
  obtain j c where p: "p = (j, c)" by (cases p)
  have step: "map_of (overlay (mput j c base) over) i = (case map_of over i of Some c \<Rightarrow> Some c | None \<Rightarrow> map_of (mput j c base) i)"
    using Cons by (simp add: wf_map_def)
  have "map_of over j = None" using Cons.prems p by (simp add: wf_map_def map_of_eq_None_iff)
  then show ?case using step by (auto simp: overlay_def p split: option.split)
qed

text \<open>What one stored record contributes to the configurations.\<close>

definition choice :: "aead \<Rightarrow> string \<Rightarrow> dyn_provider \<Rightarrow> provider_config option \<Rightarrow> provider_config option" where
  "choice ax key x other =
     (if dp_enabled x then (case decrypt_key ax key (dp_secret x) of Opened k \<Rightarrow> Some (dynamic_config k x) | _ \<Rightarrow> None) else other)"

text \<open>The configuration of one identifier, as a specification.\<close>

definition offered :: "aead \<Rightarrow> configs \<Rightarrow> registry \<Rightarrow> string \<Rightarrow> provider_config option" where
  "offered ax ext r i =
     (case map_of ext i of
        Some c \<Rightarrow> Some (c\<lparr>pc_source := (if pc_source c = '''' then ''external'' else pc_source c), pc_enabled := True\<rparr>)
      | None \<Rightarrow>
          (case (map_of (rr_dynamic r) i, map_of (rr_env r) i) of
             (Some x, e) \<Rightarrow>
               choice ax (rr_key r) x (case e of Some c \<Rightarrow> if enabled_or_default c then Some c else None | None \<Rightarrow> None)
           | (None, Some c) \<Rightarrow> if enabled_or_default c then Some c else None
           | (None, None) \<Rightarrow> None))"

lemma add_dynamic_lookup:
  "distinct (map dp_id xs) \<Longrightarrow> \<forall>x \<in> set xs. \<exists>p. decrypt_key ax key (dp_secret x) = Opened p \<Longrightarrow>
     \<exists>cs. add_dynamic ax key xs out = Some cs \<and>
       map_of cs i = (case find (\<lambda>x. dp_id x = i) xs of Some x \<Rightarrow> choice ax key x (map_of out i) | None \<Rightarrow> map_of out i)"
proof (induction xs arbitrary: out)
  case (Cons x xs)
  obtain k where k: "decrypt_key ax key (dp_secret x) = Opened k" using Cons.prems(2) by auto
  have tl: "distinct (map dp_id xs)" "\<forall>x \<in> set xs. \<exists>p. decrypt_key ax key (dp_secret x) = Opened p" using Cons.prems by auto
  have none: "find (\<lambda>y. dp_id y = dp_id x) xs = None"
    using Cons.prems(1) by (auto simp: find_None_iff) (metis image_eqI)
  have hit: "dp_id y = i" if "find (\<lambda>x. dp_id x = i) xs = Some y" for y using that by (auto simp: find_Some_iff)
  let ?out = "if dp_enabled x then mput (dp_id x) (dynamic_config k x) out else out"
  obtain cs where cs: "add_dynamic ax key xs ?out = Some cs"
    "map_of cs i = (case find (\<lambda>x. dp_id x = i) xs of Some x \<Rightarrow> choice ax key x (map_of ?out i) | None \<Rightarrow> map_of ?out i)"
    using Cons.IH [OF tl, of ?out] by blast
  have "add_dynamic ax key (x # xs) out = Some cs" using cs(1) k by (simp split: if_splits)
  moreover have "map_of cs i = (case find (\<lambda>x. dp_id x = i) (x # xs) of Some x \<Rightarrow> choice ax key x (map_of out i) | None \<Rightarrow> map_of out i)"
  proof (cases "dp_id x = i")
    case True
    then show ?thesis using cs(2) k none by (auto simp: choice_def)
  next
    case False
    then show ?thesis using cs(2) by (auto split: option.split)
  qed
  ultimately show ?case by blast
qed simp

lemma find_vals: "(\<And>i x. map_of m i = Some x \<Longrightarrow> f x = i) \<Longrightarrow> wf_map m \<Longrightarrow> find (\<lambda>x. f x = i) (map snd m) = map_of m i"
proof (induction m)
  case (Cons p m)
  obtain j x where p: "p = (j, x)" by (cases p)
  have none: "map_of m j = None" using Cons.prems(2) p by (simp add: wf_map_def map_of_eq_None_iff)
  have "f y = k" if "map_of m k = Some y" for k y
    using Cons.prems(1) [of k y] that none by (cases "k = j") (auto simp: p)
  moreover have "f x = j" using Cons.prems(1) [of j x] p by simp
  ultimately show ?case using Cons.IH Cons.prems(2) p by (auto simp: wf_map_def)
qed simp

lemma ids_distinct: "(\<And>i x. map_of m i = Some x \<Longrightarrow> f x = i) \<Longrightarrow> wf_map m \<Longrightarrow> map f (map snd m) = map fst m"
  using map_of_wf [of m] by (auto intro!: map_cong)

lemma snapshot_offered:
  assumes "registry_wf ax r" and "wf_map ext"
  shows "\<exists>cs. registry_snapshot ax ext r = Some cs \<and> map_of cs i = offered ax ext r i"
proof -
  have ids: "map dp_id (map snd (rr_dynamic r)) = map fst (rr_dynamic r)"
    by (rule ids_distinct) (use registry_wfD [OF assms(1)] in auto)
  have dist: "distinct (map dp_id (map snd (rr_dynamic r)))" unfolding ids using registry_wfD(2) [OF assms(1)] by (simp add: wf_map_def)
  have opened: "\<forall>x \<in> set (map snd (rr_dynamic r)). \<exists>p. decrypt_key ax (rr_key r) (dp_secret x) = Opened p"
    using registry_wfD(4) [OF assms(1)] map_of_wf [OF registry_wfD(2) [OF assms(1)]] by fastforce
  let ?env = "filter (\<lambda>(i, c). enabled_or_default c) (rr_env r)"
  have env: "map_of ?env i = (case map_of (rr_env r) i of Some c \<Rightarrow> if enabled_or_default c then Some c else None | None \<Rightarrow> None)"
    using map_of_filter_wf [OF registry_wfD(1) [OF assms(1)], of "\<lambda>(i, c). enabled_or_default c" i] by (auto split: option.split)
  have found: "find (\<lambda>x. dp_id x = i) (map snd (rr_dynamic r)) = map_of (rr_dynamic r) i"
    by (rule find_vals) (use registry_wfD [OF assms(1)] in auto)
  obtain out where out: "add_dynamic ax (rr_key r) (map snd (rr_dynamic r)) ?env = Some out"
    "map_of out i = (case map_of (rr_dynamic r) i of
        Some x \<Rightarrow> choice ax (rr_key r) x (map_of ?env i)
      | None \<Rightarrow> map_of ?env i)"
    using add_dynamic_lookup [OF dist opened, of ?env i] unfolding found by auto
  have "wf_map (external_configs ext)" using assms(2) by (simp add: external_configs_def)
  then have "map_of (overlay out (external_configs ext)) i = offered ax ext r i"
    using out(2) env by (auto simp: overlay_lookup offered_def external_configs_def split: option.splits)
  then show ?thesis using out(1) by (auto simp: registry_snapshot_def)
qed

text \<open>
  C12. Whatever operators do to the registry, the configurations it offers are those of a simple
  specification, one identifier at a time: an integration's provider comes first, then an enabled
  provider that was added, with the key that was stored for it, then an enabled provider of the
  environment; and taking the snapshot never panics.
\<close>

theorem snapshot_implements_offered:
  assumes "seal_law ax" and "registry_new ax readable p kt env d = Ran r0" and "wf_map env" and "\<forall>e \<in> set es. event_ok e"
    and "wf_map ext" and "r = foldl (registry_step parse id_hash ax) r0 es"
  shows "\<exists>cs. registry_snapshot ax ext r = Some cs \<and> (\<forall>i. map_of cs i = offered ax ext r i)"
proof -
  have "registry_wf ax r" unfolding assms(6)
    by (rule registry_wf_run [OF assms(1) registry_new_wf [OF assms(2,3)] assms(4)])
  then have "\<exists>cs. registry_snapshot ax ext r = Some cs \<and> map_of cs i = offered ax ext r i" for i
    using snapshot_offered assms(5) by blast
  then show ?thesis by (metis option.inject)
qed

definition plain_aead :: aead where
  "plain_aead = \<lparr>ax_seal = (\<lambda>k n p. p), ax_open = (\<lambda>k n c. Some c)\<rparr>"

lemma plain_law: "seal_law plain_aead"
  by (simp add: seal_law_def plain_aead_def)

definition sample_parse :: url_parser where
  "sample_parse s = Some \<lparr>ur_scheme = ''https'', ur_user = False, ur_host = ''h'', ur_host_text = ''h'', ur_path = '''', ur_query = '''',
     ur_force_query = False, ur_fragment = ''''\<rparr>"

definition sample_registry :: registry where
  "sample_registry = \<lparr>rr_path = ''f'', rr_key = replicate 32 CHR 0x00, rr_env = [], rr_dynamic = [], rr_disk = blank_disk,
     rr_hook = False, rr_notified = 0\<rparr>"

lemma sample_registry_new: "registry_new plain_aead True ''f'' (replicate 43 CHR ''A'') [] blank_disk = Ran sample_registry"
  by code_simp

definition sample_create :: registry_event where
  "sample_create = RCreate good_io (Some (replicate 12 CHR ''n'')) []
     \<lparr>pi_id = ''acme'', pi_name = ''Acme'', pi_base_url = ''https://h'', pi_api_key = ''k1'', pi_kind = '''', pi_enabled = None\<rparr> 5"

theorem snapshot_implements_offered_witness:
  "\<exists>cs c. registry_snapshot plain_aead [] (registry_step sample_parse (\<lambda>n. ''000000'') plain_aead sample_registry sample_create) = Some cs \<and>
     map_of cs ''acme'' = Some c \<and> pc_api_key c = ''k1'' \<and> pc_base_url c = ''https://h/v1''"
proof -
  let ?r = "registry_step sample_parse (\<lambda>n. ''000000'') plain_aead sample_registry sample_create"
  have off: "map_option (\<lambda>c. (pc_api_key c, pc_base_url c)) (offered plain_aead [] ?r ''acme'') = Some (''k1'', ''https://h/v1'')"
    by code_simp
  have "\<forall>e \<in> set [sample_create]. event_ok e" by (simp add: sample_create_def nonce_size_def)
  from snapshot_implements_offered [OF plain_law sample_registry_new _ this, of "[]" ?r sample_parse "\<lambda>n. ''000000''"]
  obtain cs where "registry_snapshot plain_aead [] ?r = Some cs" "map_of cs ''acme'' = offered plain_aead [] ?r ''acme''" by auto
  then show ?thesis using off by auto
qed

section \<open>Writes that fail\<close>

text \<open>
  When the document cannot be written, only Create takes its change back. Enabling, disabling and
  deleting report an error and yet keep the change in memory, without telling the listeners and
  without touching the document: until the next restart the registry offers something else than
  what is stored.
\<close>

theorem only_create_is_undone:
  assumes "rr_path r \<noteq> ''''" and "\<not> io_ok io" and "map_of (rr_env r) (registry_id i) = None"
    and "map_of (rr_dynamic r) (registry_id i) = Some x"
  shows "map_of (rr_dynamic (snd (registry_create parse id_hash ax io nonce ext inp now r))) = map_of (rr_dynamic r) \<and>
    (\<exists>r'. registry_set_enabled io i b now r = (Stopped RegistryWrite, r') \<and>
       map_of (rr_dynamic r') (registry_id i) = Some (x\<lparr>dp_enabled := b, dp_updated := now\<rparr>) \<and>
       d_file (rr_disk r') = d_file (rr_disk r) \<and> rr_notified r' = rr_notified r) \<and>
    (\<exists>r'. registry_delete io i r = (Some RegistryWrite, r') \<and> map_of (rr_dynamic r') (registry_id i) = None \<and>
       d_file (rr_disk r') = d_file (rr_disk r) \<and> rr_notified r' = rr_notified r)"
proof (intro conjI)
  obtain res r' where c: "registry_create parse id_hash ax io nonce ext inp now r = (res, r')" by (metis prod.collapse)
  then have "map_of (rr_dynamic r') = map_of (rr_dynamic r)"
    by (cases rule: create_cases) (auto simp: registry_persist_eq assms(1,2) Let_def)
  then show "map_of (rr_dynamic (snd (registry_create parse id_hash ax io nonce ext inp now r))) = map_of (rr_dynamic r)" by (simp add: c)
qed (use assms in \<open>simp_all add: registry_set_enabled_def registry_delete_def view_after_def registry_persist_eq write_atomic_file Let_def\<close>)

lemma sample_dynamic:
  "map (\<lambda>(i, x). (i, dp_enabled x)) (rr_dynamic (registry_step sample_parse (\<lambda>n. ''000000'') plain_aead sample_registry sample_create))
     = [(''acme'', True)]"
  by code_simp

theorem only_create_is_undone_witness:
  "\<exists>r'. registry_set_enabled \<lparr>io_mkdir = True, io_write = False, io_rename = True\<rparr> ''Acme'' False 9
       (registry_step sample_parse (\<lambda>n. ''000000'') plain_aead sample_registry sample_create) = (Stopped RegistryWrite, r') \<and>
     (\<exists>x. map_of (rr_dynamic r') ''acme'' = Some x \<and> \<not> dp_enabled x)"
proof -
  let ?r = "registry_step sample_parse (\<lambda>n. ''000000'') plain_aead sample_registry sample_create"
  obtain x where x: "map_of (rr_dynamic ?r) ''acme'' = Some x" using sample_dynamic by (cases "rr_dynamic ?r") auto
  have i: "registry_id ''Acme'' = ''acme''" "rr_path ?r \<noteq> ''''" "map_of (rr_env ?r) ''acme'' = None" by code_simp+
  have bad: "\<not> io_ok \<lparr>io_mkdir = True, io_write = False, io_rename = True\<rparr>" by (simp add: io_ok_def)
  note undone = only_create_is_undone [where i = "''Acme''" and b = False and now = 9, unfolded i(1), OF i(2) bad i(3) x]
  then obtain r' where "registry_set_enabled \<lparr>io_mkdir = True, io_write = False, io_rename = True\<rparr> ''Acme'' False 9 ?r = (Stopped RegistryWrite, r')"
    "map_of (rr_dynamic r') ''acme'' = Some (x\<lparr>dp_enabled := False, dp_updated := 9\<rparr>)" by blast
  then show ?thesis by auto
qed

section \<open>Restarting\<close>

fun event_writes :: "registry_event \<Rightarrow> bool" where
  "event_writes (RCreate io nonce ext inp now) \<longleftrightarrow> io_ok io"
| "event_writes (RUpdate io nonce i inp now now') \<longleftrightarrow> io_ok io"
| "event_writes (REnable io i b now) \<longleftrightarrow> io_ok io"
| "event_writes (RDelete io i) \<longleftrightarrow> io_ok io"
| "event_writes _ \<longleftrightarrow> True"

definition registry_saved :: "registry \<Rightarrow> bool" where
  "registry_saved r \<longleftrightarrow>
     (case d_file (rr_disk r) of
        Missing \<Rightarrow> rr_dynamic r = [] | Torn \<Rightarrow> False | Doc xs \<Rightarrow> mset xs = mset (map snd (rr_dynamic r)))"

lemma registry_saved_write: "io_ok io \<Longrightarrow> rr_path r \<noteq> '''' \<Longrightarrow> registry_saved (snd (registry_persist io r))"
  by (simp add: registry_saved_def registry_persist_eq write_atomic_file registry_doc_def mset_sort_by)

lemma registry_saved_notify [simp]: "registry_saved (notify r) = registry_saved r"
  by (simp add: registry_saved_def split: content.split)

lemma view_after_saved: "io_ok io \<Longrightarrow> rr_path r \<noteq> '''' \<Longrightarrow> registry_saved (snd (view_after (registry_persist io r) x))"
  using registry_saved_write [of io r] by (auto simp: view_after_def split: prod.split)

lemma registry_saved_step:
  assumes "registry_saved r" and "rr_path r \<noteq> ''''" and "event_writes e" shows "registry_saved (registry_step parse id_hash ax r e)"
proof (cases e)
  case (RCreate io nonce ext inp now)
  obtain res r' where c: "registry_create parse id_hash ax io nonce ext inp now r = (res, r')" by (metis prod.collapse)
  from c have "registry_saved r'"
  proof (cases rule: create_cases)
    case (stored v x)
    let ?r1 = "r\<lparr>rr_dynamic := mput (pi_id v) x (rr_dynamic r)\<rparr>"
    have "registry_saved (snd (registry_persist io ?r1))" using assms(2,3) RCreate by (intro registry_saved_write) simp_all
    moreover have "fst (registry_persist io ?r1)" using assms(3) RCreate by (simp add: registry_persist_eq)
    ultimately show ?thesis using stored(7) by (simp add: Let_def)
  qed (simp add: assms(1))
  then show ?thesis using RCreate c by simp
next
  case (RUpdate io nonce i inp now now')
  obtain res r' where c: "registry_update parse id_hash ax io nonce i inp now now' r = (res, r')" by (metis prod.collapse)
  from c have "registry_saved r'"
  proof (cases rule: update_cases)
    case (stored v old sec m)
    let ?x = "update_record v sec m now now' old"
    have "registry_saved (snd (view_after (registry_persist io (r\<lparr>rr_dynamic := mput (registry_id i) ?x (rr_dynamic r)\<rparr>)) ?x))"
      using assms(2,3) RUpdate by (intro view_after_saved) simp_all
    then show ?thesis by (metis stored(4) snd_conv)
  qed (simp add: assms(1))
  then show ?thesis using RUpdate c by simp
next
  case (REnable io i b now)
  then show ?thesis using assms
    by (auto simp: registry_set_enabled_def Let_def split: option.split intro!: view_after_saved)
next
  case (RDelete io i)
  then show ?thesis using assms registry_saved_write [of io "r\<lparr>rr_dynamic := mdel (registry_id i) (rr_dynamic r)\<rparr>"]
    by (auto simp: registry_delete_def Let_def split: option.split prod.split)
qed (use assms in \<open>simp_all add: set_environment_def set_on_changed_def registry_saved_def split: content.splits\<close>)

lemma registry_frame_run:
  "seal_law ax \<Longrightarrow> registry_wf ax r \<Longrightarrow> \<forall>e \<in> set es. event_ok e \<Longrightarrow>
     rr_key (foldl (registry_step parse id_hash ax) r es) = rr_key r \<and> rr_path (foldl (registry_step parse id_hash ax) r es) = rr_path r"
proof (induction es arbitrary: r)
  case (Cons e es)
  then show ?case using registry_changes [OF Cons.prems(1,2) _ refl, of e parse id_hash]
    by (simp add: registry_wf_step)
qed simp

lemma registry_saved_run:
  "seal_law ax \<Longrightarrow> registry_wf ax r \<Longrightarrow> registry_saved r \<Longrightarrow> rr_path r \<noteq> '''' \<Longrightarrow> \<forall>e \<in> set es. event_ok e \<and> event_writes e \<Longrightarrow>
     registry_saved (foldl (registry_step parse id_hash ax) r es)"
proof (induction es arbitrary: r)
  case (Cons e es)
  then show ?case using registry_changes [OF Cons.prems(1,2) _ refl, of e parse id_hash]
    by (simp add: registry_wf_step registry_saved_step)
qed simp

lemma load_records_all:
  "\<forall>x \<in> set xs. \<exists>p. decrypt_key ax key (dp_secret x) = Opened p \<Longrightarrow>
     \<exists>m'. load_records ax key xs m = Ran m' \<and> map_of m' = map_of (rev (map (\<lambda>x. (dp_id x, x)) xs) @ m)"
proof (induction xs arbitrary: m)
  case (Cons x xs)
  obtain p where p: "decrypt_key ax key (dp_secret x) = Opened p" using Cons.prems by auto
  have "\<forall>x \<in> set xs. \<exists>p. decrypt_key ax key (dp_secret x) = Opened p" using Cons.prems by simp
  from Cons.IH [OF this, of "mput (dp_id x) x m"] obtain m' where
    "load_records ax key xs (mput (dp_id x) x m) = Ran m'"
    "map_of m' = map_of (rev (map (\<lambda>x. (dp_id x, x)) xs) @ mput (dp_id x) x m)" by blast
  then show ?case using p by (intro exI [of _ m']) (simp add: update_conv')
qed simp

text \<open>
  A restart keeps the providers: after any operations whose writes succeeded, starting again with
  the same document and the same credential key gives the same records under the same identifiers,
  every stored API key decrypts again, and the same key is in use.
\<close>

theorem restart_keeps_providers:
  assumes "seal_law ax" and "registry_new ax readable p kt env blank_disk = Ran r0" and "p \<noteq> ''''" and "wf_map env"
    and "\<forall>e \<in> set es. event_ok e \<and> event_writes e" and "r = foldl (registry_step parse id_hash ax) r0 es"
  shows "\<exists>r'. registry_new ax True p kt env' (rr_disk r) = Ran r' \<and> map_of (rr_dynamic r') = map_of (rr_dynamic r) \<and> rr_key r' = rr_key r"
proof -
  have key: "trim_space kt = '''' \<and> rr_key r0 = '''' \<or> trim_space kt \<noteq> '''' \<and> decode_master_key (trim_space kt) = Some (rr_key r0)"
    and start: "rr_path r0 = p" "registry_saved r0" "rr_dynamic r0 = []"
    using assms(2,3) by (auto simp: registry_new_def registry_load_def read_doc_def blank_disk_def registry_saved_def Let_def
        split: if_splits option.splits)
  have wf0: "registry_wf ax r0" by (rule registry_new_wf [OF assms(2,4)])
  have ok: "\<forall>e \<in> set es. event_ok e" using assms(5) by blast
  have wf: "registry_wf ax r" unfolding assms(6) by (rule registry_wf_run [OF assms(1) wf0 ok])
  have frame: "rr_key r = rr_key r0" "rr_path r = p"
    using registry_frame_run [OF assms(1) wf0 ok] start(1) by (simp_all add: assms(6))
  have "rr_path r0 \<noteq> ''''" using start(1) assms(3) by simp
  from registry_saved_run [OF assms(1) wf0 start(2) this assms(5)] have saved: "registry_saved r" by (simp add: assms(6))
  define r1 where "r1 = \<lparr>rr_path = p, rr_key = rr_key r0, rr_env = env', rr_dynamic = [], rr_disk = rr_disk r, rr_hook = False, rr_notified = 0\<rparr>"
  have new: "registry_new ax True p kt env' (rr_disk r) = registry_load ax True r1"
    using key by (auto simp: registry_new_def r1_def Let_def)
  have "\<exists>r'. registry_load ax True r1 = Ran r' \<and> map_of (rr_dynamic r') = map_of (rr_dynamic r) \<and> rr_key r' = rr_key r"
  proof (cases "d_file (rr_disk r)")
    case Missing
    then show ?thesis using saved frame by (simp add: registry_load_def read_doc_def registry_saved_def r1_def)
  next
    case Torn
    then show ?thesis using saved by (simp add: registry_saved_def)
  next
    case (Doc xs)
    have perm: "mset xs = mset (map snd (rr_dynamic r))" using saved Doc by (simp add: registry_saved_def)
    then have members: "set xs = set (map snd (rr_dynamic r))" by (rule mset_eq_setD)
    have opened: "\<forall>x \<in> set xs. \<exists>p. decrypt_key ax (rr_key r0) (dp_secret x) = Opened p"
      using registry_wfD(4) [OF wf] map_of_wf [OF registry_wfD(2) [OF wf]] frame(1) members by fastforce
    have ids: "map dp_id (map snd (rr_dynamic r)) = map fst (rr_dynamic r)"
      by (rule ids_distinct) (use registry_wfD [OF wf] in auto)
    have "mset (map dp_id xs) = mset (map dp_id (map snd (rr_dynamic r)))" using perm by (metis mset_map)
    then have "distinct (map dp_id xs)" using registry_wfD(2) [OF wf] unfolding ids wf_map_def by (metis mset_eq_imp_distinct_iff)
    then have dist: "wf_map (map (\<lambda>x. (dp_id x, x)) xs)" by (simp add: wf_map_def comp_def)
    have pairs: "map (\<lambda>x. (dp_id x, x)) (map snd (rr_dynamic r)) = rr_dynamic r"
      using registry_wfD(3) [OF wf] map_of_wf [OF registry_wfD(2) [OF wf]] by (auto intro!: map_idI)
    obtain m' where m': "load_records ax (rr_key r0) xs [] = Ran m'" "map_of m' = map_of (rev (map (\<lambda>x. (dp_id x, x)) xs))"
      using load_records_all [OF opened, of "[]"] by auto
    have "map_of m' = map_of (map (\<lambda>x. (dp_id x, x)) xs)" using m'(2) map_of_rev_wf [OF dist] by simp
    also have "\<dots> = map_of (rr_dynamic r)"
    proof (subst map_of_inject_set)
      have "set (map (\<lambda>x. (dp_id x, x)) xs) = set (map (\<lambda>x. (dp_id x, x)) (map snd (rr_dynamic r)))"
        unfolding set_map members by simp
      then show "set (map (\<lambda>x. (dp_id x, x)) xs) = set (rr_dynamic r)" unfolding pairs .
    qed (use dist registry_wfD(2) [OF wf] in \<open>simp_all add: wf_map_def\<close>)
    finally have same: "map_of m' = map_of (rr_dynamic r)" .
    have "xs = [] \<or> length (rr_key r0) = 32"
      using opened by (cases xs) (auto simp: decrypt_key_def split: if_splits)
    then show ?thesis using Doc m'(1) same frame(1) assms(3) by (auto simp: registry_load_def r1_def)
  qed
  then show ?thesis unfolding new .
qed

theorem restart_keeps_providers_witness:
  "\<exists>r'. registry_new plain_aead True ''f'' (replicate 43 CHR ''A'') []
       (rr_disk (registry_step sample_parse (\<lambda>n. ''000000'') plain_aead sample_registry sample_create)) = Ran r' \<and>
     map_of (rr_dynamic r') ''acme'' \<noteq> None"
proof -
  let ?r = "registry_step sample_parse (\<lambda>n. ''000000'') plain_aead sample_registry sample_create"
  have "\<forall>e \<in> set [sample_create]. event_ok e \<and> event_writes e" by (simp add: sample_create_def nonce_size_def)
  from restart_keeps_providers [OF plain_law sample_registry_new _ _ this, of ?r sample_parse "\<lambda>n. ''000000''" "[]"]
  obtain r' where "registry_new plain_aead True ''f'' (replicate 43 CHR ''A'') [] (rr_disk ?r) = Ran r'"
    "map_of (rr_dynamic r') = map_of (rr_dynamic ?r)" by auto
  moreover have "map_of (rr_dynamic ?r) ''acme'' \<noteq> None" using sample_dynamic by (cases "rr_dynamic ?r") auto
  ultimately show ?thesis by auto
qed

end
