(* ===== verification/Http.thy ===== *)
theory Http
  imports Go_Json
begin

text \<open>
  The shape of the handlers of internal/api. A request is its method, its path, the query
  parameters (a missing one reads as the empty string) and the first JSON value of its body, None
  when there is none within the size limit of the handler. A reply is an error status with its text,
  or a value that the handler writes as JSON.
\<close>

record http_request =
  hr_method :: string
  hr_path :: string
  hr_query :: "string \<Rightarrow> string"
  hr_body :: "json option"

datatype 'a reply = HttpError int string | Reply 'a

fun replied :: "'a reply \<Rightarrow> bool" where
  "replied (HttpError c t) \<longleftrightarrow> False"
| "replied (Reply x) \<longleftrightarrow> True"

lemma replied_iff: "replied r \<longleftrightarrow> (\<exists>x. r = Reply x)"
  by (cases r) auto

definition method_not_allowed :: "'a reply" where
  "method_not_allowed = HttpError 405 ''method not allowed''"

definition post_request :: "json \<Rightarrow> http_request" where
  "post_request j = \<lparr>hr_method = ''POST'', hr_path = [], hr_query = (\<lambda>k. []), hr_body = Some j\<rparr>"

end
