(* ===== verification/Approval_Api.thy ===== *)
theory Approval_Api
  imports Catalog_Policy Http Storage Go_Time
begin

text \<open>
  The two interfaces through which operators decide about models (internal/api/model_admission.go
  and governance_rules.go): batches of admissions, and batches of approvals for Auto, each with a
  preview, an undo and a log of revisions that is kept in a document. The approvals are also kept
  as a map of rules beside the catalog, and are applied to the catalog again when the process starts.
  The two change types differ only in the JSON name of their switch; the handlers share the catalog
  manager, which is passed through.
\<close>

section \<open>Changes, revisions and documents\<close>

record rule_change =
  ch_key :: string
  ch_on :: bool

type_synonym admission_change = rule_change

record change_audit =
  ca_revision :: string
  ca_action :: string
  ca_changes :: "rule_change list"
  ca_previous :: "rule_change list"
  ca_at :: instant

type_synonym admission_audit = change_audit

definition dec_change :: "string \<Rightarrow> json \<Rightarrow> rule_change \<times> bool" where
  "dec_change switch j =
     (\<lparr>ch_key = field ''key'' dec_string [] j, ch_on = field switch dec_bool False j\<rparr>,
      field_ok ''key'' dec_string [] j \<and> field_ok switch dec_bool False j)"

text \<open>The decoded request: the changes and the revision; None when decoding fails.\<close>

definition read_request :: "string \<Rightarrow> json option \<Rightarrow> (rule_change list \<times> string) option" where
  "read_request switch body =
     (case body of None \<Rightarrow> None
      | Some j \<Rightarrow>
          if field_ok ''changes'' (dec_slice (dec_change switch)) [] j \<and> field_ok ''revision'' dec_string [] j
          then Some (field ''changes'' (dec_slice (dec_change switch)) [] j, field ''revision'' dec_string [] j)
          else None)"

text \<open>save of both runtimes: the result of creating the directory is ignored.\<close>

definition save_file :: "io \<Rightarrow> string \<Rightarrow> 'a \<Rightarrow> 'a disk \<Rightarrow> 'a disk" where
  "save_file io dir v d = (if dir = [] then d else snd (write_atomic (io\<lparr>io_mkdir := True\<rparr>) v d))"

lemma save_file_read: "dir \<noteq> [] \<Longrightarrow> io_ok io \<Longrightarrow> d_file (save_file io dir v d) = Doc v"
  by (simp add: save_file_def write_atomic_file io_ok_def)

definition find_apply :: "string \<Rightarrow> change_audit list \<Rightarrow> change_audit option" where
  "find_apply rev_id audits = find (\<lambda>a. ca_revision a = rev_id \<and> ca_action a = ''apply'') (rev audits)"

section \<open>Admissions\<close>

record admissions =
  ad_dir :: string
  ad_audits :: "change_audit list"
  ad_disk :: "change_audit list disk"

definition admission_load :: "bool \<Rightarrow> admissions \<Rightarrow> admissions" where
  "admission_load readable r =
     (if ad_dir r = [] then r
      else (case read_doc readable (d_file (ad_disk r)) of Parsed xs \<Rightarrow> r\<lparr>ad_audits := xs\<rparr> | _ \<Rightarrow> r))"

definition new_admissions :: "bool \<Rightarrow> string \<Rightarrow> change_audit list disk \<Rightarrow> admissions" where
  "new_admissions readable dir d = admission_load readable \<lparr>ad_dir = dir, ad_audits = [], ad_disk = d\<rparr>"

definition admission_save :: "io \<Rightarrow> admissions \<Rightarrow> admissions" where
  "admission_save io r = r\<lparr>ad_disk := save_file io (ad_dir r) (ad_audits r) (ad_disk r)\<rparr>"

text \<open>Which model a key names: of several entries with one key the last one counts.\<close>

definition keyed_models :: "manager \<Rightarrow> (string, model) gomap" where
  "keyed_models m = rev (map (\<lambda>x. (route_key (m_provider x) (m_id x), x)) (models_of m))"

definition admissible :: "model \<Rightarrow> bool" where
  "admissible x \<longleftrightarrow> \<not> (is_auto_approved (m_provider x) \<or> is_meta (m_id x) \<or> m_status x = Stale \<or> m_orphaned x)"

fun admission_checks :: "(string, model) gomap \<Rightarrow> string list \<Rightarrow> rule_change list \<Rightarrow> string option" where
  "admission_checks ms seen [] = None"
| "admission_checks ms seen (c # cs) =
     (if ch_key c \<in> set seen then Some (''duplicate model key: '' @ ch_key c)
      else (case map_of ms (ch_key c) of
          None \<Rightarrow> Some (''model cannot be admitted: '' @ ch_key c)
        | Some x \<Rightarrow>
            if admissible x then admission_checks ms (ch_key c # seen) cs
            else Some (''model cannot be admitted: '' @ ch_key c)))"

definition admission_validate :: "manager \<Rightarrow> rule_change list \<Rightarrow> string option" where
  "admission_validate m cs =
     (if cs = [] \<or> length cs > 100 then Some ''changes must contain 1 to 100 items''
      else admission_checks (keyed_models m) [] cs)"

text \<open>A preview lists, per change, the key, the value before and after, and whether they differ.\<close>

definition preview_of :: "(string, bool) gomap \<Rightarrow> rule_change \<Rightarrow> string \<times> bool \<times> bool \<times> bool" where
  "preview_of now_on c =
     (ch_key c, mget False now_on (ch_key c), ch_on c, mget False now_on (ch_key c) \<noteq> ch_on c)"

definition admission_preview :: "http_request \<Rightarrow> manager \<Rightarrow> (string \<times> bool \<times> bool \<times> bool) list reply" where
  "admission_preview req m =
     (if hr_method req \<noteq> ''POST'' then method_not_allowed
      else (case read_request ''admitted'' (hr_body req) of
          None \<Rightarrow> HttpError 400 ''invalid JSON body''
        | Some (cs, _) \<Rightarrow>
            (case admission_validate m cs of
               Some e \<Rightarrow> HttpError 400 e
             | None \<Rightarrow> Reply (map (preview_of (admission_snapshot m)) cs))))"

text \<open>A validated key contains a slash, so that splitting it in two never fails.\<close>

definition admit_change :: "instant \<Rightarrow> rule_change \<Rightarrow> manager \<Rightarrow> manager" where
  "admit_change now c m =
     (case split_slash (ch_key c) of None \<Rightarrow> m | Some (p, i) \<Rightarrow> snd (set_admitted now p i (ch_on c) m))"

definition admit_changes :: "instant \<Rightarrow> rule_change list \<Rightarrow> manager \<Rightarrow> manager" where
  "admit_changes now cs m = fold (admit_change now) cs m"

definition previous_of :: "(string, bool) gomap \<Rightarrow> rule_change list \<Rightarrow> rule_change list" where
  "previous_of now_on cs = map (\<lambda>c. \<lparr>ch_key = ch_key c, ch_on = mget False now_on (ch_key c)\<rparr>) cs"

text \<open>
  Apply and Undo as one step each. In the code the validation, the copy of the admissions and every
  SetAdmitted take the lock of the manager by themselves: changes by others to the same keys in
  between are recorded, or overwritten, key by key. Catalog\_History treats these calls one by one.
\<close>

definition admission_apply ::
  "io \<Rightarrow> instant \<Rightarrow> http_request \<Rightarrow> manager \<Rightarrow> admissions \<Rightarrow> (string \<times> rule_change list) reply \<times> manager \<times> admissions" where
  "admission_apply io now req m r =
     (if hr_method req \<noteq> ''POST'' then (method_not_allowed, m, r)
      else (case read_request ''admitted'' (hr_body req) of
          None \<Rightarrow> (HttpError 400 ''invalid JSON body'', m, r)
        | Some (cs, _) \<Rightarrow>
            (case admission_validate m cs of
               Some e \<Rightarrow> (HttpError 400 e, m, r)
             | None \<Rightarrow>
                 (let previous = previous_of (admission_snapshot m) cs;
                      revision = ''admit-'' @ itoa now;
                      a = \<lparr>ca_revision = revision, ca_action = ''apply'', ca_changes = cs, ca_previous = previous, ca_at = now\<rparr>
                  in (Reply (revision, previous), admit_changes now cs m, admission_save io (r\<lparr>ad_audits := ad_audits r @ [a]\<rparr>))))))"

definition admission_undo ::
  "io \<Rightarrow> instant \<Rightarrow> http_request \<Rightarrow> manager \<Rightarrow> admissions \<Rightarrow> string reply \<times> manager \<times> admissions" where
  "admission_undo io now req m r =
     (if hr_method req \<noteq> ''POST'' then (method_not_allowed, m, r)
      else (case read_request ''admitted'' (hr_body req) of
          None \<Rightarrow> (HttpError 400 ''revision is required'', m, r)
        | Some (_, rev_id) \<Rightarrow>
            if rev_id = [] then (HttpError 400 ''revision is required'', m, r)
            else (case find_apply rev_id (ad_audits r) of
                None \<Rightarrow> (HttpError 404 ''revision not found'', m, r)
              | Some t \<Rightarrow>
                  (case admission_validate m (ca_previous t) of
                     Some e \<Rightarrow> (HttpError 400 e, m, r)
                   | None \<Rightarrow>
                       (let a = \<lparr>ca_revision = ''admit-undo-'' @ itoa now, ca_action = ''undo'', ca_changes = ca_previous t,
                                 ca_previous = [], ca_at = now\<rparr>
                        in (Reply rev_id, admit_changes now (ca_previous t) m,
                            admission_save io (r\<lparr>ad_audits := ad_audits r @ [a]\<rparr>)))))))"

definition admission_log :: "http_request \<Rightarrow> admissions \<Rightarrow> change_audit list reply" where
  "admission_log req r = (if hr_method req \<noteq> ''GET'' then method_not_allowed else Reply (ad_audits r))"

section \<open>Approvals\<close>

record rules_doc =
  rd_rules :: "(string, bool) gomap"
  rd_audits :: "change_audit list"

record rules =
  ru_dir :: string
  ru_rules :: "(string, bool) gomap"
  ru_audits :: "change_audit list"
  ru_disk :: "rules_doc disk"

fun rules_checks :: "manager \<Rightarrow> string list \<Rightarrow> rule_change list \<Rightarrow> string option" where
  "rules_checks m seen [] = None"
| "rules_checks m seen (c # cs) =
     (let bad = Some (''invalid or duplicate model key: '' @ ch_key c) in
      case split_slash (ch_key c) of
        None \<Rightarrow> bad
      | Some (p, i) \<Rightarrow>
          if p = [] \<or> i = [] \<or> ch_key c \<in> set seen then bad
          else (case find (is_entry p i) (models_of m) of
              None \<Rightarrow> Some (''model not found: '' @ ch_key c)
            | Some x \<Rightarrow>
                if ch_on c \<and> \<not> auto_approval_ready x
                then Some (''model capability verification incomplete: '' @ ch_key c)
                else rules_checks m (ch_key c # seen) cs))"

definition rules_validate :: "manager \<Rightarrow> rule_change list \<Rightarrow> string option" where
  "rules_validate m cs =
     (if cs = [] \<or> length cs > 100 then Some ''changes must contain 1 to 100 items'' else rules_checks m [] cs)"

definition allow_change :: "instant \<Rightarrow> rule_change \<Rightarrow> manager \<Rightarrow> manager" where
  "allow_change now c m =
     (case split_slash (ch_key c) of None \<Rightarrow> m | Some (p, i) \<Rightarrow> snd (set_allow now p i (ch_on c) m))"

definition apply_manager :: "instant \<Rightarrow> rule_change list \<Rightarrow> manager \<Rightarrow> manager" where
  "apply_manager now cs m = fold (allow_change now) cs m"

definition set_rules :: "rule_change list \<Rightarrow> (string, bool) gomap \<Rightarrow> (string, bool) gomap" where
  "set_rules cs rs = fold (\<lambda>c. mput (ch_key c) (ch_on c)) cs rs"

text \<open>Reading the document back: every rule is applied to the catalog again.\<close>

fun load_rules :: "instant \<Rightarrow> (string, bool) gomap \<Rightarrow> manager \<Rightarrow> (string, bool) gomap \<Rightarrow> manager \<times> (string, bool) gomap" where
  "load_rules now [] m rs = (m, rs)"
| "load_rules now ((k, b) # kvs) m rs =
     (case split_slash k of
        None \<Rightarrow> load_rules now kvs m rs
      | Some (p, i) \<Rightarrow>
          (case (if b then set_allow now p i True m else (True, m)) of
             (ok, m1) \<Rightarrow>
               if \<not> ok then load_rules now kvs m1 (mput k False rs)
               else load_rules now kvs (snd (set_allow now p i b m1)) (mput k b rs)))"

definition rules_load :: "bool \<Rightarrow> instant \<Rightarrow> manager \<Rightarrow> rules \<Rightarrow> manager \<times> rules" where
  "rules_load readable now m r =
     (if ru_dir r = [] then (m, r)
      else (let again = (\<lambda>loaded audits.
              (case load_rules now loaded m (allow_snapshot m) of (m', rs) \<Rightarrow> (m', r\<lparr>ru_rules := rs, ru_audits := audits\<rparr>)))
            in case read_doc readable (d_file (ru_disk r)) of
                 Parsed d \<Rightarrow> again (rd_rules d) (rd_audits d)
               | BadJson \<Rightarrow> again (ru_rules r) (ru_audits r)
               | _ \<Rightarrow> (m, r)))"

definition new_rules :: "bool \<Rightarrow> instant \<Rightarrow> string \<Rightarrow> rules_doc disk \<Rightarrow> manager \<Rightarrow> manager \<times> rules" where
  "new_rules readable now dir d m =
     rules_load readable now m \<lparr>ru_dir = dir, ru_rules = allow_snapshot m, ru_audits = [], ru_disk = d\<rparr>"

definition rules_save :: "io \<Rightarrow> rules \<Rightarrow> rules" where
  "rules_save io r =
     r\<lparr>ru_disk := save_file io (ru_dir r) \<lparr>rd_rules = ru_rules r, rd_audits = ru_audits r\<rparr> (ru_disk r)\<rparr>"

definition rules_preview :: "http_request \<Rightarrow> manager \<Rightarrow> rules \<Rightarrow> (string \<times> bool \<times> bool \<times> bool) list reply" where
  "rules_preview req m r =
     (if hr_method req \<noteq> ''POST'' then method_not_allowed
      else (case read_request ''allow'' (hr_body req) of
          None \<Rightarrow> HttpError 400 ''invalid JSON body''
        | Some (cs, _) \<Rightarrow>
            (case rules_validate m cs of
               Some e \<Rightarrow> HttpError 400 e
             | None \<Rightarrow> Reply (map (preview_of (ru_rules r)) cs))))"

text \<open>In Apply and Undo the rules change first and the catalog follows.\<close>

definition log_rules :: "change_audit \<Rightarrow> rule_change list \<Rightarrow> rules \<Rightarrow> rules" where
  "log_rules a cs r = r\<lparr>ru_rules := set_rules cs (ru_rules r), ru_audits := ru_audits r @ [a]\<rparr>"

definition rules_apply ::
  "io \<Rightarrow> instant \<Rightarrow> http_request \<Rightarrow> manager \<Rightarrow> rules \<Rightarrow> (string \<times> rule_change list) reply \<times> manager \<times> rules" where
  "rules_apply io now req m r =
     (if hr_method req \<noteq> ''POST'' then (method_not_allowed, m, r)
      else (case read_request ''allow'' (hr_body req) of
          None \<Rightarrow> (HttpError 400 ''invalid JSON body'', m, r)
        | Some (cs, _) \<Rightarrow>
            (case rules_validate m cs of
               Some e \<Rightarrow> (HttpError 400 e, m, r)
             | None \<Rightarrow>
                 (let previous = previous_of (ru_rules r) cs;
                      revision = ''gov-'' @ itoa now;
                      a = \<lparr>ca_revision = revision, ca_action = ''apply'', ca_changes = cs, ca_previous = previous, ca_at = now\<rparr>
                  in (Reply (revision, previous), apply_manager now cs m, rules_save io (log_rules a cs r))))))"

definition rules_undo ::
  "io \<Rightarrow> instant \<Rightarrow> http_request \<Rightarrow> manager \<Rightarrow> rules \<Rightarrow> (string \<times> string) reply \<times> manager \<times> rules" where
  "rules_undo io now req m r =
     (if hr_method req \<noteq> ''POST'' then (method_not_allowed, m, r)
      else (case read_request ''allow'' (hr_body req) of
          None \<Rightarrow> (HttpError 400 ''revision is required'', m, r)
        | Some (_, rev_id) \<Rightarrow>
            if rev_id = [] then (HttpError 400 ''revision is required'', m, r)
            else (case find_apply rev_id (ru_audits r) of
                None \<Rightarrow> (HttpError 404 ''revision not found'', m, r)
              | Some t \<Rightarrow>
                  (case rules_validate m (ca_previous t) of
                     Some e \<Rightarrow> (HttpError 400 e, m, r)
                   | None \<Rightarrow>
                       (let revision = ''undo-'' @ itoa now;
                            a = \<lparr>ca_revision = revision, ca_action = ''undo'', ca_changes = ca_previous t, ca_previous = [], ca_at = now\<rparr>
                        in (Reply (revision, rev_id), apply_manager now (ca_previous t) m,
                            rules_save io (log_rules a (ca_previous t) r)))))))"

definition rules_log :: "http_request \<Rightarrow> rules \<Rightarrow> change_audit list reply" where
  "rules_log req r = (if hr_method req \<noteq> ''GET'' then method_not_allowed else Reply (ru_audits r))"

end
