(* ===== verification/Approval_Props.thy ===== *)
theory Approval_Props
  imports Approval_Api Catalog_Props
begin

text \<open>
  What the two approval interfaces guarantee: a batch that is accepted changes exactly the entries it
  names, undoing a revision brings the recorded decisions back, after a restart no rule claims an
  approval the catalog does not hold, and one way in which a withdrawn approval comes back.
\<close>

section \<open>Keys\<close>

lemma split_slash_key: "split_slash k = Some (p, i) \<Longrightarrow> route_key p i = k"
  by (drule split_slash_Some) (simp add: route_key_def)

lemma split_slash_route: "\<exists>p' i'. split_slash (route_key p i) = Some (p', i')"
  using split_slash_None [of "route_key p i"] by (cases "split_slash (route_key p i)") (auto simp: route_key_def)

definition splits :: "rule_change list \<Rightarrow> bool" where
  "splits cs \<longleftrightarrow> (\<forall>c \<in> set cs. \<exists>p i. split_slash (ch_key c) = Some (p, i))"

lemma splits_simps [simp]: "splits []" "splits (c # cs) \<longleftrightarrow> (\<exists>p i. split_slash (ch_key c) = Some (p, i)) \<and> splits cs"
  by (auto simp: splits_def)

definition change_for :: "rule_change list \<Rightarrow> string \<Rightarrow> rule_change option" where
  "change_for cs k = find (\<lambda>c. ch_key c = k) cs"

lemma change_for_simps [simp]: "change_for [] k = None"
  "change_for (c # cs) k = (if ch_key c = k then Some c else change_for cs k)"
  by (simp_all add: change_for_def)

lemma change_for_None: "change_for cs k = None \<longleftrightarrow> k \<notin> ch_key ` set cs"
  by (auto simp: change_for_def find_None_iff)

lemma change_for_key: "change_for cs k = Some c \<Longrightarrow> ch_key c = k \<and> c \<in> set cs"
  by (auto simp: change_for_def find_Some_iff)

lemma change_for_member: "distinct (map ch_key cs) \<Longrightarrow> c \<in> set cs \<Longrightarrow> change_for cs (ch_key c) = Some c"
  by (induction cs) auto

text \<open>Folding an operation that writes one key of a map per change.\<close>

lemma fold_writes:
  assumes "\<And>c s k. good c \<Longrightarrow> get (step c s) k = (if k = ch_key c then val c (get s k) else get s k)"
    and "distinct (map ch_key cs)" and "\<forall>c \<in> set cs. good c"
  shows "get (fold step cs s) k = (case change_for cs k of None \<Rightarrow> get s k | Some c \<Rightarrow> val c (get s k))"
  using assms(2,3)
proof (induction cs arbitrary: s)
  case (Cons c cs)
  then have none: "change_for cs (ch_key c) = None" and good: "good c" by (simp_all add: change_for_None)
  show ?case
  proof (cases "ch_key c = k")
    case True
    then show ?thesis using Cons none assms(1) [OF good, of s k] by simp
  next
    case False
    then show ?thesis using Cons assms(1) [OF good, of s k] by (simp split: option.split)
  qed
qed simp

section \<open>Admissions\<close>

lemma set_admitted_maps:
  "mget False (mg_admitted (snd (set_admitted now p i b m))) k = (if k = route_key p i then b else mget False (mg_admitted m) k)"
  "mget False (mg_allow (snd (set_admitted now p i b m))) k = (if k = route_key p i then b \<and> mget False (mg_allow m) k else mget False (mg_allow m) k)"
  by (simp_all add: set_admitted_def Let_def)

lemma admit_change_maps:
  assumes "\<exists>p i. split_slash (ch_key c) = Some (p, i)"
  shows "mget False (mg_admitted (admit_change now c m)) k = (if k = ch_key c then ch_on c else mget False (mg_admitted m) k)"
    and "mget False (mg_allow (admit_change now c m)) k =
      (if k = ch_key c then ch_on c \<and> mget False (mg_allow m) k else mget False (mg_allow m) k)"
proof -
  obtain p i where p: "split_slash (ch_key c) = Some (p, i)" using assms by blast
  have "route_key p i = ch_key c" by (rule split_slash_key [OF p])
  then show "mget False (mg_admitted (admit_change now c m)) k = (if k = ch_key c then ch_on c else mget False (mg_admitted m) k)"
    "mget False (mg_allow (admit_change now c m)) k =
      (if k = ch_key c then ch_on c \<and> mget False (mg_allow m) k else mget False (mg_allow m) k)"
    by (simp_all add: admit_change_def p set_admitted_maps)
qed

lemma admit_changes_maps:
  assumes "distinct (map ch_key cs)" and "splits cs"
  shows "mget False (mg_admitted (admit_changes now cs m)) k =
      (case change_for cs k of None \<Rightarrow> mget False (mg_admitted m) k | Some c \<Rightarrow> ch_on c)"
    and "mget False (mg_allow (admit_changes now cs m)) k =
      (case change_for cs k of None \<Rightarrow> mget False (mg_allow m) k | Some c \<Rightarrow> ch_on c \<and> mget False (mg_allow m) k)"
proof -
  show "mget False (mg_admitted (admit_changes now cs m)) k =
      (case change_for cs k of None \<Rightarrow> mget False (mg_admitted m) k | Some c \<Rightarrow> ch_on c)"
    unfolding admit_changes_def
    using fold_writes [where get = "\<lambda>m. mget False (mg_admitted m)" and step = "admit_change now" and val = "\<lambda>c b. ch_on c"
        and good = "\<lambda>c. \<exists>p i. split_slash (ch_key c) = Some (p, i)", OF admit_change_maps(1) assms(1)] assms(2)
    by (simp add: splits_def)
  show "mget False (mg_allow (admit_changes now cs m)) k =
      (case change_for cs k of None \<Rightarrow> mget False (mg_allow m) k | Some c \<Rightarrow> ch_on c \<and> mget False (mg_allow m) k)"
    unfolding admit_changes_def
    using fold_writes [where get = "\<lambda>m. mget False (mg_allow m)" and step = "admit_change now" and val = "\<lambda>c b. ch_on c \<and> b"
        and good = "\<lambda>c. \<exists>p i. split_slash (ch_key c) = Some (p, i)", OF admit_change_maps(2) assms(1)] assms(2)
    by (simp add: splits_def)
qed

lemma admission_checks_ok:
  "admission_checks ms seen cs = None \<longleftrightarrow>
     distinct (map ch_key cs) \<and> set (map ch_key cs) \<inter> set seen = {} \<and>
     (\<forall>c \<in> set cs. \<exists>x. map_of ms (ch_key c) = Some x \<and> admissible x)"
  by (induction ms seen cs rule: admission_checks.induct) (auto split: option.splits)

lemma keyed_models_Some: "map_of (keyed_models m) k = Some x \<Longrightarrow> x \<in> set (models_of m) \<and> route_key (m_provider x) (m_id x) = k"
  by (auto simp: keyed_models_def dest: map_of_SomeD)

lemma admission_validated:
  assumes "admission_validate m cs = None"
  shows "distinct (map ch_key cs)" "splits cs" "cs \<noteq> []" "length cs \<le> 100"
    "c \<in> set cs \<Longrightarrow> \<exists>x \<in> set (models_of m). route_key (m_provider x) (m_id x) = ch_key c \<and> admissible x"
proof -
  have ok: "cs \<noteq> []" "length cs \<le> 100" "admission_checks (keyed_models m) [] cs = None"
    using assms by (auto simp: admission_validate_def split: if_splits)
  then show "distinct (map ch_key cs)" "cs \<noteq> []" "length cs \<le> 100" by (auto simp: admission_checks_ok)
  show found: "\<exists>x \<in> set (models_of m). route_key (m_provider x) (m_id x) = ch_key c \<and> admissible x" if "c \<in> set cs" for c
    using ok(3) that keyed_models_Some by (fastforce simp: admission_checks_ok)
  show "splits cs" unfolding splits_def using found split_slash_route by metis
qed

lemma admission_apply_cases:
  assumes "admission_apply io now req m r = (res, m', r')"
  obtains (refused) c t where "res = HttpError c t" "m' = m" "r' = r"
  | (accepted) cs x where "hr_method req = ''POST''" "read_request ''admitted'' (hr_body req) = Some (cs, x)" "admission_validate m cs = None"
      "res = Reply (''admit-'' @ itoa now, previous_of (mg_admitted m) cs)" "m' = admit_changes now cs m"
      "r' = admission_save io (r\<lparr>ad_audits := ad_audits r @ [\<lparr>ca_revision = ''admit-'' @ itoa now, ca_action = ''apply'',
         ca_changes = cs, ca_previous = previous_of (mg_admitted m) cs, ca_at = now\<rparr>]\<rparr>)"
  using assms
  by (auto simp: admission_apply_def method_not_allowed_def admission_snapshot_def Let_def split: if_splits option.splits)

text \<open>
  A batch of admissions is all or nothing: when the handler answers with a revision, the decision
  about every key of the batch is the one it asks for, every other decision is as before, an
  approval for Auto survives unless its model is unadmitted, and the log holds the decisions that
  were replaced; otherwise nothing changes at all.
\<close>

theorem admission_batches_are_exact:
  assumes "admission_apply io now req m r = (res, m', r')"
  shows "case res of
      HttpError c t \<Rightarrow> m' = m \<and> r' = r
    | Reply (revision, previous) \<Rightarrow>
        (\<exists>cs x. read_request ''admitted'' (hr_body req) = Some (cs, x) \<and>
          (\<forall>c \<in> set cs. mget False (mg_admitted m') (ch_key c) = ch_on c \<and>
             mget False (mg_allow m') (ch_key c) = (ch_on c \<and> mget False (mg_allow m) (ch_key c))) \<and>
          (\<forall>k. k \<notin> ch_key ` set cs \<longrightarrow> mget False (mg_admitted m') k = mget False (mg_admitted m) k \<and>
             mget False (mg_allow m') k = mget False (mg_allow m) k) \<and>
          (\<exists>a. ad_audits r' = ad_audits r @ [a] \<and> ca_revision a = revision \<and> ca_previous a = previous \<and>
             map ch_key previous = map ch_key cs \<and>
             (\<forall>p \<in> set previous. ch_on p = mget False (mg_admitted m) (ch_key p))))"
  using assms
proof (cases rule: admission_apply_cases)
  case (refused c t)
  then show ?thesis by simp
next
  case (accepted cs x)
  note v = admission_validated [OF accepted(3)]
  note maps = admit_changes_maps [OF v(1,2)]
  have prev: "map ch_key (previous_of (mg_admitted m) cs) = map ch_key cs"
    "\<forall>p \<in> set (previous_of (mg_admitted m) cs). ch_on p = mget False (mg_admitted m) (ch_key p)"
    by (auto simp: previous_of_def)
  show ?thesis unfolding accepted(4) reply.case prod.case
    using accepted(2) prev
    by (intro exI [of _ cs] exI [of _ x])
       (auto simp: accepted(5,6) maps change_for_member [OF v(1)] change_for_None [THEN iffD2] admission_save_def)
qed

lemma admission_undo_cases:
  assumes "admission_undo io now req m r = (Reply rid, m', r')"
  obtains y t where "read_request ''admitted'' (hr_body req) = Some (y, rid)" "find_apply rid (ad_audits r) = Some t"
    "admission_validate m (ca_previous t) = None" "m' = admit_changes now (ca_previous t) m"
  using assms by (auto simp: admission_undo_def method_not_allowed_def Let_def split: if_splits option.splits)

text \<open>
  What can happen between a batch and its undo: other batches and undos, and any change of the catalog.
\<close>

datatype admission_move =
  Applied io instant http_request
| Undone io instant http_request
| Elsewhere manager

fun admission_event :: "manager \<times> admissions \<Rightarrow> admission_move \<Rightarrow> manager \<times> admissions" where
  "admission_event (m, r) (Applied io now req) = snd (admission_apply io now req m r)"
| "admission_event (m, r) (Undone io now req) = snd (admission_undo io now req m r)"
| "admission_event (m, r) (Elsewhere m') = (m', r)"

text \<open>The revision that a later batch gets.\<close>

fun stamps :: "admission_move \<Rightarrow> string \<Rightarrow> bool" where
  "stamps (Applied io now req) rid \<longleftrightarrow> ''admit-'' @ itoa now = rid"
| "stamps _ rid \<longleftrightarrow> False"

lemma find_apply_append: "find_apply rid (as @ [a]) =
    (if ca_revision a = rid \<and> ca_action a = ''apply'' then Some a else find_apply rid as)"
  by (simp add: find_apply_def)

lemma apply_log:
  "\<exists>as. ad_audits (snd (snd (admission_apply io now req m r))) = ad_audits r @ as \<and>
     (as = [] \<or> (\<exists>a. as = [a] \<and> ca_revision a = ''admit-'' @ itoa now))"
proof -
  obtain res m' r' where a: "admission_apply io now req m r = (res, m', r')" by (cases "admission_apply io now req m r")
  then show ?thesis by (cases rule: admission_apply_cases) (simp_all add: a admission_save_def)
qed

lemma undo_log:
  "\<exists>as. ad_audits (snd (snd (admission_undo io now req m r))) = ad_audits r @ as \<and> (as = [] \<or> (\<exists>a. as = [a] \<and> ca_action a = ''undo''))"
  by (auto simp: admission_undo_def method_not_allowed_def admission_save_def Let_def split: option.split prod.split)

lemma event_keeps_batch:
  assumes "find_apply rid (ad_audits (snd w)) = Some a" and "\<not> stamps v rid"
  shows "find_apply rid (ad_audits (snd (admission_event w v))) = Some a"
proof (cases "(w, v)" rule: admission_event.cases)
  case (1 m r io now req)
  then show ?thesis using assms apply_log [of io now req m r] by (auto simp: find_apply_append)
next
  case (2 m r io now req)
  then show ?thesis using assms undo_log [of io now req m r] by (auto simp: find_apply_append)
next
  case (3 m r m')
  then show ?thesis using assms by simp
qed

lemma events_keep_batch:
  "find_apply rid (ad_audits (snd w)) = Some a \<Longrightarrow> \<forall>v \<in> set es. \<not> stamps v rid \<Longrightarrow>
     find_apply rid (ad_audits (snd (foldl admission_event w es))) = Some a"
  using event_keeps_batch by (induction es arbitrary: w) auto

text \<open>
  C38. Undoing a batch of admissions restores every decision that this batch replaced, leaves all other
  decisions alone, and never brings an approval for Auto back that is not there: whatever other batches
  were applied or undone between the batch and its undo, before or after it in the log, and however the
  catalog changed, as long as no later batch carries the same revision, which is the time of day. A batch, like its
  undo, is taken as one step here; in the code each of its models is written under a lock of its own.
\<close>

theorem undo_restores_admissions:
  assumes "admission_apply io now req m r = (Reply (rid, previous), m1, r1)"
    and "read_request ''admitted'' (hr_body req) = Some (cs, x)"
    and "\<forall>v \<in> set es. \<not> stamps v rid" and "foldl admission_event (m1, r1) es = (m2, r2)"
    and "admission_undo io' now' req' m2 r2 = (Reply rid, m3, r3)"
  shows "mget False (mg_admitted m3) k = (if k \<in> ch_key ` set cs then mget False (mg_admitted m) k else mget False (mg_admitted m2) k) \<and>
    (mget False (mg_allow m3) k \<longrightarrow> mget False (mg_allow m2) k)"
  using assms(1)
proof (cases rule: admission_apply_cases)
  case (accepted cs' x')
  then have cs: "cs' = cs" using assms(2) by simp
  let ?p = "previous_of (mg_admitted m) cs"
  have "\<exists>a. find_apply rid (ad_audits r1) = Some a \<and> ca_previous a = ?p"
    using accepted(4,6) cs by (simp add: find_apply_def admission_save_def)
  then obtain a where a: "find_apply rid (ad_audits (snd (m1, r1))) = Some a" "ca_previous a = ?p" by auto
  obtain y t where t: "find_apply rid (ad_audits r2) = Some t" "admission_validate m2 (ca_previous t) = None"
      "m3 = admit_changes now' (ca_previous t) m2"
    using admission_undo_cases [OF assms(5)] by metis
  have p: "ca_previous t = ?p" using events_keep_batch [OF a(1) assms(3)] assms(4) t(1) a(2) by simp
  note v = admission_validated [OF t(2) [unfolded p]]
  have "change_for ?p k = (if k \<in> ch_key ` set cs then Some \<lparr>ch_key = k, ch_on = mget False (mg_admitted m) k\<rparr> else None)"
    by (induction cs) (auto simp: previous_of_def)
  then show ?thesis using admit_changes_maps [OF v(1,2), of now' m2 k] by (simp add: t(3) p split: if_splits)
qed simp

section \<open>Approvals\<close>

definition entry_ok :: "manager \<Rightarrow> string \<Rightarrow> string \<Rightarrow> bool \<Rightarrow> bool" where
  "entry_ok m p i b \<longleftrightarrow> (case find (is_entry p i) (models_of m) of None \<Rightarrow> False | Some x \<Rightarrow> b \<longrightarrow> auto_approval_ready x)"

lemma set_allow_ok: "fst (set_allow now p i b m) \<longleftrightarrow> entry_ok m p i b"
  by (simp add: set_allow_def entry_ok_def Let_def split: option.split)

lemma set_allow_maps:
  "mget False (mg_allow (snd (set_allow now p i b m))) k =
     (if entry_ok m p i b \<and> k = route_key p i then b else mget False (mg_allow m) k)"
  "mg_admitted (snd (set_allow now p i b m)) = mg_admitted m"
  by (auto simp: set_allow_def entry_ok_def Let_def split: option.split)

lemma update_first_find:
  "update_first Q f xs = Some ys \<Longrightarrow> (\<And>x. P (f x) = P x) \<Longrightarrow> (\<And>x. R (f x) = R x) \<Longrightarrow>
     (case find P ys of None \<Rightarrow> d | Some x \<Rightarrow> R x) = (case find P xs of None \<Rightarrow> d | Some x \<Rightarrow> R x)"
  by (induction xs arbitrary: ys) (auto split: if_splits)

lemma ready_of_route [simp]:
  "auto_approval_ready (y\<lparr>m_auto_routable := b, m_updated_at := t\<rparr>) = auto_approval_ready y"
  "is_entry p i (y\<lparr>m_auto_routable := b, m_updated_at := t\<rparr>) = is_entry p i y"
  by (simp_all add: auto_approval_ready_def protocol_evidence_def [abs_def] is_entry_def)

lemma set_allow_entries [simp]: "entry_ok (snd (set_allow now p i b m)) p' i' b' = entry_ok m p' i' b'"
proof (cases "set_allow now p i b m")
  case (Pair ok m')
  show ?thesis
  proof (cases ok)
    case True
    with Pair have "set_allow now p i b m = (True, m')" by simp
    then show ?thesis
    proof (cases rule: set_allow_accepted)
      case (1 x ms)
      then show ?thesis using update_first_find [OF 1(3), of "is_entry p' i'" "\<lambda>x. b' \<longrightarrow> auto_approval_ready x" False]
        by (simp add: Pair entry_ok_def)
    qed
  next
    case False
    then have "m' = m" using Pair by (auto simp: set_allow_def Let_def split: option.splits if_splits)
    then show ?thesis by (simp add: Pair)
  qed
qed

definition change_ok :: "manager \<Rightarrow> rule_change \<Rightarrow> bool" where
  "change_ok m c \<longleftrightarrow> (\<exists>p i. split_slash (ch_key c) = Some (p, i) \<and> entry_ok m p i (ch_on c))"

lemma allow_change_maps:
  assumes "change_ok m c"
  shows "mget False (mg_allow (allow_change now c m)) k = (if k = ch_key c then ch_on c else mget False (mg_allow m) k)"
proof -
  obtain p i where p: "split_slash (ch_key c) = Some (p, i)" "entry_ok m p i (ch_on c)" using assms by (auto simp: change_ok_def)
  have "route_key p i = ch_key c" by (rule split_slash_key [OF p(1)])
  then show ?thesis by (simp add: allow_change_def p set_allow_maps)
qed

lemma allow_change_keeps [simp]: "change_ok (allow_change now c m) c' = change_ok m c'"
  by (simp add: allow_change_def change_ok_def split: option.split prod.split)

lemma apply_manager_maps:
  assumes "distinct (map ch_key cs)" and "\<forall>c \<in> set cs. change_ok m c"
  shows "mget False (mg_allow (apply_manager now cs m)) k =
      (case change_for cs k of None \<Rightarrow> mget False (mg_allow m) k | Some c \<Rightarrow> ch_on c)"
  using assms
proof (induction cs arbitrary: m)
  case (Cons c cs)
  then have none: "change_for cs (ch_key c) = None" and good: "change_ok m c" by (simp_all add: change_for_None)
  show ?case
  proof (cases "ch_key c = k")
    case True
    then show ?thesis using Cons none allow_change_maps [OF good, of now k] by (simp add: apply_manager_def)
  next
    case False
    then show ?thesis using Cons allow_change_maps [OF good, of now k] by (simp add: apply_manager_def split: option.split)
  qed
qed (simp add: apply_manager_def)

lemma set_rules_maps: "distinct (map ch_key cs) \<Longrightarrow> mget False (set_rules cs rs) k =
    (case change_for cs k of None \<Rightarrow> mget False rs k | Some c \<Rightarrow> ch_on c)"
  unfolding set_rules_def
  using fold_writes [where get = "mget False" and step = "\<lambda>c. mput (ch_key c) (ch_on c)" and val = "\<lambda>c b. ch_on c" and good = "\<lambda>c. True"]
  by simp

lemma rules_checks_ok:
  "rules_checks m seen cs = None \<Longrightarrow>
     distinct (map ch_key cs) \<and> set (map ch_key cs) \<inter> set seen = {} \<and> (\<forall>c \<in> set cs. change_ok m c)"
proof (induction m seen cs rule: rules_checks.induct)
  case (2 m seen c cs)
  from "2.prems" obtain p i x where p: "split_slash (ch_key c) = Some (p, i)" "find (is_entry p i) (models_of m) = Some x"
      "\<not> (p = [] \<or> i = [] \<or> ch_key c \<in> set seen)" "\<not> (ch_on c \<and> \<not> auto_approval_ready x)"
      "rules_checks m (ch_key c # seen) cs = None"
    by (auto simp: Let_def split: option.splits if_splits)
  have IH: "distinct (map ch_key cs) \<and> set (map ch_key cs) \<inter> set (ch_key c # seen) = {} \<and> (\<forall>c \<in> set cs. change_ok m c)"
    using "2.IH" p by simp
  moreover have "change_ok m c" using p by (auto simp: change_ok_def entry_ok_def)
  ultimately show ?case using p(3) by auto
qed simp

lemma rules_validated:
  assumes "rules_validate m cs = None"
  shows "distinct (map ch_key cs)" "\<forall>c \<in> set cs. change_ok m c"
  using assms rules_checks_ok [of m "[]" cs] by (simp_all add: rules_validate_def split: if_splits)

lemma rules_apply_cases:
  assumes "rules_apply io now req m r = (res, m', r')"
  obtains (refused) c t where "res = HttpError c t" "m' = m" "r' = r"
  | (accepted) cs x where "read_request ''allow'' (hr_body req) = Some (cs, x)" "rules_validate m cs = None"
      "res = Reply (''gov-'' @ itoa now, previous_of (ru_rules r) cs)" "m' = apply_manager now cs m"
      "ru_rules r' = set_rules cs (ru_rules r)" "ru_dir r' = ru_dir r"
      "ru_audits r' = ru_audits r @ [\<lparr>ca_revision = ''gov-'' @ itoa now, ca_action = ''apply'',
         ca_changes = cs, ca_previous = previous_of (ru_rules r) cs, ca_at = now\<rparr>]"
proof (cases "hr_method req = ''POST'' \<and> (\<exists>cs x. read_request ''allow'' (hr_body req) = Some (cs, x) \<and> rules_validate m cs = None)")
  case True
  then obtain cs x where *: "read_request ''allow'' (hr_body req) = Some (cs, x)" "rules_validate m cs = None" by blast
  show ?thesis
    by (rule accepted [OF *]) (use assms True * in \<open>auto simp: rules_apply_def rules_save_def log_rules_def Let_def\<close>)
next
  case False
  then have "(\<exists>c t. res = HttpError c t) \<and> m' = m \<and> r' = r"
    using assms by (auto simp: rules_apply_def method_not_allowed_def split: if_splits option.splits)
  then show ?thesis using refused by blast
qed

text \<open>
  A batch of approvals is all or nothing: when the handler answers with a revision, then for every
  change both the rule and the approval in the catalog have the requested value, whatever else the
  batch did before it, and no other rule or approval has moved; otherwise nothing changes.
\<close>

theorem approval_batches_are_exact:
  assumes "rules_apply io now req m r = (res, m', r')"
  shows "case res of
      HttpError c t \<Rightarrow> m' = m \<and> r' = r
    | Reply (revision, previous) \<Rightarrow>
        (\<exists>cs x. read_request ''allow'' (hr_body req) = Some (cs, x) \<and>
          (\<forall>c \<in> set cs. mget False (mg_allow m') (ch_key c) = ch_on c \<and> mget False (ru_rules r') (ch_key c) = ch_on c) \<and>
          (\<forall>k. k \<notin> ch_key ` set cs \<longrightarrow> mget False (mg_allow m') k = mget False (mg_allow m) k \<and>
             mget False (ru_rules r') k = mget False (ru_rules r) k))"
  using assms
proof (cases rule: rules_apply_cases)
  case (refused c t)
  then show ?thesis by simp
next
  case (accepted cs x)
  note v = rules_validated [OF accepted(2)]
  show ?thesis unfolding accepted(3) reply.case prod.case
    using accepted(1)
    by (intro exI [of _ cs] exI [of _ x])
       (auto simp: accepted(4,5) apply_manager_maps [OF v] set_rules_maps [OF v(1)] change_for_member [OF v(1)]
         change_for_None [THEN iffD2])
qed

section \<open>Rules after a restart\<close>

definition covered :: "manager \<Rightarrow> (string, bool) gomap \<Rightarrow> bool" where
  "covered m rs \<longleftrightarrow> (\<forall>k. mget False rs k \<longrightarrow> mget False (mg_allow m) k)"

lemma load_rules_covered: "covered m rs \<Longrightarrow> load_rules now kvs m rs = (m', rs') \<Longrightarrow> covered m' rs'"
proof (induction now kvs m rs rule: load_rules.induct)
  case (2 now k b kvs m rs)
  show ?case
  proof (cases "split_slash k")
    case None
    then show ?thesis using 2 by simp
  next
    case (Some pi)
    then obtain p i where pi: "split_slash k = Some (p, i)" by (cases pi) auto
    have key: "route_key p i = k" by (rule split_slash_key [OF pi])
    show ?thesis
    proof (cases "b \<and> \<not> entry_ok m p i True")
      case True
      then have bad: "fst (set_allow now p i True m) = False" by (simp add: set_allow_ok)
      have same: "snd (set_allow now p i True m) = m" using True
        by (auto simp: set_allow_def entry_ok_def split: option.split)
      have "covered m (mput k False rs)" using 2(4) by (auto simp: covered_def)
      then show ?thesis using 2(2) [OF pi refl] 2(5) True bad same pi
        by (cases "set_allow now p i True m") simp
    next
      case False
      let ?m1 = "if b then snd (set_allow now p i True m) else m"
      have ok: "(if b then set_allow now p i True m else (True, m)) = (True, ?m1)"
        using False set_allow_ok [of now p i True m] by (cases "set_allow now p i True m") auto
      have "covered (snd (set_allow now p i b ?m1)) (mput k b rs)"
        using 2(4) False by (auto simp: covered_def set_allow_maps key)
      then show ?thesis using 2(3) [OF pi refl ok [symmetric]] 2(5) ok pi by simp
    qed
  qed
qed simp

text \<open>
  A rule never claims an approval that the catalog does not hold: this is so when the rules have
  been loaded at the start, whatever the document holds or however damaged it is, and it remains so
  through every batch of approvals.
\<close>

theorem rules_never_overstate:
  assumes "new_rules readable now dir d m0 = (m1, r1)"
    and "rules_apply io now' req m1 r1 = (res, m2, r2)"
  shows "(mget False (ru_rules r1) k \<longrightarrow> mget False (mg_allow m1) k) \<and> (mget False (ru_rules r2) k \<longrightarrow> mget False (mg_allow m2) k)"
proof -
  have "covered m1 (ru_rules r1)"
    using assms(1) load_rules_covered [of m0 "allow_snapshot m0"]
    by (auto simp: new_rules_def rules_load_def Let_def allow_snapshot_def covered_def split: if_splits read.splits prod.splits)
  moreover from assms(2) have "covered m2 (ru_rules r2)"
  proof (cases rule: rules_apply_cases)
    case (accepted cs x)
    then show ?thesis using \<open>covered m1 (ru_rules r1)\<close>
      by (auto simp: covered_def apply_manager_maps [OF rules_validated [OF accepted(2)]]
          set_rules_maps [OF rules_validated(1) [OF accepted(2)]] split: option.split)
  qed (use \<open>covered m1 (ru_rules r1)\<close> in simp)
  ultimately show ?thesis by (simp add: covered_def)
qed

section \<open>Examples\<close>

text \<open>A POST with one change, on the catalog of one probed model.\<close>

definition change_request :: "string \<Rightarrow> bool \<Rightarrow> http_request" where
  "change_request switch b = post_request (JObj [(''changes'', JArr [JObj [(''key'', JStr ''p/m''), (switch, JBool b)]])])"

definition undo_request :: "string \<Rightarrow> http_request" where
  "undo_request rid = post_request (JObj [(''revision'', JStr rid)])"

definition no_admissions :: admissions where
  "no_admissions = new_admissions True ''d'' blank_disk"

definition sample_rules :: "manager \<times> rules" where
  "sample_rules = new_rules True 0 ''d'' blank_disk sample_probed"

lemma reply_case: "case x of Reply y \<Rightarrow> P y | HttpError c t \<Rightarrow> False \<Longrightarrow> \<exists>y. x = Reply y \<and> P y"
  by (cases x) auto

theorem admission_batches_are_exact_witness:
  "\<exists>rid prev m r. admission_apply good_io 5 (change_request ''admitted'' True) sample_synced no_admissions = (Reply (rid, prev), m, r) \<and>
     mget False (mg_admitted m) ''p/m'' \<and> ca_revision (last (ad_audits r)) = rid"
proof -
  let ?x = "admission_apply good_io 5 (change_request ''admitted'' True) sample_synced no_admissions"
  obtain res m r where x: "?x = (res, m, r)" by (cases ?x)
  have "case fst ?x of Reply y \<Rightarrow> True | HttpError c t \<Rightarrow> False" by code_simp
  then obtain rid prev where res: "res = Reply (rid, prev)" using x by (auto split: reply.splits)
  have "read_request ''admitted'' (hr_body (change_request ''admitted'' True)) = Some ([\<lparr>ch_key = ''p/m'', ch_on = True\<rparr>], [])"
    by code_simp
  with admission_batches_are_exact [OF x] show ?thesis unfolding x res by auto
qed

lemma sample_admission: "\<exists>m r. admission_apply good_io 5 (change_request ''admitted'' False) sample_approved no_admissions
    = (Reply (''admit-5'', [\<lparr>ch_key = ''p/m'', ch_on = True\<rparr>]), m, r)"
proof -
  let ?x = "admission_apply good_io 5 (change_request ''admitted'' False) sample_approved no_admissions"
  have "fst ?x = Reply (''admit-5'', [\<lparr>ch_key = ''p/m'', ch_on = True\<rparr>])" by code_simp
  then show ?thesis by (cases ?x) auto
qed

text \<open>A second batch admits the model again before the first one is undone.\<close>

theorem undo_restores_admissions_witness:
  "\<exists>m1 r1 m2 r2 m3 r3. admission_apply good_io 5 (change_request ''admitted'' False) sample_approved no_admissions
       = (Reply (''admit-5'', [\<lparr>ch_key = ''p/m'', ch_on = True\<rparr>]), m1, r1) \<and>
     admission_event (m1, r1) (Applied good_io 6 (change_request ''admitted'' True)) = (m2, r2) \<and> ad_audits r2 \<noteq> ad_audits r1 \<and>
     admission_undo good_io 7 (undo_request ''admit-5'') m2 r2 = (Reply ''admit-5'', m3, r3) \<and>
     mget False (mg_admitted m3) ''p/m''"
proof -
  let ?v = "Applied good_io 6 (change_request ''admitted'' True)"
  obtain m1 r1 where a: "admission_apply good_io 5 (change_request ''admitted'' False) sample_approved no_admissions
      = (Reply (''admit-5'', [\<lparr>ch_key = ''p/m'', ch_on = True\<rparr>]), m1, r1)" using sample_admission by blast
  obtain m2 r2 where e: "admission_event (m1, r1) ?v = (m2, r2)" by fastforce
  have "(case admission_apply good_io 5 (change_request ''admitted'' False) sample_approved no_admissions of (x, m1, r1) \<Rightarrow>
      (case admission_event (m1, r1) ?v of (m2, r2) \<Rightarrow>
        (fst (admission_undo good_io 7 (undo_request ''admit-5'') m2 r2), length (ad_audits r1), length (ad_audits r2)))) = (Reply ''admit-5'', 1, 2)"
    by code_simp
  then have "fst (admission_undo good_io 7 (undo_request ''admit-5'') m2 r2) = Reply ''admit-5''" "ad_audits r2 \<noteq> ad_audits r1"
    unfolding a prod.case e by auto
  then obtain m3 r3 where u: "admission_undo good_io 7 (undo_request ''admit-5'') m2 r2 = (Reply ''admit-5'', m3, r3)"
    by (cases "admission_undo good_io 7 (undo_request ''admit-5'') m2 r2") auto
  have b: "read_request ''admitted'' (hr_body (change_request ''admitted'' False)) = Some ([\<lparr>ch_key = ''p/m'', ch_on = False\<rparr>], [])"
    by code_simp
  have s: "\<forall>v \<in> set [?v]. \<not> stamps v ''admit-5''"
  proof -
    have "''admit-'' @ itoa 6 \<noteq> ''admit-5''" by code_simp
    then show ?thesis by simp
  qed
  have "mget False (mg_admitted sample_approved) ''p/m''" by code_simp
  moreover have "foldl admission_event (m1, r1) [?v] = (m2, r2)" using e by simp
  ultimately have "mget False (mg_admitted m3) ''p/m''" using undo_restores_admissions [OF a b s _ u, of "''p/m''"] by simp
  then show ?thesis using a e u \<open>ad_audits r2 \<noteq> ad_audits r1\<close> by blast
qed

theorem approval_batches_are_exact_witness:
  "\<exists>rid prev m r. rules_apply good_io 5 (change_request ''allow'' True) (fst sample_rules) (snd sample_rules) = (Reply (rid, prev), m, r) \<and>
     mget False (mg_allow m) ''p/m'' \<and> mget False (ru_rules r) ''p/m''"
proof -
  let ?x = "rules_apply good_io 5 (change_request ''allow'' True) (fst sample_rules) (snd sample_rules)"
  obtain res m r where x: "?x = (res, m, r)" by (cases ?x)
  have "case fst ?x of Reply y \<Rightarrow> True | HttpError c t \<Rightarrow> False" by code_simp
  then obtain rid prev where res: "res = Reply (rid, prev)" using x by (auto split: reply.splits)
  have "read_request ''allow'' (hr_body (change_request ''allow'' True)) = Some ([\<lparr>ch_key = ''p/m'', ch_on = True\<rparr>], [])"
    by code_simp
  with approval_batches_are_exact [OF x] show ?thesis unfolding x res by auto
qed

theorem rules_never_overstate_witness:
  "\<exists>res m r. rules_apply good_io 5 (change_request ''allow'' True) (fst sample_rules) (snd sample_rules) = (res, m, r) \<and>
     mget False (ru_rules r) ''p/m'' \<and> mget False (mg_allow m) ''p/m''"
proof -
  let ?x = "rules_apply good_io 5 (change_request ''allow'' True) (fst sample_rules) (snd sample_rules)"
  obtain res m r where x: "?x = (res, m, r)" by (cases ?x)
  have "mget False (ru_rules (snd (snd ?x))) ''p/m''" by code_simp
  moreover have "new_rules True 0 ''d'' blank_disk sample_probed = (fst sample_rules, snd sample_rules)" by (simp add: sample_rules_def)
  ultimately show ?thesis using rules_never_overstate [OF _ x] x by auto
qed

section \<open>Withdrawn approvals\<close>

lemma update_first_same:
  "update_first P f xs = Some ys \<Longrightarrow> find P xs = Some x \<Longrightarrow> P (f x) \<Longrightarrow> find P ys = Some (f x)"
  by (induction xs arbitrary: ys) (auto split: if_splits)

lemma set_allow_find:
  assumes "set_allow now p i b m = (True, m')" and "find (is_entry p i) (models_of m) = Some x"
  shows "find (is_entry p i) (models_of m') = Some (x\<lparr>m_auto_routable := (b \<and> m_status x = Active), m_updated_at := now\<rparr>)"
  using assms(1)
proof (cases rule: set_allow_accepted)
  case (1 z ms)
  have "is_entry p i x" using assms(2) by (simp add: find_Some_iff) blast
  then show ?thesis unfolding 1(4) using update_first_same [OF 1(3) assms(2)] by simp
qed

text \<open>
  The rules are kept beside the catalog and an admission does not touch them. Unadmitting a model
  withdraws its approval from the catalog, but not its rule: once the model is admitted again, the
  next start of the process puts it in Auto although the catalog holds no approval for it.
\<close>

lemma restart_reapproves:
  assumes "dir \<noteq> []" and "read_doc readable (d_file d) = Parsed \<lparr>rd_rules = [(k, True)], rd_audits = as\<rparr>"
    and "split_slash k = Some (p, i)" and "find (is_entry p i) (models_of m) = Some x" and "auto_approval_ready x"
    and "m_status x = Active"
  shows "\<exists>y. find (is_entry p i) (models_of (fst (new_rules readable now dir d m))) = Some y \<and> m_auto_routable y"
proof -
  have ok: "entry_ok m p i True" using assms(4,5) by (simp add: entry_ok_def)
  then obtain m1 where a: "set_allow now p i True m = (True, m1)" using set_allow_ok [of now p i True m] by (cases "set_allow now p i True m") simp
  then have "entry_ok m1 p i True" using ok set_allow_entries [of now p i True m p i True] by simp
  then obtain m2 where b: "set_allow now p i True m1 = (True, m2)" using set_allow_ok [of now p i True m1] by (cases "set_allow now p i True m1") simp
  have "m_auto_routable y" if "find (is_entry p i) (models_of m2) = Some y" for y
    using that set_allow_find [OF b set_allow_find [OF a assms(4)]] assms(6) by auto
  moreover have "find (is_entry p i) (models_of m2) \<noteq> None"
    using set_allow_find [OF b set_allow_find [OF a assms(4)]] by simp
  moreover have "fst (new_rules readable now dir d m) = m2"
    using assms(1-3) a b by (simp add: new_rules_def rules_load_def Let_def split: prod.split)
  ultimately show ?thesis by auto
qed

text \<open>
  A rule that cannot be applied when the rules are loaded, because its model is not listed at that
  moment, is shown as switched off, while the catalog keeps the approval: the model is in Auto again
  with the next synchronisation that lists it.
\<close>

lemma missing_model_hides_its_approval:
  assumes "dir \<noteq> []" and "read_doc readable (d_file d) = Parsed \<lparr>rd_rules = [(k, True)], rd_audits = as\<rparr>"
    and "split_slash k = Some (p, i)" and "find (is_entry p i) (models_of m) = None" and "new_rules readable now dir d m = (m', r)"
  shows "mget False (ru_rules r) k = False \<and> mg_allow m' = mg_allow m"
proof -
  have "set_allow now p i True m = (False, m)" using assms(4) by (simp add: set_allow_def)
  then show ?thesis using assms(1-3,5) by (auto simp: new_rules_def rules_load_def Let_def allow_snapshot_def)
qed

end
