(* ===== verification/Provider_Validate.thy ===== *)
theory Provider_Validate
  imports Provider_Registry Go_Time
begin

text \<open>
  The connection test of a provider (internal/provider/validate.go): the catalog is fetched, then one
  chat request is sent to its first model. The network is a parameter: what each of the two
  requests meets, given its URL and Authorization header, and the times they take.
\<close>

record validation_step =
  vs_ok :: bool
  vs_status :: int
  vs_latency :: int
  vs_message :: string

record validation_result =
  vr_ok :: bool
  vr_base :: string
  vr_count :: int
  vr_sample :: string
  vr_error :: string
  vr_network :: validation_step
  vr_auth :: validation_step
  vr_models :: validation_step
  vr_chat :: validation_step

text \<open>
  Building a request may fail, or sending it, or reading the answer (its first 2 MiB); the body is
  the JSON value it parses to, None when it is not JSON.
\<close>

datatype answer_body = Unread string | Body "json option"

datatype exchange = NotBuilt string | NoAnswer string | Answer int answer_body

record validation_env =
  ve_models :: "string \<Rightarrow> string option \<Rightarrow> exchange"
  ve_chat :: "string \<Rightarrow> string option \<Rightarrow> string \<Rightarrow> exchange"
  ve_models_time :: duration
  ve_chat_time :: duration

definition blank_step :: validation_step where
  "blank_step = \<lparr>vs_ok = False, vs_status = 0, vs_latency = 0, vs_message = ''''\<rparr>"

definition blank_result :: validation_result where
  "blank_result = \<lparr>vr_ok = False, vr_base = '''', vr_count = 0, vr_sample = '''', vr_error = '''',
     vr_network = blank_step, vr_auth = blank_step, vr_models = blank_step, vr_chat = blank_step\<rparr>"

definition set_bearer :: "string \<Rightarrow> string option" where
  "set_bearer key = (if trim_space key \<noteq> '''' then Some (''Bearer '' @ key) else None)"

definition safe_error :: "string \<Rightarrow> string" where
  "safe_error m = (if length m > 300 then take 300 m else m)"

definition url_error_text :: "reg_error \<Rightarrow> string" where
  "url_error_text e =
     (case e of
        UrlRequired \<Rightarrow> ''base_url is required''
      | UrlNotAbsolute \<Rightarrow> ''base_url must be an absolute http or https URL''
      | UrlHasExtras \<Rightarrow> ''base_url must not contain credentials, query, or fragment''
      | UrlBadPath \<Rightarrow> ''base_url path must be empty or /v1''
      | _ \<Rightarrow> '''')"

text \<open>The choices of a chat answer; an answer of the wrong shape has none.\<close>

definition has_choices :: "json option \<Rightarrow> bool" where
  "has_choices body =
     (case body of None \<Rightarrow> False
      | Some j \<Rightarrow> field_ok ''choices'' dec_list [] j \<and> field ''choices'' dec_list [] j \<noteq> [])"

definition catalog_of :: "json option \<Rightarrow> raw_model list" where
  "catalog_of body = (case body of None \<Rightarrow> [] | Some j \<Rightarrow> (case dec_models j of (ms, ok) \<Rightarrow> if ok then ms else []))"

definition rejected :: "int \<Rightarrow> bool" where
  "rejected status \<longleftrightarrow> status = 401 \<or> status = 403"

text \<open>The second half: the chat request to the first model of the catalog.\<close>

definition validate_chat :: "validation_env \<Rightarrow> string \<Rightarrow> string \<Rightarrow> validation_result \<Rightarrow> validation_result" where
  "validate_chat v base key r =
     (case ve_chat v (base @ ''/chat/completions'') (set_bearer key) (vr_sample r) of
        NotBuilt e \<Rightarrow> r\<lparr>vr_error := ''network'', vr_chat := (vr_chat r)\<lparr>vs_message := e\<rparr>\<rparr>
      | NoAnswer e \<Rightarrow>
          r\<lparr>vr_error := ''network'', vr_chat := (vr_chat r)\<lparr>vs_latency := milliseconds (ve_chat_time v), vs_message := safe_error e\<rparr>\<rparr>
      | Answer status body \<Rightarrow>
          (let c = (vr_chat r)\<lparr>vs_latency := milliseconds (ve_chat_time v), vs_status := status\<rparr> in
           case body of
             Unread e \<Rightarrow> r\<lparr>vr_error := ''network'', vr_chat := c\<lparr>vs_message := e\<rparr>\<rparr>
           | Body j \<Rightarrow>
               if rejected status
               then r\<lparr>vr_error := ''auth'', vr_auth := (vr_auth r)\<lparr>vs_ok := False\<rparr>,
                      vr_chat := c\<lparr>vs_message := ''API Key rejected by chat endpoint''\<rparr>\<rparr>
               else if \<not> success_status status
               then r\<lparr>vr_error := error_text (classify status False),
                      vr_chat := c\<lparr>vs_message := ''chat endpoint returned HTTP '' @ itoa status\<rparr>\<rparr>
               else if \<not> has_choices j
               then r\<lparr>vr_error := ''invalid_chat'', vr_chat := c\<lparr>vs_message := ''chat response must contain choices''\<rparr>\<rparr>
               else r\<lparr>vr_chat := c\<lparr>vs_ok := True\<rparr>, vr_ok := True\<rparr>))"

definition validate_connection :: "url_parser \<Rightarrow> validation_env \<Rightarrow> provider_input \<Rightarrow> validation_result" where
  "validate_connection parse v inp =
     (case normalize_base_url parse (pi_base_url inp) of
        Inl e \<Rightarrow> blank_result\<lparr>vr_error := ''invalid_url'', vr_network := blank_step\<lparr>vs_message := url_error_text e\<rparr>\<rparr>
      | Inr base \<Rightarrow>
          (let r0 = blank_result\<lparr>vr_base := base\<rparr> in
           case ve_models v (base @ ''/models'') (set_bearer (pi_api_key inp)) of
             NotBuilt e \<Rightarrow> r0\<lparr>vr_error := ''network'', vr_network := blank_step\<lparr>vs_message := e\<rparr>\<rparr>
           | NoAnswer e \<Rightarrow>
               r0\<lparr>vr_error := ''network'',
                  vr_network := blank_step\<lparr>vs_latency := milliseconds (ve_models_time v), vs_message := safe_error e\<rparr>\<rparr>
           | Answer status body \<Rightarrow>
               (let s = blank_step\<lparr>vs_status := status\<rparr>;
                    r1 = r0\<lparr>vr_network := s\<lparr>vs_ok := True, vs_latency := milliseconds (ve_models_time v)\<rparr>, vr_auth := s, vr_models := s\<rparr>
                in case body of
                  Unread e \<Rightarrow> r1\<lparr>vr_error := ''network'', vr_models := s\<lparr>vs_message := e\<rparr>\<rparr>
                | Body j \<Rightarrow>
                    if rejected status
                    then r1\<lparr>vr_error := ''auth'', vr_auth := s\<lparr>vs_message := ''API Key rejected''\<rparr>\<rparr>
                    else
                      (let r2 = r1\<lparr>vr_auth := s\<lparr>vs_ok := True\<rparr>\<rparr> in
                       if \<not> success_status status
                       then r2\<lparr>vr_error := error_text (classify status False),
                               vr_models := s\<lparr>vs_message := ''models endpoint returned HTTP '' @ itoa status\<rparr>\<rparr>
                       else (case catalog_of j of
                           [] \<Rightarrow> r2\<lparr>vr_error := ''invalid_catalog'',
                                    vr_models := s\<lparr>vs_message := ''models response must contain a non-empty data array''\<rparr>\<rparr>
                         | m # ms \<Rightarrow>
                             validate_chat v base (pi_api_key inp)
                               (r2\<lparr>vr_models := s\<lparr>vs_ok := True\<rparr>, vr_count := int (length (m # ms)), vr_sample := rm_id m\<rparr>))))))"

lemma validate_chat_ok:
  assumes "\<not> vr_ok r"
  shows "vr_ok (validate_chat v base key r) \<longleftrightarrow>
     (\<exists>status j. ve_chat v (base @ ''/chat/completions'') (set_bearer key) (vr_sample r) = Answer status (Body j) \<and>
        success_status status \<and> has_choices j)"
  using assms
  by (auto simp: validate_chat_def rejected_def success_status_def Let_def classify_def split: exchange.split answer_body.split)

lemma validate_chat_error:
  assumes "\<not> vr_ok r" and "vr_error r = []"
  shows "vr_error (validate_chat v base key r) = [] \<longleftrightarrow> vr_ok (validate_chat v base key r)"
  using assms
  by (auto simp: validate_chat_def rejected_def success_status_def Let_def classify_def split: exchange.split answer_body.split)

lemma connection_test_exchanges:
  "(vr_ok (validate_connection parse v inp) \<longleftrightarrow>
     (\<exists>base status j m ms status' j'. normalize_base_url parse (pi_base_url inp) = Inr base \<and>
        ve_models v (base @ ''/models'') (set_bearer (pi_api_key inp)) = Answer status (Body j) \<and> success_status status \<and>
        catalog_of j = m # ms \<and>
        ve_chat v (base @ ''/chat/completions'') (set_bearer (pi_api_key inp)) (rm_id m) = Answer status' (Body j') \<and>
        success_status status' \<and> has_choices j')) \<and>
   (vr_ok (validate_connection parse v inp) \<longleftrightarrow> vr_error (validate_connection parse v inp) = '''')"
proof (cases "normalize_base_url parse (pi_base_url inp)")
  case (Inl e)
  then show ?thesis by (simp add: validate_connection_def blank_result_def)
next
  case (Inr base)
  show ?thesis
  proof (cases "\<exists>status j m ms. ve_models v (base @ ''/models'') (set_bearer (pi_api_key inp)) = Answer status (Body j) \<and>
      success_status status \<and> catalog_of j = m # ms")
    case True
    then obtain status j m ms where a: "ve_models v (base @ ''/models'') (set_bearer (pi_api_key inp)) = Answer status (Body j)"
      "success_status status" "catalog_of j = m # ms" by blast
    then have "\<not> rejected status" by (auto simp: success_status_def rejected_def)
    then show ?thesis using a Inr
      by (simp add: validate_connection_def Let_def validate_chat_error validate_chat_ok blank_result_def)
  next
    case False
    then show ?thesis using Inr
      by (auto simp: validate_connection_def Let_def blank_result_def classify_def split: exchange.split answer_body.split list.split)
  qed
qed

lemma tested_base: "normalize_base_url parse (pi_base_url inp) = Inr base \<Longrightarrow> vr_base (validate_connection parse v inp) = base"
  by (simp add: validate_connection_def validate_chat_def Let_def blank_result_def split: exchange.split answer_body.split list.split)

text \<open>
  C31. A provider passes the connection test exactly when its URL is acceptable, the catalog request is
  answered with a 2xx status and a non-empty catalog, and the chat request to the first model of that
  catalog, sent with the same key, is answered with a 2xx status and at least one choice; and the
  test reports an error kind exactly when it is not passed.
\<close>

theorem connection_test_is_exact:
  "(vr_ok (validate_connection parse v inp) \<longleftrightarrow>
     (\<exists>base status j m ms status' j'. normalize_base_url parse (pi_base_url inp) = Inr base \<and>
        ve_models v (base @ ''/models'') (set_bearer (pi_api_key inp)) = Answer status (Body j) \<and> success_status status \<and>
        catalog_of j = m # ms \<and>
        ve_chat v (base @ ''/chat/completions'') (set_bearer (pi_api_key inp)) (rm_id m) = Answer status' (Body j') \<and>
        success_status status' \<and> has_choices j')) \<and>
   (vr_ok (validate_connection parse v inp) \<longleftrightarrow> vr_error (validate_connection parse v inp) = '''')"
  by (rule connection_test_exchanges)

end
