(* ===== verification/Registry_Api.thy ===== *)
theory Registry_Api
  imports Registry_Props Provider_Validate Catalog_Props Http
begin

text \<open>
  The handlers over the registry of providers (internal/api/provider\_registry.go). Every change is followed by a
  reconciliation of the catalog with what the registry now offers, and, when the provider is on, by a
  synchronisation of its models. A handler that panics (a secret with a nonce of the wrong size) has
  no reply (None). The two messages of a JSON reply with status 422 or 201 are values here.
\<close>

record console_env =
  ce_parse :: url_parser
  ce_hash :: "string \<Rightarrow> string"
  ce_ax :: aead
  ce_io :: io
  ce_nonce :: "string option"
  ce_ext :: configs
  ce_checks :: validation_env
  ce_net :: network
  ce_now :: instant
  ce_later :: instant
  ce_say :: "reg_error \<Rightarrow> string"

record console =
  cn_registry :: registry
  cn_manager :: "manager option"

section \<open>Requests and errors\<close>

definition dec_flag :: "bool option decoder" where
  "dec_flag j z = (case j of JBool b \<Rightarrow> (Some b, True) | JNull \<Rightarrow> (None, True) | _ \<Rightarrow> (z, False))"

text \<open>None: the body is missing, or a field of it has the wrong type.\<close>

definition decode_provider_mutation :: "http_request \<Rightarrow> provider_input option" where
  "decode_provider_mutation req =
     (case hr_body req of None \<Rightarrow> None
      | Some j \<Rightarrow>
          if list_all (\<lambda>k. field_ok k dec_string [] j) [''id'', ''name'', ''base_url'', ''api_key'', ''kind''] \<and> field_ok ''enabled'' dec_flag None j
          then Some \<lparr>pi_id = field ''id'' dec_string [] j, pi_name = field ''name'' dec_string [] j,
                     pi_base_url = field ''base_url'' dec_string [] j, pi_api_key = field ''api_key'' dec_string [] j,
                     pi_kind = field ''kind'' dec_string [] j, pi_enabled = field ''enabled'' dec_flag None j\<rparr>
          else None)"

fun provider_error_status :: "reg_error \<Rightarrow> int" where
  "provider_error_status NotFound = 404"
| "provider_error_status Duplicate = 409"
| "provider_error_status ReadOnly = 403"
| "provider_error_status KeyUnavailable = 503"
| "provider_error_status _ = 400"

definition provider_error :: "console_env \<Rightarrow> reg_error \<Rightarrow> 'a reply" where
  "provider_error e x = HttpError (provider_error_status x) (ce_say e x)"

section \<open>After a change\<close>

definition console_reconcile :: "console_env \<Rightarrow> console \<Rightarrow> console option" where
  "console_reconcile e st =
     (case cn_manager st of
        None \<Rightarrow> Some st
      | Some m \<Rightarrow>
          map_option (\<lambda>cs. st\<lparr>cn_manager := Some (reconcile_providers (ce_now e) cs m)\<rparr>)
            (registry_snapshot (ce_ax e) (ce_ext e) (cn_registry st)))"

definition console_sync :: "console_env \<Rightarrow> string \<Rightarrow> console \<Rightarrow> sync_result \<times> console" where
  "console_sync e i st =
     (case cn_manager st of
        None \<Rightarrow> (no_result\<lparr>rs_error := NetworkError, rs_message := ''provider runtime unavailable''\<rparr>, st)
      | Some m \<Rightarrow>
          (case registry_config (ce_ax e) (ce_ext e) i (cn_registry st) of
             None \<Rightarrow> (no_result\<lparr>rs_error := NetworkError, rs_message := ''provider is disabled''\<rparr>, st)
           | Some c \<Rightarrow> (case sync (ce_net e) (ce_later e) c m of (res, m') \<Rightarrow> (res, st\<lparr>cn_manager := Some m'\<rparr>))))"

section \<open>The handlers\<close>

datatype saved = NotSaved validation_result | Saved provider_view "validation_result option" sync_result

definition providers_list :: "http_request \<Rightarrow> registry option \<Rightarrow> (provider_view list \<times> bool) reply" where
  "providers_list req r =
     (if hr_method req \<noteq> ''GET'' then method_not_allowed
      else Reply (case r of None \<Rightarrow> ([], False) | Some r \<Rightarrow> (registry_views r, registry_ready r)))"

text \<open>A test of a stored provider takes the stored key when the request has none; an error of that step is dropped.\<close>

definition provider_validate :: "console_env \<Rightarrow> http_request \<Rightarrow> registry option \<Rightarrow> validation_result reply option" where
  "provider_validate e req r =
     (if hr_method req \<noteq> ''POST'' then Some method_not_allowed
      else (case decode_provider_mutation req of
          None \<Rightarrow> Some (HttpError 400 ''invalid JSON body'')
        | Some inp \<Rightarrow>
            (case (if pi_id inp \<noteq> [] \<and> pi_api_key inp = [] then r else None) of
               None \<Rightarrow> Some (Reply (validate_connection (ce_parse e) (ce_checks e) inp))
             | Some r \<Rightarrow>
                 (case resolve_input (ce_parse e) (ce_hash e) (ce_ax e) (pi_id inp) inp r of
                    Crashed \<Rightarrow> None
                  | Stopped x \<Rightarrow> Some (Reply (validate_connection (ce_parse e) (ce_checks e) inp))
                  | Ran v \<Rightarrow> Some (Reply (validate_connection (ce_parse e) (ce_checks e) v))))))"

text \<open>What follows a change that was written: the reconciliation and the synchronisation.\<close>

definition finish_change ::
  "console_env \<Rightarrow> bool \<Rightarrow> validation_result option \<Rightarrow> provider_view ran \<times> registry \<Rightarrow> console \<Rightarrow> saved reply option \<times> console" where
  "finish_change e with_sync val res st =
     (let st1 = st\<lparr>cn_registry := snd res\<rparr> in
      case fst res of
        Crashed \<Rightarrow> (None, st1)
      | Stopped x \<Rightarrow> (Some (provider_error e x), st1)
      | Ran v \<Rightarrow>
          (case console_reconcile e st1 of
             None \<Rightarrow> (None, st1)
           | Some st2 \<Rightarrow>
               if with_sync then (case console_sync e (pv_id v) st2 of (s, st3) \<Rightarrow> (Some (Reply (Saved v val s)), st3))
               else (Some (Reply (Saved v val no_result)), st2)))"

definition provider_create :: "console_env \<Rightarrow> http_request \<Rightarrow> console \<Rightarrow> saved reply option \<times> console" where
  "provider_create e req st =
     (if hr_method req \<noteq> ''POST'' then (Some method_not_allowed, st)
      else (case decode_provider_mutation req of
          None \<Rightarrow> (Some (HttpError 400 ''invalid JSON body''), st)
        | Some inp \<Rightarrow>
            (let v = validate_connection (ce_parse e) (ce_checks e) inp in
             if \<not> vr_ok v then (Some (Reply (NotSaved v)), st)
             else finish_change e True (Some v)
                    (registry_create (ce_parse e) (ce_hash e) (ce_ax e) (ce_io e) (ce_nonce e) (ce_ext e)
                       (inp\<lparr>pi_base_url := vr_base v\<rparr>) (ce_now e) (cn_registry st)) st)))"

definition provider_update :: "console_env \<Rightarrow> http_request \<Rightarrow> console \<Rightarrow> saved reply option \<times> console" where
  "provider_update e req st =
     (if hr_method req \<noteq> ''POST'' then (Some method_not_allowed, st)
      else (case decode_provider_mutation req of
          None \<Rightarrow> (Some (HttpError 400 ''invalid JSON body''), st)
        | Some inp0 \<Rightarrow>
            (let i = trim_space (hr_query req ''id''); inp = inp0\<lparr>pi_id := i\<rparr> in
             case resolve_input (ce_parse e) (ce_hash e) (ce_ax e) i inp (cn_registry st) of
               Crashed \<Rightarrow> (None, st)
             | Stopped x \<Rightarrow> (Some (provider_error e x), st)
             | Ran full \<Rightarrow>
                 (let v = validate_connection (ce_parse e) (ce_checks e) full in
                  if \<not> vr_ok v then (Some (Reply (NotSaved v)), st)
                  else finish_change e True (Some v)
                         (registry_update (ce_parse e) (ce_hash e) (ce_ax e) (ce_io e) (ce_nonce e) i
                            (inp\<lparr>pi_base_url := vr_base v\<rparr>) (ce_now e) (ce_later e) (cn_registry st)) st))))"

definition provider_set_enabled :: "console_env \<Rightarrow> bool \<Rightarrow> http_request \<Rightarrow> console \<Rightarrow> saved reply option \<times> console" where
  "provider_set_enabled e on req st =
     (if hr_method req \<noteq> ''POST'' then (Some method_not_allowed, st)
      else finish_change e on None (registry_set_enabled (ce_io e) (trim_space (hr_query req ''id'')) on (ce_now e) (cn_registry st)) st)"

definition provider_delete :: "console_env \<Rightarrow> http_request \<Rightarrow> console \<Rightarrow> string reply option \<times> console" where
  "provider_delete e req st =
     (if hr_method req \<noteq> ''POST'' then (Some method_not_allowed, st)
      else (let i = trim_space (hr_query req ''id'') in
            case registry_delete (ce_io e) i (cn_registry st) of
              (Some x, r) \<Rightarrow> (Some (provider_error e x), st\<lparr>cn_registry := r\<rparr>)
            | (None, r) \<Rightarrow>
                (case console_reconcile e (st\<lparr>cn_registry := r\<rparr>) of
                   None \<Rightarrow> (None, st\<lparr>cn_registry := r\<rparr>) | Some st' \<Rightarrow> (Some (Reply i), st'))))"

section \<open>The catalog follows the registry\<close>

lemma reconcile_registry: "console_reconcile e st = Some st' \<Longrightarrow> cn_registry st' = cn_registry st"
  by (auto simp: console_reconcile_def split: option.splits)

lemma sync_registry [simp]: "cn_registry (snd (console_sync e i st)) = cn_registry st"
  by (auto simp: console_sync_def split: option.split prod.split)

lemma finish_registry [simp]: "cn_registry (snd (finish_change e s val res st)) = snd res"
proof (cases "fst res")
  case (Ran v)
  show ?thesis
  proof (cases "console_reconcile e (st\<lparr>cn_registry := snd res\<rparr>)")
    case (Some st2)
    then have "cn_registry st2 = snd res" by (simp add: reconcile_registry)
    then show ?thesis using Ran Some sync_registry [of e "pv_id v" st2]
      by (cases "console_sync e (pv_id v) st2") (simp add: finish_change_def)
  qed (simp add: finish_change_def Ran)
qed (simp_all add: finish_change_def)

text \<open>Right after a reconciliation no model of a provider that the registry does not offer is routed automatically.\<close>

lemma reconciled_in_step:
  assumes "registry_wf (ce_ax e) (cn_registry st)" and "wf_map (ce_ext e)" and "console_reconcile e st = Some st'" and "cn_manager st' = Some m"
    and "x \<in> set (models_of m)" and "m_auto_routable x"
  shows "offered (ce_ax e) (ce_ext e) (cn_registry st) (m_provider x) \<noteq> None"
proof -
  obtain m0 cs where cs: "registry_snapshot (ce_ax e) (ce_ext e) (cn_registry st) = Some cs" "m = reconcile_providers (ce_now e) cs m0"
    using assms(3,4) by (cases "cn_manager st") (auto simp: console_reconcile_def)
  have "map_of cs i = offered (ce_ax e) (ce_ext e) (cn_registry st) i" for i
    using snapshot_offered [OF assms(1,2), of i] cs(1) by auto
  then show ?thesis using assms(5,6) by (auto simp: cs(2) reconciled_models reconcile_model_def online_in_def split: if_splits)
qed

section \<open>What a create stores\<close>

lemma create_stores:
  assumes "registry_create parse id_hash ax io nonce ext inp now r = (res, r')" and "map_of (rr_dynamic r') i \<noteq> map_of (rr_dynamic r) i"
  shows "\<exists>v x. validate_input parse id_hash True inp = Inr v \<and> i = pi_id v \<and> length (rr_key r) = 32 \<and> map_of (rr_env r) i = None \<and>
     map_of (external_configs ext) i = None \<and> map_of (rr_dynamic r) i = None \<and> map_of (rr_dynamic r') i = Some x \<and>
     (\<forall>k. k \<noteq> i \<longrightarrow> map_of (rr_dynamic r') k = map_of (rr_dynamic r) k) \<and>
     encrypt_key ax (rr_key r) nonce (pi_api_key v) = Some (dp_secret x) \<and> dp_id x = i \<and> dp_base_url x = pi_base_url v \<and>
     dp_enabled x = (pi_enabled v \<noteq> Some False) \<and> res = Ran (view_dynamic x)"
proof (cases "validate_input parse id_hash True inp")
  case (Inl e)
  then show ?thesis using assms by (simp add: registry_create_def)
next
  case (Inr v)
  then show ?thesis using assms
    by (auto simp: registry_create_def registry_persist_eq Let_def split: if_splits option.splits)
qed

lemma validated_fields: "validate_input parse id_hash b inp = Inr v \<Longrightarrow>
    pi_api_key v = pi_api_key inp \<and> pi_enabled v = pi_enabled inp \<and> normalize_base_url parse (pi_base_url inp) = Inr (pi_base_url v)"
  by (auto simp: validate_input_def Let_def split: if_splits sum.splits)


definition passing_checks :: validation_env where
  "passing_checks = \<lparr>ve_models = (\<lambda>u k. Answer 200 (Body (Some (JObj [(''data'', JArr [JObj [(''id'', JStr ''m'')]])])))),
     ve_chat = (\<lambda>u k m. Answer 200 (Body (Some (JObj [(''choices'', JArr [JObj []])])))), ve_models_time = 0, ve_chat_time = 0\<rparr>"

definition sample_console_env :: console_env where
  "sample_console_env = \<lparr>ce_parse = sample_parse, ce_hash = (\<lambda>n. ''000000''), ce_ax = plain_aead, ce_io = good_io,
     ce_nonce = Some (replicate 12 CHR ''n''), ce_ext = [], ce_checks = passing_checks, ce_net = (\<lambda>u k. TransportError []), ce_now = 5, ce_later = 6, ce_say = (\<lambda>x. [])\<rparr>"

definition create_query :: http_request where
  "create_query = post_request (JObj [(''id'', JStr ''acme''), (''base_url'', JStr ''https://h''), (''api_key'', JStr ''k1'')])"

definition sample_console :: console where
  "sample_console = \<lparr>cn_registry = sample_registry, cn_manager = None\<rparr>"


end
