(* ===== verification/Provider_Ops.thy ===== *)
theory Provider_Ops
  imports Http Health
begin

text \<open>
  The switches of an operator over whole providers (internal/api/native_ops.go): providers taken out of
  service, cooldowns, and the last error of each synchronisation, with their document. The clearer of
  the cooldowns that main installs is the Clear method of the route health, so a handler that runs
  it returns the changed health.
\<close>

record sync_error =
  se_type :: string
  se_message :: string
  se_time :: instant

record ops_doc =
  od_disabled :: "(string, bool) gomap option"
  od_cooldown :: "(string, instant) gomap option"
  od_errors :: "(string, sync_error) gomap option"

record ops_state =
  op_disabled :: "(string, bool) gomap"
  op_cooldown :: "(string, instant) gomap"
  op_errors :: "(string, sync_error) gomap"
  op_path :: string
  op_disk :: "ops_doc disk"

definition new_ops :: "ops_doc disk \<Rightarrow> ops_state" where
  "new_ops d = \<lparr>op_disabled = [], op_cooldown = [], op_errors = [], op_path = [], op_disk = d\<rparr>"

definition loaded :: "'a option \<Rightarrow> 'a \<Rightarrow> 'a" where
  "loaded x old = (case x of None \<Rightarrow> old | Some y \<Rightarrow> y)"

definition ops_load :: "string \<Rightarrow> bool \<Rightarrow> ops_state \<Rightarrow> ops_state" where
  "ops_load p readable o1 =
     (let o2 = o1\<lparr>op_path := p\<rparr> in
      case read_doc readable (d_file (op_disk o1)) of
        Parsed x \<Rightarrow> o2\<lparr>op_disabled := loaded (od_disabled x) (op_disabled o2), op_cooldown := loaded (od_cooldown x) (op_cooldown o2),
                       op_errors := loaded (od_errors x) (op_errors o2)\<rparr>
      | _ \<Rightarrow> o2)"

definition ops_doc_of :: "ops_state \<Rightarrow> ops_doc" where
  "ops_doc_of o1 = \<lparr>od_disabled = Some (op_disabled o1), od_cooldown = Some (op_cooldown o1), od_errors = Some (op_errors o1)\<rparr>"

definition ops_persist :: "io \<Rightarrow> ops_state \<Rightarrow> ops_state" where
  "ops_persist io o1 =
     (if op_path o1 = [] then o1 else o1\<lparr>op_disk := snd (write_atomic io (ops_doc_of o1) (op_disk o1))\<rparr>)"

interpretation ops_file: durable_store ops_doc_of op_disk "\<lambda>s. op_path s \<noteq> []" ops_persist
  by unfold_locales (auto simp: ops_persist_def ops_doc_of_def)

definition disable_path :: string where "disable_path = ''/api/admin/provider/disable''"
definition enable_path :: string where "enable_path = ''/api/admin/provider/enable''"
definition clear_path :: string where "clear_path = ''/api/admin/cooldowns/clear''"

text \<open>The health is None while no clearer is installed; the reply names the action and the provider.\<close>

definition ops_handle ::
  "io \<Rightarrow> io \<Rightarrow> http_request \<Rightarrow> ops_state \<Rightarrow> health option \<Rightarrow> (string \<times> string) reply \<times> ops_state \<times> health option" where
  "ops_handle io io' req o1 h =
     (let i = hr_query req ''id''; p = hr_path req; done = Reply (p, i) in
      if hr_method req \<noteq> ''POST'' then (method_not_allowed, o1, h)
      else if p = disable_path then
        (if i = [] then (HttpError 400 ''missing id'', o1, h)
         else (done, ops_persist io (o1\<lparr>op_disabled := mput i True (op_disabled o1)\<rparr>), h))
      else if p = enable_path then
        (if i = [] then (HttpError 400 ''missing id'', o1, h)
         else (done, ops_persist io (o1\<lparr>op_disabled := mdel i (op_disabled o1)\<rparr>), h))
      else if p = clear_path then
        (done, ops_persist io (o1\<lparr>op_cooldown := []\<rparr>), map_option (health_clear io') h)
      else (HttpError 404 ''404 page not found'', o1, h))"

definition is_disabled :: "ops_state \<Rightarrow> string \<Rightarrow> bool" where
  "is_disabled o1 i = mget False (op_disabled o1) i"

definition ops_cooldown :: "string \<Rightarrow> instant \<Rightarrow> ops_state \<Rightarrow> instant \<times> bool" where
  "ops_cooldown i now o1 =
     (case map_of (op_cooldown o1) i of None \<Rightarrow> (zero_time, False) | Some t \<Rightarrow> (t, t > now))"

definition mark_sync_error :: "io \<Rightarrow> string \<Rightarrow> string \<Rightarrow> string \<Rightarrow> instant \<Rightarrow> ops_state \<Rightarrow> ops_state" where
  "mark_sync_error io i k t now o1 =
     ops_persist io (o1\<lparr>op_errors := mput i \<lparr>se_type = k, se_message = t, se_time = now\<rparr> (op_errors o1)\<rparr>)"

definition clear_sync_error :: "io \<Rightarrow> string \<Rightarrow> ops_state \<Rightarrow> ops_state" where
  "clear_sync_error io i o1 = ops_persist io (o1\<lparr>op_errors := mdel i (op_errors o1)\<rparr>)"

definition sync_error_of :: "string \<Rightarrow> ops_state \<Rightarrow> sync_error option" where
  "sync_error_of i o1 = map_of (op_errors o1) i"

section \<open>The switch of a provider\<close>

datatype ops_event =
  OpsRequest io io http_request "health option"
| SyncFailed io string string string instant
| SyncWorked io string

fun ops_step :: "ops_state \<Rightarrow> ops_event \<Rightarrow> ops_state" where
  "ops_step o1 (OpsRequest io io' req h) = fst (snd (ops_handle io io' req o1 h))"
| "ops_step o1 (SyncFailed io i k t now) = mark_sync_error io i k t now o1"
| "ops_step o1 (SyncWorked io i) = clear_sync_error io i o1"

fun switches_on :: "ops_event \<Rightarrow> string \<Rightarrow> bool" where
  "switches_on (OpsRequest io io' req h) i \<longleftrightarrow> hr_path req = enable_path \<and> hr_query req ''id'' = i"
| "switches_on _ i \<longleftrightarrow> False"

lemma ops_persist_fields [simp]:
  "op_disabled (ops_persist io o1) = op_disabled o1" "op_cooldown (ops_persist io o1) = op_cooldown o1"
  "op_errors (ops_persist io o1) = op_errors o1" "op_path (ops_persist io o1) = op_path o1"
  by (simp_all add: ops_persist_def)

lemma ops_handle_disabled:
  "op_disabled (fst (snd (ops_handle io io' req o1 h))) =
     (let i = hr_query req ''id'' in
      if hr_method req \<noteq> ''POST'' \<or> i = [] then op_disabled o1
      else if hr_path req = disable_path then mput i True (op_disabled o1)
      else if hr_path req = enable_path then mdel i (op_disabled o1)
      else op_disabled o1)"
  by (auto simp: ops_handle_def Let_def disable_path_def enable_path_def clear_path_def)

text \<open>Once off, a provider stays off until a request enables that very provider.\<close>

interpretation ops_switch: latch ops_step is_disabled switches_on
proof
  fix o1 i e
  assume h: "is_disabled o1 i" and n: "\<not> switches_on e i"
  show "is_disabled (ops_step o1 e) i"
  proof (cases e)
    case (OpsRequest io io' req hh)
    then show ?thesis using h n by (auto simp: is_disabled_def ops_handle_disabled Let_def)
  qed (use h in \<open>simp_all add: is_disabled_def mark_sync_error_def clear_sync_error_def\<close>)
qed

lemma disable_switches_off:
  assumes "ops_handle io io' req o1 h = (Reply (disable_path, i), o2, h')"
  shows "is_disabled o2 i"
proof -
  have "hr_method req = ''POST''" "hr_path req = disable_path" "hr_query req ''id'' = i" "i \<noteq> []"
    using assms by (auto simp: ops_handle_def method_not_allowed_def Let_def split: if_splits)
  then have "op_disabled (fst (snd (ops_handle io io' req o1 h))) = mput i True (op_disabled o1)"
    by (simp add: ops_handle_disabled)
  then show ?thesis using assms by (simp add: is_disabled_def)
qed

lemma ops_restart:
  assumes "op_path o1 \<noteq> []" and "io_ok io"
  shows "op_disabled (ops_load (op_path o1) True (new_ops (op_disk (ops_persist io o1)))) = op_disabled o1"
proof -
  have "read_doc True (d_file (op_disk (ops_persist io o1))) = Parsed (ops_doc_of o1)"
    using ops_file.saved [OF assms] by simp
  then show ?thesis by (simp add: ops_load_def new_ops_def loaded_def ops_doc_of_def Let_def)
qed

end
