(* ===== verification/Go_Int.thy ===== *)
theory Go_Int
  imports Go_Encoding Go_Time
begin

text \<open>
  strconv.ParseInt and cutting a text at a separator byte, with the round trip of decimal numbers.
\<close>

section \<open>Numbers and separators\<close>

text \<open>strconv.ParseInt in base 10 with 64 bits.\<close>

fun digits_value :: "int \<Rightarrow> string \<Rightarrow> int option" where
  "digits_value acc [] = Some acc"
| "digits_value acc (c # cs) =
     (if 48 \<le> byte c \<and> byte c \<le> 57 then digits_value (acc * 10 + int (byte c - 48)) cs else None)"

definition parse_int :: "string \<Rightarrow> int option" where
  "parse_int s =
     (let (neg, t) = (case s of c # r \<Rightarrow> if c = CHR ''-'' then (True, r) else if c = CHR ''+'' then (False, r) else (False, s) | [] \<Rightarrow> (False, [])) in
      if t = [] then None
      else (case digits_value 0 t of
          None \<Rightarrow> None
        | Some n \<Rightarrow> (let v = (if neg then - n else n) in if - (2 ^ 63) \<le> v \<and> v < 2 ^ 63 then Some v else None)))"

text \<open>strings.SplitN with a one-byte separator and two parts; None when there is one part only.\<close>

fun split_char :: "char \<Rightarrow> string \<Rightarrow> (string \<times> string) option" where
  "split_char d [] = None"
| "split_char d (c # cs) = (if c = d then Some ([], cs) else map_option (\<lambda>(a, b). (c # a, b)) (split_char d cs))"

lemma split_char_append: "d \<notin> set a \<Longrightarrow> split_char d (a @ d # b) = Some (a, b)"
  by (induction a) auto

lemma digits_value_append: "digits_value acc (a @ b) = (case digits_value acc a of None \<Rightarrow> None | Some n \<Rightarrow> digits_value n b)"
  by (induction a arbitrary: acc) auto

section \<open>Decimal numbers read back\<close>

lemma digits_value_nat:
  "digits_value 0 (nat_digits n) = Some (int n) \<and> nat_digits n \<noteq> [] \<and> (\<forall>c \<in> set (nat_digits n). 48 \<le> byte c \<and> byte c \<le> 57)"
proof (induction n rule: nat_digits.induct)
  case (1 n)
  have "int (n div 10) * 10 + int (n mod 10) = int n" by presburger
  with 1 show ?case
    by (subst (1 2 3) nat_digits.simps) (auto simp: digits_value_append)
qed

lemma digit_not_sign: "48 \<le> byte c \<Longrightarrow> c \<noteq> CHR ''-'' \<and> c \<noteq> CHR ''+'' \<and> c \<noteq> CHR ''.''"
  by auto

lemma parse_int_itoa: "- (2 ^ 63) \<le> n \<Longrightarrow> n < 2 ^ 63 \<Longrightarrow> parse_int (itoa n) = Some n"
proof -
  assume n: "- (2 ^ 63) \<le> n" "n < 2 ^ 63"
  obtain c cs where d: "nat_digits (nat \<bar>n\<bar>) = c # cs" by (cases "nat_digits (nat \<bar>n\<bar>)") auto
  then have "48 \<le> byte c" using digits_value_nat [of "nat \<bar>n\<bar>"] by auto
  then show ?thesis
    using n digits_value_nat [of "nat \<bar>n\<bar>"] digit_not_sign [of c] d by (auto simp: parse_int_def itoa_def abs_if split: if_splits)
qed

lemma itoa_no_dot: "CHR ''.'' \<notin> set (itoa n)"
proof -
  have "CHR ''.'' \<notin> set (nat_digits k)" for k using digits_value_nat [of k] digit_not_sign by blast
  then show ?thesis by (simp add: itoa_def)
qed

lemma itoa_inj: "0 \<le> a \<Longrightarrow> 0 \<le> b \<Longrightarrow> itoa a = itoa b \<Longrightarrow> a = b"
proof -
  assume h: "0 \<le> a" "0 \<le> b" "itoa a = itoa b"
  then have "digits_value 0 (nat_digits (nat a)) = digits_value 0 (nat_digits (nat b))" by (simp add: itoa_def)
  then show ?thesis using h digits_value_nat [of "nat a"] digits_value_nat [of "nat b"] by auto
qed

lemma itoa_no_dash: "0 \<le> n \<Longrightarrow> CHR ''-'' \<notin> set (itoa n)"
  using digits_value_nat [of "nat n"] digit_not_sign by (auto simp: itoa_def)

text \<open>The part after the last separator.\<close>

lemma last_part: "a @ (d :: char) # b = a' @ d # b' \<Longrightarrow> d \<notin> set b \<Longrightarrow> d \<notin> set b' \<Longrightarrow> b = b'"
proof -
  assume h: "a @ d # b = a' @ d # b'" "d \<notin> set b" "d \<notin> set b'"
  then have "split_char d (rev b @ d # rev a) = split_char d (rev b' @ d # rev a')"
    by (metis append_Cons append_Nil append_assoc rev.simps(2) rev_append)
  then show ?thesis using h by (simp add: split_char_append)
qed

end
