(* ===== verification/Admin_Auth.thy ===== *)
theory Admin_Auth
  imports Go_Int
begin

text \<open>
  The sign-in of administrators (internal/auth/auth.go): a bearer key, or a session cookie that holds
  an expiry and its signature. HMAC-SHA256 and SHA-256 are the parameters mac and sha; the cookies
  of a request are the name and value pairs net/http has parsed.
\<close>

section \<open>The authorizer\<close>

record authorizer =
  au_key :: string
  au_user :: string
  au_pass :: string

definition session_secret :: "(string \<Rightarrow> string) \<Rightarrow> authorizer \<Rightarrow> string" where
  "session_secret sha a = (if au_key a \<noteq> [] then au_key a else sha (au_user a @ [CHR 0x00] @ au_pass a))"

definition sign_expiry :: "(string \<Rightarrow> string \<Rightarrow> string) \<Rightarrow> (string \<Rightarrow> string) \<Rightarrow> authorizer \<Rightarrow> string \<Rightarrow> string" where
  "sign_expiry mac sha a v = hex_encode (mac (session_secret sha a) v)"

definition cookie_name :: string where
  "cookie_name = ''xing_shu_admin''"

text \<open>The value of the cookie that a successful sign-in sets.\<close>

definition admin_login ::
  "(string \<Rightarrow> string \<Rightarrow> string) \<Rightarrow> (string \<Rightarrow> string) \<Rightarrow> authorizer \<Rightarrow> string \<Rightarrow> string \<Rightarrow> string \<Rightarrow> instant \<Rightarrow> string option" where
  "admin_login mac sha a hmethod user pass now =
     (if hmethod \<noteq> ''POST'' then None
      else if au_user a = [] \<or> au_pass a = [] \<or> user \<noteq> au_user a \<or> pass \<noteq> au_pass a then None
      else (let e = itoa (unix_seconds (now + 2 * hour)) in Some (e @ ''.'' @ sign_expiry mac sha a e)))"

definition valid_cookie ::
  "(string \<Rightarrow> string \<Rightarrow> string) \<Rightarrow> (string \<Rightarrow> string) \<Rightarrow> authorizer \<Rightarrow> instant \<Rightarrow> string \<times> string \<Rightarrow> bool" where
  "valid_cookie mac sha a now c \<longleftrightarrow>
     fst c = cookie_name \<and>
     (case split_char (CHR ''.'') (snd c) of
        None \<Rightarrow> False
      | Some (x, sig) \<Rightarrow>
          (case parse_int x of
             None \<Rightarrow> False
           | Some e \<Rightarrow> e > unix_seconds now \<and> sig = sign_expiry mac sha a x))"

definition admin_check ::
  "(string \<Rightarrow> string \<Rightarrow> string) \<Rightarrow> (string \<Rightarrow> string) \<Rightarrow> authorizer \<Rightarrow> string \<Rightarrow> (string \<times> string) list \<Rightarrow> instant \<Rightarrow> bool" where
  "admin_check mac sha a header cookies now \<longleftrightarrow>
     (if au_key a = [] \<and> (au_user a = [] \<or> au_pass a = []) then False
      else if au_key a \<noteq> [] \<and> header = ''Bearer '' @ au_key a then True
      else list_ex (valid_cookie mac sha a now) cookies)"

section \<open>Sessions\<close>

lemma two_hours: "unix_seconds (now + 2 * hour) = unix_seconds now + 7200"
  by (simp add: unix_seconds_def duration_units)

text \<open>
  C36. A sign-in lasts exactly two hours: the cookie it sets, and no bearer key, is accepted at every
  moment before the expiry and at none from then on.
\<close>

theorem sign_in_lasts_two_hours:
  assumes "admin_login mac sha a hmethod user pass now = Some v" and "header \<noteq> ''Bearer '' @ au_key a"
    and "\<bar>unix_seconds now\<bar> < 2 ^ 62"
  shows "admin_check mac sha a header [(cookie_name, v)] t \<longleftrightarrow> unix_seconds t < unix_seconds now + 7200"
proof -
  let ?e = "unix_seconds now + 7200"
  have a: "au_user a \<noteq> []" "au_pass a \<noteq> []" and v: "v = itoa ?e @ CHR ''.'' # sign_expiry mac sha a (itoa ?e)"
    using assms(1) by (auto simp: admin_login_def two_hours Let_def split: if_splits)
  have "split_char (CHR ''.'') v = Some (itoa ?e, sign_expiry mac sha a (itoa ?e))"
    unfolding v by (rule split_char_append [OF itoa_no_dot])
  moreover have "parse_int (itoa ?e) = Some ?e" using assms(3) by (intro parse_int_itoa) auto
  ultimately show ?thesis using a assms(2) by (simp add: admin_check_def valid_cookie_def)
qed

definition sample_admin :: authorizer where
  "sample_admin = \<lparr>au_key = [], au_user = ''admin'', au_pass = ''pw''\<rparr>"

theorem sign_in_lasts_two_hours_witness:
  "\<exists>v. admin_login (\<lambda>k m. k @ m) (\<lambda>x. x) sample_admin ''POST'' ''admin'' ''pw'' 0 = Some v \<and>
     admin_check (\<lambda>k m. k @ m) (\<lambda>x. x) sample_admin [] [(cookie_name, v)] (7199 * second) \<and>
     \<not> admin_check (\<lambda>k m. k @ m) (\<lambda>x. x) sample_admin [] [(cookie_name, v)] (7200 * second)"
proof -
  obtain v where v: "admin_login (\<lambda>k m. k @ m) (\<lambda>x. x) sample_admin ''POST'' ''admin'' ''pw'' 0 = Some v"
    by (simp add: admin_login_def sample_admin_def Let_def)
  have u: "unix_seconds 0 = 0" "unix_seconds (7199 * second) = 7199" "unix_seconds (7200 * second) = 7200"
    by (simp_all add: unix_seconds_def duration_units)
  show ?thesis
    by (intro exI [of _ v] conjI v) (simp_all add: sign_in_lasts_two_hours [OF v] u)
qed

text \<open>With a bearer key the sessions do not depend on the password: changing it leaves them valid.\<close>

lemma password_does_not_sign:
  assumes "au_key a \<noteq> []" and "au_key b = au_key a"
  shows "admin_check mac sha b header cookies t = admin_check mac sha a header cookies t"
proof -
  have "valid_cookie mac sha b t = valid_cookie mac sha a t"
    using assms by (intro ext) (simp add: valid_cookie_def sign_expiry_def session_secret_def split: option.split prod.split)
  then show ?thesis using assms by (simp add: admin_check_def)
qed

end
