(* ===== verification/Go_Json_Parse.thy ===== *)
theory Go_Json_Parse
  imports Go_Json Go_Strconv Go_Encoding
begin

text \<open>
  The parser of encoding/json, for the texts that arrive inside another document: the arguments of a
  tool call, the content of a message, a stored request. It follows the grammar of RFC 8259 with the
  decoder's treatment of strings (escapes, surrogate pairs, bytes that are not UTF-8) and its limit
  of 10000 nested values. A number is its exact value; decoding it into a float64 fails when it
  does not fit. The recursion runs on fuel, and twice the length of the text and two more is always
  enough.
\<close>

section \<open>Tokens\<close>

definition json_space :: "char \<Rightarrow> bool" where
  "json_space c \<longleftrightarrow> c \<in> {CHR 0x20, CHR 0x09, CHR 0x0A, CHR 0x0D}"

definition skip_ws :: "string \<Rightarrow> string" where
  "skip_ws s = dropWhile json_space s"

lemma skip_ws_length: "length (skip_ws s) \<le> length s"
  by (simp add: skip_ws_def length_dropWhile_le)

definition digit :: "char \<Rightarrow> bool" where
  "digit c \<longleftrightarrow> 48 \<le> byte c \<and> byte c \<le> 57"

text \<open>A number: its text and what follows.\<close>

definition int_part :: "string \<Rightarrow> (string \<times> string) option" where
  "int_part s =
     (case s of
        [] \<Rightarrow> None
      | c # r \<Rightarrow> if c = CHR ''0'' then Some (''0'', r)
                 else if digit c then Some (takeWhile digit s, dropWhile digit s)
                 else None)"

definition frac_part :: "string \<Rightarrow> (string \<times> string) option" where
  "frac_part s =
     (case s of
        [] \<Rightarrow> Some ([], s)
      | c # r \<Rightarrow>
          if c \<noteq> CHR ''.'' then Some ([], s)
          else if takeWhile digit r = [] then None
          else Some (''.'' @ takeWhile digit r, dropWhile digit r))"

definition exp_part :: "string \<Rightarrow> (string \<times> string) option" where
  "exp_part s =
     (case s of
        [] \<Rightarrow> Some ([], s)
      | c # r \<Rightarrow>
          if c \<noteq> CHR ''e'' \<and> c \<noteq> CHR ''E'' then Some ([], s)
          else (let (g, t) = (case r of [] \<Rightarrow> ([], []) | d # u \<Rightarrow> if d = CHR ''+'' \<or> d = CHR ''-'' then ([d], u) else ([], r)) in
                if takeWhile digit t = [] then None
                else Some (''e'' @ g @ takeWhile digit t, dropWhile digit t)))"

definition minus_sign :: "string \<Rightarrow> string \<times> string" where
  "minus_sign s = (case s of [] \<Rightarrow> ([], []) | c # r \<Rightarrow> if c = CHR ''-'' then ([c], r) else ([], s))"

definition scan_number :: "string \<Rightarrow> (string \<times> string) option" where
  "scan_number s =
     (case minus_sign s of (g, s1) \<Rightarrow>
      case int_part s1 of
        None \<Rightarrow> None
      | Some (a, s2) \<Rightarrow>
          (case frac_part s2 of
             None \<Rightarrow> None
           | Some (b, s3) \<Rightarrow>
               (case exp_part s3 of None \<Rightarrow> None | Some (e, s4) \<Rightarrow> Some (g @ a @ b @ e, s4))))"

lemma drop_digits: "length (dropWhile digit s) \<le> length s"
  by (rule length_dropWhile_le)

lemma scan_number_length: "scan_number s = Some (t, r) \<Longrightarrow> length r < length s"
proof -
  assume "scan_number s = Some (t, r)"
  then obtain g s1 a s2 b s3 e where p: "minus_sign s = (g, s1)" "int_part s1 = Some (a, s2)" "frac_part s2 = Some (b, s3)" "exp_part s3 = Some (e, r)"
    by (auto simp: scan_number_def split: option.splits prod.splits)
  have "length s1 \<le> length s" using p(1) by (auto simp: minus_sign_def split: list.splits if_splits)
  moreover have "length s2 < length s1" using p(2) drop_digits
    by (auto simp: int_part_def less_Suc_eq_le split: list.splits if_splits)
  moreover have "length s3 \<le> length s2" using p(3) drop_digits
    by (auto simp: frac_part_def intro: le_SucI split: list.splits if_splits)
  moreover have "length r \<le> length s3" using p(4) drop_digits
    by (auto simp: exp_part_def intro: le_SucI split: list.splits if_splits)
  ultimately show ?thesis by linarith
qed

text \<open>The four digits of an escaped code unit, and the code point of one or two of them.\<close>

definition hex4 :: "string \<Rightarrow> (int \<times> string) option" where
  "hex4 s =
     (case s of
        a # b # c # d # r \<Rightarrow>
          (case (hex_value a, hex_value b, hex_value c, hex_value d) of
             (Some w, Some x, Some y, Some z) \<Rightarrow> Some (((int w * 16 + int x) * 16 + int y) * 16 + int z, r)
           | _ \<Rightarrow> None)
      | _ \<Rightarrow> None)"

definition low_half :: "string \<Rightarrow> (int \<times> string) option" where
  "low_half s =
     (case s of
        a # b # r \<Rightarrow>
          (if a = CHR 0x5C \<and> b = CHR ''u''
           then (case hex4 r of Some (v, r') \<Rightarrow> if 0xDC00 \<le> v \<and> v \<le> 0xDFFF then Some (v, r') else None | None \<Rightarrow> None)
           else None)
      | _ \<Rightarrow> None)"

definition escaped_unit :: "string \<Rightarrow> (string \<times> string) option" where
  "escaped_unit s =
     (case hex4 s of
        None \<Rightarrow> None
      | Some (u, r) \<Rightarrow>
          (case (if 0xD800 \<le> u \<and> u \<le> 0xDBFF then low_half r else None) of
             Some (v, r') \<Rightarrow> Some (utf8 (0x10000 + (u - 0xD800) * 1024 + (v - 0xDC00)), r')
           | None \<Rightarrow> Some (utf8 u, r)))"

lemma hex4_length: "hex4 s = Some (u, r) \<Longrightarrow> length r < length s"
  by (auto simp: hex4_def split: list.splits option.splits)

lemma low_half_length: "low_half s = Some (u, r) \<Longrightarrow> length r < length s"
  by (auto simp: low_half_def split: list.splits option.splits if_splits dest: hex4_length)

lemma escaped_unit_length: "escaped_unit s = Some (t, r) \<Longrightarrow> length r < length s"
  by (auto simp: escaped_unit_def split: option.splits if_splits dest!: hex4_length low_half_length)

definition simple_escape :: "char \<Rightarrow> char option" where
  "simple_escape c =
     (if c = CHR 0x22 \<or> c = CHR 0x5C \<or> c = CHR ''/'' then Some c
      else if c = CHR ''b'' then Some (CHR 0x08)
      else if c = CHR ''f'' then Some (CHR 0x0C)
      else if c = CHR ''n'' then Some (CHR 0x0A)
      else if c = CHR ''r'' then Some (CHR 0x0D)
      else if c = CHR ''t'' then Some (CHR 0x09)
      else None)"

text \<open>A string after its opening quote: its value and what follows the closing quote.\<close>

function scan_string :: "string \<Rightarrow> (string \<times> string) option" where
  "scan_string s =
     (case s of
        [] \<Rightarrow> None
      | c # r \<Rightarrow>
          if c = CHR 0x22 then Some ([], r)
          else if c = CHR 0x5C then
            (case r of
               [] \<Rightarrow> None
             | d # r' \<Rightarrow>
                 if d = CHR ''u'' then
                   (case escaped_unit r' of
                      None \<Rightarrow> None
                    | Some (t, r2) \<Rightarrow> map_option (\<lambda>(x, y). (t @ x, y)) (scan_string r2))
                 else (case simple_escape d of
                      None \<Rightarrow> None
                    | Some e \<Rightarrow> map_option (\<lambda>(x, y). (e # x, y)) (scan_string r')))
          else if byte c < 0x20 then None
          else if rune_size s = 0 then map_option (\<lambda>(x, y). (replacement @ x, y)) (scan_string r)
          else map_option (\<lambda>(x, y). (take (rune_size s) s @ x, y)) (scan_string (drop (rune_size s) s)))"
  by pat_completeness auto
termination by (relation "measure length") (auto dest: escaped_unit_length)

declare scan_string.simps [simp del]

lemma scan_string_length: "scan_string s = Some (t, r) \<Longrightarrow> length r < length s"
proof (induction s arbitrary: t r rule: length_induct)
  case (1 s)
  have IH: "scan_string u = Some (t', r') \<Longrightarrow> length u < length s \<Longrightarrow> length r' < length u" for u t' r'
    using "1.IH" by blast
  show ?case using "1.prems"
    by (subst (asm) scan_string.simps)
       (auto split: list.splits if_splits option.splits prod.splits dest!: escaped_unit_length dest: IH)
qed

section \<open>Values\<close>

definition literal :: "string \<Rightarrow> json \<Rightarrow> string \<Rightarrow> (json \<times> string) option" where
  "literal t j s = (if has_prefix s t then Some (j, drop (length t) s) else None)"

definition number_value :: "string \<Rightarrow> (json \<times> string) option" where
  "number_value s =
     (case scan_number s of
        None \<Rightarrow> None
      | Some (t, r) \<Rightarrow> (case read_literal t of None \<Rightarrow> None | Some q \<Rightarrow> Some (JNum q, r)))"

text \<open>
  A value at the start of the text, the elements of an array after the bracket or a comma, and the
  members of an object likewise. The depth is how many more values may be opened.
\<close>

fun value_at :: "nat \<Rightarrow> int \<Rightarrow> string \<Rightarrow> (json \<times> string) option"
  and elements_at :: "nat \<Rightarrow> int \<Rightarrow> string \<Rightarrow> (json list \<times> string) option"
  and members_at :: "nat \<Rightarrow> int \<Rightarrow> string \<Rightarrow> ((string \<times> json) list \<times> string) option" where
  "value_at 0 d s = None"
| "value_at (Suc n) d s =
     (case s of
        [] \<Rightarrow> None
      | c # r \<Rightarrow>
          if c = CHR ''{'' then
            (if d \<le> 0 then None
             else (case skip_ws r of
                 [] \<Rightarrow> None
               | e # r' \<Rightarrow>
                   if e = CHR ''}'' then Some (JObj [], r')
                   else map_option (\<lambda>(ms, t). (JObj ms, t)) (members_at n (d - 1) (e # r'))))
          else if c = CHR ''['' then
            (if d \<le> 0 then None
             else (case skip_ws r of
                 [] \<Rightarrow> None
               | e # r' \<Rightarrow>
                   if e = CHR '']'' then Some (JArr [], r')
                   else map_option (\<lambda>(xs, t). (JArr xs, t)) (elements_at n (d - 1) (e # r'))))
          else if c = CHR 0x22 then map_option (\<lambda>(t, r'). (JStr t, r')) (scan_string r)
          else if c = CHR ''t'' then literal ''true'' (JBool True) s
          else if c = CHR ''f'' then literal ''false'' (JBool False) s
          else if c = CHR ''n'' then literal ''null'' JNull s
          else number_value s)"
| "elements_at 0 d s = None"
| "elements_at (Suc n) d s =
     (case value_at n d s of
        None \<Rightarrow> None
      | Some (v, r) \<Rightarrow>
          (case skip_ws r of
             [] \<Rightarrow> None
           | c # r' \<Rightarrow>
               if c = CHR '']'' then Some ([v], r')
               else if c = CHR '','' then map_option (\<lambda>(xs, t). (v # xs, t)) (elements_at n d (skip_ws r'))
               else None))"
| "members_at 0 d s = None"
| "members_at (Suc n) d s =
     (case s of
        [] \<Rightarrow> None
      | q # s1 \<Rightarrow>
          if q \<noteq> CHR 0x22 then None
          else (case scan_string s1 of
              None \<Rightarrow> None
            | Some (k, s2) \<Rightarrow>
                (case skip_ws s2 of
                   [] \<Rightarrow> None
                 | e # s3 \<Rightarrow>
                     if e \<noteq> CHR '':'' then None
                     else (case value_at n d (skip_ws s3) of
                         None \<Rightarrow> None
                       | Some (v, r) \<Rightarrow>
                           (case skip_ws r of
                              [] \<Rightarrow> None
                            | c # r' \<Rightarrow>
                                if c = CHR ''}'' then Some ([(k, v)], r')
                                else if c = CHR '','' then map_option (\<lambda>(ms, t). ((k, v) # ms, t)) (members_at n d (skip_ws r'))
                                else None)))))"

definition max_depth :: int where
  "max_depth = 10000"

definition parse_json :: "string \<Rightarrow> json option" where
  "parse_json s =
     (case value_at (2 * length s + 2) max_depth (skip_ws s) of
        None \<Rightarrow> None
      | Some (j, r) \<Rightarrow> if skip_ws r = [] then Some j else None)"

text \<open>json.Valid, and Unmarshal into a value of type any or map[string]any, where numbers must fit.\<close>

definition json_valid :: "string \<Rightarrow> bool" where
  "json_valid s \<longleftrightarrow> parse_json s \<noteq> None"

fun numbers_fit :: "json \<Rightarrow> bool" where
  "numbers_fit (JNum q) \<longleftrightarrow> fl_finite (fl_round q)"
| "numbers_fit (JArr xs) \<longleftrightarrow> list_all numbers_fit xs"
| "numbers_fit (JObj ms) \<longleftrightarrow> list_all (\<lambda>(k, v). numbers_fit v) ms"
| "numbers_fit _ \<longleftrightarrow> True"

text \<open>A target of type any: a number that no float64 holds leaves the old value and is an error.\<close>

definition dec_value :: "json decoder" where
  "dec_value j z =
     (case j of JNum q \<Rightarrow> if fl_finite (fl_round q) then (j, True) else (z, False) | _ \<Rightarrow> (j, numbers_fit j))"

text \<open>A map[string]any target takes an object, or null, which leaves the map nil.\<close>

definition unmarshal_map :: "string \<Rightarrow> json option" where
  "unmarshal_map s =
     (case parse_json s of
        Some (JObj ms) \<Rightarrow> if numbers_fit (JObj ms) then Some (JObj ms) else None
      | Some JNull \<Rightarrow> Some JNull
      | _ \<Rightarrow> None)"

section \<open>Enough fuel\<close>

lemma literal_length: "literal t j s = Some (v, r) \<Longrightarrow> t \<noteq> [] \<Longrightarrow> s \<noteq> [] \<Longrightarrow> length r < length s"
  by (cases t) (auto simp: literal_def split: if_splits)

lemma number_value_length: "number_value s = Some (v, r) \<Longrightarrow> length r < length s"
  by (auto simp: number_value_def split: option.splits dest: scan_number_length)

lemma skip_ws_Cons: "skip_ws r = c # r' \<Longrightarrow> length r' < length r"
  using skip_ws_length [of r] by simp

lemma rest_shorter:
  "value_at n d s = Some (v, r) \<Longrightarrow> length r < length s"
  "elements_at n d s = Some (vs, r) \<Longrightarrow> length r < length s"
  "members_at n d s = Some (ms, r) \<Longrightarrow> length r < length s"
proof (induction n d s and n d s and n d s arbitrary: v r and vs r and ms r rule: value_at_elements_at_members_at.induct)
  case (2 n d s)
  then show ?case
    by (fastforce split: list.splits if_splits dest: skip_ws_Cons scan_string_length literal_length number_value_length)
next
  case (4 n d s)
  show ?case
  proof -
    obtain v r1 where v: "value_at n d s = Some (v, r1)" using 4(3) by (auto split: option.splits)
    obtain c r' where c: "skip_ws r1 = c # r'" using 4(3) v by (auto split: list.splits)
    have "length r1 < length s" "length r' < length r1" using 4(1) [OF v] skip_ws_Cons [OF c] by auto
    moreover have "r = r' \<or> length r < length (skip_ws r')" using 4(2,3) v c by (auto split: if_splits)
    ultimately show ?thesis using skip_ws_length [of r'] by auto
  qed
next
  case (6 n d s)
  show ?case
  proof -
    obtain s1 where s: "s = CHR 0x22 # s1" using 6(3) by (auto split: list.splits if_splits)
    obtain k s2 where k: "scan_string s1 = Some (k, s2)" using 6(3) s by (auto split: option.splits)
    obtain s3 where e: "skip_ws s2 = CHR '':'' # s3" using 6(3) s k by (auto split: list.splits if_splits)
    obtain v r1 where v: "value_at n d (skip_ws s3) = Some (v, r1)" using 6(3) s k e by (auto split: option.splits)
    obtain c r' where c: "skip_ws r1 = c # r'" using 6(3) s k e v by (auto split: list.splits)
    have "length s2 < length s1" "length s3 < length s2" "length r1 < length (skip_ws s3)" "length r' < length r1"
      using scan_string_length [OF k] skip_ws_Cons [OF e] 6(1) s k e v skip_ws_Cons [OF c] by auto
    moreover have "r = r' \<or> length r < length (skip_ws r')" using 6(2,3) s k e v c by (auto split: if_splits)
    ultimately show ?thesis using skip_ws_length [of r'] skip_ws_length [of s3] s by auto
  qed
qed simp_all

lemma enough_fuel:
  "(\<forall>m d s. 2 * length s + 1 \<le> n \<longrightarrow> n \<le> m \<longrightarrow> value_at m d s = value_at n d s) \<and>
   (\<forall>m d s. 2 * length s + 2 \<le> n \<longrightarrow> n \<le> m \<longrightarrow> elements_at m d s = elements_at n d s) \<and>
   (\<forall>m d s. 2 * length s + 1 \<le> n \<longrightarrow> n \<le> m \<longrightarrow> members_at m d s = members_at n d s)"
proof (induction n)
  case (Suc n)
  have V: "value_at m d s = value_at n d s" if "2 * length s + 1 \<le> n" "n \<le> m" for m d s using Suc that by blast
  have E: "elements_at m d s = elements_at n d s" if "2 * length s + 2 \<le> n" "n \<le> m" for m d s using Suc that by blast
  have M: "members_at m d s = members_at n d s" if "2 * length s + 1 \<le> n" "n \<le> m" for m d s using Suc that by blast
  have "value_at m d s = value_at (Suc n) d s" if m: "2 * length s + 1 \<le> Suc n" "Suc n \<le> m" for m d s
  proof (cases s)
    case (Cons c r)
    obtain m' where m': "m = Suc m'" "n \<le> m'" using m(2) by (cases m) auto
    show ?thesis
    proof (cases "skip_ws r")
      case (Cons e r')
      then have "2 * length (e # r') + 2 \<le> n" using m(1) \<open>s = c # r\<close> skip_ws_length [of r] by auto
      then have "elements_at m' (d - 1) (x # r') = elements_at n (d - 1) (x # r')" "members_at m' (d - 1) (x # r') = members_at n (d - 1) (x # r')" for x
        using E [of "x # r'" m'] M [of "x # r'" m'] m'(2) by auto
      then show ?thesis unfolding m'(1) \<open>s = c # r\<close> by (simp add: Cons)
    qed (simp add: m'(1) \<open>s = c # r\<close>)
  qed (use m in \<open>cases m; simp\<close>)
  moreover have "elements_at m d s = elements_at (Suc n) d s" if m: "2 * length s + 2 \<le> Suc n" "Suc n \<le> m" for m d s
  proof -
    obtain m' where m': "m = Suc m'" "n \<le> m'" using m(2) by (cases m) auto
    have v: "value_at m' d s = value_at n d s" using m m' by (intro V) auto
    have "elements_at m' d (skip_ws r') = elements_at n d (skip_ws r')"
      if "value_at n d s = Some (v, r)" "skip_ws r = c # r'" for v r c r'
      using rest_shorter(1) [OF that(1)] skip_ws_Cons [OF that(2)] skip_ws_length [of r'] m m' by (intro E) auto
    then show ?thesis unfolding m'(1) by (auto simp: v split: option.split list.split)
  qed
  moreover have "members_at m d s = members_at (Suc n) d s" if m: "2 * length s + 1 \<le> Suc n" "Suc n \<le> m" for m d s
  proof -
    obtain m' where m': "m = Suc m'" "n \<le> m'" using m(2) by (cases m) auto
    have v: "value_at m' d (skip_ws s3) = value_at n d (skip_ws s3)"
      if "s = q # s1" "scan_string s1 = Some (k, s2)" "skip_ws s2 = e # s3" for q s1 k s2 e s3
      using scan_string_length [OF that(2)] skip_ws_Cons [OF that(3)] skip_ws_length [of s3] that(1) m m' by (intro V) auto
    have "members_at m' d (skip_ws r') = members_at n d (skip_ws r')"
      if "s = q # s1" "scan_string s1 = Some (k, s2)" "skip_ws s2 = e # s3" "value_at n d (skip_ws s3) = Some (v, r)" "skip_ws r = c # r'"
      for q s1 k s2 e s3 v r c r'
      using scan_string_length [OF that(2)] skip_ws_Cons [OF that(3)] skip_ws_length [of s3] rest_shorter(1) [OF that(4)]
        skip_ws_Cons [OF that(5)] skip_ws_length [of r'] that(1) m m' by (intro M) auto
    note rest = this
    show ?thesis
    proof (cases s)
      case (Cons q s1)
      show ?thesis
      proof (cases "scan_string s1")
        case (Some p)
        obtain k s2 where p: "scan_string s1 = Some (k, s2)" using Some by (cases p) auto
        show ?thesis
        proof (cases "skip_ws s2")
          case e: (Cons e s3)
          show ?thesis
          proof (cases "value_at n d (skip_ws s3)")
            case None
            then show ?thesis by (simp add: m'(1) Cons p e v [OF Cons p e])
          next
            case w: (Some w)
            obtain x r where w': "value_at n d (skip_ws s3) = Some (x, r)" using w by (cases w) auto
            show ?thesis
              by (cases "skip_ws r") (simp_all add: m'(1) Cons p e v [OF Cons p e] w' rest [OF Cons p e w'])
          qed
        qed (simp add: m'(1) Cons p)
      qed (simp add: m'(1) Cons)
    qed (simp add: m'(1))
  qed
  ultimately show ?case by blast
qed simp

text \<open>Any larger amount of fuel gives the same answer.\<close>

theorem parse_fuel:
  assumes "2 * length s + 2 \<le> n" shows "value_at n d (skip_ws s) = value_at (2 * length s + 2) d (skip_ws s)"
proof -
  have "2 * length (skip_ws s) + 1 \<le> 2 * length s + 2" using skip_ws_length [of s] by simp
  then show ?thesis using enough_fuel [of "2 * length s + 2"] assms by blast
qed

section \<open>Examples\<close>

lemma parse_object: "parse_json (''{'' @ [CHR 0x22] @ ''a'' @ [CHR 0x22] @ '':[{},null]}'') = Some (JObj [(''a'', JArr [JObj [], JNull])])"
  by code_simp

lemma parse_number: "parse_json '' -2.5e1'' = Some (JNum (- 25))"
  by (simp add: parse_json_def skip_ws_def json_space_def numeral_eq_Suc number_value_def scan_number_def minus_sign_def
      int_part_def frac_part_def exp_part_def digit_def max_depth_def) code_simp

lemma parse_escapes: "scan_string ([CHR 0x5C] @ ''n'' @ [CHR 0x5C] @ ''ud83d'' @ [CHR 0x5C] @ ''ude00'' @ [CHR 0x22]) =
    Some ([CHR 0x0A, CHR 0xF0, CHR 0x9F, CHR 0x98, CHR 0x80], [])"
  by code_simp

lemma parse_rejects: "parse_json ''[1,]'' = None \<and> parse_json ''01'' = None \<and> parse_json ''{} {}'' = None"
  by (intro conjI; code_simp)

end
