(* ===== verification/Probe.thy ===== *)
theory Probe
  imports Catalog_Policy Http Storage Go_Json_Parse
begin

text \<open>
  The capability probes (internal/api/native_probe.go and native_probe_batch.go). A probe asks the
  model itself, with one chat request per capability, and writes evidence into the catalog only when
  all of the answers are conclusive. A batch probes up to fifty models at once: its workers finish in
  any order, which is a step relation here. The network answers each request with a failure, or a
  status and the JSON of the body, None when the body is not JSON.
\<close>

section \<open>One request\<close>

datatype probe_reply = ProbeFailed | ProbeReply int "json option"

type_synonym probe_net = "string \<Rightarrow> string \<Rightarrow> json \<Rightarrow> probe_reply"

definition q1 :: string where "q1 = [CHR 0x22]"

definition user_message :: "json \<Rightarrow> json" where
  "user_message content = JArr [JObj [(''content'', content), (''role'', JStr ''user'')]]"

text \<open>The three request bodies, their members in the order json.Marshal writes a map.\<close>

definition structured_body :: "string \<Rightarrow> json" where
  "structured_body mid = JObj
     [(''max_tokens'', JNum 16),
      (''messages'', user_message (JStr (''Return exactly JSON: {'' @ q1 @ ''ok'' @ q1 @ '':true}''))),
      (''model'', JStr mid),
      (''response_format'', JObj [(''type'', JStr ''json_object'')])]"

definition tools_body :: "string \<Rightarrow> json" where
  "tools_body mid = JObj
     [(''max_tokens'', JNum 16),
      (''messages'', user_message (JStr ''Call the ping function now.'')),
      (''model'', JStr mid),
      (''tool_choice'', JObj [(''function'', JObj [(''name'', JStr ''ping'')]), (''type'', JStr ''function'')]),
      (''tools'', JArr [JObj
         [(''function'', JObj [(''description'', JStr ''Return pong''), (''name'', JStr ''ping''),
            (''parameters'', JObj [(''properties'', JObj []), (''type'', JStr ''object'')])]),
          (''type'', JStr ''function'')]])]"

definition vision_body :: "string \<Rightarrow> json" where
  "vision_body mid = JObj
     [(''max_tokens'', JNum 8),
      (''messages'', user_message (JArr
         [JObj [(''text'', JStr ''Reply with one word.''), (''type'', JStr ''text'')],
          JObj [(''image_url'', JObj [(''url'', JStr
              ''data:image/gif;base64,R0lGODlhAQABAIAAAAAAAP///ywAAAAAAQABAAACAUwAOw=='')]),
            (''type'', JStr ''image_url'')]])),
      (''model'', JStr mid)]"

definition probe_checks :: "string \<Rightarrow> (string \<times> json) list" where
  "probe_checks mid =
     [(''structured_output'', structured_body mid), (''tools'', tools_body mid), (''vision'', vision_body mid)]"

text \<open>
  The reply envelope: content and names of the called functions of each choice.
\<close>

definition dec_call :: "json \<Rightarrow> string \<times> bool" where
  "dec_call j = dec_field ''function'' (\<lambda>f acc. dec_field ''name'' dec_string acc f) [] j"

definition dec_answer :: "(json \<times> string list) decoder" where
  "dec_answer j acc =
     ((fst (dec_field ''content'' dec_value (fst acc) j), fst (dec_field ''tool_calls'' (dec_slice dec_call) (snd acc) j)),
      snd (dec_field ''content'' dec_value (fst acc) j) \<and> snd (dec_field ''tool_calls'' (dec_slice dec_call) (snd acc) j))"

definition dec_choice :: "json \<Rightarrow> (json \<times> string list) \<times> bool" where
  "dec_choice j = dec_field ''message'' dec_answer (JNull, []) j"

definition read_choices :: "json option \<Rightarrow> (json \<times> string list) list" where
  "read_choices body =
     (case body of
        None \<Rightarrow> []
      | Some j \<Rightarrow> (case dec_field ''choices'' (dec_slice dec_choice) [] j of (cs, ok) \<Rightarrow> if ok then cs else []))"

record probe_outcome =
  po_supported :: bool
  po_conclusive :: bool
  po_status :: int
  po_failed :: bool

definition refused_for_good :: "int \<Rightarrow> bool" where
  "refused_for_good st \<longleftrightarrow> 400 \<le> st \<and> st < 500 \<and> st \<noteq> 401 \<and> st \<noteq> 403 \<and> st \<noteq> 408 \<and> st \<noteq> 429"

definition answer_supports :: "string \<Rightarrow> json \<times> string list \<Rightarrow> bool" where
  "answer_supports capability message =
     (if capability = ''structured_output''
      then (case fst message of JStr t \<Rightarrow> unmarshal_map t \<noteq> None | _ \<Rightarrow> False)
      else if capability = ''tools'' then ''ping'' \<in> set (snd message)
      else True)"

definition execute_probe :: "probe_net \<Rightarrow> string \<Rightarrow> string \<Rightarrow> string \<Rightarrow> json \<Rightarrow> probe_outcome" where
  "execute_probe net endpoint key capability body =
     (case net endpoint key body of
        ProbeFailed \<Rightarrow> \<lparr>po_supported = False, po_conclusive = False, po_status = 0, po_failed = True\<rparr>
      | ProbeReply st raw \<Rightarrow>
          if st < 200 \<or> st \<ge> 300
          then \<lparr>po_supported = False, po_conclusive = refused_for_good st, po_status = st, po_failed = False\<rparr>
          else (case read_choices raw of
              [] \<Rightarrow> \<lparr>po_supported = False, po_conclusive = False, po_status = st, po_failed = False\<rparr>
            | c # _ \<Rightarrow> \<lparr>po_supported = answer_supports capability c, po_conclusive = True, po_status = st, po_failed = False\<rparr>))"

section \<open>One model\<close>

text \<open>
  The runtime: the configurations and the gates as they are at the call, the network, and the
  clock, which is read once per capability and once for the update.
\<close>

record probe_runtime =
  pe_configs :: "(string, provider_config) gomap"
  pe_gate :: "(string, bool) gomap"
  pe_net :: probe_net
  pe_checked :: "string \<Rightarrow> instant"
  pe_now :: instant

definition probe_allowed :: "probe_runtime \<Rightarrow> string \<Rightarrow> bool" where
  "probe_allowed env p = (case map_of (pe_gate env) p of Some g \<Rightarrow> g | None \<Rightarrow> True)"

definition chat_endpoint :: "provider_config \<Rightarrow> string" where
  "chat_endpoint c = trim_right_cutset ''/'' (pc_base_url c) @ ''/chat/completions''"

definition evidence_of :: "bool \<Rightarrow> instant \<Rightarrow> evidence" where
  "evidence_of supported t = \<lparr>ev_supported = supported, ev_confidence = 1, ev_source = ''runtime_probe'', ev_level = ''protocol'',
     ev_url = [], ev_hash = [], ev_checked_at = t\<rparr>"

text \<open>The checks in order: the highest status and the evidence, None as soon as one is inconclusive.\<close>

fun run_checks ::
  "probe_runtime \<Rightarrow> provider_config \<Rightarrow> (string \<times> json) list \<Rightarrow> int \<Rightarrow> (string, evidence) gomap \<Rightarrow>
     (int \<times> (string, evidence) gomap) option" where
  "run_checks env c [] st ev = Some (st, ev)"
| "run_checks env c ((name, body) # cs) st ev =
     (let o1 = execute_probe (pe_net env) (chat_endpoint c) (pc_api_key c) name body in
      if po_failed o1 \<or> \<not> po_conclusive o1 then None
      else run_checks env c cs (if po_status o1 > st then po_status o1 else st)
             (mput name (evidence_of (po_supported o1) (pe_checked env name)) ev))"

definition supported_in :: "(string, evidence) gomap \<Rightarrow> string \<Rightarrow> bool" where
  "supported_in ev cap = (case map_of ev cap of None \<Rightarrow> False | Some e \<Rightarrow> ev_supported e)"

definition record_evidence :: "instant \<Rightarrow> (string, evidence) gomap \<Rightarrow> model \<Rightarrow> model" where
  "record_evidence now ev x =
     x\<lparr>m_capability_evidence := fold (\<lambda>(k, v). mput k v) ev (m_capability_evidence x),
       m_structured_output := supported_in ev ''structured_output'', m_structured_output_known := True,
       m_tools := supported_in ev ''tools'', m_vision := supported_in ev ''vision'', m_updated_at := now\<rparr>"

text \<open>Inl: the status and text of the refusal. The manager is None in a runtime without one.\<close>

definition probe_capabilities ::
  "probe_runtime \<Rightarrow> string \<Rightarrow> string \<Rightarrow> manager option \<Rightarrow>
     ((int \<times> string) + (int \<times> (string, evidence) gomap)) \<times> manager option" where
  "probe_capabilities env p mid m =
     (if \<not> probe_allowed env p then (Inl (403, ''provider not authorized''), m)
      else (case map_of (pe_configs env) p of
          None \<Rightarrow> (Inl (404, ''provider not found''), m)
        | Some c \<Rightarrow>
            (case run_checks env c (probe_checks mid) 200 [] of
               None \<Rightarrow> (Inl (502, ''capability probe unavailable''), m)
             | Some (st, ev) \<Rightarrow>
                 (Inr (st, ev), map_option (\<lambda>x. snd (update_provider_model (pe_now env) mid p (record_evidence (pe_now env) ev) x)) m))))"

definition probe_handler ::
  "probe_runtime \<Rightarrow> http_request \<Rightarrow> manager option \<Rightarrow> (int \<times> (string, evidence) gomap) reply \<times> manager option" where
  "probe_handler env req m =
     (if hr_method req \<noteq> ''POST'' then (method_not_allowed, m)
      else (case probe_capabilities env (hr_query req ''provider'') (hr_query req ''model'') m of
          (Inl (st, e), m') \<Rightarrow> (HttpError st e, m')
        | (Inr r, m') \<Rightarrow> (Reply r, m')))"

text \<open>probeModel: whether structured output is supported, the status, and the error text.\<close>

definition probe_one_model :: "probe_runtime \<Rightarrow> string \<Rightarrow> string \<Rightarrow> manager option \<Rightarrow> (bool \<times> int \<times> string option) \<times> manager option" where
  "probe_one_model env p mid m =
     (case probe_capabilities env p mid m of
        (Inl (st, e), m') \<Rightarrow> ((False, st, Some e), m')
      | (Inr (st, ev), m') \<Rightarrow> ((supported_in ev ''structured_output'', st, None), m'))"

section \<open>Batches\<close>

record probe_target =
  pt_provider :: string
  pt_model :: string

record probe_history =
  ph_job :: string
  ph_started :: instant
  ph_ended :: instant
  ph_total :: int
  ph_completed :: int
  ph_failed :: int
  ph_status :: string

record probe_result =
  pr_target :: probe_target
  pr_ok :: bool
  pr_code :: int
  pr_error :: "string option"
  pr_checked :: instant

record probe_job = probe_history +
  pj_results :: "probe_result list"

record probe_batches =
  pb_jobs :: "(string, probe_job) gomap"
  pb_history :: "probe_history list"
  pb_counter :: int
  pb_dir :: string
  pb_disk :: "probe_history list disk"

definition probe_load :: "bool \<Rightarrow> probe_batches \<Rightarrow> probe_batches" where
  "probe_load readable b =
     (if pb_dir b = [] then b
      else (case read_doc readable (d_file (pb_disk b)) of Parsed h \<Rightarrow> b\<lparr>pb_history := h\<rparr> | _ \<Rightarrow> b))"

definition new_probe_batches :: "bool \<Rightarrow> string \<Rightarrow> probe_history list disk \<Rightarrow> probe_batches" where
  "new_probe_batches readable dir d =
     probe_load readable \<lparr>pb_jobs = [], pb_history = [], pb_counter = 0, pb_dir = dir, pb_disk = d\<rparr>"

definition probe_save :: "io \<Rightarrow> probe_batches \<Rightarrow> probe_batches" where
  "probe_save io b =
     (if pb_dir b = [] then b else b\<lparr>pb_disk := snd (write_atomic (io\<lparr>io_mkdir := True\<rparr>) (pb_history b) (pb_disk b))\<rparr>)"

definition dec_target :: "json \<Rightarrow> probe_target \<times> bool" where
  "dec_target j =
     (\<lparr>pt_provider = field ''provider'' dec_string [] j, pt_model = field ''model'' dec_string [] j\<rparr>,
      field_ok ''provider'' dec_string [] j \<and> field_ok ''model'' dec_string [] j)"

definition probeable :: "manager \<Rightarrow> probe_target \<Rightarrow> bool" where
  "probeable m t \<longleftrightarrow>
     list_ex (\<lambda>x. m_provider x = pt_provider t \<and> m_id x = pt_model t \<and> m_status x = Active) (models_of m)"

fun check_targets ::
  "(string, provider_config) gomap \<Rightarrow> manager option \<Rightarrow> string list \<Rightarrow> probe_target list \<Rightarrow> string option" where
  "check_targets cs m seen [] = None"
| "check_targets cs m seen (t # ts) =
     (let key = pt_provider t @ [CHR 0x00] @ pt_model t in
      if pt_provider t = [] \<or> pt_model t = [] \<or> key \<in> set seen
      then Some ''models contain an empty or duplicate target''
      else (case m of
          None \<Rightarrow> Some ''probe runtime unavailable''
        | Some mg \<Rightarrow>
            if \<not> probeable mg t then Some (''model not active: '' @ pt_provider t @ ''/'' @ pt_model t)
            else if map_of cs (pt_provider t) = None then Some (''provider not found: '' @ pt_provider t)
            else check_targets cs m (key # seen) ts))"

definition probe_validate ::
  "(string, provider_config) gomap \<Rightarrow> manager option \<Rightarrow> probe_target list \<Rightarrow> string option" where
  "probe_validate cs m ts =
     (if ts = [] \<or> length ts > 50 then Some ''models must contain 1 to 50 targets'' else check_targets cs m [] ts)"

definition job_name :: "instant \<Rightarrow> int \<Rightarrow> string" where
  "job_name t n = ''probe-'' @ itoa (i64 t) @ ''-'' @ itoa n"

definition fresh_job :: "string \<Rightarrow> instant \<Rightarrow> nat \<Rightarrow> probe_job" where
  "fresh_job jid now n = \<lparr>ph_job = jid, ph_started = now, ph_ended = zero_time, ph_total = int n, ph_completed = 0, ph_failed = 0,
     ph_status = ''running'', pj_results = []\<rparr>"

text \<open>
  Start: the reply carries the job and how many models it probes; the targets are what the
  goroutine it starts will work on. The first reading of the clock names the job.
\<close>

definition probe_start ::
  "(string, provider_config) gomap \<Rightarrow> manager option \<Rightarrow> instant \<Rightarrow> instant \<Rightarrow> http_request \<Rightarrow> probe_batches \<Rightarrow>
     (string \<times> probe_target list) reply \<times> probe_batches" where
  "probe_start cs m t now req b =
     (if hr_method req \<noteq> ''POST'' then (method_not_allowed, b)
      else (case hr_body req of
          None \<Rightarrow> (HttpError 400 ''invalid JSON body'', b)
        | Some j \<Rightarrow>
            (case dec_field ''models'' (dec_slice dec_target) [] j of (ts, ok) \<Rightarrow>
               if \<not> ok then (HttpError 400 ''invalid JSON body'', b)
               else (case probe_validate cs m ts of
                   Some e \<Rightarrow> (HttpError 400 e, b)
                 | None \<Rightarrow>
                     (let n = (pb_counter b + 1) mod 2 ^ 64; jid = job_name t n in
                      (Reply (jid, ts),
                       b\<lparr>pb_counter := n, pb_jobs := mput jid (fresh_job jid now (length ts)) (pb_jobs b)\<rparr>))))))"

definition probe_one :: "probe_runtime \<Rightarrow> instant \<Rightarrow> probe_target \<Rightarrow> manager option \<Rightarrow> probe_result \<times> manager option" where
  "probe_one env now t m =
     (case probe_one_model env (pt_provider t) (pt_model t) m of
        ((ok, st, e), m') \<Rightarrow> (\<lparr>pr_target = t, pr_ok = ok, pr_code = st, pr_error = e, pr_checked = now\<rparr>, m'))"

text \<open>What one worker does under the lock when its probe is over, and what the goroutine does when all are.\<close>

definition count_result :: "probe_result \<Rightarrow> probe_job \<Rightarrow> probe_job" where
  "count_result r j =
     j\<lparr>ph_completed := ph_completed j + 1, ph_failed := (if pr_ok r then ph_failed j else ph_failed j + 1),
       pj_results := pj_results j @ [r]\<rparr>"

definition report_result :: "string \<Rightarrow> probe_result \<Rightarrow> probe_batches \<Rightarrow> probe_batches" where
  "report_result jid r b =
     (case map_of (pb_jobs b) jid of None \<Rightarrow> b | Some j \<Rightarrow> b\<lparr>pb_jobs := mput jid (count_result r j) (pb_jobs b)\<rparr>)"

definition job_entry :: "probe_job \<Rightarrow> probe_history" where
  "job_entry j = probe_history.truncate j"

definition finish_job :: "io \<Rightarrow> string \<Rightarrow> instant \<Rightarrow> probe_batches \<Rightarrow> probe_batches" where
  "finish_job io jid now b =
     (case map_of (pb_jobs b) jid of
        None \<Rightarrow> b
      | Some j0 \<Rightarrow>
          (let j = j0\<lparr>ph_status := ''completed'', ph_ended := now\<rparr> in
           probe_save io (b\<lparr>pb_jobs := mput jid j (pb_jobs b), pb_history := last_n 100 (pb_history b @ [job_entry j])\<rparr>)))"

text \<open>Status and History read; an unknown job is not found.\<close>

definition probe_get :: "string \<Rightarrow> probe_batches \<Rightarrow> probe_job option" where
  "probe_get jid b = map_of (pb_jobs b) jid"

definition probe_status :: "http_request \<Rightarrow> probe_batches \<Rightarrow> probe_job reply" where
  "probe_status req b =
     (let jid = trim_space (hr_query req ''job_id'') in
      if hr_method req \<noteq> ''GET'' then method_not_allowed
      else if jid = [] then HttpError 400 ''job_id is required''
      else (case probe_get jid b of None \<Rightarrow> HttpError 404 ''job not found'' | Some j \<Rightarrow> Reply j))"

definition history_items :: "probe_batches \<Rightarrow> probe_history list" where
  "history_items b = pb_history b"

definition probe_history_view :: "http_request \<Rightarrow> probe_batches \<Rightarrow> probe_history list reply" where
  "probe_history_view req b =
     (if hr_method req \<noteq> ''GET'' then method_not_allowed else Reply (history_items b))"

end
