(* ===== verification/Probe_Props.thy ===== *)
theory Probe_Props
  imports Probe Catalog_Props Go_Int "HOL-Library.Multiset"
begin

text \<open>
  What a probe leaves in the catalog, and the accounting of a batch whose workers finish in any order
  while operators and synchronisations change the catalog.
\<close>

section \<open>All the evidence or none\<close>

definition check_settles :: "probe_runtime \<Rightarrow> provider_config \<Rightarrow> string \<times> json \<Rightarrow> bool" where
  "check_settles env c check =
     (let o1 = execute_probe (pe_net env) (chat_endpoint c) (pc_api_key c) (fst check) (snd check) in
      \<not> po_failed o1 \<and> po_conclusive o1)"

definition probe_settles :: "probe_runtime \<Rightarrow> string \<Rightarrow> string \<Rightarrow> bool" where
  "probe_settles env p mid \<longleftrightarrow>
     probe_allowed env p \<and>
     (case map_of (pe_configs env) p of None \<Rightarrow> False | Some c \<Rightarrow> list_all (check_settles env c) (probe_checks mid))"

lemma run_checks_None: "run_checks env c cs st ev = None \<longleftrightarrow> \<not> list_all (check_settles env c) cs"
proof (induction cs arbitrary: st ev)
  case Nil
  then show ?case by simp
next
  case (Cons k cs)
  then show ?case by (cases k) (simp add: check_settles_def Let_def)
qed

text \<open>What the endpoint of the provider answered to the request for a capability.\<close>

definition answers :: "probe_runtime \<Rightarrow> provider_config \<Rightarrow> string \<Rightarrow> json \<Rightarrow> bool" where
  "answers env c cap body = po_supported (execute_probe (pe_net env) (chat_endpoint c) (pc_api_key c) cap body)"

lemma run_checks_gives:
  "run_checks env c cs st ev = Some (st', ev') \<Longrightarrow> wf_map ev \<Longrightarrow> distinct (map fst cs) \<Longrightarrow>
     wf_map ev' \<and> (\<forall>k. map_of ev' k =
       (case map_of cs k of None \<Rightarrow> map_of ev k | Some body \<Rightarrow> Some (evidence_of (answers env c k body) (pe_checked env k))))"
proof (induction cs arbitrary: st ev)
  case Nil
  then show ?case by simp
next
  case (Cons nb cs)
  obtain n b where nb: "nb = (n, b)" by (cases nb)
  let ?o = "execute_probe (pe_net env) (chat_endpoint c) (pc_api_key c) n b"
  let ?ev = "mput n (evidence_of (po_supported ?o) (pe_checked env n)) ev"
  obtain s where "run_checks env c cs s ?ev = Some (st', ev')"
    using Cons.prems(1) by (simp add: nb Let_def split: if_split_asm)
  moreover have "map_of cs n = None" using Cons.prems(3) by (simp add: nb map_of_eq_None_iff)
  ultimately show ?case using Cons.IH [of s ?ev] Cons.prems(2,3) by (auto simp: nb answers_def split: option.split)
qed

lemma run_checks_evidence:
  assumes "run_checks env c (probe_checks mid) 200 [] = Some (st, ev)"
  shows "wf_map ev" and "map_of ev k =
     (case map_of (probe_checks mid) k of None \<Rightarrow> None | Some body \<Rightarrow> Some (evidence_of (answers env c k body) (pe_checked env k)))"
  using run_checks_gives [OF assms] by (simp_all add: probe_checks_def)

lemma fold_put_lookup:
  "wf_map ev \<Longrightarrow> map_of (fold (\<lambda>(k, v). mput k v) ev m) k = (case map_of ev k of None \<Rightarrow> map_of m k | Some v \<Rightarrow> Some v)"
proof (induction ev arbitrary: m)
  case Nil
  then show ?case by simp
next
  case (Cons kv ev)
  obtain k0 v0 where kv: "kv = (k0, v0)" by (cases kv)
  have "wf_map ev" "map_of ev k0 = None" using Cons.prems by (auto simp: kv wf_map_def map_of_eq_None_iff)
  then show ?case using Cons.IH by (auto simp: kv split: option.splits)
qed

lemma record_evidence_view [simp]: "routing_view (record_evidence now ev x) = routing_view x"
  by (simp add: record_evidence_def routing_view_def)

lemma recorded_lookup:
  assumes "run_checks env c (probe_checks mid) 200 [] = Some (st, ev)"
  shows "map_of (m_capability_evidence (record_evidence now ev x)) k =
     (case map_of (probe_checks mid) k of
        None \<Rightarrow> map_of (m_capability_evidence x) k
      | Some body \<Rightarrow> Some (evidence_of (answers env c k body) (pe_checked env k)))"
  using run_checks_evidence [OF assms]
  by (simp add: record_evidence_def fold_put_lookup split: option.split)

lemma recorded_flags:
  assumes "run_checks env c (probe_checks mid) 200 [] = Some (st, ev)"
  shows "supported_in ev ''structured_output'' = answers env c ''structured_output'' (structured_body mid)"
    and "supported_in ev ''tools'' = answers env c ''tools'' (tools_body mid)"
    and "supported_in ev ''vision'' = answers env c ''vision'' (vision_body mid)"
  unfolding supported_in_def run_checks_evidence(2) [OF assms] by (simp_all add: probe_checks_def evidence_of_def)

text \<open>
  C35. A probe writes all three pieces of protocol evidence or nothing: it succeeds exactly when the
  provider may be asked and each of the three requests gets a conclusive answer; in every other case
  the catalog is left as it was. When it succeeds and the model is in the catalog, only the first entry
  of the provider with that id changes, and nothing of it but the time, the evidence and the three flags:
  the evidence for each capability asked for says what the answer to its request says and when, the flags
  say the same, and the evidence for any other capability is the old one; the decisions of the operator
  stay as they are.
\<close>

theorem probe_is_all_or_nothing:
  "case probe_capabilities env p mid (Some m) of
     (Inl e, m') \<Rightarrow> \<not> probe_settles env p mid \<and> m' = Some m
   | (Inr r, m') \<Rightarrow> probe_settles env p mid \<and>
       (if find (is_entry p mid) (models_of m) = None then m' = Some m
        else \<exists>c m1 as x bs y. map_of (pe_configs env) p = Some c \<and> m' = Some m1 \<and>
          models_of m = as @ x # bs \<and> find (is_entry p mid) as = None \<and> is_entry p mid x \<and> models_of m1 = as @ y # bs \<and>
          y = x\<lparr>m_capability_evidence := m_capability_evidence y,
                m_structured_output := answers env c ''structured_output'' (structured_body mid), m_structured_output_known := True,
                m_tools := answers env c ''tools'' (tools_body mid), m_vision := answers env c ''vision'' (vision_body mid),
                m_updated_at := pe_now env\<rparr> \<and>
          map_of (m_capability_evidence y) =
            (map_of (m_capability_evidence x))
              (''structured_output'' \<mapsto> evidence_of (answers env c ''structured_output'' (structured_body mid)) (pe_checked env ''structured_output''),
               ''tools'' \<mapsto> evidence_of (answers env c ''tools'' (tools_body mid)) (pe_checked env ''tools''),
               ''vision'' \<mapsto> evidence_of (answers env c ''vision'' (vision_body mid)) (pe_checked env ''vision'')) \<and>
          mg_allow m1 = mg_allow m \<and> mg_admitted m1 = mg_admitted m)"
proof (cases "probe_settles env p mid")
  case False
  then have "fst (probe_capabilities env p mid (Some m)) \<in> range Inl \<and> snd (probe_capabilities env p mid (Some m)) = Some m"
    by (cases "map_of (pe_configs env) p") (auto simp: probe_capabilities_def probe_settles_def run_checks_None [THEN iffD2])
  with False show ?thesis by (auto split: prod.split sum.split)
next
  case True
  then obtain c where c: "probe_allowed env p" "map_of (pe_configs env) p = Some c" "list_all (check_settles env c) (probe_checks mid)"
    by (auto simp: probe_settles_def split: option.splits)
  then obtain st ev where run: "run_checks env c (probe_checks mid) 200 [] = Some (st, ev)"
    using run_checks_None [of env c "probe_checks mid" 200 "[]"] by auto
  let ?f = "record_evidence (pe_now env) ev" and ?m1 = "snd (update_provider_model (pe_now env) mid p (record_evidence (pe_now env) ev) m)"
  have res: "probe_capabilities env p mid (Some m) = (Inr (st, ev), Some ?m1)" by (simp add: probe_capabilities_def c run)
  show ?thesis
  proof (cases "find (is_entry p mid) (models_of m)")
    case None
    then have "update_first (is_entry p mid) ?f (models_of m) = None" by (simp add: update_first_None find_None_iff)
    then have "?m1 = m" by (simp add: update_provider_model_def update_where_def)
    then show ?thesis using True None res by simp
  next
    case (Some z)
    then obtain ys where ys: "update_first (is_entry p mid) ?f (models_of m) = Some ys"
      by (cases "update_first (is_entry p mid) ?f (models_of m)") (auto simp: update_first_None find_Some_iff dest: nth_mem)
    obtain as x bs where x: "models_of m = as @ x # bs" "\<forall>a \<in> set as. \<not> is_entry p mid a" "is_entry p mid x" "ys = as @ ?f x # bs"
      using update_first_Some [OF ys] by blast
    have m1: "models_of ?m1 = as @ ?f x # bs" "mg_allow ?m1 = mg_allow m" "mg_admitted ?m1 = mg_admitted m"
      using ys x(4) by (simp_all add: update_provider_model_def update_where_def)
    have y: "?f x = x\<lparr>m_capability_evidence := m_capability_evidence (?f x),
                m_structured_output := answers env c ''structured_output'' (structured_body mid), m_structured_output_known := True,
                m_tools := answers env c ''tools'' (tools_body mid), m_vision := answers env c ''vision'' (vision_body mid),
                m_updated_at := pe_now env\<rparr>"
      by (simp add: record_evidence_def recorded_flags [OF run])
    have e: "map_of (m_capability_evidence (?f x)) =
            (map_of (m_capability_evidence x))
              (''structured_output'' \<mapsto> evidence_of (answers env c ''structured_output'' (structured_body mid)) (pe_checked env ''structured_output''),
               ''tools'' \<mapsto> evidence_of (answers env c ''tools'' (tools_body mid)) (pe_checked env ''tools''),
               ''vision'' \<mapsto> evidence_of (answers env c ''vision'' (vision_body mid)) (pe_checked env ''vision''))"
      by (rule ext) (simp add: recorded_lookup [OF run] probe_checks_def)
    have "find (is_entry p mid) as = None" using x(2) by (simp add: find_None_iff)
    then show ?thesis unfolding res using True Some c(2) x(1,3) m1 y e by auto
  qed
qed

lemma probe_keeps_reach:
  assumes "catalog_reach m" and "snd (probe_capabilities env p mid (Some m)) = Some m'"
  shows "catalog_reach m'"
proof -
  have "m' = m \<or> (\<exists>ev. m' = snd (update_provider_model (pe_now env) mid p (record_evidence (pe_now env) ev) m))"
    using assms(2) by (auto simp: probe_capabilities_def split: if_splits option.splits)
  moreover have "catalog_reach (snd (update_provider_model (pe_now env) mid p (record_evidence (pe_now env) ev) m))" for ev
    by (rule catalog_reach.step [OF assms(1)]) (rule catalog_step.evidenced, simp)
  ultimately show ?thesis using assms(1) by auto
qed

text \<open>
  A refusal counts as evidence: an upstream that answers every probe with 404 has told nothing about
  the model, not even that it exists, and yet the model may then be approved for Auto.
\<close>

definition gone_env :: probe_runtime where
  "gone_env = \<lparr>pe_configs = [(''p'', \<lparr>pc_id = ''p'', pc_name = [], pc_base_url = ''http://p/v1'', pc_api_key = ''k'', pc_kind = [],
       pc_source = [], pc_enabled = True\<rparr>)],
     pe_gate = [], pe_net = (\<lambda>u k b. ProbeReply 404 None), pe_checked = (\<lambda>c. 0), pe_now = 0\<rparr>"

lemma missing_model_gets_approved:
  "\<exists>m1. snd (probe_capabilities gone_env ''p'' ''m'' (Some (snd (set_admitted 0 ''p'' ''m'' True sample_synced)))) = Some m1 \<and>
     \<not> list_ex m_auto_routable (models_of m1) \<and>
     list_ex m_auto_routable (models_of (snd (set_allow 0 ''p'' ''m'' True m1)))"
proof -
  let ?r = "snd (probe_capabilities gone_env ''p'' ''m'' (Some (snd (set_admitted 0 ''p'' ''m'' True sample_synced))))"
  have "case ?r of None \<Rightarrow> False | Some m1 \<Rightarrow> \<not> list_ex m_auto_routable (models_of m1) \<and>
     list_ex m_auto_routable (models_of (snd (set_allow 0 ''p'' ''m'' True m1)))"
    by code_simp
  then show ?thesis by (cases ?r) auto
qed

section \<open>Batches: workers that finish in any order\<close>

text \<open>
  A world is the runtime, the catalog, and per running job what was asked for and which targets have
  not been reported yet. The last is what the goroutines of run hold; it is forgotten when the job
  is finished. A step is one critical section, or any step of the catalog in between.
\<close>

type_synonym work = "probe_target list \<times> probe_target list option"

record probe_world =
  pw_batches :: probe_batches
  pw_work :: "(string, work) gomap"
  pw_catalog :: manager

inductive probe_step :: "probe_world \<Rightarrow> probe_world \<Rightarrow> bool" where
  started: "probe_start cs (Some (pw_catalog w)) t now req (pw_batches w) = (Reply (jid, ts), b') \<Longrightarrow>
     pb_counter (pw_batches w) < 2 ^ 64 - 1 \<Longrightarrow>
     probe_step w (w\<lparr>pw_batches := b', pw_work := mput jid (ts, Some ts) (pw_work w)\<rparr>)"
| reported: "map_of (pw_work w) jid = Some (ts, Some (as @ t # bs)) \<Longrightarrow>
     probe_one env now t (Some (pw_catalog w)) = (r, Some m') \<Longrightarrow>
     probe_step w (w\<lparr>pw_batches := report_result jid r (pw_batches w), pw_work := mput jid (ts, Some (as @ bs)) (pw_work w),
                     pw_catalog := m'\<rparr>)"
| finished: "map_of (pw_work w) jid = Some (ts, Some []) \<Longrightarrow>
     probe_step w (w\<lparr>pw_batches := finish_job io jid now (pw_batches w), pw_work := mput jid (ts, None) (pw_work w)\<rparr>)"
| elsewhere: "catalog_step (pw_catalog w) m' \<Longrightarrow> probe_step w (w\<lparr>pw_catalog := m'\<rparr>)"

inductive probe_reach :: "probe_history list \<Rightarrow> probe_world \<Rightarrow> bool" for h where
  start: "catalog_reach m \<Longrightarrow> pb_history (new_probe_batches readable dir d) = h \<Longrightarrow>
     probe_reach h \<lparr>pw_batches = new_probe_batches readable dir d, pw_work = [], pw_catalog = m\<rparr>"
| step: "probe_reach h w \<Longrightarrow> probe_step w w' \<Longrightarrow> probe_reach h w'"

definition failures :: "probe_result list \<Rightarrow> int" where
  "failures rs = int (length (filter (\<lambda>r. \<not> pr_ok r) rs))"

definition job_ok :: "work \<Rightarrow> probe_job \<Rightarrow> bool" where
  "job_ok k j \<longleftrightarrow>
     ph_total j = int (length (fst k)) \<and> ph_completed j = int (length (pj_results j)) \<and> ph_failed j = failures (pj_results j) \<and>
     mset (map pr_target (pj_results j)) + mset (case snd k of None \<Rightarrow> [] | Some ts \<Rightarrow> ts) = mset (fst k) \<and>
     ph_status j = (if snd k = None then ''completed'' else ''running'')"

fun tracked :: "int \<Rightarrow> string \<Rightarrow> probe_job option \<Rightarrow> work option \<Rightarrow> bool" where
  "tracked c jid None None \<longleftrightarrow> True"
| "tracked c jid (Some j) (Some k) \<longleftrightarrow> job_ok k j \<and> ph_job j = jid \<and> (\<exists>t n. jid = job_name t n \<and> 0 \<le> n \<and> n \<le> c)"
| "tracked c jid _ _ \<longleftrightarrow> False"

definition jobs_ok :: "probe_world \<Rightarrow> bool" where
  "jobs_ok w \<longleftrightarrow>
     0 \<le> pb_counter (pw_batches w) \<and>
     (\<forall>jid. tracked (pb_counter (pw_batches w)) jid (map_of (pb_jobs (pw_batches w)) jid) (map_of (pw_work w) jid))"

lemma tracked_mono: "tracked c jid j k \<Longrightarrow> c \<le> c' \<Longrightarrow> tracked c' jid j k"
  by (cases j; cases k) force+

definition sound_entry :: "probe_history \<Rightarrow> bool" where
  "sound_entry e \<longleftrightarrow> ph_status e = ''completed'' \<and> ph_completed e = ph_total e \<and> 0 \<le> ph_failed e \<and> ph_failed e \<le> ph_total e"

lemma job_name_inj:
  assumes "job_name t n = job_name t' n'" and "0 \<le> n" and "0 \<le> n'"
  shows "n = n'"
proof -
  have "(''probe-'' @ itoa (i64 t)) @ CHR ''-'' # itoa n = (''probe-'' @ itoa (i64 t')) @ CHR ''-'' # itoa n'"
    using assms(1) unfolding job_name_def by simp
  then have "itoa n = itoa n'" by (rule last_part) (use assms itoa_no_dash in auto)
  then show ?thesis using assms itoa_inj by blast
qed

lemma probe_save_fields [simp]:
  "pb_jobs (probe_save io b) = pb_jobs b" "pb_history (probe_save io b) = pb_history b" "pb_counter (probe_save io b) = pb_counter b"
  by (simp_all add: probe_save_def)

lemma probe_start_cases:
  assumes "probe_start cs m t now req b = (Reply (jid, ts), b')" and "0 \<le> pb_counter b" and "pb_counter b < 2 ^ 64 - 1"
  shows "jid = job_name t (pb_counter b + 1)" and
    "b' = b\<lparr>pb_counter := pb_counter b + 1, pb_jobs := mput jid (fresh_job jid now (length ts)) (pb_jobs b)\<rparr>"
proof -
  have "(pb_counter b + 1) mod 2 ^ 64 = pb_counter b + 1" using assms(2,3) by (intro mod_pos_pos_trivial) auto
  then show "jid = job_name t (pb_counter b + 1)" "b' = b\<lparr>pb_counter := pb_counter b + 1, pb_jobs := mput jid (fresh_job jid now (length ts)) (pb_jobs b)\<rparr>"
    using assms(1) by (auto simp: probe_start_def method_not_allowed_def Let_def split: if_splits option.splits prod.splits)
qed

lemma jobs_okD:
  assumes "jobs_ok w" and "map_of (pw_work w) jid = Some k"
  obtains j t n where "map_of (pb_jobs (pw_batches w)) jid = Some j" "job_ok k j" "ph_job j = jid" "jid = job_name t n" "0 \<le> n"
    "n \<le> pb_counter (pw_batches w)"
proof -
  have "tracked (pb_counter (pw_batches w)) jid (map_of (pb_jobs (pw_batches w)) jid) (Some k)"
    using assms by (metis jobs_ok_def)
  then show thesis using that by (cases "map_of (pb_jobs (pw_batches w)) jid") auto
qed

text \<open>A new job has a name of its own: the counter is the last part of every name.\<close>

lemma started_fresh:
  assumes "jobs_ok w" and "probe_start cs m t now req (pw_batches w) = (Reply (jid, ts), b')" and "pb_counter (pw_batches w) < 2 ^ 64 - 1"
  shows "map_of (pw_work w) jid = None"
proof (rule ccontr)
  assume "map_of (pw_work w) jid \<noteq> None"
  then obtain k where "map_of (pw_work w) jid = Some k" by auto
  from jobs_okD [OF assms(1) this] obtain t' n where n: "jid = job_name t' n" "0 \<le> n" "n \<le> pb_counter (pw_batches w)" by metis
  moreover have "jid = job_name t (pb_counter (pw_batches w) + 1)"
    using probe_start_cases(1) [OF assms(2)] assms(1,3) by (simp add: jobs_ok_def)
  ultimately show False using job_name_inj [of t' n t "pb_counter (pw_batches w) + 1"] by simp
qed

text \<open>Changing one job and its work keeps the others.\<close>

lemma jobs_ok_put:
  assumes "jobs_ok w" and "job_ok k j" and "ph_job j = jid" and "jid = job_name t n" and "0 \<le> n"
    and "n \<le> pb_counter b'" and "pb_counter (pw_batches w) \<le> pb_counter b'" and "pb_jobs b' = mput jid j (pb_jobs (pw_batches w))"
  shows "jobs_ok (w\<lparr>pw_batches := b', pw_work := mput jid k (pw_work w), pw_catalog := m'\<rparr>)"
  using assms tracked_mono [of "pb_counter (pw_batches w)" _ _ _ "pb_counter b'"]
  by (auto simp: jobs_ok_def)

lemma job_ok_count:
  assumes "job_ok (ts, Some (as @ t # bs)) j" and "pr_target r = t"
  shows "job_ok (ts, Some (as @ bs)) (count_result r j)"
  using assms by (auto simp: job_ok_def count_result_def failures_def)

lemma job_ok_finish: "job_ok (ts, Some []) j \<Longrightarrow> job_ok (ts, None) (j\<lparr>ph_status := ''completed'', ph_ended := now\<rparr>)"
  by (simp add: job_ok_def)

lemma probe_one_target: "probe_one env now t m = (r, m') \<Longrightarrow> pr_target r = t"
  by (auto simp: probe_one_def split: prod.splits)

lemma probe_one_catalog: "probe_one env now t m = (r, m') \<Longrightarrow> m' = snd (probe_capabilities env (pt_provider t) (pt_model t) m)"
  by (auto simp: probe_one_def probe_one_model_def split: prod.splits sum.splits)

definition world_ok :: "probe_history list \<Rightarrow> probe_world \<Rightarrow> bool" where
  "world_ok h w \<longleftrightarrow> catalog_reach (pw_catalog w) \<and> jobs_ok w \<and>
     (\<exists>es. list_all sound_entry es \<and> (pb_history (pw_batches w) = (if es = [] then h else last_n 100 (h @ es))))"

lemma failures_bounds: "0 \<le> failures rs" "failures rs \<le> int (length rs)"
  by (simp_all add: failures_def)

lemma length_mset: "mset as = mset bs \<Longrightarrow> length as = length bs"
  by (metis size_mset)

lemma sound_finished:
  assumes "job_ok (ts, Some []) j"
  shows "sound_entry (job_entry (j\<lparr>ph_status := ''completed'', ph_ended := now\<rparr>))"
proof -
  have "length (pj_results j) = length ts" using assms length_mset [of "map pr_target (pj_results j)" ts] by (simp add: job_ok_def)
  then show ?thesis using assms failures_bounds [of "pj_results j"]
    by (simp add: job_ok_def sound_entry_def job_entry_def probe_history.truncate_def)
qed

lemma history_snoc:
  assumes "x = (if es = [] then h else last_n 100 (h @ es))"
  shows "last_n 100 (x @ [e]) = last_n 100 (h @ (es @ [e]))"
  using assms by (simp add: last_n_append)

lemma world_ok_step: "probe_step w w' \<Longrightarrow> world_ok h w \<Longrightarrow> world_ok h w'"
proof (induction rule: probe_step.induct)
  case (started cs w t now req jid ts b')
  then have ok: "jobs_ok w" and c: "0 \<le> pb_counter (pw_batches w)" by (auto simp: world_ok_def jobs_ok_def)
  note e = probe_start_cases [OF started(1) c started(2)]
  have "jobs_ok (w\<lparr>pw_batches := b', pw_work := mput jid (ts, Some ts) (pw_work w), pw_catalog := pw_catalog w\<rparr>)"
    by (rule jobs_ok_put [OF ok _ _ e(1)]) (use e(2) c in \<open>simp_all add: job_ok_def fresh_job_def failures_def\<close>)
  then show ?case using started(3) e(2) by (simp add: world_ok_def)
next
  case (reported w jid ts as t bs env now r m')
  then have ok: "jobs_ok w" by (simp add: world_ok_def)
  obtain j t' n where j: "map_of (pb_jobs (pw_batches w)) jid = Some j" "job_ok (ts, Some (as @ t # bs)) j" "ph_job j = jid" "jid = job_name t' n" "0 \<le> n"
    "n \<le> pb_counter (pw_batches w)" using jobs_okD [OF ok reported(1)] by blast
  have "jobs_ok (w\<lparr>pw_batches := report_result jid r (pw_batches w), pw_work := mput jid (ts, Some (as @ bs)) (pw_work w), pw_catalog := m'\<rparr>)"
    by (rule jobs_ok_put [OF ok job_ok_count [OF j(2) probe_one_target [OF reported(2)]] _ j(4,5)])
       (use j in \<open>simp_all add: report_result_def count_result_def\<close>)
  moreover have "catalog_reach m'"
    using probe_keeps_reach [of "pw_catalog w" env "pt_provider t" "pt_model t" m'] probe_one_catalog [OF reported(2)] reported(3)
    by (simp add: world_ok_def)
  ultimately show ?case using reported(3) j(1) by (simp add: world_ok_def report_result_def)
next
  case (finished w jid ts io now)
  then have ok: "jobs_ok w" by (simp add: world_ok_def)
  obtain j t' n where j: "map_of (pb_jobs (pw_batches w)) jid = Some j" "job_ok (ts, Some []) j" "ph_job j = jid" "jid = job_name t' n" "0 \<le> n"
    "n \<le> pb_counter (pw_batches w)" using jobs_okD [OF ok finished(1)] by blast
  have "jobs_ok (w\<lparr>pw_batches := finish_job io jid now (pw_batches w), pw_work := mput jid (ts, None) (pw_work w), pw_catalog := pw_catalog w\<rparr>)"
    by (rule jobs_ok_put [OF ok job_ok_finish [OF j(2), of now] _ j(4,5)]) (use j in \<open>simp_all add: finish_job_def Let_def\<close>)
  moreover obtain es where "list_all sound_entry es" "pb_history (pw_batches w) = (if es = [] then h else last_n 100 (h @ es))"
    using finished(2) by (auto simp: world_ok_def)
  then have "\<exists>es. list_all sound_entry es \<and> pb_history (finish_job io jid now (pw_batches w)) = (if es = [] then h else last_n 100 (h @ es))"
    using j(1) sound_finished [OF j(2), of now]
    by (intro exI [of _ "es @ [job_entry (j\<lparr>ph_status := ''completed'', ph_ended := now\<rparr>)]"])
       (simp add: finish_job_def Let_def history_snoc)
  ultimately show ?case using finished(2) by (simp add: world_ok_def)
next
  case (elsewhere w m')
  have "jobs_ok (w\<lparr>pw_catalog := m'\<rparr>) = jobs_ok w" by (simp add: jobs_ok_def)
  then show ?case using elsewhere by (auto simp: world_ok_def intro: catalog_reach.step)
qed

lemma probe_reach_ok: "probe_reach h w \<Longrightarrow> world_ok h w"
proof (induction rule: probe_reach.induct)
  case (start m readable dir d)
  then show ?case
    by (auto simp: world_ok_def jobs_ok_def new_probe_batches_def probe_load_def intro!: exI [of _ "[]"] split: if_splits read.splits)
next
  case (step w w')
  then show ?case using world_ok_step by blast
qed

text \<open>
  C32. The accounting of probe batches is exact in every interleaving of the workers of all jobs with each
  other and with the rest of the router: a job counts its results and its failures, its results and
  the targets still being probed are together exactly the targets it was asked for, it is completed
  only when nothing is left, and every entry the process adds to the history is such a
  completed job; at most the last hundred are kept.
\<close>

theorem probe_batches_add_up:
  assumes "probe_reach h w" and "map_of (pb_jobs (pw_batches w)) jid = Some j"
  shows "(\<exists>asked left. map_of (pw_work w) jid = Some (asked, left) \<and>
       ph_total j = int (length asked) \<and> ph_completed j = int (length (pj_results j)) \<and> ph_failed j = failures (pj_results j) \<and>
       mset (map pr_target (pj_results j)) + mset (case left of None \<Rightarrow> [] | Some ts \<Rightarrow> ts) = mset asked \<and>
       ph_status j = (if left = None then ''completed'' else ''running'')) \<and>
     (\<exists>es. list_all sound_entry es \<and> pb_history (pw_batches w) = (if es = [] then h else last_n 100 (h @ es)))"
proof -
  have ok: "world_ok h w" by (rule probe_reach_ok [OF assms(1)])
  then have "tracked (pb_counter (pw_batches w)) jid (Some j) (map_of (pw_work w) jid)"
    using assms(2) by (metis world_ok_def jobs_ok_def)
  then show ?thesis using ok by (cases "map_of (pw_work w) jid"; force simp: job_ok_def world_ok_def)
qed

definition batch_catalog :: manager where
  "batch_catalog = snd (set_admitted 0 ''p'' ''m'' True sample_synced)"

definition batch_request :: http_request where
  "batch_request = post_request (JObj [(''models'', JArr [JObj [(''provider'', JStr ''p''), (''model'', JStr ''m'')]])])"

definition batch_target :: probe_target where
  "batch_target = \<lparr>pt_provider = ''p'', pt_model = ''m''\<rparr>"

definition batch_started :: probe_batches where
  "batch_started = snd (probe_start (pe_configs gone_env) (Some batch_catalog) 5 6 batch_request (new_probe_batches True [] blank_disk))"

lemma batch_catalog_reach: "catalog_reach batch_catalog"
proof -
  have "catalog_reach sample_synced" unfolding sample_synced_def
    by (rule catalog_reach.step [OF catalog_reach.start]) (rule catalog_step.synced, simp_all add: sample_raw_clean)
  then show ?thesis unfolding batch_catalog_def by (rule catalog_reach.step) (rule catalog_step.admitted, simp)
qed

theorem probe_batches_add_up_witness:
  "\<exists>w j. probe_reach [] w \<and> map_of (pb_jobs (pw_batches w)) (job_name 5 1) = Some j \<and> ph_status j = ''completed'' \<and>
     ph_total j = 1 \<and> ph_completed j = 1 \<and> ph_failed j = 1 \<and> length (pb_history (pw_batches w)) = 1"
proof -
  let ?w0 = "\<lparr>pw_batches = new_probe_batches True [] blank_disk, pw_work = [], pw_catalog = batch_catalog\<rparr>"
  let ?jid = "job_name 5 1"
  have r0: "probe_reach [] ?w0"
    by (rule probe_reach.start [OF batch_catalog_reach]) (simp add: new_probe_batches_def probe_load_def)
  have st: "probe_start (pe_configs gone_env) (Some batch_catalog) 5 6 batch_request (new_probe_batches True [] blank_disk) =
      (Reply (?jid, [batch_target]), batch_started)"
    by (simp add: batch_started_def) code_simp
  let ?w1 = "?w0\<lparr>pw_batches := batch_started, pw_work := mput ?jid ([batch_target], Some [batch_target]) []\<rparr>"
  have "probe_step ?w0 ?w1"
    using probe_step.started [of "pe_configs gone_env" ?w0 5 6 batch_request ?jid "[batch_target]" batch_started] st
    by (simp add: new_probe_batches_def probe_load_def)
  with r0 have r1: "probe_reach [] ?w1" by (rule probe_reach.step)
  obtain r m' where one: "probe_one gone_env 7 batch_target (Some batch_catalog) = (r, Some m')"
    by (cases "probe_one gone_env 7 batch_target (Some batch_catalog)")
       (auto simp: probe_one_def probe_one_model_def probe_capabilities_def split: prod.splits sum.splits if_splits option.splits)
  have bad: "\<not> pr_ok (fst (probe_one gone_env 7 batch_target (Some batch_catalog)))" by code_simp
  let ?w2 = "?w1\<lparr>pw_batches := report_result ?jid r batch_started, pw_work := mput ?jid ([batch_target], Some []) (pw_work ?w1), pw_catalog := m'\<rparr>"
  have "probe_step ?w1 ?w2"
    using probe_step.reported [of ?w1 ?jid "[batch_target]" "[]" batch_target "[]" gone_env 7 r m'] one by simp
  with r1 have r2: "probe_reach [] ?w2" by (rule probe_reach.step)
  let ?w3 = "?w2\<lparr>pw_batches := finish_job good_io ?jid 8 (pw_batches ?w2), pw_work := mput ?jid ([batch_target], None) (pw_work ?w2)\<rparr>"
  have "probe_step ?w2 ?w3" using probe_step.finished [of ?w2 ?jid "[batch_target]" good_io 8] by simp
  with r2 have r3: "probe_reach [] ?w3" by (rule probe_reach.step)
  have "map_of (pb_jobs batch_started) ?jid = Some (fresh_job ?jid 6 1)" by code_simp
  moreover have "pb_history batch_started = []" by code_simp
  ultimately obtain j where j: "map_of (pb_jobs (pw_batches ?w3)) ?jid = Some j" "pj_results j = [r]" "length (pb_history (pw_batches ?w3)) = 1"
    by (simp add: finish_job_def report_result_def count_result_def fresh_job_def Let_def last_n_def)
  from probe_batches_add_up [OF r3 j(1)] j(2) bad one
  have "ph_status j = ''completed''" "ph_total j = 1" "ph_completed j = 1" "ph_failed j = 1" by (auto simp: failures_def)
  then show ?thesis using r3 j by (intro exI [of _ ?w3] exI [of _ j]) simp
qed

end
