(* ===== verification/Local_Quota.thy ===== *)
theory Local_Quota
  imports Quota Go_Int
begin

text \<open>
  The read-only view of FreeLLMAPI's own database (internal/integration/freellmapi\_local\_quota.go):
  which models of its fallback list are left with how much of their monthly budget. The database is
  a parameter: what each query of the code returns when it is run. The rows of a query come with a
  mark for a row that does not scan, and with the error the iteration ends with.
\<close>

section \<open>Paths, labels and numbers\<close>

text \<open>filepath.Clean on Unix, over the elements between slashes.\<close>

fun path_elements :: "string \<Rightarrow> string \<Rightarrow> string list" where
  "path_elements acc [] = [rev acc]"
| "path_elements acc (c # cs) = (if c = CHR ''/'' then rev acc # path_elements [] cs else path_elements (c # acc) cs)"

text \<open>The stack holds the elements kept so far, the last one first.\<close>

fun clean_elements :: "bool \<Rightarrow> string list \<Rightarrow> string list \<Rightarrow> string list" where
  "clean_elements rooted stack [] = rev stack"
| "clean_elements rooted stack (e # es) =
     (if e = [] \<or> e = ''.'' then clean_elements rooted stack es
      else if e = ''..'' then
        (case stack of
           [] \<Rightarrow> clean_elements rooted (if rooted then [] else [e]) es
         | x # xs \<Rightarrow> if x = ''..'' then clean_elements rooted (e # stack) es else clean_elements rooted xs es)
      else clean_elements rooted (e # stack) es)"

fun join_slash :: "string list \<Rightarrow> string" where
  "join_slash [] = []"
| "join_slash [e] = e"
| "join_slash (e # es) = e @ ''/'' @ join_slash es"

definition is_abs :: "string \<Rightarrow> bool" where
  "is_abs p \<longleftrightarrow> has_prefix p ''/''"

definition path_clean :: "string \<Rightarrow> string" where
  "path_clean p =
     (let out = (if is_abs p then ''/'' else []) @ join_slash (clean_elements (is_abs p) [] (path_elements [] p)) in
      if out = [] then ''.'' else out)"

lemma path_clean_examples:
  "path_clean '' /a/../b//./c'' = '' /b/c''" "path_clean ''/../x/'' = ''/x''" "path_clean [] = ''.''" "path_clean ''../..'' = ''../..''"
  by code_simp+

text \<open>
  parseBudgetLabel: the first place in the upper-cased label where the pattern
  number[-number](M|K) matches. Each repetition of the pattern is followed by a character that it cannot
  itself match, so taking the longest run never has to be undone.
\<close>

definition upper_byte :: "char \<Rightarrow> char" where
  "upper_byte c = (if 97 \<le> byte c \<and> byte c \<le> 122 then char_of (byte c - 32) else c)"

definition is_digit :: "char \<Rightarrow> bool" where
  "is_digit c \<longleftrightarrow> 48 \<le> byte c \<and> byte c \<le> 57"

definition label_number :: "string \<Rightarrow> (string \<times> string) option" where
  "label_number s =
     (let a = takeWhile is_digit s; r = dropWhile is_digit s in
      if a = [] then None
      else (case r of
          [] \<Rightarrow> Some (a, r)
        | c # r' \<Rightarrow>
            if c = CHR ''.'' \<and> takeWhile is_digit r' \<noteq> [] then Some (a @ ''.'' @ takeWhile is_digit r', dropWhile is_digit r')
            else Some (a, r)))"

definition label_at :: "string \<Rightarrow> (string \<times> char) option" where
  "label_at s =
     (case label_number s of
        None \<Rightarrow> None
      | Some (a, r) \<Rightarrow>
          (let (v, t) = (case r of
                 [] \<Rightarrow> (a, r)
               | c # r' \<Rightarrow> if c = CHR ''-'' then (case label_number r' of None \<Rightarrow> (a, r) | Some x \<Rightarrow> x) else (a, r))
           in case t of
                [] \<Rightarrow> None
              | u # _ \<Rightarrow> if u = CHR ''M'' \<or> u = CHR ''K'' then Some (v, u) else None))"

fun find_label :: "string \<Rightarrow> (string \<times> char) option" where
  "find_label [] = None"
| "find_label (c # cs) = (case label_at (c # cs) of Some r \<Rightarrow> Some r | None \<Rightarrow> find_label cs)"

text \<open>Multiplication of a float64 by a positive constant.\<close>

fun fl_mul_const :: "float64 \<Rightarrow> rat \<Rightarrow> float64" where
  "fl_mul_const (Fin a) c = fl_round (a * c)"
| "fl_mul_const x c = x"

definition parse_budget_label :: "string \<Rightarrow> float64 option" where
  "parse_budget_label s =
     (case find_label (map upper_byte s) of
        None \<Rightarrow> None
      | Some (v, u) \<Rightarrow>
          (case parse_float v of
             None \<Rightarrow> None
           | Some n \<Rightarrow>
               if fl_lt n (Fin 0) then None
               else Some (fl_mul_const n (if u = CHR ''M'' then 1000000 else 1000))))"

lemma budget_examples:
  "find_label (map upper_byte ''~10-20.5m / month'') = Some (''20.5'', CHR ''M'')"
  "find_label (map upper_byte ''5-10-3k'') = Some (''3'', CHR ''K'')" "find_label (map upper_byte ''unlimited'') = None"
  by code_simp+

definition fl_max0 :: "float64 \<Rightarrow> float64" where
  "fl_max0 x = (case x of Fin a \<Rightarrow> Fin (max 0 a) | PosInf \<Rightarrow> PosInf | NegInf \<Rightarrow> Fin 0 | NaN \<Rightarrow> NaN)"

definition remaining :: "float64 option \<Rightarrow> float64 \<Rightarrow> float64 option" where
  "remaining budget used = map_option (\<lambda>b. fl_max0 (fl_sub b used)) budget"

definition fl_of_int :: "int \<Rightarrow> float64" where
  "fl_of_int n = Fin (float_of n)"

section \<open>The report\<close>

record quota_pool =
  qp_id :: string
  qp_platform :: string
  qp_key_id :: "int option"
  qp_model_id :: string
  qp_metric :: string
  qp_unit :: string
  qp_limit :: "float64 option"
  qp_used :: "float64 option"
  qp_remaining :: "float64 option"
  qp_reset_at :: string
  qp_reset_strategy :: string
  qp_source :: string
  qp_confidence :: float64
  qp_notes :: string
  qp_observed_at :: string
  qp_partial :: bool

record local_model =
  lm_platform :: string
  lm_model :: string
  lm_display :: string
  lm_enabled :: bool
  lm_label :: string
  lm_budget :: "float64 option"
  lm_used :: float64
  lm_remaining :: "float64 option"
  lm_requests :: int
  lm_input :: int
  lm_output :: int
  lm_limits :: "int option \<times> int option \<times> int option \<times> int option"
  lm_rates :: "int \<times> int \<times> int \<times> int"
  lm_key :: "int option"
  lm_scope :: string
  lm_source :: string

record local_totals =
  lt_budget :: "float64 option"
  lt_used :: float64
  lt_remaining :: "float64 option"
  lt_requests :: int
  lt_input :: int
  lt_output :: int

record local_report =
  lq_schema :: int
  lq_source :: string
  lq_path :: string
  lq_checked :: instant
  lq_month :: string
  lq_totals :: local_totals
  lq_models :: "local_model list"
  lq_pools :: "quota_pool list"
  lq_partial :: bool
  lq_warnings :: "string list"

section \<open>The database\<close>

record 'a rows =
  rw_rows :: "'a option list"
  rw_error :: "string option"

record local_usage =
  lu_requests :: int
  lu_input :: int
  lu_output :: int

record local_row =
  lr_platform :: string
  lr_model :: string
  lr_display :: string
  lr_budget :: "string option"
  lr_limits :: "int option \<times> int option \<times> int option \<times> int option"
  lr_model_enabled :: int
  lr_key :: "int option"
  lr_route_enabled :: int

record pool_row =
  or_platform :: "string option"
  or_key :: "int option"
  or_pool :: "string option"
  or_metric :: "string option"
  or_limit :: "int option"
  or_remaining :: "int option"
  or_reset :: "string option"
  or_strategy :: "string option"
  or_source :: "string option"
  or_confidence :: "float64 option"
  or_notes :: "string option"
  or_model :: "string option"
  or_observed :: "string option"

text \<open>None: the query fails. The rates take the first moments that count, in milliseconds.\<close>

record local_db =
  db_opens :: bool
  db_pings :: bool
  db_sets_query_only :: bool
  db_query_only :: "int option"
  db_month :: "string option"
  db_platforms :: "string rows option"
  db_keys :: "(string \<times> int) rows option"
  db_usage :: "(string \<times> string \<times> local_usage) rows option"
  db_rates :: "int \<Rightarrow> int \<Rightarrow> (string \<times> string \<times> (int \<times> int \<times> int \<times> int)) rows option"
  db_profile :: "string option"
  db_profiles :: "int \<Rightarrow> int option"
  db_profile_models :: "int \<Rightarrow> local_row rows option"
  db_fallback :: "local_row rows option"
  db_pools :: "pool_row rows option"

text \<open>
  Reading all rows: the text for a failed query or scan, and what becomes of the error at the end.
\<close>

definition read_rows :: "string \<Rightarrow> (string \<Rightarrow> string) \<Rightarrow> 'a rows option \<Rightarrow> string + 'a list" where
  "read_rows text wrap q =
     (case q of
        None \<Rightarrow> Inl text
      | Some r \<Rightarrow>
          (case those (rw_rows r) of
             None \<Rightarrow> Inl text
           | Some xs \<Rightarrow> (case rw_error r of None \<Rightarrow> Inr xs | Some e \<Rightarrow> Inl (wrap e))))"

definition pair_key :: "string \<Rightarrow> string \<Rightarrow> string" where
  "pair_key p m = p @ [CHR 0x00] @ m"

definition unix_milli :: "instant \<Rightarrow> int" where
  "unix_milli t = t div 1000000"

definition day_start :: "instant \<Rightarrow> int" where
  "day_start t = unix_seconds t div 86400 * 86400000"

definition read_rates ::
  "instant \<Rightarrow> local_db \<Rightarrow> string + (string, int \<times> int \<times> int \<times> int) gomap" where
  "read_rates now db =
     (case read_rows ''freellmapi rate usage unavailable'' (\<lambda>e. e) (db_rates db (unix_milli (now - minute)) (day_start now)) of
        Inl e \<Rightarrow> Inl e
      | Inr xs \<Rightarrow> Inr (fold (\<lambda>(p, m, r). mput (pair_key p m) r) xs []))"

text \<open>Which list of models is in use: the active profile if it exists, or the fallback list.\<close>

definition model_rows :: "local_db \<Rightarrow> local_row rows option" where
  "model_rows db =
     (case parse_int (trim_space (case db_profile db of None \<Rightarrow> [] | Some v \<Rightarrow> v)) of
        None \<Rightarrow> db_fallback db
      | Some i \<Rightarrow>
          if i > 0 \<and> (case db_profiles db i of None \<Rightarrow> False | Some n \<Rightarrow> n > 0) then db_profile_models db i else db_fallback db)"

record local_facts =
  lf_platforms :: "string list"
  lf_keys :: "(string, int) gomap"
  lf_usage :: "(string, local_usage) gomap"
  lf_rates :: "(string, int \<times> int \<times> int \<times> int) gomap"

definition text_of :: "string option \<Rightarrow> string" where
  "text_of x = (case x of None \<Rightarrow> [] | Some s \<Rightarrow> s)"

definition no_usage :: local_usage where
  "no_usage = \<lparr>lu_requests = 0, lu_input = 0, lu_output = 0\<rparr>"

text \<open>The budget of a label is per key: a platform with several healthy keys has it several times.\<close>

definition row_budget :: "local_facts \<Rightarrow> local_row \<Rightarrow> float64 option" where
  "row_budget f row =
     map_option (\<lambda>b. fl_mul_const b (float_of (let n = mget 0 (lf_keys f) (lr_platform row) in if n < 1 then 1 else n)))
       (parse_budget_label (text_of (lr_budget row)))"

definition model_of_row :: "local_facts \<Rightarrow> local_row \<Rightarrow> local_model" where
  "model_of_row f row =
     (let key = pair_key (lr_platform row) (lr_model row);
          u = mget no_usage (lf_usage f) key;
          used = fl_of_int (i64 (lu_input u + lu_output u));
          b = row_budget f row
      in \<lparr>lm_platform = lr_platform row, lm_model = lr_model row, lm_display = lr_display row,
          lm_enabled = (lr_route_enabled row \<noteq> 0), lm_label = text_of (lr_budget row), lm_budget = b, lm_used = used,
          lm_remaining = remaining b used, lm_requests = lu_requests u, lm_input = lu_input u, lm_output = lu_output u,
          lm_limits = lr_limits row, lm_rates = mget (0, 0, 0, 0) (lf_rates f) key, lm_key = lr_key row,
          lm_scope = ''model'', lm_source = ''freellmapi_sqlite''\<rparr>)"

definition add_model :: "local_model \<Rightarrow> local_totals \<Rightarrow> local_totals" where
  "add_model x t =
     t\<lparr>lt_requests := i64 (lt_requests t + lm_requests x), lt_input := i64 (lt_input t + lm_input x),
       lt_output := i64 (lt_output t + lm_output x), lt_used := fl_add (lt_used t) (lm_used x),
       lt_budget := (case lm_budget x of
           None \<Rightarrow> lt_budget t
         | Some b \<Rightarrow> Some (fl_add (case lt_budget t of None \<Rightarrow> Fin 0 | Some v \<Rightarrow> v) b))\<rparr>"

definition no_totals :: local_totals where
  "no_totals = \<lparr>lt_budget = None, lt_used = Fin 0, lt_remaining = None, lt_requests = 0, lt_input = 0, lt_output = 0\<rparr>"

definition facts_of :: "instant \<Rightarrow> local_db \<Rightarrow> string + local_facts" where
  "facts_of now db =
     (case read_rows ''freellmapi enabled providers unavailable'' (\<lambda>_. ''freellmapi enabled providers unavailable'') (db_platforms db) of
        Inl e \<Rightarrow> Inl e
      | Inr ps \<Rightarrow>
     (case read_rows ''freellmapi provider key counts unavailable'' (\<lambda>_. ''freellmapi provider key counts unavailable'') (db_keys db) of
        Inl e \<Rightarrow> Inl e
      | Inr ks \<Rightarrow>
     (case read_rows ''freellmapi model usage unavailable'' (\<lambda>_. ''freellmapi model usage unavailable'') (db_usage db) of
        Inl e \<Rightarrow> Inl e
      | Inr us \<Rightarrow>
     (case read_rates now db of
        Inl e \<Rightarrow> Inl e
      | Inr rs \<Rightarrow>
          Inr \<lparr>lf_platforms = ps, lf_keys = fold (\<lambda>(p, n). mput p n) ks [],
               lf_usage = fold (\<lambda>(p, m, u). mput (pair_key p m) u) us [], lf_rates = rs\<rparr>))))"

text \<open>
  One turn of the row loop: the models listed, the totals and the partial flag so far. A row of a platform
  without an enabled key is passed over.
\<close>

definition take_row ::
  "local_facts \<Rightarrow> local_row \<Rightarrow> local_model list \<times> local_totals \<times> bool \<Rightarrow> local_model list \<times> local_totals \<times> bool" where
  "take_row f row acc =
     (case acc of (ms, t, partial) \<Rightarrow>
        if lr_platform row \<notin> set (lf_platforms f) then (ms, t, partial)
        else (ms @ [model_of_row f row], add_model (model_of_row f row) t,
              if parse_budget_label (text_of (lr_budget row)) = None then True else partial))"

definition models_of_rows :: "local_facts \<Rightarrow> local_row list \<Rightarrow> local_model list \<times> local_totals \<times> bool" where
  "models_of_rows f rows =
     (case fold (take_row f) rows ([], no_totals, False) of
        (ms, t, partial) \<Rightarrow> (ms, t\<lparr>lt_remaining := remaining (lt_budget t) (lt_used t)\<rparr>, partial))"

text \<open>readLocalModels: the models, their totals, and whether a budget is unknown.\<close>

definition read_models :: "instant \<Rightarrow> local_db \<Rightarrow> string + (local_model list \<times> local_totals \<times> bool)" where
  "read_models now db =
     (case facts_of now db of
        Inl e \<Rightarrow> Inl e
      | Inr f \<Rightarrow>
          (case read_rows ''freellmapi fallback model catalog unavailable'' (\<lambda>_. ''freellmapi fallback model catalog unavailable'')
                  (model_rows db) of
             Inl e \<Rightarrow> Inl e
           | Inr rows \<Rightarrow> Inr (models_of_rows f rows)))"

definition pool_of_row :: "pool_row \<Rightarrow> quota_pool" where
  "pool_of_row r =
     (let lim = map_option fl_of_int (or_limit r); rem = map_option fl_of_int (or_remaining r) in
      \<lparr>qp_id = text_of (or_pool r) @ (case or_key r of None \<Rightarrow> [] | Some k \<Rightarrow> ''#'' @ itoa k), qp_platform = text_of (or_platform r),
       qp_key_id = or_key r, qp_model_id = text_of (or_model r), qp_metric = text_of (or_metric r), qp_unit = text_of (or_metric r),
       qp_limit = lim,
       qp_used = (case (lim, rem) of (Some l, Some v) \<Rightarrow> Some (fl_max0 (fl_sub l v)) | _ \<Rightarrow> None),
       qp_remaining = rem, qp_reset_at = text_of (or_reset r), qp_reset_strategy = text_of (or_strategy r),
       qp_source = text_of (or_source r), qp_confidence = (case or_confidence r of None \<Rightarrow> Fin 0 | Some x \<Rightarrow> x),
       qp_notes = text_of (or_notes r), qp_observed_at = text_of (or_observed r),
       qp_partial = (or_limit r = None \<or> or_remaining r = None)\<rparr>)"

definition read_pools :: "local_db \<Rightarrow> string + quota_pool list" where
  "read_pools db =
     (case read_rows ''freellmapi quota pools unavailable'' (\<lambda>e. e) (db_pools db) of
        Inl e \<Rightarrow> Inl e | Inr xs \<Rightarrow> Inr (map pool_of_row xs))"

text \<open>
  ReadLocalQuota. The arguments are whether the integration is authorized, the error of the
  context if it is already done, the databases by path, and the readings of the clock for the report
  and for the rates.
\<close>

definition read_local_quota ::
  "bool \<Rightarrow> string option \<Rightarrow> (string \<Rightarrow> local_db) \<Rightarrow> instant \<Rightarrow> instant \<Rightarrow> string \<Rightarrow> string + local_report" where
  "read_local_quota authorized ended dbs now now' raw =
     (let p = path_clean (trim_space raw); db = dbs p in
      if \<not> authorized then Inl ''freellmapi integration not authorized''
      else if p = ''.'' \<or> p = [] \<or> \<not> is_abs p then Inl ''freellmapi local database is not configured''
      else (case ended of Some e \<Rightarrow> Inl e | None \<Rightarrow>
        if \<not> db_opens db \<or> \<not> db_pings db then Inl ''freellmapi local database unavailable''
        else if \<not> db_sets_query_only db \<or> db_query_only db \<noteq> Some 1 then Inl ''freellmapi local database is not read-only''
        else (case db_month db of
            None \<Rightarrow> Inl ''freellmapi local database query failed''
          | Some month \<Rightarrow>
              (case read_models now' db of
                 Inl e \<Rightarrow> Inl e
               | Inr (ms, totals, unknown) \<Rightarrow>
                   (case read_pools db of
                      Inl e \<Rightarrow> Inl e
                    | Inr pools \<Rightarrow>
                        Inr \<lparr>lq_schema = 1, lq_source = ''freellmapi_sqlite_readonly'', lq_path = p, lq_checked = now, lq_month = month,
                             lq_totals = totals, lq_models = ms, lq_pools = pools, lq_partial = (unknown \<or> ms = []),
                             lq_warnings = (if ms = [] then [''no_enabled_fallback_models''] else [])\<rparr>)))))"

section \<open>What a report says\<close>

lemma fl_max0_nonneg: "x \<noteq> NaN \<Longrightarrow> fl_le (Fin 0) (fl_max0 x)"
  by (cases x) (auto simp: fl_max0_def)

lemma fl_round_number: "fl_round q \<noteq> NaN"
  by (simp add: fl_round_def Let_def)

lemma label_number_digit: "label_number s = Some (a, r) \<Longrightarrow> \<exists>c cs. a = c # cs \<and> is_digit c"
proof -
  assume "label_number s = Some (a, r)"
  then have "takeWhile is_digit s \<noteq> []" "\<exists>t. a = takeWhile is_digit s @ t"
    by (auto simp: label_number_def Let_def split: if_splits list.splits)
  then show ?thesis by (cases s) (auto split: if_splits)
qed

lemma find_label_digit: "find_label s = Some (v, u) \<Longrightarrow> \<exists>c cs. v = c # cs \<and> is_digit c"
proof (induction s)
  case Nil
  then show ?case by simp
next
  case (Cons c s)
  show ?case
  proof (cases "label_at (c # s)")
    case None
    then show ?thesis using Cons by simp
  next
    case (Some x)
    then have "label_at (c # s) = Some (v, u)" using Cons.prems by simp
    then show ?thesis
      by (auto simp: label_at_def Let_def split: option.splits list.splits if_splits prod.splits dest: label_number_digit)
  qed
qed

lemma special_digit: "is_digit c \<Longrightarrow> special (c # cs) = None"
  by (auto simp: special_def strip_sign_def is_digit_def lower_byte_def Let_def)

lemma budget_number: "parse_budget_label s = Some b \<Longrightarrow> b \<noteq> NaN"
proof -
  assume "parse_budget_label s = Some b"
  then obtain v u n where v: "find_label (map upper_byte s) = Some (v, u)" and n: "parse_float v = Some n"
    and b: "b = fl_mul_const n (if u = CHR ''M'' then 1000000 else 1000)"
    by (auto simp: parse_budget_label_def split: option.splits if_splits)
  obtain c cs where "v = c # cs" "is_digit c" using find_label_digit [OF v] by blast
  then have "special v = None" by (simp add: special_digit)
  then have "n \<noteq> NaN" using n fl_round_number by (auto simp: parse_float_def split: option.splits float64.splits)
  then show ?thesis using b fl_round_number by (cases n) auto
qed

lemma remaining_nonneg:
  assumes "b \<noteq> NaN" shows "fl_le (Fin 0) (fl_max0 (fl_sub b (Fin u)))"
proof (rule fl_max0_nonneg)
  show "fl_sub b (Fin u) \<noteq> NaN" using assms fl_round_number by (cases b) (simp_all add: fl_sub_def)
qed

lemma row_remaining:
  "case lm_remaining (model_of_row f row) of None \<Rightarrow> lm_budget (model_of_row f row) = None | Some v \<Rightarrow> fl_le (Fin 0) v"
proof -
  have "row_budget f row = Some b \<Longrightarrow> b \<noteq> NaN" for b
    using budget_number [of "text_of (lr_budget row)"] fl_round_number by (cases "parse_budget_label (text_of (lr_budget row))") (auto simp: row_budget_def split: if_splits, case_tac a, auto)
  then show ?thesis by (auto simp: model_of_row_def remaining_def fl_of_int_def Let_def remaining_nonneg split: option.splits)
qed

text \<open>What the row loop has accumulated, in terms of the models it has listed.\<close>

definition known_budgets :: "local_model list \<Rightarrow> float64 list" where
  "known_budgets ms = map the (filter (\<lambda>b. b \<noteq> None) (map lm_budget ms))"

definition sums_up :: "local_model list \<Rightarrow> local_totals \<Rightarrow> bool" where
  "sums_up ms t \<longleftrightarrow>
     lt_requests t = i64 (sum_list (map lm_requests ms)) \<and> lt_input t = i64 (sum_list (map lm_input ms)) \<and>
     lt_output t = i64 (sum_list (map lm_output ms)) \<and> lt_used t = foldl fl_add (Fin 0) (map lm_used ms) \<and>
     lt_budget t = (if known_budgets ms = [] then None else Some (foldl fl_add (Fin 0) (known_budgets ms)))"

lemma i64_add_left: "i64 (i64 a + b) = i64 (a + b)"
proof -
  have "signed_take_bit 63 (signed_take_bit 63 a + b) = signed_take_bit 63 (signed_take_bit 63 (signed_take_bit 63 a) + signed_take_bit 63 b)"
    by (simp only: signed_take_bit_add)
  also have "\<dots> = signed_take_bit 63 (signed_take_bit 63 a + signed_take_bit 63 b)" by simp
  finally show ?thesis by (simp only: signed_take_bit_add i64_def)
qed

lemma sums_up_add: "sums_up ms t \<Longrightarrow> sums_up (ms @ [x]) (add_model x t)"
  by (auto simp: sums_up_def add_model_def known_budgets_def i64_add_left split: option.split)

lemma sums_up_start: "sums_up [] no_totals"
  by (simp add: sums_up_def no_totals_def known_budgets_def i64_def)

lemma budget_known: "(lm_budget (model_of_row f x) = None) = (parse_budget_label (text_of (lr_budget x)) = None)"
  by (simp add: model_of_row_def row_budget_def Let_def)

lemma row_loop:
  "sums_up ms t \<Longrightarrow> partial = list_ex (\<lambda>x. lm_budget x = None) ms \<Longrightarrow>
     \<exists>t'. fold (take_row f) rows (ms, t, partial) =
       (ms @ map (model_of_row f) (filter (\<lambda>r. lr_platform r \<in> set (lf_platforms f)) rows), t',
        list_ex (\<lambda>x. lm_budget x = None) (ms @ map (model_of_row f) (filter (\<lambda>r. lr_platform r \<in> set (lf_platforms f)) rows))) \<and>
     sums_up (ms @ map (model_of_row f) (filter (\<lambda>r. lr_platform r \<in> set (lf_platforms f)) rows)) t'"
proof (induction rows arbitrary: ms t partial)
  case Nil
  then show ?case by simp
next
  case (Cons row rows)
  show ?case
  proof (cases "lr_platform row \<in> set (lf_platforms f)")
    case True
    let ?x = "model_of_row f row"
    let ?p = "if parse_budget_label (text_of (lr_budget row)) = None then True else partial"
    have "?p = list_ex (\<lambda>x. lm_budget x = None) (ms @ [?x])" using Cons.prems(2) budget_known [of f row] by auto
    from Cons.IH [OF sums_up_add [OF Cons.prems(1)] this] show ?thesis using True by (simp add: take_row_def)
  next
    case False
    then show ?thesis using Cons.IH [OF Cons.prems] by (simp add: take_row_def)
  qed
qed


definition no_rows :: "'a rows" where
  "no_rows = \<lparr>rw_rows = [], rw_error = None\<rparr>"

definition sample_row :: "string \<Rightarrow> local_row" where
  "sample_row m = \<lparr>lr_platform = ''groq'', lr_model = m, lr_display = [], lr_budget = Some ''n/a'', lr_limits = (None, None, None, None),
     lr_model_enabled = 1, lr_key = None, lr_route_enabled = 1\<rparr>"

definition sample_usage :: local_usage where
  "sample_usage = \<lparr>lu_requests = 2, lu_input = 5, lu_output = 7\<rparr>"

definition sample_db :: local_db where
  "sample_db = \<lparr>db_opens = True, db_pings = True, db_sets_query_only = True, db_query_only = Some 1, db_month = Some ''2026-01-01'',
     db_platforms = Some \<lparr>rw_rows = [Some ''groq''], rw_error = None\<rparr>, db_keys = Some no_rows,
     db_usage = Some \<lparr>rw_rows = [Some (''groq'', ''m'', sample_usage), Some (''groq'', ''n'', sample_usage)], rw_error = None\<rparr>,
     db_rates = (\<lambda>a b. Some no_rows), db_profile = None, db_profiles = (\<lambda>i. None), db_profile_models = (\<lambda>i. None),
     db_fallback = Some \<lparr>rw_rows = [Some (sample_row ''m''), Some (sample_row ''n'')], rw_error = None\<rparr>, db_pools = Some no_rows\<rparr>"


end
