(* ===== verification/Integration.thy ===== *)
theory Integration
  imports Local_Quota Provider_Client Storage Go_Json_Parse
begin

text \<open>
  The integration of FreeLLMAPI (internal/integration/freellmapi.go): an operator's consent to one
  external instance, what the last probe of it found, and the last report on its quota. Parameters
  are net/url (a parser that also says how the URL prints with another path), SHA-256, time.Parse and
  the replies of the instance. Every method runs its critical sections under the lock of the manager;
  a method with several of them is split into one definition per section, so that the runs of the
  program are sequences of them in any order.
\<close>

section \<open>Endpoints\<close>

record endpoint_url =
  eu_scheme :: string
  eu_user :: bool
  eu_host :: string
  eu_path :: string
  eu_query :: string
  eu_fragment :: string
  eu_text :: "string \<Rightarrow> string"

type_synonym endpoint_parser = "string \<Rightarrow> endpoint_url option"

text \<open>URL.Hostname and Port: a port is cut off only where everything after the last colon is digits.\<close>

definition last_colon :: "string \<Rightarrow> (string \<times> string) option" where
  "last_colon h = map_option (\<lambda>(a, b). (rev b, rev a)) (split_char (CHR '':'') (rev h))"

definition host_port :: "string \<Rightarrow> string \<times> string" where
  "host_port h =
     (let (host, port) = (case last_colon h of
            None \<Rightarrow> (h, [])
          | Some (a, b) \<Rightarrow> if list_all is_digit b then (a, b) else (h, []))
      in (if has_prefix host ''['' \<and> has_suffix host '']'' then butlast (tl host) else host, port))"

definition validate_endpoint :: "endpoint_parser \<Rightarrow> string \<Rightarrow> bool" where
  "validate_endpoint parse raw \<longleftrightarrow>
     (case parse raw of
        None \<Rightarrow> False
      | Some u \<Rightarrow>
          if (eu_scheme u \<noteq> ''http'' \<and> eu_scheme u \<noteq> ''https'') \<or> eu_user u \<or> fst (host_port (eu_host u)) = [] then False
          else if eu_query u \<noteq> [] \<or> eu_fragment u \<noteq> [] then False
          else (let port = snd (host_port (eu_host u)) in
                port = [] \<or> port = ''80'' \<or> port = ''443'' \<or> port = ''3001''))"

definition root_path :: "string \<Rightarrow> string" where
  "root_path p = (let q = trim_suffix p ''/'' in if has_suffix q ''/v1'' then trim_suffix q ''/v1'' else q)"

definition root_endpoint :: "endpoint_parser \<Rightarrow> string \<Rightarrow> string" where
  "root_endpoint parse raw0 =
     (let raw = trim_space raw0 in
      if raw = [] \<or> \<not> validate_endpoint parse raw then []
      else (case parse raw of
          None \<Rightarrow> []
        | Some u \<Rightarrow>
            if (eu_scheme u \<noteq> ''http'' \<and> eu_scheme u \<noteq> ''https'') \<or> eu_host u = [] then []
            else trim_right_cutset ''/'' (eu_text u (root_path (eu_path u)))))"

section \<open>State\<close>

definition free_id :: string where "free_id = ''freellmapi''"
definition free_instance :: string where "free_instance = ''freellmapi-local''"

record free_state =
  fs_instance :: string
  fs_adapter :: string
  fs_endpoint :: string
  fs_secret_ref :: string
  fs_authorized :: bool
  fs_route :: bool
  fs_recognized :: bool
  fs_connected :: bool
  fs_fresh :: bool
  fs_usable :: bool
  fs_status :: string
  fs_release :: string
  fs_models :: int
  fs_available :: int
  fs_ready :: int
  fs_summary :: bool
  fs_last_probe :: instant
  fs_last_sync :: instant
  fs_last_quota :: instant
  fs_last_error :: string
  fs_generation :: int
  fs_fingerprint :: string
  fs_revoked_at :: instant

record free_doc =
  fd_state :: free_state
  fd_path :: string
  fd_report :: "local_report option"
  fd_checked :: instant
  fd_error :: string

record free_manager =
  fm_path :: string
  fm_key :: string
  fm_state :: free_state
  fm_db_path :: string
  fm_report :: "local_report option"
  fm_error :: string
  fm_checked :: instant
  fm_disk :: "free_doc disk"

definition blank_state :: "string \<Rightarrow> string \<Rightarrow> free_state" where
  "blank_state endpoint st = \<lparr>fs_instance = free_instance, fs_adapter = ''freellmapi'', fs_endpoint = endpoint,
     fs_secret_ref = ''FREELLMAPI_KEY'', fs_authorized = False, fs_route = False, fs_recognized = False, fs_connected = False,
     fs_fresh = False, fs_usable = False, fs_status = st, fs_release = [], fs_models = 0, fs_available = 0, fs_ready = 0,
     fs_summary = False, fs_last_probe = zero_time, fs_last_sync = zero_time, fs_last_quota = zero_time, fs_last_error = [],
     fs_generation = 0, fs_fingerprint = [], fs_revoked_at = zero_time\<rparr>"

section \<open>The document\<close>

text \<open>encoding/json refuses an infinity or NaN, and then nothing is written. The path of the database in a report is not kept.\<close>

definition amounts_fit :: "float64 option list \<Rightarrow> bool" where
  "amounts_fit xs \<longleftrightarrow> list_all (\<lambda>x. case x of None \<Rightarrow> True | Some v \<Rightarrow> fl_finite v) xs"

definition report_fits :: "local_report \<Rightarrow> bool" where
  "report_fits r \<longleftrightarrow>
     amounts_fit [lt_budget (lq_totals r), Some (lt_used (lq_totals r)), lt_remaining (lq_totals r)] \<and>
     list_all (\<lambda>m. amounts_fit [lm_budget m, Some (lm_used m), lm_remaining m]) (lq_models r) \<and>
     list_all (\<lambda>p. amounts_fit [qp_limit p, qp_used p, qp_remaining p, Some (qp_confidence p)]) (lq_pools r)"

definition free_doc_of :: "free_manager \<Rightarrow> free_doc" where
  "free_doc_of m = \<lparr>fd_state = fm_state m, fd_path = fm_db_path m,
     fd_report = map_option (\<lambda>r. r\<lparr>lq_path := []\<rparr>) (fm_report m), fd_checked = fm_checked m, fd_error = fm_error m\<rparr>"

definition free_persist :: "io \<Rightarrow> free_manager \<Rightarrow> free_manager" where
  "free_persist io m =
     (if fm_path m = [] then m
      else if \<not> (case fm_report m of None \<Rightarrow> True | Some r \<Rightarrow> report_fits r) then m
      else m\<lparr>fm_disk := snd (write_atomic io (free_doc_of m) (fm_disk m))\<rparr>)"

definition fingerprint :: "(string \<Rightarrow> string) \<Rightarrow> string \<Rightarrow> string \<Rightarrow> string" where
  "fingerprint sha endpoint key = hex_encode (sha (endpoint @ [CHR 0x00] @ key))"

definition loaded_manager :: "(string \<Rightarrow> string) \<Rightarrow> string \<Rightarrow> free_doc \<Rightarrow> free_manager \<Rightarrow> free_manager" where
  "loaded_manager sha endpoint d m =
     (let m1 = m\<lparr>fm_state := fd_state d, fm_db_path := fd_path d, fm_report := fd_report d, fm_checked := fd_checked d, fm_error := fd_error d\<rparr>;
          fp = fingerprint sha endpoint (fm_key m)
      in if fs_endpoint (fd_state d) \<noteq> endpoint \<or> fs_fingerprint (fd_state d) \<noteq> fp
         then m1\<lparr>fm_state := (fd_state d)\<lparr>fs_endpoint := endpoint, fs_fingerprint := fp, fs_authorized := False, fs_route := False,
                    fs_usable := False, fs_status := ''config_changed''\<rparr>,
                 fm_report := None, fm_checked := zero_time, fm_error := ''config_changed''\<rparr>
         else m1)"

definition new_integration ::
  "endpoint_parser \<Rightarrow> (string \<Rightarrow> string) \<Rightarrow> bool \<Rightarrow> io \<Rightarrow> string \<Rightarrow> string \<Rightarrow> string \<Rightarrow> free_doc disk \<Rightarrow> free_manager" where
  "new_integration parse sha readable io path_text raw key d =
     (let endpoint = root_endpoint parse raw;
          m0 = \<lparr>fm_path = path_text, fm_key = key, fm_state = blank_state endpoint ''unconfigured'', fm_db_path = [], fm_report = None,
                fm_error = [], fm_checked = zero_time, fm_disk = d\<rparr>
      in if endpoint = [] \<or> trim_space key = [] then m0
         else
           (let m1 = m0\<lparr>fm_state := (blank_state endpoint ''unauthorized'')\<lparr>fs_fingerprint := fingerprint sha endpoint key\<rparr>\<rparr>;
                m2 = (case read_doc readable (d_file d) of
                        Parsed x \<Rightarrow> if fs_instance (fd_state x) \<noteq> [] then loaded_manager sha endpoint x m1 else m1
                      | _ \<Rightarrow> m1)
            in free_persist io m2))"

section \<open>Consent, routing and the local quota\<close>

definition set_status :: "io \<Rightarrow> (free_state \<Rightarrow> free_state) \<Rightarrow> free_manager \<Rightarrow> free_manager" where
  "set_status io f m = free_persist io (m\<lparr>fm_state := f (fm_state m)\<rparr>)"

definition free_authorized :: "free_manager \<Rightarrow> bool" where
  "free_authorized m = fs_authorized (fm_state m)"

definition free_route_enabled :: "free_manager \<Rightarrow> bool" where
  "free_route_enabled m \<longleftrightarrow>
     (let x = fm_state m in fs_authorized x \<and> fs_route x \<and> fs_connected x \<and> fs_fresh x \<and> fs_usable x)"

definition free_configured :: "free_manager \<Rightarrow> bool" where
  "free_configured m \<longleftrightarrow> fs_endpoint (fm_state m) \<noteq> [] \<and> trim_space (fm_key m) \<noteq> []"

definition free_config :: "free_manager \<Rightarrow> provider_config" where
  "free_config m =
     \<lparr>pc_id = free_id, pc_name = [],
      pc_base_url = (if fs_endpoint (fm_state m) \<noteq> [] then fs_endpoint (fm_state m) @ ''/v1'' else []),
      pc_api_key = fm_key m, pc_kind = ''external_local'', pc_source = [], pc_enabled = False\<rparr>"

definition next_generation :: "free_state \<Rightarrow> free_state" where
  "next_generation x = x\<lparr>fs_generation := (fs_generation x + 1) mod 2 ^ 64\<rparr>"

definition authorize :: "io \<Rightarrow> bool \<Rightarrow> free_manager \<Rightarrow> free_manager" where
  "authorize io route m =
     set_status io (\<lambda>x. next_generation (x\<lparr>fs_authorized := True, fs_route := route, fs_revoked_at := zero_time,
       fs_status := ''authorized'', fs_usable := False\<rparr>)) m"

text \<open>Revoke has two critical sections.\<close>

definition revoke_consent :: "io \<Rightarrow> instant \<Rightarrow> free_manager \<Rightarrow> free_manager" where
  "revoke_consent io now m =
     set_status io (\<lambda>x. next_generation (x\<lparr>fs_authorized := False, fs_route := False, fs_usable := False,
       fs_status := ''revoked'', fs_revoked_at := now\<rparr>)) m"

definition forget_report :: "io \<Rightarrow> instant \<Rightarrow> free_manager \<Rightarrow> free_manager" where
  "forget_report io now m = free_persist io (m\<lparr>fm_report := None, fm_error := ''not_authorized'', fm_checked := now\<rparr>)"

definition revoke :: "io \<Rightarrow> io \<Rightarrow> instant \<Rightarrow> instant \<Rightarrow> free_manager \<Rightarrow> free_manager" where
  "revoke io io' now now' m = forget_report io' now' (revoke_consent io now m)"

definition set_route :: "io \<Rightarrow> bool \<Rightarrow> free_manager \<Rightarrow> free_manager" where
  "set_route io on m =
     set_status io (\<lambda>x0. (let x = x0\<lparr>fs_route := on\<rparr> in next_generation
       (if \<not> on then x\<lparr>fs_usable := False\<rparr>
        else if fs_authorized x \<and> fs_connected x \<and> fs_fresh x then x\<lparr>fs_usable := True\<rparr>
        else x))) m"

definition set_local_path :: "io \<Rightarrow> string \<Rightarrow> free_manager \<Rightarrow> free_manager" where
  "set_local_path io raw m =
     (let p = path_clean (trim_space raw);
          m1 = (if fm_db_path m \<noteq> p then m\<lparr>fm_report := None, fm_error := [], fm_checked := zero_time\<rparr> else m)
      in free_persist io (m1\<lparr>fm_db_path := p\<rparr>))"

definition local_quota_path :: "free_manager \<Rightarrow> string" where
  "local_quota_path m = fm_db_path m"

definition local_quota_state :: "free_manager \<Rightarrow> local_report option \<times> instant \<times> string" where
  "local_quota_state m = (fm_report m, fm_checked m, fm_error m)"

definition safe_quota_error :: "string \<Rightarrow> string" where
  "safe_quota_error text =
     (if contains_str text ''not authorized'' then ''not_authorized''
      else if contains_str text ''not configured'' then ''local_database_not_configured''
      else if contains_str text ''read-only'' then ''local_database_not_read_only''
      else ''local_database_unavailable'')"

text \<open>
  RefreshLocalQuota reads without the lock and then publishes what it has read, unless consent has
  been withdrawn in between.
\<close>

definition publish_report :: "io \<Rightarrow> instant \<Rightarrow> string + local_report \<Rightarrow> free_manager \<Rightarrow> free_manager" where
  "publish_report io now res m =
     (let m1 = m\<lparr>fm_checked := now, fm_state := (fm_state m)\<lparr>fs_last_quota := now\<rparr>\<rparr> in
      if \<not> fs_authorized (fm_state m1) then free_persist io (m1\<lparr>fm_report := None, fm_error := ''not_authorized''\<rparr>)
      else free_persist io (case res of
          Inl e \<Rightarrow> m1\<lparr>fm_error := safe_quota_error e\<rparr>
        | Inr r \<Rightarrow> m1\<lparr>fm_report := Some r, fm_error := []\<rparr>))"

definition refresh_local_quota ::
  "io \<Rightarrow> string option \<Rightarrow> (string \<Rightarrow> local_db) \<Rightarrow> instant \<Rightarrow> instant \<Rightarrow> instant \<Rightarrow> free_manager \<Rightarrow> (string + local_report) \<times> free_manager" where
  "refresh_local_quota io ended dbs t1 t2 now m =
     (let res = read_local_quota (free_authorized m) ended dbs t1 t2 (local_quota_path m); m' = publish_report io now res m in
      (if \<not> free_authorized m then Inl ''freellmapi integration not authorized'' else res, m'))"

definition free_mark_synced :: "io \<Rightarrow> instant \<Rightarrow> int \<Rightarrow> free_manager \<Rightarrow> free_manager" where
  "free_mark_synced io now n m =
     set_status io (\<lambda>x0. (let x = x0\<lparr>fs_models := n, fs_fresh := True, fs_last_sync := now, fs_last_error := []\<rparr> in
       if fs_connected x then x\<lparr>fs_usable := (fs_authorized x \<and> fs_route x)\<rparr> else x)) m"

section \<open>What the instance answers\<close>

text \<open>AddModels drops what must not be routed to, and trims the identifiers it keeps.\<close>

definition add_free_model :: "raw_model \<Rightarrow> raw_model option" where
  "add_free_model x =
     (let mid = trim_space (rm_id x); low = to_lower mid in
      if mid = [] \<or> length mid > 300 \<or> CHR 0x0D \<in> set mid \<or> CHR 0x0A \<in> set mid \<or> CHR 0x00 \<in> set mid then None
      else if low = ''auto'' \<or> low = ''fusion'' \<or> has_prefix low ''auto:'' then None
      else Some (x\<lparr>rm_id := mid, rm_context := (if rm_context x < 0 \<or> rm_context x > 10000000 then 0 else rm_context x)\<rparr>))"

definition add_free_models :: "raw_model list \<Rightarrow> raw_model list" where
  "add_free_models xs = List.map_filter add_free_model xs"

definition decode_models :: "json option \<Rightarrow> string + raw_model list" where
  "decode_models body =
     (case body of
        None \<Rightarrow> Inl json_error_text
      | Some j \<Rightarrow>
          (case dec_models j of (ms, ok) \<Rightarrow>
             if \<not> ok then Inl json_error_text
             else if ms = [] then Inl ''freellmapi returned an empty catalog''
             else if list_ex (\<lambda>x. trim_space (rm_id x) = [] \<or> length (rm_id x) > 300) ms
             then Inl ''freellmapi returned an invalid model id''
             else Inr ms))"

definition dec_map :: "json \<Rightarrow> json \<times> bool" where
  "dec_map j = (case j of JObj kvs \<Rightarrow> (j, numbers_fit j) | JNull \<Rightarrow> (JNull, True) | _ \<Rightarrow> (JNull, False))"

text \<open>An undecodable list of providers is no list; the caller ignores the error.\<close>

definition decode_providers :: "json option \<Rightarrow> json list" where
  "decode_providers body =
     (case body of
        None \<Rightarrow> []
      | Some j \<Rightarrow>
          (case dec_field ''providers'' (dec_slice dec_map) [] j of (ps, ok) \<Rightarrow>
             if \<not> ok \<or> length ps > 1000 then [] else ps))"

record summary =
  sm_schema :: int
  sm_service :: string
  sm_release :: string
  sm_checked :: instant
  sm_total :: int
  sm_available :: int
  sm_ready :: int
  sm_capabilities :: "(string \<times> bool) list"
  sm_pools :: "quota_pool list"
  sm_partial :: bool

text \<open>Pointers, times, and maps to bool.\<close>

fun dec_pointer :: "'a decoder \<Rightarrow> 'a \<Rightarrow> 'a option decoder" where
  "dec_pointer d z JNull _ = (None, True)"
| "dec_pointer d z j acc = (case d j (case acc of None \<Rightarrow> z | Some v \<Rightarrow> v) of (v, ok) \<Rightarrow> (Some v, ok))"

definition dec_amount :: "float64 decoder" where
  "dec_amount j acc =
     (case j of
        JNum q \<Rightarrow> if fl_finite (fl_round q) then (fl_round q, True) else (acc, False)
      | JNull \<Rightarrow> (acc, True)
      | _ \<Rightarrow> (acc, False))"

definition rfc3339 :: string where
  "rfc3339 = ''2006-01-02T15:04:05Z07:00''"

definition dec_time :: "time_parser \<Rightarrow> instant decoder" where
  "dec_time tp j acc =
     (case j of
        JStr s \<Rightarrow> (case tp rfc3339 s of Some t \<Rightarrow> (t, True) | None \<Rightarrow> (acc, False))
      | JNull \<Rightarrow> (acc, True)
      | _ \<Rightarrow> (acc, False))"

definition dec_flags :: "(string \<times> bool) list decoder" where
  "dec_flags j acc =
     (case j of
        JObj kvs \<Rightarrow> (acc @ map (\<lambda>(k, v). (k, fst (dec_bool v False))) kvs, list_all (\<lambda>(k, v). snd (dec_bool v False)) kvs)
      | JNull \<Rightarrow> ([], True)
      | _ \<Rightarrow> (acc, False))"

definition dec_pool :: "json \<Rightarrow> quota_pool \<times> bool" where
  "dec_pool j =
     (\<lparr>qp_id = field ''id'' dec_string [] j, qp_platform = field ''platform'' dec_string [] j,
       qp_key_id = field ''key_id'' (dec_pointer dec_int 0) None j, qp_model_id = field ''model_id'' dec_string [] j,
       qp_metric = field ''metric'' dec_string [] j, qp_unit = field ''unit'' dec_string [] j,
       qp_limit = field ''limit'' (dec_pointer dec_amount (Fin 0)) None j, qp_used = field ''used'' (dec_pointer dec_amount (Fin 0)) None j,
       qp_remaining = field ''remaining'' (dec_pointer dec_amount (Fin 0)) None j,
       qp_reset_at = field ''reset_at'' dec_string [] j, qp_reset_strategy = field ''reset_strategy'' dec_string [] j,
       qp_source = field ''source'' dec_string [] j, qp_confidence = field ''confidence'' dec_amount (Fin 0) j,
       qp_notes = field ''notes'' dec_string [] j, qp_observed_at = field ''observed_at'' dec_string [] j,
       qp_partial = field ''partial'' dec_bool False j\<rparr>,
      list_all (\<lambda>n. field_ok n dec_string [] j)
        [''id'', ''platform'', ''model_id'', ''metric'', ''unit'', ''reset_at'', ''reset_strategy'', ''source'', ''notes'', ''observed_at'']
      \<and> field_ok ''key_id'' (dec_pointer dec_int 0) None j
      \<and> list_all (\<lambda>n. field_ok n (dec_pointer dec_amount (Fin 0)) None j) [''limit'', ''used'', ''remaining'']
      \<and> field_ok ''confidence'' dec_amount (Fin 0) j \<and> field_ok ''partial'' dec_bool False j)"

definition dec_counts :: "(int \<times> int) decoder" where
  "dec_counts j acc =
     ((fst (dec_field ''total'' dec_int (fst acc) j), fst (dec_field ''available'' dec_int (snd acc) j)),
      snd (dec_field ''total'' dec_int (fst acc) j) \<and> snd (dec_field ''available'' dec_int (snd acc) j))"

definition dec_summary :: "time_parser \<Rightarrow> json \<Rightarrow> summary \<times> bool" where
  "dec_summary tp j =
     (let counts = dec_field ''models'' dec_counts (0, 0) j in
      (\<lparr>sm_schema = field ''schema_version'' dec_int 0 j, sm_service = field ''service'' dec_string [] j,
        sm_release = field ''release'' dec_string [] j, sm_checked = field ''checked_at'' (dec_time tp) zero_time j,
        sm_total = fst (fst counts), sm_available = snd (fst counts), sm_ready = field ''ready_upstreams'' dec_int 0 j,
        sm_capabilities = field ''capabilities'' dec_flags [] j, sm_pools = field ''quota_pools'' (dec_slice dec_pool) [] j,
        sm_partial = field ''partial'' dec_bool False j\<rparr>,
       list_all (\<lambda>n. field_ok n dec_int 0 j) [''schema_version'', ''ready_upstreams''] \<and>
       list_all (\<lambda>n. field_ok n dec_string [] j) [''service'', ''release''] \<and> field_ok ''checked_at'' (dec_time tp) zero_time j \<and>
       snd counts \<and> field_ok ''capabilities'' dec_flags [] j \<and> field_ok ''quota_pools'' (dec_slice dec_pool) [] j \<and>
       field_ok ''partial'' dec_bool False j))"

definition amount_ok :: "float64 option \<Rightarrow> bool" where
  "amount_ok x \<longleftrightarrow> (case x of None \<Rightarrow> True | Some v \<Rightarrow> \<not> (fl_lt v (Fin 0) \<or> fl_lt (Fin 1000000000000000000) v))"

definition pool_ok :: "quota_pool \<Rightarrow> bool" where
  "pool_ok p \<longleftrightarrow> \<not> (qp_metric p = [] \<or> qp_id p = [] \<or> length (qp_id p) > 200) \<and> list_all amount_ok [qp_limit p, qp_used p, qp_remaining p]"

definition decode_summary :: "time_parser \<Rightarrow> json option \<Rightarrow> summary option" where
  "decode_summary tp body =
     (case body of
        None \<Rightarrow> None
      | Some j \<Rightarrow>
          (case dec_summary tp j of (s, ok) \<Rightarrow>
             if \<not> ok then None
             else if sm_service s \<noteq> ''freellmapi'' \<and> sm_service s \<noteq> [] then None
             else if length (sm_pools s) > 1000 then None
             else if \<not> list_all pool_ok (sm_pools s) then None
             else Some s))"

section \<open>Probing\<close>

text \<open>
  A reply: the status (0 when there was none), whether the call failed, and the JSON of the body, None
  when it has none. A body over four megabytes is a failure that keeps the status.
\<close>

record free_reply =
  fr_status :: int
  fr_failed :: bool
  fr_body :: "json option"

type_synonym free_net = "string \<Rightarrow> string option \<Rightarrow> free_reply"

definition free_request :: "free_net \<Rightarrow> string \<Rightarrow> bool \<Rightarrow> free_manager \<Rightarrow> free_reply" where
  "free_request net p auth m =
     (if fs_endpoint (fm_state m) = [] \<or> fm_key m = [] then \<lparr>fr_status = 0, fr_failed = True, fr_body = None\<rparr>
      else net (fs_endpoint (fm_state m) @ p) (if auth then Some (bearer (fm_key m)) else None))"

definition reply_ok :: "free_reply \<Rightarrow> bool" where
  "reply_ok r \<longleftrightarrow> \<not> fr_failed r \<and> 200 \<le> fr_status r \<and> fr_status r < 300"

definition safe_free_error :: "free_reply \<Rightarrow> string" where
  "safe_free_error r =
     (if fr_failed r then ''connection_error''
      else if fr_status r = 401 \<or> fr_status r = 403 then ''unauthorized''
      else if fr_status r = 0 then ''unavailable''
      else ''http_'' @ itoa (fr_status r))"

definition ready_upstreams :: "json option \<Rightarrow> json list \<Rightarrow> int" where
  "ready_upstreams raw ps =
     (case raw of
        None \<Rightarrow> int (length ps)
      | Some j \<Rightarrow>
          (case dec_field ''ready_upstreams'' dec_int 0 j of (n, ok) \<Rightarrow> if ok \<and> n \<ge> 0 then n else int (length ps)))"

text \<open>What a probe finds out, before it is written into the state.\<close>

record findings =
  fi_models :: "raw_model list"
  fi_providers :: "json list"
  fi_summary :: "summary option"
  fi_summary_status :: int
  fi_summary_error :: string
  fi_ready :: int

datatype probe_verdict =
  Unconfigured | Unreachable string | NotReady string | NoAccess string | BadCatalog string | NoModels | Found findings

definition probe_summary :: "free_net \<Rightarrow> time_parser \<Rightarrow> instant \<Rightarrow> free_manager \<Rightarrow> summary option \<times> int \<times> string" where
  "probe_summary net tp now m =
     (let r = free_request net ''/v1/integrations/xing-shu/summary'' True m;
          s = (if reply_ok r
               then map_option (\<lambda>x. x\<lparr>sm_release := trim_space (sm_release x), sm_checked := now\<rparr>) (decode_summary tp (fr_body r))
               else None);
          failed = (fr_failed r \<or> reply_ok r \<and> s = None)
      in (s, fr_status r, if failed \<and> fr_status r \<noteq> 404 then ''summary unavailable'' else []))"

definition free_probe_verdict :: "free_net \<Rightarrow> time_parser \<Rightarrow> instant \<Rightarrow> free_manager \<Rightarrow> probe_verdict" where
  "free_probe_verdict net tp now m =
     (if fs_endpoint (fm_state m) = [] \<or> fm_key m = [] then Unconfigured
      else
        (let live = free_request net ''/livez'' False m; ready = free_request net ''/readyz'' False m;
             listed = free_request net ''/v1/models'' True m in
         if \<not> reply_ok live then Unreachable (safe_free_error live)
         else if \<not> reply_ok ready then NotReady (safe_free_error ready)
         else if \<not> reply_ok listed then NoAccess (safe_free_error listed)
         else (case decode_models (fr_body listed) of
             Inl e \<Rightarrow> BadCatalog e
           | Inr raw \<Rightarrow>
               (let ms = add_free_models raw in
                if ms = [] then NoModels
                else
                  (let rp = free_request net ''/v1/providers'' True m;
                       ps = (if reply_ok rp then decode_providers (fr_body rp) else []);
                       (s, st, err) = probe_summary net tp now m
                   in Found \<lparr>fi_models = ms, fi_providers = ps, fi_summary = s, fi_summary_status = st, fi_summary_error = err,
                             fi_ready = ready_upstreams (fr_body ready) ps\<rparr>)))))"

fun verdict_state :: "instant \<Rightarrow> probe_verdict \<Rightarrow> free_state \<Rightarrow> free_state" where
  "verdict_state now Unconfigured x = x"
| "verdict_state now (Unreachable e) x =
     x\<lparr>fs_connected := False, fs_usable := False, fs_status := ''disconnected'', fs_last_error := e\<rparr>"
| "verdict_state now (NotReady e) x =
     x\<lparr>fs_connected := True, fs_recognized := True, fs_usable := False, fs_status := ''degraded'', fs_last_error := e\<rparr>"
| "verdict_state now (NoAccess e) x =
     x\<lparr>fs_connected := True, fs_recognized := False, fs_usable := False, fs_status := ''unauthorized'', fs_last_error := e\<rparr>"
| "verdict_state now (BadCatalog e) x =
     x\<lparr>fs_connected := True, fs_recognized := False, fs_usable := False, fs_status := ''invalid'', fs_last_error := e\<rparr>"
| "verdict_state now NoModels x =
     x\<lparr>fs_fresh := False, fs_usable := False, fs_status := ''invalid'', fs_last_error := ''no_routable_models''\<rparr>"
| "verdict_state now (Found f) x =
     x\<lparr>fs_recognized := True, fs_connected := True, fs_fresh := True, fs_usable := (fs_authorized x \<and> fs_route x),
       fs_status := ''connected'', fs_models := int (length (fi_models f)), fs_ready := fi_ready f,
       fs_summary := (fi_summary f \<noteq> None), fs_release := [], fs_last_probe := now, fs_last_error := []\<rparr>"

definition apply_verdict :: "io \<Rightarrow> instant \<Rightarrow> probe_verdict \<Rightarrow> free_manager \<Rightarrow> free_manager" where
  "apply_verdict io now v m = (if v = Unconfigured then m else set_status io (verdict_state now v) m)"

text \<open>The result is the error, if any, and the findings of a probe that got through.\<close>

fun verdict_result :: "probe_verdict \<Rightarrow> string + findings" where
  "verdict_result Unconfigured = Inl ''freellmapi is not configured''"
| "verdict_result (Unreachable e) = Inl ''freellmapi live check failed''"
| "verdict_result (NotReady e) = Inl ''freellmapi is not ready''"
| "verdict_result (NoAccess e) = Inl ''freellmapi model access failed''"
| "verdict_result (BadCatalog e) = Inl e"
| "verdict_result NoModels = Inl ''freellmapi returned no routable models''"
| "verdict_result (Found f) = Inr f"

definition free_probe :: "io \<Rightarrow> free_net \<Rightarrow> time_parser \<Rightarrow> instant \<Rightarrow> instant \<Rightarrow> free_manager \<Rightarrow> (string + findings) \<times> free_manager" where
  "free_probe io net tp now now' m =
     (let v = free_probe_verdict net tp now m in (verdict_result v, apply_verdict io now' v m))"

section \<open>The quota summary\<close>

definition parse_reset :: "time_parser \<Rightarrow> string \<Rightarrow> instant option" where
  "parse_reset tp v = (if v = [] then None else tp rfc3339 v)"

definition pool_state :: "quota_pool \<Rightarrow> quota_state" where
  "pool_state p = (case qp_remaining p of None \<Rightarrow> QUnknown | Some v \<Rightarrow> if fl_le v (Fin 0) then Exhausted else Available)"

definition pool_snapshot :: "time_parser \<Rightarrow> instant \<Rightarrow> quota_pool \<Rightarrow> quota_snapshot" where
  "pool_snapshot tp checked p =
     \<lparr>qs_provider = free_id, qs_pool = qp_id p, qs_metric = qp_metric p, qs_unit = qp_unit p, qs_state = pool_state p,
      qs_remaining = qp_remaining p, qs_used = qp_used p, qs_limit = qp_limit p, qs_reset_at = parse_reset tp (qp_reset_at p),
      qs_checked_at = checked, qs_fresh_until = Some (checked + 5 * minute), qs_source = qp_source p, qs_confidence = qp_confidence p,
      qs_error_type = (if qp_partial p then ''quota_partial'' else [])\<rparr>"

text \<open>The readings of the clock: one per pool for a summary without a time, and one for the state.\<close>

definition apply_pools :: "time_parser \<Rightarrow> (nat \<Rightarrow> instant) \<Rightarrow> summary \<Rightarrow> quota_manager \<Rightarrow> quota_manager" where
  "apply_pools tp clock s q =
     fold (\<lambda>(i, p). quota_set (pool_snapshot tp (if sm_checked s = zero_time then clock i else sm_checked s) p))
       (zip [0..<length (sm_pools s)] (sm_pools s)) q"

definition apply_summary ::
  "io \<Rightarrow> time_parser \<Rightarrow> (nat \<Rightarrow> instant) \<Rightarrow> instant \<Rightarrow> summary option \<Rightarrow> quota_manager option \<Rightarrow> free_manager \<Rightarrow>
     quota_manager option \<times> free_manager" where
  "apply_summary io tp clock now s q m =
     (case (s, q) of
        (Some x, Some qm) \<Rightarrow> (Some (apply_pools tp clock x qm), set_status io (\<lambda>st. st\<lparr>fs_last_quota := now\<rparr>) m)
      | _ \<Rightarrow> (q, m))"

end
