(* ===== verification/Integration_Api.thy ===== *)
theory Integration_Api
  imports Integration Catalog_Policy Http
begin

text \<open>
  The handlers of the integration and its background round (internal/api/integration.go): they tie
  the consent in the integration's manager to the catalog, the quota manager and the local report. The
  three collaborators may be absent. The audit log is not modelled.
\<close>

section \<open>The runtime\<close>

record hub =
  ih_free :: "free_manager option"
  ih_catalog :: "manager option"
  ih_quota :: "quota_manager option"

text \<open>
  What a handler meets: the outcome of its writes and the readings of its clock, numbered in the order
  of its critical sections, the instance, the databases, and the error of the context if it has ended.
\<close>

record hub_env =
  he_io :: "nat \<Rightarrow> io"
  he_clock :: "nat \<Rightarrow> instant"
  he_net :: free_net
  he_tp :: time_parser
  he_dbs :: "string \<Rightarrow> local_db"
  he_ended :: "string option"
  he_pool_clock :: "nat \<Rightarrow> instant"
  he_catalog_clock :: "nat \<Rightarrow> instant"

definition hub_authorized :: "hub \<Rightarrow> bool" where
  "hub_authorized h = (case ih_free h of None \<Rightarrow> False | Some m \<Rightarrow> free_authorized m)"

text \<open>Running one operation of a collaborator that is there.\<close>

definition on_free :: "(free_manager \<Rightarrow> free_manager) \<Rightarrow> hub \<Rightarrow> hub" where
  "on_free f h = h\<lparr>ih_free := map_option f (ih_free h)\<rparr>"

section \<open>Consent and the catalog\<close>

fun apply_each ::
  "bool \<Rightarrow> (string, bool) gomap \<Rightarrow> (nat \<Rightarrow> instant) \<Rightarrow> nat \<Rightarrow> model list \<Rightarrow> manager \<Rightarrow> manager" where
  "apply_each on allow clock i [] m = m"
| "apply_each on allow clock i (x # xs) m =
     (if m_provider x \<noteq> free_id then apply_each on allow clock i xs m
      else
        (let approved = (mget False allow (route_key (m_provider x) (m_id x)) \<or> is_auto_approved (m_provider x));
             allowed = (on \<and> approved \<and> m_status x = Active)
         in apply_each on allow clock (i + 1) xs
              (snd (update_provider_model (clock i) (m_id x) (m_provider x) (\<lambda>y. y\<lparr>m_auto_routable := allowed\<rparr>) m))))"

definition apply_state_to_catalog :: "(nat \<Rightarrow> instant) \<Rightarrow> hub \<Rightarrow> hub" where
  "apply_state_to_catalog clock h =
     (case (ih_free h, ih_catalog h) of
        (Some f, Some c) \<Rightarrow>
          h\<lparr>ih_catalog := Some (apply_each (fs_authorized (fm_state f) \<and> fs_route (fm_state f)) (allow_snapshot c) clock 0
               (cat_models (snapshot c)) c)\<rparr>
      | _ \<Rightarrow> h)"

section \<open>The status view\<close>

record integration_view =
  iv_state :: free_state
  iv_configured :: bool
  iv_usable :: bool
  iv_quota_state :: string
  iv_checked :: instant
  iv_error :: string
  iv_report :: "local_report option"
  iv_stale :: bool

definition integration_status :: "hub \<Rightarrow> integration_view list reply" where
  "integration_status h =
     (case ih_free h of
        None \<Rightarrow> Reply []
      | Some m \<Rightarrow>
          (let (report, checked, err) = (if free_authorized m then local_quota_state m else (None, zero_time, ''not_authorized''));
               label = (if \<not> free_authorized m then ''not_authorized''
                        else if report = None then ''unavailable''
                        else if err \<noteq> [] then ''stale'' else ''available'')
           in Reply [\<lparr>iv_state = fm_state m, iv_configured = free_configured m, iv_usable = free_route_enabled m,
                iv_quota_state = label, iv_checked = checked, iv_error = err, iv_report = report,
                iv_stale = (report \<noteq> None \<and> err \<noteq> [])\<rparr>]))"

section \<open>The local quota\<close>

definition local_quota_handler :: "http_request \<Rightarrow> hub \<Rightarrow> (local_report option \<times> instant \<times> string) reply" where
  "local_quota_handler req h =
     (if hr_method req \<noteq> ''GET'' then method_not_allowed
      else if \<not> hub_authorized h then HttpError 403 ''integration not authorized''
      else (case ih_free h of None \<Rightarrow> HttpError 403 ''integration not authorized'' | Some m \<Rightarrow> Reply (local_quota_state m)))"

definition safe_quota_api_error :: "string \<Rightarrow> string" where
  "safe_quota_api_error text =
     (if text = ''freellmapi integration not authorized'' then ''not_authorized''
      else if text = ''freellmapi local database is not configured'' then ''local_database_not_configured''
      else ''local_database_unavailable'')"

definition refresh_in :: "hub_env \<Rightarrow> nat \<Rightarrow> free_manager \<Rightarrow> (string + local_report) \<times> free_manager" where
  "refresh_in env i m = refresh_local_quota (he_io env i) (he_ended env) (he_dbs env) (he_clock env i) (he_clock env i) (he_clock env i) m"

definition local_quota_refresh :: "hub_env \<Rightarrow> http_request \<Rightarrow> hub \<Rightarrow> (string + local_report) reply \<times> hub" where
  "local_quota_refresh env req h =
     (if hr_method req \<noteq> ''POST'' then (method_not_allowed, h)
      else if \<not> hub_authorized h then (HttpError 403 ''integration not authorized'', h)
      else (case ih_free h of
          None \<Rightarrow> (HttpError 403 ''integration not authorized'', h)
        | Some m \<Rightarrow>
            (case refresh_in env 0 m of
               (Inl e, m') \<Rightarrow> (Reply (Inl (safe_quota_api_error e)), h\<lparr>ih_free := Some m'\<rparr>)
             | (Inr r, m') \<Rightarrow> (Reply (Inr r), h\<lparr>ih_free := Some m'\<rparr>))))"

definition apply_local_quota :: "hub_env \<Rightarrow> nat \<Rightarrow> hub \<Rightarrow> hub" where
  "apply_local_quota env i h = (if \<not> hub_authorized h then h else on_free (\<lambda>m. snd (refresh_in env i m)) h)"

section \<open>The handlers\<close>

definition integration_unavailable :: "'a reply" where
  "integration_unavailable = HttpError 404 ''integration unavailable''"

definition probe_in :: "hub_env \<Rightarrow> free_manager \<Rightarrow> (string + findings) \<times> free_manager" where
  "probe_in env m = free_probe (he_io env 0) (he_net env) (he_tp env) (he_clock env 0) (he_clock env 0) m"

text \<open>A failed probe is answered with the state as well.\<close>

definition integration_probe :: "hub_env \<Rightarrow> http_request \<Rightarrow> hub \<Rightarrow> (free_state \<times> findings option) reply \<times> hub" where
  "integration_probe env req h =
     (if hr_method req \<noteq> ''POST'' then (method_not_allowed, h)
      else (case ih_free h of
          None \<Rightarrow> (integration_unavailable, h)
        | Some m \<Rightarrow>
            (case probe_in env m of (res, m') \<Rightarrow>
               (Reply (fm_state m', case res of Inl e \<Rightarrow> None | Inr f \<Rightarrow> Some f), h\<lparr>ih_free := Some m'\<rparr>))))"

definition wanted_route :: "string \<Rightarrow> json option \<Rightarrow> bool option" where
  "wanted_route name body = (case body of None \<Rightarrow> None | Some j \<Rightarrow> field name (dec_pointer dec_bool False) None j)"

definition integration_authorize :: "hub_env \<Rightarrow> http_request \<Rightarrow> hub \<Rightarrow> free_state reply \<times> hub" where
  "integration_authorize env req h =
     (if hr_method req \<noteq> ''POST'' then (method_not_allowed, h)
      else (case ih_free h of
          None \<Rightarrow> (integration_unavailable, h)
        | Some m \<Rightarrow>
            (let h1 = on_free (authorize (he_io env 0) (wanted_route ''route_enabled'' (hr_body req) = Some True)) h;
                 h2 = apply_state_to_catalog (he_catalog_clock env) (apply_local_quota env 1 h1)
             in case ih_free h2 of None \<Rightarrow> (integration_unavailable, h2) | Some m' \<Rightarrow> (Reply (fm_state m'), h2))))"

definition integration_revoke :: "hub_env \<Rightarrow> http_request \<Rightarrow> hub \<Rightarrow> free_state reply \<times> hub" where
  "integration_revoke env req h =
     (if hr_method req \<noteq> ''POST'' then (method_not_allowed, h)
      else (case ih_free h of
          None \<Rightarrow> (integration_unavailable, h)
        | Some m \<Rightarrow>
            (let m' = revoke (he_io env 0) (he_io env 1) (he_clock env 0) (he_clock env 1) m in
             (Reply (fm_state m'), apply_state_to_catalog (he_catalog_clock env) (h\<lparr>ih_free := Some m'\<rparr>)))))"

definition integration_route :: "hub_env \<Rightarrow> http_request \<Rightarrow> hub \<Rightarrow> free_state reply \<times> hub" where
  "integration_route env req h =
     (if hr_method req \<noteq> ''POST'' \<and> hr_method req \<noteq> ''PATCH'' then (method_not_allowed, h)
      else (case ih_free h of
          None \<Rightarrow> (integration_unavailable, h)
        | Some m \<Rightarrow>
            (case hr_body req of
               None \<Rightarrow> (HttpError 400 ''enabled is required'', h)
             | Some j \<Rightarrow>
                 (case dec_field ''enabled'' (dec_pointer dec_bool False) None j of (v, ok) \<Rightarrow>
                    if \<not> ok \<or> v = None then (HttpError 400 ''enabled is required'', h)
                    else
                      (let m' = set_route (he_io env 0) (v = Some True) m; h1 = h\<lparr>ih_free := Some m'\<rparr> in
                       (Reply (fm_state m'), if v = Some False then apply_state_to_catalog (he_catalog_clock env) h1 else h1))))))"

text \<open>Writing the models of a probe into the catalog, and what follows when the catalog takes them.\<close>

definition sync_models :: "hub_env \<Rightarrow> findings \<Rightarrow> hub \<Rightarrow> sync_result option \<times> hub" where
  "sync_models env f h =
     (case ih_catalog h of
        None \<Rightarrow> (None, h)
      | Some c \<Rightarrow>
          (case sync_raw (he_catalog_clock env 0) free_id (fi_models f) c of (res, c') \<Rightarrow> (Some res, h\<lparr>ih_catalog := Some c'\<rparr>)))"

definition note_synced :: "hub_env \<Rightarrow> nat \<Rightarrow> findings \<Rightarrow> hub \<Rightarrow> hub" where
  "note_synced env i f h = on_free (free_mark_synced (he_io env i) (he_clock env i) (int (length (fi_models f)))) h"

definition note_summary :: "hub_env \<Rightarrow> nat \<Rightarrow> findings \<Rightarrow> hub \<Rightarrow> hub" where
  "note_summary env i f h =
     (case ih_free h of
        None \<Rightarrow> h
      | Some m \<Rightarrow>
          (case apply_summary (he_io env i) (he_tp env) (he_pool_clock env) (he_clock env i) (fi_summary f) (ih_quota h) m of
             (q, m') \<Rightarrow> h\<lparr>ih_free := Some m', ih_quota := q\<rparr>))"

definition refreshed :: "hub_env \<Rightarrow> nat \<Rightarrow> hub \<Rightarrow> hub" where
  "refreshed env i h = on_free (\<lambda>m. snd (refresh_in env i m)) h"

definition state_of :: "hub \<Rightarrow> free_state" where
  "state_of h = (case ih_free h of None \<Rightarrow> blank_state [] [] | Some m \<Rightarrow> fm_state m)"

definition integration_sync :: "hub_env \<Rightarrow> http_request \<Rightarrow> hub \<Rightarrow> (string + free_state \<times> findings) reply \<times> hub" where
  "integration_sync env req h =
     (if hr_method req \<noteq> ''POST'' then (method_not_allowed, h)
      else if \<not> hub_authorized h then (HttpError 403 ''integration not authorized'', h)
      else (case ih_free h of
          None \<Rightarrow> (HttpError 403 ''integration not authorized'', h)
        | Some m \<Rightarrow>
            (case probe_in env m of
               (Inl e, m') \<Rightarrow> (Reply (Inl ''probe_failed''), h\<lparr>ih_free := Some m'\<rparr>)
             | (Inr f, m') \<Rightarrow>
                 (case sync_models env f (h\<lparr>ih_free := Some m'\<rparr>) of (res, h1) \<Rightarrow>
                    if (case res of None \<Rightarrow> False | Some r \<Rightarrow> rs_error r \<noteq> NoError)
                    then (Reply (Inl (case res of None \<Rightarrow> [] | Some r \<Rightarrow> error_text (rs_error r))), h1)
                    else
                      (let h2 = (if res = None then h1 else note_synced env 1 f h1);
                           h3 = refreshed env 3 (note_summary env 2 f h2)
                       in (Reply (Inr (state_of h3, f)), h3))))))"

definition integration_quota_refresh :: "hub_env \<Rightarrow> http_request \<Rightarrow> hub \<Rightarrow> (string + summary) reply \<times> hub" where
  "integration_quota_refresh env req h =
     (if hr_method req \<noteq> ''POST'' then (method_not_allowed, h)
      else if \<not> hub_authorized h then (HttpError 403 ''integration not authorized'', h)
      else (case ih_free h of
          None \<Rightarrow> (HttpError 403 ''integration not authorized'', h)
        | Some m \<Rightarrow>
            (case probe_in env m of
               (Inl e, m') \<Rightarrow> (Reply (Inl ''probe_failed''), h\<lparr>ih_free := Some m'\<rparr>)
             | (Inr f, m') \<Rightarrow>
                 (case fi_summary f of
                    None \<Rightarrow> (Reply (Inl ''FreeLLMAPI did not expose a quota summary''), h\<lparr>ih_free := Some m'\<rparr>)
                  | Some s \<Rightarrow> (Reply (Inr s), note_summary env 1 f (h\<lparr>ih_free := Some m'\<rparr>))))))"

text \<open>One round of the background loop; the loop itself is a sequence of rounds.\<close>

definition background_round :: "hub_env \<Rightarrow> hub \<Rightarrow> hub" where
  "background_round env h =
     (if \<not> hub_authorized h then h
      else (case ih_free h of
          None \<Rightarrow> h
        | Some m \<Rightarrow>
            (case probe_in env m of
               (Inl e, m') \<Rightarrow> h\<lparr>ih_free := Some m'\<rparr>
             | (Inr f, m') \<Rightarrow>
                 (let h1 = h\<lparr>ih_free := Some m'\<rparr> in
                  if ih_catalog h = None then h1
                  else
                    (case sync_models env f (refreshed env 1 h1) of (res, h2) \<Rightarrow>
                       if (case res of None \<Rightarrow> False | Some r \<Rightarrow> rs_error r \<noteq> NoError) then h2
                       else refreshed env 4 (note_summary env 3 f (note_synced env 2 f h2)))))))"

end
