(* ===== verification/Integration_Props.thy ===== *)
theory Integration_Props
  imports Integration_Api
begin

text \<open>
  Consent to the FreeLLMAPI integration: what a revocation guarantees while probes, refreshes,
  synchronisations and switches that began before it are still finishing, what the route switch
  means for the catalog, and what a restart keeps. The events are the critical sections of the
  manager, so that a run is any interleaving of any number of handlers and background rounds.
\<close>

named_theorems free_simps \<open>fields after the operations of the integration\<close>

section \<open>Writing the document\<close>

definition writable :: "free_manager \<Rightarrow> bool" where
  "writable m \<longleftrightarrow> fm_path m \<noteq> [] \<and> (case fm_report m of None \<Rightarrow> True | Some r \<Rightarrow> report_fits r)"

interpretation free_file: durable_store free_doc_of fm_disk writable free_persist
  by unfold_locales (auto simp: free_persist_def writable_def free_doc_of_def)

lemma free_persist_fields [simp, free_simps]:
  "fm_state (free_persist io m) = fm_state m" "fm_report (free_persist io m) = fm_report m"
  "fm_error (free_persist io m) = fm_error m" "fm_key (free_persist io m) = fm_key m"
  "fm_path (free_persist io m) = fm_path m" "fm_db_path (free_persist io m) = fm_db_path m"
  "fm_checked (free_persist io m) = fm_checked m"
  by (simp_all add: free_persist_def)

lemma set_status_fields [simp, free_simps]:
  "fm_state (set_status io f m) = f (fm_state m)" "fm_report (set_status io f m) = fm_report m"
  "fm_key (set_status io f m) = fm_key m" "fm_path (set_status io f m) = fm_path m"
  "fm_error (set_status io f m) = fm_error m"
  by (simp_all add: set_status_def)

lemma next_generation_fields [simp]:
  "fs_authorized (next_generation x) = fs_authorized x" "fs_route (next_generation x) = fs_route x"
  "fs_usable (next_generation x) = fs_usable x" "fs_connected (next_generation x) = fs_connected x"
  "fs_fresh (next_generation x) = fs_fresh x" "fs_endpoint (next_generation x) = fs_endpoint x"
  "fs_fingerprint (next_generation x) = fs_fingerprint x" "fs_instance (next_generation x) = fs_instance x"
  by (simp_all add: next_generation_def)

section \<open>Events\<close>

datatype free_event =
  FAuthorize io bool
| FRevokeConsent io instant
| FForget io instant
| FRoute io bool
| FPath io string
| FPublish io instant "string + local_report"
| FSynced io instant int
| FVerdict io instant probe_verdict
| FSummary io instant

fun free_step :: "free_manager \<Rightarrow> free_event \<Rightarrow> free_manager" where
  "free_step m (FAuthorize io r) = authorize io r m"
| "free_step m (FRevokeConsent io now) = revoke_consent io now m"
| "free_step m (FForget io now) = forget_report io now m"
| "free_step m (FRoute io on) = set_route io on m"
| "free_step m (FPath io p) = set_local_path io p m"
| "free_step m (FPublish io now res) = publish_report io now res m"
| "free_step m (FSynced io now n) = free_mark_synced io now n m"
| "free_step m (FVerdict io now v) = apply_verdict io now v m"
| "free_step m (FSummary io now) = set_status io (\<lambda>st. st\<lparr>fs_last_quota := now\<rparr>) m"

fun grants :: "free_event \<Rightarrow> unit \<Rightarrow> bool" where
  "grants (FAuthorize io r) u \<longleftrightarrow> True"
| "grants _ u \<longleftrightarrow> False"

definition withdrawn_consent :: "free_manager \<Rightarrow> unit \<Rightarrow> bool" where
  "withdrawn_consent m u \<longleftrightarrow> \<not> fs_authorized (fm_state m) \<and> fm_report m = None"

lemma verdict_state_consent [simp]:
  "fs_authorized (verdict_state now v x) = fs_authorized x" "fs_route (verdict_state now v x) = fs_route x"
  by (cases v; simp)+

text \<open>A withdrawn consent stays withdrawn until it is given again.\<close>

interpretation consent: latch free_step withdrawn_consent grants
proof
  fix m u e
  assume "withdrawn_consent m u" and "\<not> grants e u"
  then show "withdrawn_consent (free_step m e) u"
    by (cases e)
       (simp_all add: withdrawn_consent_def revoke_consent_def forget_report_def set_route_def set_local_path_def publish_report_def
          free_mark_synced_def apply_verdict_def Let_def)
qed

lemma revoke_withdraws: "withdrawn_consent (revoke io io' now now' m) u"
  by (simp add: withdrawn_consent_def revoke_def forget_report_def revoke_consent_def)

lemma withdrawn_closed: "withdrawn_consent m u \<Longrightarrow> \<not> free_route_enabled m"
  by (simp add: withdrawn_consent_def free_route_enabled_def Let_def)

text \<open>
  C34. Revocation withdraws the data too: after it, whatever probes, refreshes, synchronisations and
  switches finish in any order, including refreshes that read the database while consent was still
  given, there is no report to serve, the handler of the local quota refuses, and the status view
  shows no report; only a new authorization ends this.
\<close>

theorem revoked_data_is_never_published:
  assumes "\<forall>e \<in> set es. \<not> grants e ()" and "m = foldl free_step (revoke io io' now now' m0) es"
  shows "fm_report m = None \<and> \<not> replied (local_quota_handler req \<lparr>ih_free = Some m, ih_catalog = c, ih_quota = q\<rparr>) \<and>
    (\<exists>v. integration_status \<lparr>ih_free = Some m, ih_catalog = c, ih_quota = q\<rparr> = Reply [v] \<and> iv_report v = None \<and> \<not> iv_usable v)"
proof -
  have "withdrawn_consent m ()" unfolding assms(2) by (rule consent.held_run [OF revoke_withdraws assms(1)])
  then show ?thesis
    using withdrawn_closed [of m "()"]
    by (auto simp: withdrawn_consent_def local_quota_handler_def hub_authorized_def free_authorized_def integration_status_def
        method_not_allowed_def Let_def)
qed

section \<open>The usable flag\<close>

definition usable_ok :: "free_state \<Rightarrow> bool" where
  "usable_ok x \<longleftrightarrow> (fs_usable x \<longrightarrow> fs_authorized x \<and> fs_route x \<and> fs_connected x \<and> fs_fresh x)"

definition doc_usable :: "free_manager \<Rightarrow> bool" where
  "doc_usable m \<longleftrightarrow> (case d_file (fm_disk m) of Doc d \<Rightarrow> usable_ok (fd_state d) | _ \<Rightarrow> True)"

inductive free_reach :: "free_manager \<Rightarrow> bool" where
  start: "d_file d = Missing \<Longrightarrow> free_reach (new_integration parse sha readable io p raw key d)"
| step: "free_reach m \<Longrightarrow> free_reach (free_step m e)"
| restart: "free_reach m \<Longrightarrow> free_reach (new_integration parse sha readable io (fm_path m) raw key (fm_disk m))"

lemma doc_usable_persist: "usable_ok (fm_state m) \<Longrightarrow> doc_usable m \<Longrightarrow> doc_usable (free_persist io m)"
  using free_file.old_or_new [of io m] by (auto simp: doc_usable_def free_doc_of_def)

lemma usable_verdict: "usable_ok x \<Longrightarrow> usable_ok (verdict_state now v x)"
  by (cases v) (auto simp: usable_ok_def)

lemma persist_cases: "fm_disk m' = fm_disk m \<Longrightarrow> \<exists>io' m''. free_persist io m' = free_persist io' m'' \<and> fm_disk m'' = fm_disk m"
  by blast

lemma free_step_writes:
  obtains "free_step m e = m" | io m' where "free_step m e = free_persist io m'" "fm_disk m' = fm_disk m"
proof -
  have "free_step m e = m \<or> (\<exists>io m'. free_step m e = free_persist io m' \<and> fm_disk m' = fm_disk m)"
    by (cases e)
       (simp_all add: authorize_def revoke_consent_def forget_report_def set_route_def set_local_path_def publish_report_def
          free_mark_synced_def apply_verdict_def set_status_def Let_def persist_cases split: sum.split)
  then show thesis using that by blast
qed

lemma usable_state_step: "usable_ok (fm_state m) \<Longrightarrow> usable_ok (fm_state (free_step m e))"
proof (cases e)
  case (FVerdict io now v)
  moreover assume "usable_ok (fm_state m)"
  ultimately show ?thesis by (simp add: apply_verdict_def usable_verdict)
qed (auto simp: authorize_def revoke_consent_def forget_report_def set_route_def set_local_path_def publish_report_def
      free_mark_synced_def usable_ok_def Let_def split: sum.splits)

lemma usable_step:
  assumes "usable_ok (fm_state m)" and "doc_usable m"
  shows "usable_ok (fm_state (free_step m e)) \<and> doc_usable (free_step m e)"
proof (cases rule: free_step_writes [of m e])
  case 1
  then show ?thesis using assms by simp
next
  case (2 io m')
  then have "usable_ok (fm_state m')" using usable_state_step [OF assms(1), of e] by simp
  moreover from 2 have "doc_usable m'" using assms(2) by (simp add: doc_usable_def)
  ultimately show ?thesis using 2 doc_usable_persist [of m' io] by simp
qed

lemma usable_blank: "usable_ok (blank_state endpoint st)"
  by (simp add: usable_ok_def blank_state_def)

lemma usable_new:
  assumes "case d_file d of Doc x \<Rightarrow> usable_ok (fd_state x) | _ \<Rightarrow> True"
  shows "usable_ok (fm_state (new_integration parse sha readable io p raw key d)) \<and> doc_usable (new_integration parse sha readable io p raw key d)"
proof -
  let ?m0 = "\<lparr>fm_path = p, fm_key = key, fm_state = blank_state (root_endpoint parse raw) ''unconfigured'', fm_db_path = [], fm_report = None,
                fm_error = [], fm_checked = zero_time, fm_disk = d\<rparr>"
  let ?m1 = "?m0\<lparr>fm_state := (blank_state (root_endpoint parse raw) ''unauthorized'')\<lparr>fs_fingerprint := fingerprint sha (root_endpoint parse raw) key\<rparr>\<rparr>"
  let ?m2 = "case read_doc readable (d_file d) of
      Parsed x \<Rightarrow> if fs_instance (fd_state x) \<noteq> [] then loaded_manager sha (root_endpoint parse raw) x ?m1 else ?m1 | _ \<Rightarrow> ?m1"
  have blank: "usable_ok (fm_state ?m0)" "usable_ok (fm_state ?m1)" by (simp_all add: usable_ok_def blank_state_def)
  have disk: "fm_disk ?m2 = d" by (simp add: loaded_manager_def Let_def split: read.split)
  have "usable_ok (fd_state x) \<Longrightarrow> usable_ok (fm_state (loaded_manager sha (root_endpoint parse raw) x ?m1))" for x
    by (simp add: loaded_manager_def usable_ok_def Let_def)
  then have ok: "usable_ok (fm_state ?m2)"
    using assms blank by (simp add: read_doc_def split: content.splits read.split if_split)
  have "doc_usable ?m2" "doc_usable ?m0" using assms disk by (simp_all add: doc_usable_def)
  then show ?thesis
    using ok blank(1) doc_usable_persist [OF ok] unfolding new_integration_def Let_def by simp
qed

lemma free_reach_usable: "free_reach m \<Longrightarrow> usable_ok (fm_state m) \<and> doc_usable m"
proof (induction rule: free_reach.induct)
  case (start d parse sha readable io p raw key)
  then show ?case by (intro usable_new) simp
next
  case (step m e)
  then show ?case using usable_step by blast
next
  case (restart m parse sha readable io raw key)
  then show ?case by (intro usable_new) (simp add: doc_usable_def)
qed

text \<open>
  C33. The gate of the router is the usable flag: in every state the program can reach, with its document
  read back after restarts, with other endpoints and keys, and with writes that fail, the flag that the console shows as usable is
  set exactly when the router would send requests to the instance, and then the operator has
  authorized the instance and its route, it answers, and its catalog is fresh.
\<close>

theorem usable_is_the_route_gate:
  assumes "free_reach m"
  shows "free_route_enabled m = fs_usable (fm_state m)"
  using free_reach_usable [OF assms] by (auto simp: usable_ok_def free_route_enabled_def Let_def)

section \<open>Another endpoint or key\<close>

definition keeps_instance :: "string \<Rightarrow> string \<Rightarrow> free_doc \<Rightarrow> bool" where
  "keeps_instance endpoint fp x \<longleftrightarrow> fs_endpoint (fd_state x) = endpoint \<and> fs_fingerprint (fd_state x) = fp"

lemma new_integration_loads:
  assumes "root_endpoint parse raw \<noteq> []" and "trim_space key \<noteq> []" and "d_file d = Doc x" and "fs_instance (fd_state x) \<noteq> []"
  obtains m1 where "fm_path m1 = p" "fm_disk m1 = d"
    "new_integration parse sha True io p raw key d = free_persist io (loaded_manager sha (root_endpoint parse raw) x m1)"
    "fm_key m1 = key"
proof -
  let ?m1 = "\<lparr>fm_path = p, fm_key = key,
      fm_state = (blank_state (root_endpoint parse raw) ''unauthorized'')\<lparr>fs_fingerprint := fingerprint sha (root_endpoint parse raw) key\<rparr>,
      fm_db_path = [], fm_report = None, fm_error = [], fm_checked = zero_time, fm_disk = d\<rparr>"
  show ?thesis by (rule that [of ?m1]) (use assms in \<open>simp_all add: new_integration_def Let_def\<close>)
qed

text \<open>A document without consent gives none, whatever the endpoint and the key of the next start are.\<close>

lemma no_consent_from_document:
  assumes "d_file d = Doc x" and "\<not> fs_authorized (fd_state x)" and "\<not> fs_route (fd_state x)" and "fd_report x = None"
  shows "\<not> fs_authorized (fm_state (new_integration parse sha True io p raw key d)) \<and>
    \<not> fs_route (fm_state (new_integration parse sha True io p raw key d)) \<and> fm_report (new_integration parse sha True io p raw key d) = None"
  using assms by (simp add: new_integration_def loaded_manager_def blank_state_def Let_def)

text \<open>
  C40. Consent is given to one instance. A start with the endpoint and the key of the document takes its state and
  its report over. A start with another endpoint or key takes over neither the authorization, nor the route, nor the
  usable flag, nor the report; from then on, until a new authorization, whatever probes, refreshes,
  synchronisations and switches finish, the instance stays unauthorized, out of the routing and without a
  report; and when the document of this start was written, no later start from it, with the old endpoint and
  key or any other, brings the consent back.
\<close>

theorem consent_is_per_instance:
  assumes "root_endpoint parse raw \<noteq> []" and "trim_space key \<noteq> []" and "d_file d = Doc x" and "fs_instance (fd_state x) \<noteq> []"
    and "m = new_integration parse sha True io p raw key d"
  shows "if keeps_instance (root_endpoint parse raw) (fingerprint sha (root_endpoint parse raw) key) x
    then fm_state m = fd_state x \<and> fm_report m = fd_report x
    else \<not> fs_authorized (fm_state m) \<and> \<not> fs_route (fm_state m) \<and> \<not> fs_usable (fm_state m) \<and> fm_report m = None \<and>
      (\<forall>es. (\<forall>e \<in> set es. \<not> grants e ()) \<longrightarrow>
         \<not> free_authorized (foldl free_step m es) \<and> \<not> free_route_enabled (foldl free_step m es) \<and> fm_report (foldl free_step m es) = None) \<and>
      (io_ok io \<and> p \<noteq> [] \<longrightarrow> (\<forall>parse' io' raw' key'.
         \<not> free_authorized (new_integration parse' sha True io' p raw' key' (fm_disk m)) \<and>
         \<not> fs_route (fm_state (new_integration parse' sha True io' p raw' key' (fm_disk m))) \<and>
         fm_report (new_integration parse' sha True io' p raw' key' (fm_disk m)) = None))"
proof -
  obtain m1 where m1: "fm_path m1 = p" "fm_disk m1 = d" "m = free_persist io (loaded_manager sha (root_endpoint parse raw) x m1)" "fm_key m1 = key"
    using new_integration_loads [OF assms(1-4), of p sha io] assms(5) by metis
  show ?thesis
  proof (cases "keeps_instance (root_endpoint parse raw) (fingerprint sha (root_endpoint parse raw) key) x")
    case True
    then show ?thesis by (simp add: m1 loaded_manager_def keeps_instance_def Let_def)
  next
    case False
    let ?l = "loaded_manager sha (root_endpoint parse raw) x m1"
    have l: "\<not> fs_authorized (fm_state ?l)" "\<not> fs_route (fm_state ?l)" "\<not> fs_usable (fm_state ?l)" "fm_report ?l = None" "fm_path ?l = p"
      using False by (auto simp: m1 loaded_manager_def keeps_instance_def Let_def)
    have "withdrawn_consent m ()" using l by (simp add: m1(3) withdrawn_consent_def)
    then have run: "withdrawn_consent (foldl free_step m es) ()" if "\<forall>e \<in> set es. \<not> grants e ()" for es
      using that by (rule consent.held_run)
    have doc: "d_file (fm_disk m) = Doc (free_doc_of ?l)" if "io_ok io" "p \<noteq> []"
      using free_file.saved [of ?l io] that l(4,5) by (simp add: m1(3) writable_def)
    show ?thesis
      using False l run withdrawn_closed no_consent_from_document [OF doc]
      by (auto simp: m1(3) [symmetric] withdrawn_consent_def free_authorized_def free_doc_of_def) (simp_all add: m1(3))
  qed
qed

section \<open>Restarts\<close>

text \<open>A revocation that was written is read back; one whose writes failed is forgotten, although it was answered as done.\<close>

lemma written_revocation_lasts:
  assumes "fm_path m \<noteq> []" and "io_ok io'"
  shows "\<not> free_authorized (new_integration parse sha readable io2 (fm_path m) raw key (fm_disk (revoke io io' now now' m)))"
proof -
  let ?m = "revoke_consent io now m\<lparr>fm_report := None, fm_error := ''not_authorized'', fm_checked := now'\<rparr>"
  have "writable ?m" using assms(1) by (simp add: writable_def revoke_consent_def)
  then have "d_file (fm_disk (revoke io io' now now' m)) = Doc (free_doc_of ?m)"
    using free_file.saved [of ?m io'] assms(2) by (simp add: revoke_def forget_report_def)
  moreover have "\<not> fs_authorized (fd_state (free_doc_of ?m))" by (simp add: free_doc_of_def revoke_consent_def)
  ultimately show ?thesis
    by (cases readable) (simp_all add: new_integration_def loaded_manager_def free_authorized_def blank_state_def read_doc_def Let_def)
qed

lemma unwritten_revocation_is_undone:
  assumes "\<not> io_ok io" and "\<not> io_ok io'" and "d_file (fm_disk m) = Doc x" and "fs_authorized (fd_state x)" and "fs_instance (fd_state x) \<noteq> []"
    and "root_endpoint parse raw = fs_endpoint (fd_state x)" and "fs_endpoint (fd_state x) \<noteq> []" and "trim_space key \<noteq> []"
    and "fs_fingerprint (fd_state x) = fingerprint sha (root_endpoint parse raw) key"
  shows "withdrawn_consent (revoke io io' now now' m) ()" and
    "free_authorized (new_integration parse sha True io2 p raw key (fm_disk (revoke io io' now now' m)))"
proof -
  show "withdrawn_consent (revoke io io' now now' m) ()" by (rule revoke_withdraws)
  have "d_file (fm_disk (revoke io io' now now' m)) = Doc x"
    using assms(1-3) free_file.failed by (simp add: revoke_def forget_report_def revoke_consent_def set_status_def)
  then show "free_authorized (new_integration parse sha True io2 p raw key (fm_disk (revoke io io' now now' m)))"
    using assms(4-9) by (simp add: new_integration_def loaded_manager_def free_authorized_def Let_def)
qed

section \<open>The catalog follows consent\<close>

definition switched :: "bool \<Rightarrow> model \<Rightarrow> model" where
  "switched on y = (if m_provider y = free_id then y\<lparr>m_auto_routable := (on \<and> m_status y = Active)\<rparr> else y)"

lemma free_ids: "free_id = free_provider"
  by (simp add: free_id_def free_provider_def)

lemma ident_switched [simp]: "ident (switched on y) = ident y"
  by (simp add: switched_def ident_def)

lemma apply_each_switches:
  "catalog_reach m \<Longrightarrow> models_of m = map (switched on) as @ xs \<Longrightarrow>
     catalog_reach (apply_each on allow clock i xs m) \<and> models_of (apply_each on allow clock i xs m) = map (switched on) (as @ xs)"
proof (induction xs arbitrary: i m as)
  case Nil
  then show ?case by simp
next
  case (Cons x xs)
  show ?case
  proof (cases "m_provider x = free_id")
    case False
    then show ?thesis using Cons.IH [OF Cons.prems(1), of "as @ [x]"] Cons.prems(2) by (simp add: switched_def)
  next
    case True
    let ?b = "on \<and> (mget False allow (route_key (m_provider x) (m_id x)) \<or> is_auto_approved (m_provider x)) \<and> m_status x = Active"
    let ?m = "snd (update_provider_model (clock i) (m_id x) free_provider (\<lambda>y. y\<lparr>m_auto_routable := ?b\<rparr>) m)"
    have inv: "catalog_inv m" by (rule catalog_reach_inv [OF Cons.prems(1)])
    then have "distinct (map ident (map (switched on) as @ x # xs))" using Cons.prems(2) by (simp add: catalog_inv_def)
    then have "ident x \<notin> ident ` set as" "ident x \<notin> ident ` set xs" by (auto simp: image_image)
    then have other: "y \<in> set as \<union> set xs \<Longrightarrow> \<not> is_entry free_provider (m_id x) y" for y
      using True by (auto simp: is_entry_def ident_def free_ids image_iff)
    then have "\<forall>y \<in> set (models_of m). is_entry free_provider (m_id x) y \<longrightarrow> ?b \<longrightarrow> m_status y = Active"
      unfolding Cons.prems(2) by (auto simp: switched_def is_entry_def free_ids)
    then have reach: "catalog_reach ?m" by (intro catalog_reach.step [OF Cons.prems(1)] catalog_step.switched)
    have "is_entry free_provider (m_id x) (switched on y) = is_entry free_provider (m_id x) y" for y
      by (simp add: switched_def is_entry_def)
    then have "models_of ?m = map (switched on) (as @ [x]) @ xs"
      unfolding update_provider_models [OF inv] Cons.prems(2) using True other
      by (auto simp: switched_def is_entry_def is_auto_approved_def free_ids intro!: map_idI)
    from Cons.IH [OF reach this] show ?thesis using True by (simp add: free_ids Let_def)
  qed
qed

lemma applied_state:
  assumes "catalog_reach c" and "h = \<lparr>ih_free = Some f, ih_catalog = Some c, ih_quota = q\<rparr>"
  shows "\<exists>c'. ih_catalog (apply_state_to_catalog clock h) = Some c' \<and> catalog_reach c' \<and>
    models_of c' = map (switched (free_authorized f \<and> fs_route (fm_state f))) (models_of c)"
  using apply_each_switches [OF assms(1), of "fs_authorized (fm_state f) \<and> fs_route (fm_state f)" "[]" "models_of c" "allow_snapshot c" clock 0]
  by (simp add: assms(2) apply_state_to_catalog_def snapshot_def free_authorized_def)

text \<open>
  The catalog follows consent: after an authorization or a revocation the models of FreeLLMAPI that are active are
  in Auto exactly when the instance and its route are both authorized, the entries of every other provider are
  untouched, and the catalog is one that operators and synchronisations could have produced, so
  that what is proved of those holds of it.
\<close>

theorem catalog_follows_consent:
  assumes "catalog_reach c" and "h = \<lparr>ih_free = Some f, ih_catalog = Some c, ih_quota = q\<rparr>"
  shows "\<exists>c'. ih_catalog (apply_state_to_catalog clock h) = Some c' \<and> catalog_reach c' \<and>
    models_of c' = map (switched (free_authorized f \<and> fs_route (fm_state f))) (models_of c)"
  by (rule applied_state [OF assms])

text \<open>
  Switching the route off takes the models out of Auto; switching it on again does not bring them back:
  only the next synchronisation or a new authorization does.
\<close>

definition route_request :: "bool \<Rightarrow> http_request" where
  "route_request on = post_request (JObj [(''enabled'', JBool on)])"

lemma route_back_on_stays_out:
  assumes "catalog_reach c" and "h = \<lparr>ih_free = Some f, ih_catalog = Some c, ih_quota = q\<rparr>"
    and "h1 = snd (integration_route env (route_request False) h)" and "h2 = snd (integration_route env' (route_request True) h1)"
  shows "\<exists>f' c'. ih_free h2 = Some f' \<and> fs_route (fm_state f') \<and> ih_catalog h2 = Some c' \<and>
    (\<forall>x \<in> set (models_of c'). m_provider x = free_id \<longrightarrow> \<not> m_auto_routable x)"
proof -
  let ?off = "set_route (he_io env 0) False f"
  have dec: "dec_field ''enabled'' (dec_pointer dec_bool False) None (JObj [(''enabled'', JBool b)]) = (Some b, True)" for b
    by simp
  have h1: "h1 = apply_state_to_catalog (he_catalog_clock env) \<lparr>ih_free = Some ?off, ih_catalog = Some c, ih_quota = q\<rparr>"
    unfolding assms(2,3) integration_route_def route_request_def post_request_def by (simp add: dec Let_def)
  obtain c' where c': "ih_catalog h1 = Some c'" "models_of c' = map (switched (free_authorized ?off \<and> fs_route (fm_state ?off))) (models_of c)"
    using applied_state [OF assms(1) refl] unfolding h1 by blast
  have f': "ih_free h1 = Some ?off" unfolding h1 by (simp add: apply_state_to_catalog_def)
  have "h2 = h1\<lparr>ih_free := Some (set_route (he_io env' 0) True ?off)\<rparr>"
    unfolding assms(4) integration_route_def route_request_def post_request_def by (simp add: dec f' Let_def)
  moreover have "\<not> fs_route (fm_state ?off)" by (simp add: set_route_def Let_def)
  ultimately show ?thesis using c' by (auto simp: switched_def set_route_def Let_def)
qed

text \<open>And a synchronisation puts every model back into Auto even while the route is switched off.\<close>

lemma apply_one_free: "apply_one now allow adm free_id x = Some y \<Longrightarrow> m_auto_routable y \<and> m_provider y = free_id"
  by (auto simp: apply_one_def is_auto_approved_def free_ids Let_def split: if_splits)

lemma carry_over_auto [simp]: "m_auto_routable (carry_over prev x) = m_auto_routable x"
  by (simp add: carry_over_def split: option.split)

lemma sync_ignores_the_route:
  assumes "rs_error (fst (sync_raw now free_id raw m)) = NoError" and "x \<in> set (models_of (snd (sync_raw now free_id raw m)))"
    and "m_provider x = free_id"
  shows "m_auto_routable x"
proof -
  have "x \<in> carry_over prev ` set (sync_apply now allow adm free_id raw) \<Longrightarrow> m_auto_routable x" for prev allow adm
    by (auto simp: sync_apply_def map_filter_def dest: apply_one_free)
  then show ?thesis using assms by (auto simp: sync_raw_def sync_commit_def Let_def no_result_def split: if_splits)
qed

section \<open>Examples\<close>

definition sample_endpoint :: endpoint_parser where
  "sample_endpoint s = Some \<lparr>eu_scheme = ''http'', eu_user = False, eu_host = ''h:3001'', eu_path = [], eu_query = [], eu_fragment = [],
     eu_text = (\<lambda>p. ''http://h:3001'' @ p)\<rparr>"

definition sample_free :: free_manager where
  "sample_free = authorize good_io True (new_integration sample_endpoint (\<lambda>x. x) True good_io ''f'' ''http://h:3001'' ''k'' blank_disk)"

definition sample_findings :: findings where
  "sample_findings = \<lparr>fi_models = [\<lparr>rm_id = ''m'', rm_context = 0, rm_tools = False, rm_vision = False, rm_structured_output = False,
       rm_json_mode = False, rm_structured_output_known = False\<rparr>],
     fi_providers = [], fi_summary = None, fi_summary_status = 404, fi_summary_error = [], fi_ready = 0\<rparr>"

definition sample_report :: local_report where
  "sample_report = \<lparr>lq_schema = 1, lq_source = [], lq_path = [], lq_checked = 0, lq_month = [], lq_totals = no_totals, lq_models = [],
     lq_pools = [], lq_partial = True, lq_warnings = []\<rparr>"

lemma sample_root: "root_endpoint sample_endpoint ''http://h:3001'' = ''http://h:3001''"
  by code_simp

lemma sample_free_reach: "free_reach sample_free"
proof -
  have "free_reach (new_integration sample_endpoint (\<lambda>x. x) True good_io ''f'' ''http://h:3001'' ''k'' blank_disk)"
    by (rule free_reach.start) (simp add: blank_disk_def)
  then have "free_reach (free_step (new_integration sample_endpoint (\<lambda>x. x) True good_io ''f'' ''http://h:3001'' ''k'' blank_disk) (FAuthorize good_io True))"
    by (rule free_reach.step)
  then show ?thesis by (simp add: sample_free_def)
qed

theorem revoked_data_is_never_published_witness:
  "fm_report (free_step sample_free (FPublish good_io 1 (Inr sample_report))) = Some sample_report \<and>
   fm_report (foldl free_step (revoke good_io good_io 2 3 sample_free) [FVerdict good_io 4 (Found sample_findings), FPublish good_io 5 (Inr sample_report)]) = None"
proof
  show "fm_report (free_step sample_free (FPublish good_io 1 (Inr sample_report))) = Some sample_report"
    by (simp add: sample_free_def authorize_def publish_report_def Let_def)
  have "\<forall>e \<in> set [FVerdict good_io 4 (Found sample_findings), FPublish good_io 5 (Inr sample_report)]. \<not> grants e ()" by simp
  from revoked_data_is_never_published [OF this refl, of good_io good_io 2 3 sample_free undefined undefined undefined]
  show "fm_report (foldl free_step (revoke good_io good_io 2 3 sample_free) [FVerdict good_io 4 (Found sample_findings), FPublish good_io 5 (Inr sample_report)]) = None"
    by blast
qed

theorem usable_is_the_route_gate_witness:
  "\<not> free_route_enabled sample_free \<and> free_route_enabled (free_step sample_free (FVerdict good_io 4 (Found sample_findings)))"
proof -
  have "free_reach (free_step sample_free (FVerdict good_io 4 (Found sample_findings)))" by (rule free_reach.step [OF sample_free_reach])
  from usable_is_the_route_gate [OF this] usable_is_the_route_gate [OF sample_free_reach] show ?thesis
    by (simp add: apply_verdict_def) (simp add: sample_free_def authorize_def)
qed

theorem consent_is_per_instance_witness:
  "\<exists>d m. d_file d = Doc (free_doc_of sample_free) \<and> free_authorized (new_integration sample_endpoint (\<lambda>x. x) True good_io ''f'' ''http://h:3001'' ''k'' d) \<and>
     m = new_integration sample_endpoint (\<lambda>x. x) True good_io ''f'' ''http://h:3001'' ''other'' d \<and>
     \<not> free_authorized m \<and> \<not> free_authorized (new_integration sample_endpoint (\<lambda>x. x) True good_io ''f'' ''http://h:3001'' ''k'' (fm_disk m))"
proof -
  let ?d = "\<lparr>d_file = Doc (free_doc_of sample_free), d_tmp = Missing\<rparr>"
  let ?m = "new_integration sample_endpoint (\<lambda>x. x) True good_io ''f'' ''http://h:3001'' ''other'' ?d"
  have inst: "fs_instance (fd_state (free_doc_of sample_free)) \<noteq> []" "fs_authorized (fd_state (free_doc_of sample_free))" by code_simp+
  have same: "fs_endpoint (fd_state (free_doc_of sample_free)) = root_endpoint sample_endpoint ''http://h:3001''"
    "fs_fingerprint (fd_state (free_doc_of sample_free)) = fingerprint (\<lambda>x. x) (root_endpoint sample_endpoint ''http://h:3001'') ''k''"
    "fs_fingerprint (fd_state (free_doc_of sample_free)) \<noteq> fingerprint (\<lambda>x. x) (root_endpoint sample_endpoint ''http://h:3001'') ''other''"
    by code_simp+
  have ends: "root_endpoint sample_endpoint ''http://h:3001'' \<noteq> []" "trim_space ''k'' \<noteq> []" "trim_space ''other'' \<noteq> []" by code_simp+
  have "free_authorized (new_integration sample_endpoint (\<lambda>x. x) True good_io ''f'' ''http://h:3001'' ''k'' ?d)"
    using consent_is_per_instance [OF ends(1,2) _ inst(1) refl, of ?d "\<lambda>x. x" good_io "''f''"] same inst(2)
    by (simp add: free_authorized_def keeps_instance_def)
  moreover have "\<not> free_authorized ?m \<and> \<not> free_authorized (new_integration sample_endpoint (\<lambda>x. x) True good_io ''f'' ''http://h:3001'' ''k'' (fm_disk ?m))"
    using consent_is_per_instance [OF ends(1,3) _ inst(1) refl, of ?d "\<lambda>x. x" good_io "''f''"] same(3)
    by (simp add: free_authorized_def keeps_instance_def io_ok_def good_io_def)
  ultimately show ?thesis by (intro exI [of _ ?d] exI [of _ ?m]) simp
qed

definition free_catalog :: manager where
  "free_catalog = snd (sync_raw 0 free_id (fi_models sample_findings) (set_persist False (new_manager_with_state empty_state)))"

theorem catalog_follows_consent_witness:
  "\<exists>c'. ih_catalog (apply_state_to_catalog (\<lambda>i. 1) \<lparr>ih_free = Some (revoke good_io good_io 2 3 sample_free), ih_catalog = Some free_catalog, ih_quota = None\<rparr>) = Some c' \<and>
     map m_auto_routable (models_of free_catalog) = [True] \<and> map m_auto_routable (models_of c') = [False]"
proof -
  have "catalog_reach free_catalog" unfolding free_catalog_def
    by (rule catalog_reach.step [OF catalog_reach.start]) (rule catalog_step.synced, code_simp, code_simp)
  from catalog_follows_consent [OF this refl, of "\<lambda>i. 1" "revoke good_io good_io 2 3 sample_free" None]
  obtain c' where c': "ih_catalog (apply_state_to_catalog (\<lambda>i. 1) \<lparr>ih_free = Some (revoke good_io good_io 2 3 sample_free), ih_catalog = Some free_catalog, ih_quota = None\<rparr>) = Some c'"
    "models_of c' = map (switched False) (models_of free_catalog)"
    by (auto simp: free_authorized_def revoke_def forget_report_def revoke_consent_def)
  have "map (\<lambda>x. (m_auto_routable x, m_provider x)) (models_of free_catalog) = [(True, free_id)]" by code_simp
  then show ?thesis using c' by (auto simp: switched_def)
qed

end
