(* ===== verification/Go_Print.thy ===== *)
theory Go_Print
  imports Go_Json_Parse Go_Float Go_Order Go_Int
begin

text \<open>
  Values as text: json.Marshal and fmt.Sprint. A float64 is written with the fewest digits that read
  back as the same value; both packages take them from strconv and differ in when they use an
  exponent. json.Marshal sorts the keys of a map and escapes quotes, control characters, the three
  characters of HTML and the two Unicode line separators. The sign of a negative zero is not kept,
  a float64 being its rational value here.
\<close>

section \<open>Joining and sorted members\<close>

fun join_with :: "string \<Rightarrow> string list \<Rightarrow> string" where
  "join_with sep [] = []"
| "join_with sep [x] = x"
| "join_with sep (x # xs) = x @ sep @ join_with sep xs"

text \<open>A map is written in the order of its keys; of members with one name the last counts.\<close>

definition sorted_members :: "(string \<times> 'a) list \<Rightarrow> (string \<times> 'a) list" where
  "sorted_members kvs = sort_by (\<lambda>x y. string_less (fst x) (fst y)) (fold (\<lambda>(k, v). mput k v) kvs [])"

section \<open>The shortest decimal of a float64\<close>

text \<open>
  The number of digits before the point of a positive number, negative for leading zeros after it. The
  binary exponent gives it up to one, since 30103/100000 is the decimal logarithm of two to seven places.
\<close>

definition dec_exp :: "rat \<Rightarrow> int" where
  "dec_exp q =
     (let g = flog2 q * 30103 div 100000 in if q < scale 10 g then g else if q < scale 10 (g + 1) then g + 1 else g + 2)"

text \<open>A decimal is its digits, as a number, how many they are and the position of the point.\<close>

definition decimal_value :: "int \<Rightarrow> int \<Rightarrow> int \<Rightarrow> rat" where
  "decimal_value d e n = rat_of_int d * scale 10 (e - n)"

text \<open>The n-digit decimals on both sides of q that read back as q, the nearer one first, in a tie the even one.\<close>

definition read_back :: "rat \<Rightarrow> int \<Rightarrow> int list" where
  "read_back q n =
     (let x = q * scale 10 (n - dec_exp q); lo = \<lfloor>x\<rfloor>;
          below = x - rat_of_int lo; above = rat_of_int (lo + 1) - x;
          ordered = (if below < above \<or> below = above \<and> even lo then [lo, lo + 1] else [lo + 1, lo])
      in filter (\<lambda>d. f64 (decimal_value d (dec_exp q) n) = q) ordered)"

text \<open>Seventeen digits always read back, so the search tries one to seventeen.\<close>

fun shortest_from :: "nat \<Rightarrow> int \<Rightarrow> rat \<Rightarrow> int \<times> int" where
  "shortest_from 0 n q = (\<lfloor>q * scale 10 (n - dec_exp q)\<rfloor>, n)"
| "shortest_from (Suc k) n q = (case read_back q n of [] \<Rightarrow> shortest_from k (n + 1) q | d # _ \<Rightarrow> (d, n))"

text \<open>The digits and the position of the point; rounding up to a power of ten moves it.\<close>

definition float_digits :: "rat \<Rightarrow> string \<times> int" where
  "float_digits q =
     (if q = 0 then (''0'', 1)
      else (case shortest_from 16 1 q of (d, n) \<Rightarrow>
              (let s = itoa d in (rev (dropWhile (\<lambda>c. c = CHR ''0'') (rev s)), dec_exp q + int (length s) - n))))"

text \<open>Formats f and e of strconv.FormatFloat with the shortest precision, for a number that is not negative.\<close>

definition format_f :: "rat \<Rightarrow> string" where
  "format_f q =
     (case float_digits q of (s, p) \<Rightarrow>
        if p \<le> 0 then ''0.'' @ replicate (nat (- p)) CHR ''0'' @ s
        else if int (length s) \<le> p then s @ replicate (nat p - length s) CHR ''0''
        else take (nat p) s @ ''.'' @ drop (nat p) s)"

definition exponent_text :: "int \<Rightarrow> string" where
  "exponent_text x = (if x < 0 then ''-'' else ''+'') @ (if \<bar>x\<bar> < 10 then ''0'' else []) @ nat_digits (nat \<bar>x\<bar>)"

definition format_e :: "rat \<Rightarrow> string" where
  "format_e q =
     (case float_digits q of (s, p) \<Rightarrow>
        take 1 s @ (if length s > 1 then ''.'' @ drop 1 s else []) @ ''e'' @ exponent_text (if q = 0 then 0 else p - 1))"

definition with_sign :: "(rat \<Rightarrow> string) \<Rightarrow> rat \<Rightarrow> string" where
  "with_sign f q = (if q < 0 then ''-'' @ f (- q) else f q)"

text \<open>fmt uses an exponent below -4 and from 6 on; encoding/json below a millionth and from 10 to the 21 on.\<close>

definition fmt_float :: "rat \<Rightarrow> string" where
  "fmt_float q = with_sign (\<lambda>a. let x = snd (float_digits a) - 1 in if x < -4 \<or> x \<ge> 6 then format_e a else format_f a) q"

definition drop_zero :: "string \<Rightarrow> string" where
  "drop_zero s =
     (let n = length s in
      if n \<ge> 4 \<and> s ! (n - 4) = CHR ''e'' \<and> s ! (n - 3) = CHR ''-'' \<and> s ! (n - 2) = CHR ''0''
      then take (n - 2) s @ [s ! (n - 1)] else s)"

definition json_float :: "rat \<Rightarrow> string" where
  "json_float q =
     (if q \<noteq> 0 \<and> (\<bar>q\<bar> < f64 (1 / 10 ^ 6) \<or> 10 ^ 21 \<le> \<bar>q\<bar>) then drop_zero (with_sign format_e q) else with_sign format_f q)"

section \<open>fmt.Sprint of a decoded value\<close>

fun sprint :: "json \<Rightarrow> string" where
  "sprint JNull = ''<nil>''"
| "sprint (JBool b) = (if b then ''true'' else ''false'')"
| "sprint (JNum q) = fmt_float (f64 q)"
| "sprint (JStr s) = s"
| "sprint (JArr xs) = ''['' @ join_with '' '' (map sprint xs) @ '']''"
| "sprint (JObj kvs) =
     ''map['' @ join_with '' '' (map (\<lambda>(k, t). k @ '':'' @ t) (sorted_members (map (\<lambda>(k, v). (k, sprint v)) kvs))) @ '']''"

section \<open>json.Marshal\<close>

definition escaped_byte :: "char \<Rightarrow> string" where
  "escaped_byte c =
     (if c = CHR 0x22 \<or> c = CHR 0x5C then [CHR 0x5C, c]
      else if c = CHR 0x08 then [CHR 0x5C, CHR ''b'']
      else if c = CHR 0x0C then [CHR 0x5C, CHR ''f'']
      else if c = CHR 0x0A then [CHR 0x5C, CHR ''n'']
      else if c = CHR 0x0D then [CHR 0x5C, CHR ''r'']
      else if c = CHR 0x09 then [CHR 0x5C, CHR ''t'']
      else if byte c < 0x20 \<or> c \<in> {CHR ''<'', CHR ''>'', CHR 0x26}
      then [CHR 0x5C] @ ''u00'' @ [hex_digit (byte c div 16), hex_digit (byte c mod 16)]
      else [c])"

definition escaped_rune :: "string \<Rightarrow> string" where
  "escaped_rune r =
     (if r = [CHR 0xE2, CHR 0x80, CHR 0xA8] then CHR 0x5C # ''u2028''
      else if r = [CHR 0xE2, CHR 0x80, CHR 0xA9] then CHR 0x5C # ''u2029''
      else (case r of [c] \<Rightarrow> escaped_byte c | _ \<Rightarrow> r))"

function escaped :: "string \<Rightarrow> string" where
  "escaped s =
     (if s = [] then []
      else if rune_size s = 0 then CHR 0x5C # ''ufffd'' @ escaped (tl s)
      else escaped_rune (take (rune_size s) s) @ escaped (drop (rune_size s) s))"
  by pat_completeness auto
termination by (relation "measure length") auto

declare escaped.simps [simp del]

definition quote :: "string \<Rightarrow> string" where
  "quote s = [CHR 0x22] @ escaped s @ [CHR 0x22]"

definition array_text :: "string list \<Rightarrow> string" where
  "array_text xs = ''['' @ join_with '','' xs @ '']''"

text \<open>A struct, or the members of a map in their order, given the texts of the values.\<close>

definition object_text :: "(string \<times> string) list \<Rightarrow> string" where
  "object_text kvs = ''{'' @ join_with '','' (map (\<lambda>(k, t). quote k @ '':'' @ t) kvs) @ ''}''"

fun json_text :: "json \<Rightarrow> string" where
  "json_text JNull = ''null''"
| "json_text (JBool b) = (if b then ''true'' else ''false'')"
| "json_text (JNum q) = json_float (f64 q)"
| "json_text (JStr s) = quote s"
| "json_text (JArr xs) = array_text (map json_text xs)"
| "json_text (JObj kvs) = object_text (sorted_members (map (\<lambda>(k, v). (k, json_text v)) kvs))"

abbreviation bool_text :: "bool \<Rightarrow> string" where
  "bool_text b \<equiv> json_text (JBool b)"

lemma json_text_example:
  "json_text (JObj [(''b'', JArr [JNull, JBool True]), (''a'', JStr ''x<y'')]) =
     ''{'' @ [CHR 0x22] @ ''a'' @ [CHR 0x22] @ '':'' @ [CHR 0x22] @ ''x'' @ [CHR 0x5C] @ ''u003cy'' @ [CHR 0x22] @ '','' @
     [CHR 0x22] @ ''b'' @ [CHR 0x22] @ '':[null,true]}''"
  by code_simp

end
