(* ===== verification/Reviewer.thy ===== *)
theory Reviewer
  imports Go_Print Runtime_Stores Provider_Client
begin

text \<open>
  The teacher (internal/runtime/reviewer.go): it claims a batch of reviews, sends them to the model
  that the operator chose, in one lasting conversation, and writes the decisions of the answer
  back. The run calls the outside world at a few named points; the environment gives, for each of
  them, the answer of the endpoint, the clock and how the write to disk goes.
\<close>

section \<open>Data\<close>

record decision =
  rd_id :: string
  rd_model :: string
  rd_tier :: int
  rd_over :: bool
  rd_confidence :: rat
  rd_conclusion :: string
  rd_skip :: bool

record review_model =
  rm_model :: string
  rm_provider :: string
  rm_status :: string
  rm_auto :: bool
  rm_capabilities :: "string list"
  rm_tool_use :: bool
  rm_sees :: bool
  rm_structured :: bool
  rm_window :: int

text \<open>A Reviewer: None stands for a nil pointer or a nil slice.\<close>

record reviewer =
  rw_reviews :: "reviews option"
  rw_session :: "review_session option"
  rw_available :: "review_model list option"
  rw_base :: string
  rw_key :: string
  rw_model :: string
  rw_max_chars :: int
  rw_compact_every :: int

definition available_models :: "reviewer \<Rightarrow> review_model list" where
  "available_models r = (case rw_available r of None \<Rightarrow> [] | Some ms \<Rightarrow> ms)"

datatype point =
  AtStart | AtClaimed | AtCompact | AtCall | AtRecompact | AtRecall
| AtFailure nat | AtDecision nat | AtMissing nat | AtAppend

text \<open>The answer to a request: none, with the text of the error, or a status and the bytes that arrived.\<close>

datatype call_reply = CallFailed string | CallDone int string

record review_env =
  rve_net :: "point \<Rightarrow> string \<Rightarrow> string option \<Rightarrow> string \<Rightarrow> call_reply"
  rve_now :: "point \<Rightarrow> instant"
  rve_io :: "point \<Rightarrow> io"

section \<open>Texts\<close>

definition features_text :: "task_features \<Rightarrow> string" where
  "features_text f = object_text
     [(''domain'', quote (tf_domain f)), (''action'', quote (tf_action f)), (''needs_tools'', bool_text (tf_needs_tools f)),
      (''needs_vision'', bool_text (tf_needs_vision f)), (''needs_structured'', bool_text (tf_needs_structured f)),
      (''needs_long_context'', bool_text (tf_needs_long_context f)), (''reasoning_level'', itoa (tf_reasoning f)),
      (''message_count'', itoa (tf_messages f)), (''input_bytes'', itoa (tf_input_bytes f))]"

definition record_text :: "review \<Rightarrow> string" where
  "record_text x = object_text
     [(''id'', quote (rv_id x)), (''model'', quote (rv_model x)), (''provider'', quote (rv_provider x)), (''status'', itoa (rv_status x)),
      (''latency_ms'', itoa (rv_latency x)), (''stream'', bool_text (rv_stream x)), (''tools'', bool_text (rv_tools x)),
      (''features'', features_text (rv_features x))]"

definition records_json :: "review list \<Rightarrow> string" where
  "records_json xs = array_text (map record_text xs)"

text \<open>An empty list of capabilities is left out.\<close>

definition model_text :: "review_model \<Rightarrow> string" where
  "model_text m = object_text
     ([(''id'', quote (rm_model m)), (''provider'', quote (rm_provider m)), (''status'', quote (rm_status m)),
       (''auto_routable'', bool_text (rm_auto m))] @
      (if rm_capabilities m = [] then [] else [(''capabilities'', array_text (map quote (rm_capabilities m)))]) @
      [(''tools'', bool_text (rm_tool_use m)), (''vision'', bool_text (rm_sees m)),
       (''structured_output'', bool_text (rm_structured m)), (''context_window'', itoa (rm_window m))])"

definition models_json :: "review_model list option \<Rightarrow> string" where
  "models_json ms = (case ms of None \<Rightarrow> ''null'' | Some xs \<Rightarrow> array_text (map model_text xs))"

definition decision_text :: "decision \<Rightarrow> string" where
  "decision_text d = object_text
     [(''id'', quote (rd_id d)), (''recommended_model'', quote (rd_model d)), (''minimum_tier'', itoa (rd_tier d)),
      (''overqualified'', bool_text (rd_over d)), (''confidence'', json_float (rd_confidence d)),
      (''conclusion'', quote (rd_conclusion d)), (''skip'', bool_text (rd_skip d))]"

definition decisions_text :: "decision list option \<Rightarrow> string" where
  "decisions_text ds =
     object_text [(''reviews'', case ds of None \<Rightarrow> ''null'' | Some xs \<Rightarrow> array_text (map decision_text xs))]"

text \<open>A map[string]string with role and content is written in the order of the keys, a ReviewMessage in that of its fields.\<close>

definition note_text :: "string \<Rightarrow> string \<Rightarrow> string" where
  "note_text role content = object_text [(''content'', quote content), (''role'', quote role)]"

definition message_text :: "review_message \<Rightarrow> string" where
  "message_text m = object_text [(''role'', quote (msg_role m)), (''content'', quote (msg_content m))]"

definition messages_text :: "review_message list \<Rightarrow> string" where
  "messages_text xs = concat (map (\<lambda>x. msg_role x @ '':'' @ msg_content x @ [CHR 0x0A]) xs)"

definition teacher_prompt :: string where
  "teacher_prompt = ''You are a routing review teacher. Maintain one continuous review conversation. Base every recommendation '' @
     ''ONLY on the CURRENT AVAILABLE MODELS list below. Never invent a model. A model recommendation is valid only if its '' @
     ''exact ID is in that list and it is active, auto-routable, and has the required capabilities. Return ONLY strict JSON '' @
     ''with a reviews array.'' @ [CHR 0x0A] @ ''CURRENT AVAILABLE MODELS:'' @ [CHR 0x0A]"

definition conversation :: "reviewer \<Rightarrow> string \<Rightarrow> review_message list \<Rightarrow> string \<Rightarrow> string list" where
  "conversation r summary msgs prompt =
     [note_text ''system'' (teacher_prompt @ models_json (rw_available r))] @
     (if summary \<noteq> [] then [note_text ''system'' (''Long-term review memory:'' @ [CHR 0x0A] @ summary)] else []) @
     map message_text msgs @
     [note_text ''user'' (''Review this new batch and return one decision per ID:'' @ [CHR 0x0A] @ prompt)]"

definition review_payload :: "reviewer \<Rightarrow> string \<Rightarrow> review_message list \<Rightarrow> string \<Rightarrow> string" where
  "review_payload r summary msgs prompt = object_text
     [(''messages'', array_text (conversation r summary msgs prompt)), (''model'', quote (rw_model r)),
      (''response_format'', object_text [(''type'', quote ''json_object'')])]"

definition compact_payload :: "reviewer \<Rightarrow> string \<Rightarrow> review_message list \<Rightarrow> string" where
  "compact_payload r summary msgs = object_text
     [(''messages'', array_text
        [note_text ''system'' (''Compress this routing review history into concise durable memory. Keep task patterns, model '' @
           ''sufficiency findings, contradictions and confidence. Return plain text only.''),
         note_text ''user'' (summary @ [CHR 0x0A] @ messages_text msgs)]),
      (''model'', quote (rw_model r))]"

section \<open>One call\<close>

definition answer_limit :: nat where
  "answer_limit = 8 * 2 ^ 20"

text \<open>The content of the first choice; a content that is not a string is no answer.\<close>

definition reply_content :: "string \<Rightarrow> string option" where
  "reply_content raw =
     (case parse_json raw of
        None \<Rightarrow> None
      | Some j \<Rightarrow>
          (case dec_field ''choices'' (dec_slice (\<lambda>c. dec_field ''message'' (\<lambda>v acc. dec_field ''content'' dec_string acc v) [] c)) [] j of
             (cs, ok) \<Rightarrow> if ok then (case cs of [] \<Rightarrow> None | c # _ \<Rightarrow> Some c) else None))"

definition review_call :: "review_env \<Rightarrow> point \<Rightarrow> string \<Rightarrow> reviewer \<Rightarrow> string + string" where
  "review_call e p payload r =
     (case rve_net e p (chat_url (rw_base r)) (if rw_key r = [] then None else Some (bearer (rw_key r))) payload of
        CallFailed t \<Rightarrow> Inl t
      | CallDone status body \<Rightarrow>
          if \<not> success_status status then Inl (''reviewer http '' @ itoa status)
          else (case reply_content (take answer_limit body) of
                  None \<Rightarrow> Inl ''invalid reviewer response'' | Some c \<Rightarrow> Inr c))"

definition is_context_error :: "string \<Rightarrow> bool" where
  "is_context_error t =
     (let s = to_lower t in
      contains_str s ''context'' \<or> contains_str s ''token'' \<or> contains_str s ''length'' \<or> contains_str s ''413'')"

section \<open>The conversation\<close>

definition session_of_reviewer :: "reviewer \<Rightarrow> review_session" where
  "session_of_reviewer r = (case rw_session r of None \<Rightarrow> new_review_session | Some s \<Rightarrow> s)"

text \<open>compact: the error, if any, and the reviewer with the shortened session; an empty history does nothing.\<close>

definition review_compact ::
  "review_env \<Rightarrow> point \<Rightarrow> review_message list \<Rightarrow> string \<Rightarrow> reviewer \<Rightarrow> string option \<times> reviewer" where
  "review_compact e p msgs summary r =
     (if msgs = [] then (None, r)
      else (case review_call e p (compact_payload r summary msgs) r of
              Inl t \<Rightarrow> (Some t, r)
            | Inr raw \<Rightarrow> (None, r\<lparr>rw_session := Some (session_replace (rve_io e p) raw [] (rve_now e p) (session_of_reviewer r))\<rparr>)))"

definition session_messages :: "reviewer \<Rightarrow> review_message list" where
  "session_messages r = fst (session_snapshot (session_of_reviewer r))"

definition session_summary :: "reviewer \<Rightarrow> string" where
  "session_summary r = fst (snd (session_snapshot (session_of_reviewer r)))"

text \<open>Zero limits stand for the defaults.\<close>

definition with_defaults :: "reviewer \<Rightarrow> reviewer" where
  "with_defaults r =
     r\<lparr>rw_session := Some (session_of_reviewer r),
       rw_max_chars := (if rw_max_chars r \<le> 0 then 48000 else rw_max_chars r),
       rw_compact_every := (if rw_compact_every r \<le> 0 then 20 else rw_compact_every r)\<rparr>"

definition compact_before :: "review_env \<Rightarrow> reviewer \<Rightarrow> reviewer" where
  "compact_before e r =
     (if session_messages r \<noteq> [] \<and> int (length (session_messages r)) mod rw_compact_every r = 0
      then snd (review_compact e AtCompact (session_messages r) (session_summary r) r) else r)"

definition send_batch :: "review_env \<Rightarrow> point \<Rightarrow> string \<Rightarrow> reviewer \<Rightarrow> string + string" where
  "send_batch e p prompt r = review_call e p (review_payload r (session_summary r) (session_messages r) prompt) r"

text \<open>An error that looks like one of size is tried again after the history has been compacted.\<close>

definition ask_teacher :: "review_env \<Rightarrow> string \<Rightarrow> reviewer \<Rightarrow> (string + string) \<times> reviewer" where
  "ask_teacher e prompt r =
     (case send_batch e AtCall prompt r of
        Inr raw \<Rightarrow> (Inr raw, r)
      | Inl t \<Rightarrow>
          if is_context_error t
          then (case review_compact e AtRecompact (session_messages r) (session_summary r) r of
                  (None, r1) \<Rightarrow> (send_batch e AtRecall prompt r1, r1)
                | (Some _, r1) \<Rightarrow> (Inl t, r1))
          else (Inl t, r))"

section \<open>Decisions\<close>

definition dec_double :: "rat decoder" where
  "dec_double j z =
     (case j of JNum q \<Rightarrow> if fl_finite (fl_round q) then (f64 q, True) else (z, False) | JNull \<Rightarrow> (z, True) | _ \<Rightarrow> (z, False))"

definition dec_decision :: "json \<Rightarrow> decision \<times> bool" where
  "dec_decision j =
     (\<lparr>rd_id = field ''id'' dec_string [] j, rd_model = field ''recommended_model'' dec_string [] j,
       rd_tier = field ''minimum_tier'' dec_int 0 j, rd_over = field ''overqualified'' dec_bool False j,
       rd_confidence = field ''confidence'' dec_double 0 j, rd_conclusion = field ''conclusion'' dec_string [] j,
       rd_skip = field ''skip'' dec_bool False j\<rparr>,
      field_ok ''id'' dec_string [] j \<and> field_ok ''recommended_model'' dec_string [] j \<and> field_ok ''minimum_tier'' dec_int 0 j \<and>
      field_ok ''overqualified'' dec_bool False j \<and> field_ok ''confidence'' dec_double 0 j \<and>
      field_ok ''conclusion'' dec_string [] j \<and> field_ok ''skip'' dec_bool False j)"

text \<open>A slice that stays nil is written as null later.\<close>

definition dec_decisions :: "decision list option decoder" where
  "dec_decisions j z =
     (case j of
        JArr xs \<Rightarrow> (Some (map (\<lambda>x. fst (dec_decision x)) xs), list_all (\<lambda>x. snd (dec_decision x)) xs)
      | JNull \<Rightarrow> (None, True)
      | _ \<Rightarrow> (z, False))"

definition read_decisions :: "string \<Rightarrow> decision list option option" where
  "read_decisions raw =
     (case parse_json raw of
        None \<Rightarrow> None
      | Some j \<Rightarrow> (case dec_field ''reviews'' dec_decisions None j of (ds, ok) \<Rightarrow> if ok then Some ds else None))"

definition acceptable :: "string list \<Rightarrow> string list \<Rightarrow> decision \<Rightarrow> bool" where
  "acceptable claimed available d \<longleftrightarrow>
     rd_id d \<in> set claimed \<and> 0 \<le> rd_confidence d \<and> rd_confidence d \<le> 1 \<and> 0 \<le> rd_tier d \<and> rd_tier d \<le> 10 \<and>
     (rd_model d = [] \<or> rd_model d \<in> set available)"

definition decide :: "string \<Rightarrow> instant \<Rightarrow> decision \<Rightarrow> review \<Rightarrow> review" where
  "decide teacher now d x =
     x\<lparr>rv_reviewed_at := Some now, rv_review_status := (if rd_skip d then RSkipped else RReviewed), rv_reviewer_model := teacher,
       rv_recommended := rd_model d, rv_minimum_tier := rd_tier d, rv_overqualified := rd_over d, rv_confidence := rd_confidence d,
       rv_conclusion := rd_conclusion d, rv_error := []\<rparr>"

definition review_failed :: "string \<Rightarrow> review \<Rightarrow> review" where
  "review_failed msg x = x\<lparr>rv_review_status := RFailed, rv_error := msg\<rparr>"

definition missing_text :: string where
  "missing_text = ''missing or invalid decision''"

definition unavailable_text :: string where
  "unavailable_text = ''reviews unavailable''"

definition not_configured_text :: string where
  "not_configured_text = ''reviewer not configured''"

definition not_strict_text :: string where
  "not_strict_text = ''reviewer output is not strict json''"

text \<open>The three loops over the reviews, each write at its own point.\<close>

definition apply_decisions :: "review_env \<Rightarrow> string \<Rightarrow> string list \<Rightarrow> string list \<Rightarrow> decision list \<Rightarrow> reviews \<Rightarrow> reviews" where
  "apply_decisions e teacher claimed available ds s =
     fold (\<lambda>(i, d) s. if acceptable claimed available d
                      then reviews_apply (rve_io e (AtDecision i)) (rd_id d) (decide teacher (rve_now e (AtDecision i)) d) s else s)
       (enumerate 0 ds) s"

definition mark_missing :: "review_env \<Rightarrow> review list \<Rightarrow> decision list \<Rightarrow> reviews \<Rightarrow> reviews" where
  "mark_missing e batch ds s =
     fold (\<lambda>(i, x) s. if rv_id x \<in> rd_id ` set ds then s
                      else reviews_apply (rve_io e (AtMissing i)) (rv_id x) (review_failed missing_text) s)
       (enumerate 0 batch) s"

definition mark_failed :: "review_env \<Rightarrow> review list \<Rightarrow> string \<Rightarrow> reviews \<Rightarrow> reviews" where
  "mark_failed e batch msg s =
     fold (\<lambda>(i, x) s. reviews_apply (rve_io e (AtFailure i)) (rv_id x) (review_failed msg) s) (enumerate 0 batch) s"

section \<open>A run\<close>

record review_report =
  rr_claimed :: int
  rr_reviewed :: int
  rr_available :: "int option"

text \<open>
  After the claim: the store is the claimed one with its lock released, since every later write
  waits for the goroutine that persists the claim. The last compaction is called with no
  messages, so that it does nothing.
\<close>

definition finish_run :: "review_env \<Rightarrow> review list \<Rightarrow> string \<Rightarrow> decision list option \<Rightarrow> reviews \<Rightarrow> reviewer \<Rightarrow> review_report \<times> reviewer" where
  "finish_run e batch prompt out s r =
     (let ds = (case out of None \<Rightarrow> [] | Some xs \<Rightarrow> xs);
          claimed = map rv_id batch;
          available = map rm_model (available_models r);
          s1 = apply_decisions e (rw_model r) claimed available ds s;
          s2 = mark_missing e batch ds s1;
          r1 = r\<lparr>rw_reviews := Some s2,
                 rw_session := Some (session_append (rve_io e AtAppend) prompt (decisions_text out) (rve_now e AtAppend) (session_of_reviewer r))\<rparr>;
          r2 = (if approx_chars (session_of_reviewer r1) > rw_max_chars r1 then snd (review_compact e AtAppend [] [] r1) else r1)
      in (\<lparr>rr_claimed = int (length batch), rr_reviewed = int (length (filter (acceptable claimed available) ds)),
           rr_available = Some (int (length (available_models r)))\<rparr>, r2))"

definition review_claimed :: "review_env \<Rightarrow> review list \<Rightarrow> reviews \<Rightarrow> reviewer \<Rightarrow> (string + review_report) \<times> reviewer" where
  "review_claimed e batch s r =
     (let r1 = compact_before e (with_defaults r) in
      case ask_teacher e (records_json batch) r1 of
        (Inl t, r2) \<Rightarrow> (Inl t, r2\<lparr>rw_reviews := Some (mark_failed e batch t s)\<rparr>)
      | (Inr raw, r2) \<Rightarrow>
          (case read_decisions raw of
             None \<Rightarrow> (Inl not_strict_text, r2\<lparr>rw_reviews := Some (mark_failed e batch not_strict_text s)\<rparr>)
           | Some out \<Rightarrow> (case finish_run e batch (records_json batch) out s r2 of (rep, r3) \<Rightarrow> (Inr rep, r3))))"

definition run_limit :: "int \<Rightarrow> int" where
  "run_limit limit = (if limit < 1 \<or> limit > 100 then 20 else limit)"

definition batch_name :: "instant \<Rightarrow> string" where
  "batch_name now = format_version now"

definition reviewer_run :: "review_env \<Rightarrow> instant \<Rightarrow> int \<Rightarrow> reviewer \<Rightarrow> (string + review_report) \<times> reviewer" where
  "reviewer_run e before limit r =
     (case rw_reviews r of
        None \<Rightarrow> (Inl unavailable_text, r)
      | Some s \<Rightarrow>
          if rw_base r = [] \<or> rw_model r = [] then (Inl not_configured_text, r)
          else (case reviews_claim before (batch_name (rve_now e AtStart)) (run_limit limit) s of
              (batch, s1) \<Rightarrow>
                (let s2 = (if r_locked s then s1 else claim_done (rve_io e AtClaimed) s1) in
                 if batch = [] then (Inr \<lparr>rr_claimed = 0, rr_reviewed = 0, rr_available = None\<rparr>, r\<lparr>rw_reviews := Some s2\<rparr>)
                 else review_claimed e batch s2 r)))"

end
