(* ===== verification/Knowledge_Api.thy ===== *)
theory Knowledge_Api
  imports Knowledge Reviewer Catalog Provider_Ops Http
begin

text \<open>
  The handlers over the knowledge store (internal/api/knowledge.go): the list, building proposals from
  reviews, an operator's decision, restoring, and recording a validation. The store, the manager of
  the catalog and the switches may be absent (None). The audit of who decided is the note in the
  history of the entry.
\<close>

section \<open>Texts of the enumerations\<close>

fun knowledge_status_text :: "knowledge_status \<Rightarrow> string" where
  "knowledge_status_text KProposed = ''proposed''"
| "knowledge_status_text KValidated = ''validated''"
| "knowledge_status_text KTrusted = ''trusted''"
| "knowledge_status_text KRejected = ''rejected''"
| "knowledge_status_text KExpired = ''expired''"
| "knowledge_status_text (KOther s) = s"

definition knowledge_status_of :: "string \<Rightarrow> knowledge_status" where
  "knowledge_status_of s =
     (if s = ''proposed'' then KProposed else if s = ''validated'' then KValidated else if s = ''trusted'' then KTrusted
      else if s = ''rejected'' then KRejected else if s = ''expired'' then KExpired else KOther s)"

definition cause_of :: "string \<Rightarrow> failure_cause" where
  "cause_of s =
     (if s = [] then CauseNone else if s = ''unknown'' then CauseUnknown
      else if s = ''capability_insufficient'' then CauseCapability else if s = ''provider_failure'' then CauseProvider
      else if s = ''rate_limited'' then CauseRateLimit else if s = ''context_limit'' then CauseContext
      else if s = ''protocol_error'' then CauseProtocol else if s = ''user_retry'' then CauseUserRetry
      else if s = ''teacher_error'' then CauseTeacher else CauseOther s)"

section \<open>Which models may be recommended\<close>

definition switched_on :: "ops_state option \<Rightarrow> string \<Rightarrow> bool" where
  "switched_on ops p \<longleftrightarrow> (case ops of None \<Rightarrow> True | Some o1 \<Rightarrow> \<not> is_disabled o1 p)"

definition usable_model :: "ops_state option \<Rightarrow> model \<Rightarrow> bool" where
  "usable_model ops x \<longleftrightarrow> m_status x = Active \<and> m_auto_routable x \<and> switched_on ops (m_provider x)"

definition model_available :: "manager option \<Rightarrow> ops_state option \<Rightarrow> string \<Rightarrow> bool" where
  "model_available mg ops mid \<longleftrightarrow>
     (case mg of None \<Rightarrow> False
      | Some m \<Rightarrow> mid \<noteq> [] \<and> list_ex (\<lambda>x. m_id x = mid \<and> usable_model ops x) (cat_models (snapshot m)))"

definition review_model_of :: "model \<Rightarrow> review_model" where
  "review_model_of x = \<lparr>rm_model = m_id x, rm_provider = m_provider x, rm_status = status_text (m_status x), rm_auto = True,
     rm_capabilities = m_capabilities x, rm_tool_use = m_tools x, rm_sees = m_vision x, rm_structured = m_structured_output x,
     rm_window = m_context_window x\<rparr>"

definition knowledge_models :: "manager option \<Rightarrow> ops_state option \<Rightarrow> review_model list" where
  "knowledge_models mg ops =
     (case mg of None \<Rightarrow> [] | Some m \<Rightarrow> map review_model_of (filter (usable_model ops) (cat_models (snapshot m))))"

section \<open>Listing and building\<close>

record knowledge_listing =
  kl_items :: "knowledge list"
  kl_stats :: "(string, int) gomap"
  kl_status :: string

definition count_status :: "string list \<Rightarrow> string list \<Rightarrow> (string, int) gomap" where
  "count_status known seen = fold (\<lambda>k m. mput k (i64 (mget 0 m k + 1)) m) seen (map (\<lambda>k. (k, 0)) known)"

definition knowledge_view ::
  "io \<Rightarrow> instant \<Rightarrow> http_request \<Rightarrow> knowledge_store option \<Rightarrow> knowledge_listing \<times> knowledge_store option" where
  "knowledge_view io now req ks =
     (case ks of
        None \<Rightarrow> (\<lparr>kl_items = [], kl_stats = [], kl_status = []\<rparr>, None)
      | Some s \<Rightarrow>
          (let s1 = snd (knowledge_expire io now s); xs = knowledge_all s1; st = trim_space (hr_query req ''status'') in
           (\<lparr>kl_items = filter (\<lambda>x. st = [] \<or> knowledge_status_text (kn_status x) = st) xs,
             kl_stats = count_status [''proposed'', ''validated'', ''trusted'', ''rejected'', ''expired'']
                          (map (\<lambda>x. knowledge_status_text (kn_status x)) xs),
             kl_status = st\<rparr>, Some s1)))"

text \<open>A review that recommends a model with some confidence becomes a proposal.\<close>

definition teaches :: "review \<Rightarrow> bool" where
  "teaches x \<longleftrightarrow> rv_review_status x = RReviewed \<and> rv_recommended x \<noteq> [] \<and> 0 < rv_confidence x"

definition proposed :: "instant \<Rightarrow> review \<Rightarrow> knowledge" where
  "proposed now x = \<lparr>kn_id = signature (rv_features x) @ ''|'' @ rv_recommended x, kn_signature = signature (rv_features x),
     kn_features = rv_features x, kn_actual_model = rv_model x, kn_actual_provider = rv_provider x, kn_recommended = rv_recommended x,
     kn_minimum_tier = rv_minimum_tier x, kn_confidence = rv_confidence x, kn_samples = 1, kn_validated = 0, kn_successful = 0,
     kn_failed = 0, kn_status = KProposed, kn_cause = CauseNone, kn_sources = [rv_id x], kn_validation_ids = [], kn_history = [],
     kn_created_at = now, kn_updated_at = now, kn_expires_at = None, kn_note = []\<rparr>"

definition build_knowledge ::
  "(nat \<Rightarrow> io) \<Rightarrow> (nat \<Rightarrow> instant) \<Rightarrow> reviews option \<Rightarrow> knowledge_store option \<Rightarrow> nat \<times> knowledge_store option" where
  "build_knowledge io now rs ks =
     (case (rs, ks) of
        (Some r, Some s) \<Rightarrow>
          (let xs = filter teaches (reviews_all r)
           in (length xs, Some (fold (\<lambda>(i, x) s. knowledge_upsert (io i) (proposed (now i) x) s) (enumerate 0 xs) s)))
      | _ \<Rightarrow> (0, ks))"

definition knowledge_gone :: "'a reply" where
  "knowledge_gone = HttpError 503 ''knowledge unavailable''"

definition knowledge_build ::
  "(nat \<Rightarrow> io) \<Rightarrow> (nat \<Rightarrow> instant) \<Rightarrow> http_request \<Rightarrow> reviews option \<Rightarrow> knowledge_store option \<Rightarrow> nat reply \<times> knowledge_store option" where
  "knowledge_build io now req rs ks =
     (if hr_method req \<noteq> ''POST'' \<or> ks = None \<or> rs = None then (knowledge_gone, ks)
      else (case build_knowledge io now rs ks of (n, ks') \<Rightarrow> (Reply n, ks')))"

section \<open>Decisions\<close>

text \<open>The fields of a request; None when one of them has the wrong type.\<close>

record knowledge_request =
  kq_id :: string
  kq_status :: knowledge_status
  kq_note :: string
  kq_cause :: failure_cause
  kq_validation :: string
  kq_success :: bool

definition knowledge_fields :: "string list \<Rightarrow> json option \<Rightarrow> knowledge_request option" where
  "knowledge_fields strings body =
     (case body of None \<Rightarrow> None
      | Some j \<Rightarrow>
          if list_all (\<lambda>k. field_ok k dec_string [] j) strings \<and> (''validation_id'' \<in> set strings \<longrightarrow> field_ok ''success'' dec_bool False j)
          then Some \<lparr>kq_id = field ''id'' dec_string [] j, kq_status = knowledge_status_of (field ''status'' dec_string [] j),
                     kq_note = field ''note'' dec_string [] j, kq_cause = cause_of (field ''failure_cause'' dec_string [] j),
                     kq_validation = field ''validation_id'' dec_string [] j, kq_success = field ''success'' dec_bool False j\<rparr>
          else None)"

fun transition_allowed :: "knowledge_status \<Rightarrow> knowledge_status \<Rightarrow> bool" where
  "transition_allowed KProposed b = (b = KValidated \<or> b = KRejected)"
| "transition_allowed KValidated b = (b = KTrusted \<or> b = KRejected)"
| "transition_allowed KTrusted b = (b = KRejected)"
| "transition_allowed _ b = False"

definition find_knowledge :: "string \<Rightarrow> knowledge_store \<Rightarrow> knowledge option" where
  "find_knowledge k s = find (\<lambda>x. kn_id x = k) (knowledge_all s)"

text \<open>
  KnowledgeDecision works in two critical sections: it checks the transition on a copy of the entries
  (decision\_check), and then ChangeStatus takes the lock again and changes the entry, whatever its status has
  become, unless that is the status asked for (decision\_commit).
\<close>

definition decision_check ::
  "http_request \<Rightarrow> knowledge_store option \<Rightarrow> (string \<times> knowledge_status) reply + knowledge_request" where
  "decision_check req ks =
     (case (if hr_method req = ''POST'' then ks else None) of
        None \<Rightarrow> Inl knowledge_gone
      | Some s \<Rightarrow>
          (case knowledge_fields [''id'', ''status'', ''note'', ''failure_cause''] (hr_body req) of
             None \<Rightarrow> Inl (HttpError 400 ''id required'')
           | Some q \<Rightarrow>
               if kq_id q = [] then Inl (HttpError 400 ''id required'')
               else if kq_status q \<notin> {KValidated, KTrusted, KRejected} then Inl (HttpError 400 ''invalid status'')
               else (case find_knowledge (kq_id q) s of
                   None \<Rightarrow> Inl (HttpError 404 ''knowledge not found'')
                 | Some x \<Rightarrow>
                     if \<not> transition_allowed (kn_status x) (kq_status q) then Inl (HttpError 409 ''invalid knowledge transition'')
                     else Inr q)))"

definition decision_commit ::
  "io \<Rightarrow> instant \<Rightarrow> knowledge_request \<Rightarrow> knowledge_store \<Rightarrow> (string \<times> knowledge_status) reply \<times> knowledge_store" where
  "decision_commit io now q s =
     (case change_status io (kq_id q) (kq_status q) (kq_note q) (kq_cause q) now s of
        (False, s') \<Rightarrow> (HttpError 409 ''knowledge transition could not be recorded'', s')
      | (True, s') \<Rightarrow> (Reply (kq_id q, kq_status q), s'))"

text \<open>The handler when nothing comes in between.\<close>

definition knowledge_decision ::
  "io \<Rightarrow> instant \<Rightarrow> http_request \<Rightarrow> knowledge_store option \<Rightarrow> (string \<times> knowledge_status) reply \<times> knowledge_store option" where
  "knowledge_decision io now req ks =
     (case (decision_check req ks, ks) of
        (Inr q, Some s) \<Rightarrow> (case decision_commit io now q s of (r, s') \<Rightarrow> (r, Some s'))
      | (Inl r, _) \<Rightarrow> (r, ks)
      | (Inr q, None) \<Rightarrow> (knowledge_gone, None))"

definition knowledge_restore_handler ::
  "io \<Rightarrow> instant \<Rightarrow> http_request \<Rightarrow> knowledge_store option \<Rightarrow> (string \<times> knowledge_status) reply \<times> knowledge_store option" where
  "knowledge_restore_handler io now req ks =
     (case (if hr_method req = ''POST'' then ks else None) of
        None \<Rightarrow> (knowledge_gone, ks)
      | Some s \<Rightarrow>
          (case knowledge_fields [''id'', ''status'', ''note''] (hr_body req) of
             None \<Rightarrow> (HttpError 400 ''id required'', ks)
           | Some q \<Rightarrow>
               if kq_id q = [] then (HttpError 400 ''id required'', ks)
               else if kq_status q \<notin> {KValidated, KTrusted} then (HttpError 400 ''invalid restore status'', ks)
               else (case knowledge_restore io (kq_id q) (kq_status q) (kq_note q) now s of
                   (False, s') \<Rightarrow> (HttpError 409 ''knowledge must be expired or rejected'', Some s')
                 | (True, s') \<Rightarrow> (Reply (kq_id q, kq_status q), Some s'))))"

text \<open>A failed validation without a cause gets the cause unknown.\<close>

definition knowledge_validate ::
  "io \<Rightarrow> instant \<Rightarrow> manager option \<Rightarrow> ops_state option \<Rightarrow> http_request \<Rightarrow> knowledge_store option \<Rightarrow> unit reply \<times> knowledge_store option" where
  "knowledge_validate io now mg ops req ks =
     (case (if hr_method req = ''POST'' then ks else None) of
        None \<Rightarrow> (knowledge_gone, ks)
      | Some s \<Rightarrow>
          (case knowledge_fields [''id'', ''validation_id'', ''failure_cause'', ''note''] (hr_body req) of
             None \<Rightarrow> (HttpError 400 ''id required'', ks)
           | Some q \<Rightarrow>
               if kq_id q = [] then (HttpError 400 ''id required'', ks)
               else (case find_knowledge (kq_id q) s of
                   None \<Rightarrow> (HttpError 404 ''knowledge not found'', ks)
                 | Some x \<Rightarrow>
                     if \<not> model_available mg ops (kn_recommended x) then (HttpError 409 ''recommended model unavailable'', ks)
                     else if kq_validation q = [] then (HttpError 400 ''validation_id required'', ks)
                     else (case record_validation io (kq_id q) (kq_validation q) (kq_success q)
                             (if \<not> kq_success q \<and> kq_cause q = CauseNone then CauseUnknown else kq_cause q) (kq_note q) now s of
                         (False, s') \<Rightarrow> (HttpError 409 ''validation could not be recorded'', Some s')
                       | (True, s') \<Rightarrow> (Reply (), Some s')))))"

section \<open>Who can bring knowledge back\<close>

text \<open>
  The store under concurrent requests: its critical sections, in the order in which they get the lock,
  and the decisions that have passed their check and not been written yet. BuildKnowledge is a sequence
  of proposals; KnowledgeValidate and the shadow tests write with RecordValidation.
\<close>

record knowledge_floor =
  kf_store :: knowledge_store
  kf_pending :: "knowledge_request list"

datatype knowledge_call =
  CallView io instant http_request
| CallPropose io knowledge
| CallCheck http_request
| CallCommit io instant nat
| CallRestore io instant http_request
| CallRecord io string string bool failure_cause string instant
| CallExpire io instant

fun knowledge_api :: "knowledge_floor \<Rightarrow> knowledge_call \<Rightarrow> knowledge_floor" where
  "knowledge_api f (CallView io now req) = f\<lparr>kf_store := the (snd (knowledge_view io now req (Some (kf_store f))))\<rparr>"
| "knowledge_api f (CallPropose io x) = f\<lparr>kf_store := knowledge_upsert io x (kf_store f)\<rparr>"
| "knowledge_api f (CallCheck req) =
     (case decision_check req (Some (kf_store f)) of Inl _ \<Rightarrow> f | Inr q \<Rightarrow> f\<lparr>kf_pending := kf_pending f @ [q]\<rparr>)"
| "knowledge_api f (CallCommit io now n) =
     (if n < length (kf_pending f)
      then f\<lparr>kf_store := snd (decision_commit io now (kf_pending f ! n) (kf_store f)),
             kf_pending := take n (kf_pending f) @ drop (n + 1) (kf_pending f)\<rparr>
      else f)"
| "knowledge_api f (CallRestore io now req) = f\<lparr>kf_store := the (snd (knowledge_restore_handler io now req (Some (kf_store f))))\<rparr>"
| "knowledge_api f (CallRecord io k vid b c note now) = f\<lparr>kf_store := snd (record_validation io k vid b c note now (kf_store f))\<rparr>"
| "knowledge_api f (CallExpire io now) = f\<lparr>kf_store := snd (knowledge_expire io now (kf_store f))\<rparr>"

text \<open>A request to restore this very entry.\<close>

fun restores :: "knowledge_call \<Rightarrow> string \<Rightarrow> bool" where
  "restores (CallRestore io now req) k \<longleftrightarrow>
     (case knowledge_fields [''id'', ''status'', ''note''] (hr_body req) of None \<Rightarrow> False | Some q \<Rightarrow> kq_id q = k)"
| "restores _ k \<longleftrightarrow> False"

text \<open>Every entry is stored under its id, as Upsert stores it.\<close>

definition keyed_knowledge :: "knowledge_store \<Rightarrow> bool" where
  "keyed_knowledge s \<longleftrightarrow> wf_map (items s) \<and> (\<forall>(k, x) \<in> set (items s). kn_id x = k)"

lemma keyed_member: "keyed_knowledge s \<Longrightarrow> x \<in> snd ` set (items s) \<Longrightarrow> lookup s (kn_id x) = Some x"
proof -
  assume k: "keyed_knowledge s" and "x \<in> snd ` set (items s)"
  then obtain i where "(i, x) \<in> set (items s)" by auto
  moreover from this have "kn_id x = i" using k by (auto simp: keyed_knowledge_def)
  ultimately show ?thesis using k by (simp add: lookup_def map_of_wf keyed_knowledge_def)
qed

lemma keyed_lookup: "keyed_knowledge s \<Longrightarrow> lookup s k = Some x \<Longrightarrow> kn_id x = k"
  by (auto simp: keyed_knowledge_def lookup_def dest!: map_of_SomeD)

lemma keyed_find: "keyed_knowledge s \<Longrightarrow> find_knowledge k s = lookup s k"
proof -
  assume k: "keyed_knowledge s"
  show ?thesis
  proof (cases "find_knowledge k s")
    case None
    then have "\<forall>x \<in> snd ` set (items s). kn_id x \<noteq> k" by (auto simp: find_knowledge_def knowledge_all_def find_None_iff)
    moreover have "x \<in> snd ` set (items s)" if "lookup s k = Some x" for x
      using that map_of_SomeD by (force simp: lookup_def)
    ultimately show ?thesis using None keyed_lookup [OF k] by (cases "lookup s k") auto
  next
    case (Some x)
    then have "x \<in> snd ` set (items s)" "kn_id x = k" by (auto simp: find_knowledge_def knowledge_all_def find_Some_iff)
    then have "lookup s k = Some x" using keyed_member [OF k] by metis
    then show ?thesis using Some by simp
  qed
qed

lemma keyed_put: "keyed_knowledge s \<Longrightarrow> kn_id v = k \<Longrightarrow> keyed_knowledge (store_put io k v s)"
proof -
  assume h: "keyed_knowledge s" "kn_id v = k"
  have "set (mput k v m) \<subseteq> insert (k, v) (set m)" for m :: "(string, knowledge) gomap" by (induction m) auto
  then have "\<forall>(k', x) \<in> set (items (store_put io k v s)). kn_id x = k'" using h by (fastforce simp: store_put_def keyed_knowledge_def)
  then show ?thesis using h by (simp add: keyed_knowledge_def)
qed

lemma keyed_upsert: "keyed_knowledge s \<Longrightarrow> keyed_knowledge (knowledge_upsert io x s)"
  by (auto simp: knowledge_upsert_def merge_knowledge_def Let_def intro!: keyed_put split: option.split)

lemma keyed_validation: "keyed_knowledge s \<Longrightarrow> keyed_knowledge (snd (record_validation io k vid b c n now s))"
  by (auto simp: record_validation_def validated_def count_validation_def promote_def Let_def lookup_def [symmetric] keyed_lookup
      intro!: keyed_put split: option.split)

lemma keyed_change: "keyed_knowledge s \<Longrightarrow> keyed_knowledge (snd (change_status io k st n c now s))"
  by (auto simp: change_status_def lookup_def [symmetric] keyed_lookup intro!: keyed_put split: option.split)

lemma keyed_restore: "keyed_knowledge s \<Longrightarrow> keyed_knowledge (snd (knowledge_restore io k st n now s))"
  by (auto simp: knowledge_restore_def lookup_def [symmetric] keyed_lookup intro!: keyed_put split: option.split)

lemma keyed_expire: "keyed_knowledge s \<Longrightarrow> keyed_knowledge (snd (knowledge_expire io now s))"
proof -
  assume k: "keyed_knowledge s"
  let ?m = "map_vals (\<lambda>k x. if run_out now x then x\<lparr>kn_status := KExpired, kn_updated_at := now\<rparr> else x) (items s)"
  have "items (snd (knowledge_expire io now s)) = ?m" by (simp add: knowledge_expire_def store_rewrite_def Let_def)
  moreover have "wf_map ?m" using k by (simp add: keyed_knowledge_def)
  moreover have "\<forall>(k, x) \<in> set ?m. kn_id x = k" using k by (fastforce simp: map_vals_def keyed_knowledge_def)
  ultimately show ?thesis by (simp add: keyed_knowledge_def)
qed

lemma view_store: "the (snd (knowledge_view io now req (Some s))) = snd (knowledge_expire io now s)"
  by (simp add: knowledge_view_def Let_def)

text \<open>What the whole handlers do to the store, when nothing comes in between, is a run of these sections.\<close>

lemma build_is_proposals:
  "\<exists>cs. \<forall>f. kf_store (foldl knowledge_api f cs) =
     fold (\<lambda>(i, x) s. knowledge_upsert (io i) (proposed (now i) x) s) xs (kf_store f)"
proof (induction xs)
  case Nil
  show ?case by (rule exI [of _ "[]"]) simp
next
  case (Cons p xs)
  obtain i x where p: "p = (i, x)" by fastforce
  obtain cs where "\<And>f. kf_store (foldl knowledge_api f cs) =
     fold (\<lambda>(i, x) s. knowledge_upsert (io i) (proposed (now i) x) s) xs (kf_store f)" using Cons by blast
  then show ?case by (intro exI [of _ "CallPropose (io i) (proposed (now i) x) # cs"]) (simp add: p)
qed

lemma decision_is_sections:
  "Some (kf_store (foldl knowledge_api \<lparr>kf_store = s, kf_pending = []\<rparr> [CallCheck req, CallCommit io now 0])) =
     snd (knowledge_decision io now req (Some s))"
  by (simp add: knowledge_decision_def split: sum.split prod.split)

text \<open>A decision that passes its check names an entry that may go there.\<close>

lemma decision_check_passes:
  assumes "decision_check req (Some s) = Inr q"
  shows "\<exists>x. find_knowledge (kq_id q) s = Some x \<and> transition_allowed (kn_status x) (kq_status q)"
proof -
  have post: "hr_method req = ''POST''" using assms by (simp add: decision_check_def split: if_splits)
  then obtain q' where q': "knowledge_fields [''id'', ''status'', ''note'', ''failure_cause''] (hr_body req) = Some q'"
    using assms by (cases "knowledge_fields [''id'', ''status'', ''note'', ''failure_cause''] (hr_body req)") (simp_all add: decision_check_def)
  then show ?thesis using assms post
    by (cases "find_knowledge (kq_id q') s") (simp_all add: decision_check_def split: if_splits)
qed

lemma restore_store:
  "the (snd (knowledge_restore_handler io now req (Some s))) =
     (case (if hr_method req = ''POST'' then knowledge_fields [''id'', ''status'', ''note''] (hr_body req) else None) of
        None \<Rightarrow> s
      | Some q \<Rightarrow> if kq_id q = [] \<or> kq_status q \<notin> {KValidated, KTrusted} then s
                  else snd (knowledge_restore io (kq_id q) (kq_status q) (kq_note q) now s))"
  by (simp add: knowledge_restore_handler_def split: option.split prod.split bool.split)

lemma restore_effect:
  assumes "P s"
    and "\<And>q. knowledge_fields [''id'', ''status'', ''note''] (hr_body req) = Some q \<Longrightarrow>
      P (snd (knowledge_restore io (kq_id q) (kq_status q) (kq_note q) now s))"
  shows "P (the (snd (knowledge_restore_handler io now req (Some s))))"
  using assms unfolding restore_store by (simp split: option.split) 

lemma validate_store:
  "the (snd (knowledge_validate io now mg ops req (Some s))) =
     (case (if hr_method req = ''POST'' then knowledge_fields [''id'', ''validation_id'', ''failure_cause'', ''note''] (hr_body req) else None) of
        None \<Rightarrow> s
      | Some q \<Rightarrow>
          if kq_id q = [] then s
          else (case find_knowledge (kq_id q) s of
              None \<Rightarrow> s
            | Some x \<Rightarrow>
                if \<not> model_available mg ops (kn_recommended x) \<or> kq_validation q = [] then s
                else snd (record_validation io (kq_id q) (kq_validation q) (kq_success q)
                       (if \<not> kq_success q \<and> kq_cause q = CauseNone then CauseUnknown else kq_cause q) (kq_note q) now s)))"
  by (simp add: knowledge_validate_def split: option.split prod.split bool.split)

text \<open>So the store after KnowledgeValidate is the one before, or what RecordValidation makes of it.\<close>

lemma validate_is_record:
  "the (snd (knowledge_validate io now mg ops req (Some s))) = s \<or>
     (\<exists>k vid b c n. the (snd (knowledge_validate io now mg ops req (Some s))) = snd (record_validation io k vid b c n now s))"
  unfolding validate_store by (simp split: option.split) blast

text \<open>An entry is out of force, and no decision about it has passed its check.\<close>

definition out_of_force :: "knowledge_floor \<Rightarrow> string \<Rightarrow> bool" where
  "out_of_force f k \<longleftrightarrow> keyed_knowledge (kf_store f) \<and> withdrawn (kf_store f) k \<and> (\<forall>q \<in> set (kf_pending f). kq_id q \<noteq> k)"

lemma out_of_force_step: "out_of_force f k \<Longrightarrow> \<not> restores c k \<Longrightarrow> out_of_force (knowledge_api f c) k"
proof (cases "(f, c)" rule: knowledge_api.cases)
  case (1 f' io now req)
  assume "out_of_force f k"
  then show ?thesis using 1 withdrawn_step [of "kf_store f" k "(KExpire now, io)"] by (simp add: out_of_force_def view_store keyed_expire)
next
  case (2 f' io x)
  assume "out_of_force f k"
  then show ?thesis using 2 withdrawn_step [of "kf_store f" k "(KUpsert x, io)"] by (simp add: out_of_force_def keyed_upsert)
next
  case (3 f' req)
  assume h: "out_of_force f k"
  have "kq_id q \<noteq> k" if q: "decision_check req (Some (kf_store f)) = Inr q" for q
  proof
    assume "kq_id q = k"
    moreover obtain x where x: "find_knowledge (kq_id q) (kf_store f) = Some x" "transition_allowed (kn_status x) (kq_status q)"
      using decision_check_passes [OF q] by blast
    ultimately have "lookup (kf_store f) k = Some x" using keyed_find h by (simp add: out_of_force_def)
    then have "kn_status x = KRejected \<or> kn_status x = KExpired" using h by (auto simp: out_of_force_def withdrawn_def)
    then show False using x(2) by auto
  qed
  then show ?thesis using 3 h by (auto simp: out_of_force_def split: sum.split)
next
  case (4 f' io now n)
  assume h: "out_of_force f k"
  show ?thesis
  proof (cases "n < length (kf_pending f)")
    case True
    let ?q = "kf_pending f ! n"
    have "kq_id ?q \<noteq> k" using h True by (simp add: out_of_force_def)
    moreover have "snd (decision_commit io now ?q (kf_store f)) =
        snd (change_status io (kq_id ?q) (kq_status ?q) (kq_note ?q) (kq_cause ?q) now (kf_store f))"
      by (simp add: decision_commit_def split: prod.split bool.split)
    moreover have "set (take n (kf_pending f) @ drop (n + 1) (kf_pending f)) \<subseteq> set (kf_pending f)"
      by (auto dest: in_set_takeD in_set_dropD)
    ultimately show ?thesis using 4 h True
        withdrawn_step [of "kf_store f" k "(KChange (kq_id ?q) (kq_status ?q) (kq_note ?q) (kq_cause ?q) now, io)"]
      by (auto simp: out_of_force_def keyed_change)
  qed (use 4 h in simp)
next
  case (5 f' io now req)
  assume h: "out_of_force f k" and n: "\<not> restores c k"
  let ?P = "\<lambda>s. keyed_knowledge s \<and> withdrawn s k"
  have now: "?P (kf_store f)" using h by (simp add: out_of_force_def)
  have "?P (snd (knowledge_restore io (kq_id q) (kq_status q) (kq_note q) now (kf_store f)))"
    if "knowledge_fields [''id'', ''status'', ''note''] (hr_body req) = Some q" for q
    using that n 5 h withdrawn_step [of "kf_store f" k "(KRestore (kq_id q) (kq_status q) (kq_note q) now, io)"]
    by (simp add: out_of_force_def keyed_restore)
  then have "?P (the (snd (knowledge_restore_handler io now req (Some (kf_store f)))))"
    using restore_effect [where P = ?P, OF now] by blast
  then show ?thesis using 5 h by (simp add: out_of_force_def)
next
  case (6 f' io k' vid b c n now)
  assume "out_of_force f k"
  then show ?thesis using 6 withdrawn_step [of "kf_store f" k "(KValidate k' vid b c n now, io)"]
    by (simp add: out_of_force_def keyed_validation)
next
  case (7 f' io now)
  assume "out_of_force f k"
  then show ?thesis using 7 withdrawn_step [of "kf_store f" k "(KExpire now, io)"] by (simp add: out_of_force_def keyed_expire)
qed

interpretation out_of_force: latch knowledge_api out_of_force restores
  by unfold_locales (rule out_of_force_step)

text \<open>
  C20. Rejected or expired knowledge stays out of force until an operator restores that very entry: from a
  moment when no decision about the entry is between its check and its write, whatever sections of the
  handlers get the lock and in whatever order, however many validations and shadow tests succeed, and even
  when an operator sends decisions that would validate or trust the entry, nothing but the restore request brings it
  back. A decision that had passed its check before the entry went out of force does bring it back
  (late\_decision\_revives).
\<close>

theorem only_restoring_revives_knowledge:
  assumes "keyed_knowledge (kf_store f)" and "withdrawn (kf_store f) k" and "\<forall>q \<in> set (kf_pending f). kq_id q \<noteq> k"
    and "\<exists>x. lookup (kf_store (foldl knowledge_api f cs)) k = Some x \<and> in_force (kn_status x)"
  shows "\<exists>c \<in> set cs. restores c k"
proof -
  have "\<not> withdrawn (kf_store (foldl knowledge_api f cs)) k" using assms(4) by (auto simp: withdrawn_def in_force_def)
  moreover have "out_of_force f k" using assms(1-3) by (simp add: out_of_force_def)
  ultimately show ?thesis using out_of_force.released_by [of f k cs] by (auto simp: out_of_force_def)
qed

definition restore_body :: json where
  "restore_body = JObj [(''id'', JStr ''k''), (''status'', JStr ''trusted'')]"

definition reject_body :: json where
  "reject_body = JObj [(''id'', JStr ''k''), (''status'', JStr ''rejected'')]"

lemma sample_bodies:
  "knowledge_fields [''id'', ''status'', ''note''] (Some restore_body) =
      Some \<lparr>kq_id = ''k'', kq_status = KTrusted, kq_note = [], kq_cause = CauseNone, kq_validation = [], kq_success = False\<rparr>"
  "knowledge_fields [''id'', ''status'', ''note'', ''failure_cause''] (Some restore_body) =
      Some \<lparr>kq_id = ''k'', kq_status = KTrusted, kq_note = [], kq_cause = CauseNone, kq_validation = [], kq_success = False\<rparr>"
  "knowledge_fields [''id'', ''status'', ''note'', ''failure_cause''] (Some reject_body) =
      Some \<lparr>kq_id = ''k'', kq_status = KRejected, kq_note = [], kq_cause = CauseNone, kq_validation = [], kq_success = False\<rparr>"
  by code_simp+

definition sample_floor :: "knowledge_status \<Rightarrow> knowledge_floor" where
  "sample_floor st = \<lparr>kf_store = knowledge_upsert good_io (sample_knowledge st) new_knowledge_store, kf_pending = []\<rparr>"

lemma sample_floor_entry: "lookup (kf_store (sample_floor st)) ''k'' = Some (sample_knowledge st)"
  by (simp add: sample_floor_def knowledge_upsert_def sample_knowledge_def new_knowledge_store_def)

lemma sample_floor_keyed: "keyed_knowledge (kf_store (sample_floor st))"
  unfolding sample_floor_def knowledge_floor.simps
  by (intro keyed_upsert) (simp add: keyed_knowledge_def new_knowledge_store_def wf_map_def)

theorem only_restoring_revives_knowledge_witness:
  "\<exists>c \<in> set [CallCheck (post_request restore_body), CallRestore good_io 5 (post_request restore_body)]. restores c ''k''"
proof -
  let ?f = "sample_floor KRejected"
  have w: "withdrawn (kf_store ?f) ''k''" by (simp add: sample_floor_entry withdrawn_def) (simp add: sample_knowledge_def)
  have p: "\<forall>q \<in> set (kf_pending ?f). kq_id q \<noteq> ''k''" by (simp add: sample_floor_def)
  have refused: "knowledge_api ?f (CallCheck (post_request restore_body)) = ?f"
    by (simp add: decision_check_def post_request_def sample_bodies keyed_find [OF sample_floor_keyed] sample_floor_entry)
      (simp add: sample_knowledge_def)
  have "\<exists>x. lookup (kf_store (foldl knowledge_api ?f
      [CallCheck (post_request restore_body), CallRestore good_io 5 (post_request restore_body)])) ''k'' = Some x \<and> in_force (kn_status x)"
    unfolding foldl.simps refused using sample_floor_entry [of KRejected]
    by (simp add: knowledge_restore_handler_def post_request_def sample_bodies knowledge_restore_def lookup_def [symmetric] in_force_def sample_knowledge_def)
  with sample_floor_keyed w p show ?thesis by (rule only_restoring_revives_knowledge)
qed

text \<open>
  The race of KnowledgeDecision: a decision to trust a validated entry passes its check, another one rejects
  the entry, and then the first one is written: the rejected entry is trusted.
\<close>

lemma late_decision_revives:
  "map (\<lambda>n. map_option kn_status (lookup (kf_store (foldl knowledge_api (sample_floor KValidated) (take n
       [CallCheck (post_request restore_body), CallCheck (post_request reject_body), CallCommit good_io 5 1, CallCommit good_io 6 0]))) ''k''))
     [2, 3, 4] = [Some KValidated, Some KRejected, Some KTrusted]"
proof -
  let ?f = "sample_floor KValidated"
  let ?q = "\<lambda>st. \<lparr>kq_id = ''k'', kq_status = st, kq_note = [], kq_cause = CauseNone, kq_validation = [], kq_success = False\<rparr>"
  have ok: "kn_status (sample_knowledge KValidated) = KValidated" by (simp add: sample_knowledge_def)
  have find: "find_knowledge ''k'' (kf_store ?f) = Some (sample_knowledge KValidated)"
    by (simp add: keyed_find [OF sample_floor_keyed] sample_floor_entry)
  have check: "decision_check (post_request restore_body) (Some (kf_store ?f)) = Inr (?q KTrusted)"
    "decision_check (post_request reject_body) (Some (kf_store ?f)) = Inr (?q KRejected)"
    by (simp_all add: decision_check_def post_request_def sample_bodies find ok)
  let ?f2 = "?f\<lparr>kf_pending := [?q KTrusted, ?q KRejected]\<rparr>"
  have f2: "foldl knowledge_api ?f [CallCheck (post_request restore_body), CallCheck (post_request reject_body)] = ?f2"
    by (simp add: check) (simp add: sample_floor_def)
  let ?s3 = "snd (decision_commit good_io 5 (?q KRejected) (kf_store ?f))"
  have f3: "knowledge_api ?f2 (CallCommit good_io 5 1) = ?f\<lparr>kf_store := ?s3, kf_pending := [?q KTrusted]\<rparr>" by simp
  have s3: "map_option kn_status (lookup ?s3 ''k'') = Some KRejected"
    using sample_floor_entry [of KValidated] by (simp add: decision_commit_def change_status_def known_status_def lookup_def [symmetric] ok)
  then obtain x where x: "lookup ?s3 ''k'' = Some x" "kn_status x = KRejected" by auto
  have s4: "map_option kn_status (lookup (snd (decision_commit good_io 6 (?q KTrusted) ?s3)) ''k'') = Some KTrusted"
    using x by (simp add: decision_commit_def change_status_def known_status_def lookup_def [symmetric])
  have runs: "take 2 xs = [xs ! 0, xs ! 1]" "take 3 xs = [xs ! 0, xs ! 1, xs ! 2]" "take 4 xs = xs" if "length xs = 4" for xs :: "knowledge_call list"
    using that by (auto simp: numeral_eq_Suc length_Suc_conv)
  show ?thesis using f2 f3 s3 s4 by (simp add: runs sample_floor_entry ok del: knowledge_api.simps) (simp add: sample_floor_entry ok)
qed

end
