(* ===== verification/Go_Print_Props.thy ===== *)
theory Go_Print_Props
  imports Go_Print
begin

text \<open>
  What json.Marshal writes, the parser reads back: strings up to the bytes that are not UTF-8, numbers up to
  the value of their decimal, and the members of an object once each and in the order of their keys.
\<close>

section \<open>Strings\<close>

definition sane :: "string \<Rightarrow> string" where
  "sane s = concat (runes s)"

definition ascii :: "string \<Rightarrow> bool" where
  "ascii s \<longleftrightarrow> list_all (\<lambda>c. byte c < 0x80) s"

lemma rune_size_ascii [simp]: "byte c < 0x80 \<Longrightarrow> rune_size (c # r) = 1"
  by (simp add: rune_size_def Let_def)

lemma sane_Nil [simp]: "sane [] = []"
  by (simp add: sane_def runes.simps)

lemma sane_bad: "s \<noteq> [] \<Longrightarrow> rune_size s = 0 \<Longrightarrow> sane s = replacement @ sane (tl s)"
  by (subst sane_def, subst runes.simps) (simp add: sane_def replacement_def)

lemma sane_rune: "rune_size s \<noteq> 0 \<Longrightarrow> sane s = take (rune_size s) s @ sane (drop (rune_size s) s)"
  by (subst sane_def, subst runes.simps) (auto simp: sane_def rune_size_def)

lemma sane_ascii [simp]: "ascii s \<Longrightarrow> sane s = s"
proof (induction s)
  case (Cons c s)
  then have "rune_size (c # s) = 1" by (simp add: ascii_def)
  then show ?case using Cons by (subst sane_rune) (auto simp: ascii_def)
qed simp

lemma rune_size_one: "rune_size (c # r) = 1 \<Longrightarrow> byte c < 0x80"
  by (auto simp: rune_size_def Let_def split: if_splits list.splits)

lemma rune_size_big: "byte c < 0x80 \<Longrightarrow> rune_size (c # r) \<le> 1"
  by simp

lemma rune_size_take: "rune_size s = k \<Longrightarrow> k \<noteq> 0 \<Longrightarrow> rune_size (take k s @ X) = k"
proof -
  assume k: "rune_size s = k" "k \<noteq> 0"
  then obtain a r where s: "s = a # r" by (cases s) (auto simp: rune_size_def)
  consider (one) "byte a < 0x80" | (two) "0xC2 \<le> byte a" "byte a \<le> 0xDF" | (three) "0xE0 \<le> byte a" "byte a \<le> 0xEF"
    | (four) "0xF0 \<le> byte a" "byte a \<le> 0xF4"
    using k by (simp add: s rune_size_def Let_def split: if_splits)
  then show ?thesis
  proof cases
    case one
    then show ?thesis using k by (auto simp: s)
  next
    case two
    then obtain b t where r: "r = b # t" "tail_byte 0x80 0xBF b" "k = 2"
      using k by (simp add: s rune_size_def Let_def split: list.splits if_splits)
    then show ?thesis using two by (simp add: s rune_size_def Let_def)
  next
    case three
    then obtain b c t where r: "r = b # c # t" "k = 3" using k by (simp add: s rune_size_def Let_def split: list.splits if_splits)
    then have "rune_size (a # b # c # t) = 3" using k by (simp add: s)
    then have "rune_size (a # b # c # X) = 3" using three by (simp add: rune_size_def Let_def)
    then show ?thesis by (simp add: s r)
  next
    case four
    then obtain b c d t where r: "r = b # c # d # t" "k = 4" using k by (simp add: s rune_size_def Let_def split: list.splits if_splits)
    then have "rune_size (a # b # c # d # t) = 4" using k by (simp add: s)
    then have "rune_size (a # b # c # d # X) = 4" using four by (simp add: rune_size_def Let_def)
    then show ?thesis by (simp add: s r)
  qed
qed

lemma scan_end: "scan_string (CHR 0x22 # r) = Some ([], r)"
  by (subst scan_string.simps) simp

lemma scan_unit: "escaped_unit t = Some (x, r2) \<Longrightarrow> scan_string (CHR 0x5C # CHR ''u'' # t) = map_option (\<lambda>(y, z). (x @ y, z)) (scan_string r2)"
  by (subst scan_string.simps) simp

lemma scan_simple: "simple_escape d = Some e \<Longrightarrow> d \<noteq> CHR ''u'' \<Longrightarrow>
    scan_string (CHR 0x5C # d # t) = map_option (\<lambda>(y, z). (e # y, z)) (scan_string t)"
  by (subst scan_string.simps) simp

lemma scan_plain: "c \<noteq> CHR 0x22 \<Longrightarrow> c \<noteq> CHR 0x5C \<Longrightarrow> 0x20 \<le> byte c \<Longrightarrow> byte c < 0x80 \<Longrightarrow>
    scan_string (c # t) = map_option (\<lambda>(y, z). (c # y, z)) (scan_string t)"
  by (subst scan_string.simps) simp

lemma scan_rune: "s = c # t \<Longrightarrow> 0x80 \<le> byte c \<Longrightarrow> rune_size s \<noteq> 0 \<Longrightarrow>
    scan_string s = map_option (\<lambda>(y, z). (take (rune_size s) s @ y, z)) (scan_string (drop (rune_size s) s))"
  by (subst scan_string.simps) auto

lemma utf8_ascii: "n < 0x80 \<Longrightarrow> utf8 (int n) = [char_of n]"
  by (simp add: utf8_def Let_def)

lemma unit_of_byte:
  assumes "byte c < 0x80"
  shows "escaped_unit (''00'' @ [hex_digit (byte c div 16), hex_digit (byte c mod 16)] @ X) = Some ([c], X)"
proof -
  have z: "hex_value CHR ''0'' = Some 0" by code_simp
  have "int (byte c div 16) * 16 + int (byte c mod 16) = int (byte c)" by presburger
  then have h: "hex4 (''00'' @ [hex_digit (byte c div 16), hex_digit (byte c mod 16)] @ X) = Some (int (byte c), X)"
    by (simp add: hex4_def z)
  show ?thesis using assms by (simp only: escaped_unit_def h option.case prod.case) (simp add: utf8_ascii)
qed

lemma scan_escaped_byte: "byte c < 0x80 \<Longrightarrow> scan_string (escaped_byte c @ X) = map_option (\<lambda>(y, z). (c # y, z)) (scan_string X)"
proof -
  assume c: "byte c < 0x80"
  have simple: "simple_escape CHR ''b'' = Some CHR 0x08" "simple_escape CHR ''f'' = Some CHR 0x0C" "simple_escape CHR ''n'' = Some CHR 0x0A"
    "simple_escape CHR ''r'' = Some CHR 0x0D" "simple_escape CHR ''t'' = Some CHR 0x09" "simple_escape CHR 0x22 = Some CHR 0x22"
    "simple_escape CHR 0x5C = Some CHR 0x5C"
    by (simp_all add: simple_escape_def)
  consider "c \<in> {CHR 0x22, CHR 0x5C, CHR 0x08, CHR 0x0C, CHR 0x0A, CHR 0x0D, CHR 0x09}"
    | (unit) "escaped_byte c = CHR 0x5C # CHR ''u'' # ''00'' @ [hex_digit (byte c div 16), hex_digit (byte c mod 16)]"
    | (plain) "escaped_byte c = [c]" "c \<noteq> CHR 0x22" "c \<noteq> CHR 0x5C" "0x20 \<le> byte c"
  proof (cases "c \<in> {CHR 0x22, CHR 0x5C, CHR 0x08, CHR 0x0C, CHR 0x0A, CHR 0x0D, CHR 0x09}")
    case False
    then show ?thesis using that(2,3)
      by (cases "byte c < 0x20 \<or> c \<in> {CHR ''<'', CHR ''>'', CHR 0x26}") (simp_all add: escaped_byte_def)
  qed (rule that(1))
  then show ?thesis
  proof cases
    case 1
    then show ?thesis by (auto simp: escaped_byte_def scan_simple simple)
  next
    case unit
    then show ?thesis using scan_unit [OF unit_of_byte [OF c, of X]] by simp
  next
    case plain
    then show ?thesis using scan_plain c by simp
  qed
qed

lemma scan_separators:
  "scan_string (CHR 0x5C # ''u2028'' @ X) = map_option (\<lambda>(y, z). ([CHR 0xE2, CHR 0x80, CHR 0xA8] @ y, z)) (scan_string X)"
  "scan_string (CHR 0x5C # ''u2029'' @ X) = map_option (\<lambda>(y, z). ([CHR 0xE2, CHR 0x80, CHR 0xA9] @ y, z)) (scan_string X)"
  "scan_string (CHR 0x5C # ''ufffd'' @ X) = map_option (\<lambda>(y, z). (replacement @ y, z)) (scan_string X)"
proof -
  have d: "hex_value CHR ''2'' = Some 2" "hex_value CHR ''0'' = Some 0" "hex_value CHR ''8'' = Some 8" "hex_value CHR ''9'' = Some 9"
    "hex_value CHR ''f'' = Some 15" "hex_value CHR ''d'' = Some 13" by code_simp+
  have u: "utf8 8232 = [CHR 0xE2, CHR 0x80, CHR 0xA8]" "utf8 8233 = [CHR 0xE2, CHR 0x80, CHR 0xA9]" "utf8 65533 = replacement" by code_simp+
  have "escaped_unit (''2028'' @ X) = Some ([CHR 0xE2, CHR 0x80, CHR 0xA8], X)" "escaped_unit (''2029'' @ X) = Some ([CHR 0xE2, CHR 0x80, CHR 0xA9], X)"
    "escaped_unit (''fffd'' @ X) = Some (replacement, X)"
    by (simp_all add: escaped_unit_def hex4_def d u)
  from this [THEN scan_unit]
  show "scan_string (CHR 0x5C # ''u2028'' @ X) = map_option (\<lambda>(y, z). ([CHR 0xE2, CHR 0x80, CHR 0xA8] @ y, z)) (scan_string X)"
    "scan_string (CHR 0x5C # ''u2029'' @ X) = map_option (\<lambda>(y, z). ([CHR 0xE2, CHR 0x80, CHR 0xA9] @ y, z)) (scan_string X)"
    "scan_string (CHR 0x5C # ''ufffd'' @ X) = map_option (\<lambda>(y, z). (replacement @ y, z)) (scan_string X)"
    by simp_all
qed

lemma scan_escaped_rune:
  assumes k: "rune_size s \<noteq> 0"
  shows "scan_string (escaped_rune (take (rune_size s) s) @ X) = map_option (\<lambda>(y, z). (take (rune_size s) s @ y, z)) (scan_string X)"
proof -
  obtain c r where s: "s = c # r" using k by (cases s) (auto simp: rune_size_def)
  show ?thesis
  proof (cases "rune_size s = 1")
    case True
    then show ?thesis using rune_size_one scan_escaped_byte by (simp add: s escaped_rune_def)
  next
    case False
    have big: "0x80 \<le> byte c" using False rune_size_ascii [of c r] by (fastforce simp: s)
    let ?t = "take (rune_size s) s"
    obtain b u where t: "?t = c # b # u"
      using k False rune_size_le [of s] by (cases r; cases "rune_size s"; cases "rune_size s - 1") (auto simp: s)
    consider "?t = [CHR 0xE2, CHR 0x80, CHR 0xA8]" | "?t = [CHR 0xE2, CHR 0x80, CHR 0xA9]" | (plain) "escaped_rune ?t = ?t"
    proof (cases "?t = [CHR 0xE2, CHR 0x80, CHR 0xA8] \<or> ?t = [CHR 0xE2, CHR 0x80, CHR 0xA9]")
      case False
      then have "escaped_rune ?t = ?t" unfolding escaped_rune_def by (simp add: t)
      then show ?thesis by (rule that(3))
    qed (use that(1,2) in blast)
    then show ?thesis
    proof cases
      case plain
      have z: "rune_size (?t @ X) = rune_size s" using rune_size_take [OF refl k] .
      have l: "length ?t = rune_size s" using rune_size_le [of s] by simp
      have td: "take (rune_size s) (?t @ X) = ?t" "drop (rune_size s) (?t @ X) = X" using l by simp_all
      have "?t @ X = c # b # u @ X" by (simp add: t)
      from scan_rune [OF this big] show ?thesis unfolding plain z td using k by simp
    qed (use scan_separators in \<open>auto simp: escaped_rune_def\<close>)
  qed
qed

lemma scan_escaped: "scan_string (escaped s @ CHR 0x22 # r) = Some (sane s, r)"
proof (induction s rule: escaped.induct)
  case (1 s)
  consider "s = []" | "s \<noteq> []" "rune_size s = 0" | "s \<noteq> []" "rune_size s \<noteq> 0" by blast
  then show ?case
  proof cases
    case 1
    then show ?thesis by (simp add: escaped.simps scan_end)
  next
    case 2
    have "escaped s = CHR 0x5C # ''ufffd'' @ escaped (tl s)" using 2 by (subst escaped.simps) simp
    then show ?thesis using "1.IH"(1) [OF 2] scan_separators(3) [of "escaped (tl s) @ CHR 0x22 # r"] 2 by (simp add: sane_bad)
  next
    case 3
    have "escaped s = escaped_rune (take (rune_size s) s) @ escaped (drop (rune_size s) s)" using 3 by (subst escaped.simps) simp
    then show ?thesis
      using "1.IH"(2) [OF 3] scan_escaped_rune [OF 3(2), of "escaped (drop (rune_size s) s) @ CHR 0x22 # r"] 3 by (simp add: sane_rune)
  qed
qed

theorem scan_quote: "quote s @ r = CHR 0x22 # t \<Longrightarrow> scan_string t = Some (sane s, r)"
  using scan_escaped by (auto simp: quote_def)

section \<open>Numbers\<close>

text \<open>What may follow a value.\<close>

definition ending :: "string \<Rightarrow> bool" where
  "ending r \<longleftrightarrow> (case r of [] \<Rightarrow> True | c # _ \<Rightarrow> c \<in> {CHR '','', CHR '']'', CHR ''}''})"

lemma ending_simps [simp]: "ending []" "ending (CHR '','' # r)" "ending (CHR '']'' # r)" "ending (CHR ''}'' # r)"
  by (simp_all add: ending_def)

lemma ending_digits: "ending r \<Longrightarrow> dropWhile digit r = r \<and> takeWhile digit r = []"
  by (cases r) (auto simp: ending_def digit_def)

lemma digits_before: "ending r \<Longrightarrow> takeWhile digit (s @ r) = takeWhile digit s \<and> dropWhile digit (s @ r) = dropWhile digit s @ r"
  by (induction s) (auto simp: ending_digits)

lemma minus_before: "s \<noteq> [] \<Longrightarrow> minus_sign s = (g, u) \<Longrightarrow> minus_sign (s @ r) = (g, u @ r)"
  by (cases s) (auto simp: minus_sign_def split: if_splits)

lemma int_before: "ending r \<Longrightarrow> int_part s = Some (a, u) \<Longrightarrow> int_part (s @ r) = Some (a, u @ r)"
  by (cases s) (auto simp: int_part_def digits_before split: if_splits)

lemma frac_before: "ending r \<Longrightarrow> frac_part s = Some (a, u) \<Longrightarrow> frac_part (s @ r) = Some (a, u @ r)"
  by (cases s; cases r) (auto simp: frac_part_def digits_before ending_def split: if_splits)

lemma exp_before: "ending r \<Longrightarrow> exp_part s = Some (a, u) \<Longrightarrow> exp_part (s @ r) = Some (a, u @ r)"
proof (cases s)
  case Nil
  assume "ending r" "exp_part s = Some (a, u)"
  then show ?thesis using Nil by (cases r) (auto simp: exp_part_def ending_def)
next
  case (Cons c t)
  assume h: "ending r" "exp_part s = Some (a, u)"
  show ?thesis
  proof (cases "c \<noteq> CHR ''e'' \<and> c \<noteq> CHR ''E''")
    case False
    then have "t \<noteq> []" using h Cons by (auto simp: exp_part_def)
    then obtain d v where "t = d # v" by (cases t) auto
    then show ?thesis using h False Cons digits_before [OF h(1), of v] digits_before [OF h(1), of t]
      by (auto simp: exp_part_def split: if_splits)
  qed (use h Cons in \<open>auto simp: exp_part_def\<close>)
qed

lemma scan_number_before:
  assumes "ending r" and "scan_number s = Some (t, u)"
  shows "scan_number (s @ r) = Some (t, u @ r)"
proof -
  obtain g s1 where m: "minus_sign s = (g, s1)" by (cases "minus_sign s")
  obtain a s2 where i: "int_part s1 = Some (a, s2)" using assms(2) by (auto simp: scan_number_def m split: option.splits)
  obtain b s3 where f: "frac_part s2 = Some (b, s3)" using assms(2) by (auto simp: scan_number_def m i split: option.splits)
  obtain e where e: "exp_part s3 = Some (e, u)" "t = g @ a @ b @ e" using assms(2) by (auto simp: scan_number_def m i f split: option.splits)
  have "s \<noteq> []" using m i by (auto simp: minus_sign_def int_part_def)
  then show ?thesis
    using minus_before [OF _ m] int_before [OF assms(1) i] frac_before [OF assms(1) f] exp_before [OF assms(1) e(1)]
    by (simp add: scan_number_def e(2))
qed

text \<open>A number whose text is a literal of the grammar, and its value when it is read again.\<close>

definition number_back :: "rat \<Rightarrow> json option" where
  "number_back q = (case number_value (json_float (f64 q)) of Some (j, r) \<Rightarrow> if r = [] then Some j else None | None \<Rightarrow> None)"

lemma number_back_value: "number_back q = Some j \<Longrightarrow> ending r \<Longrightarrow> number_value (json_float (f64 q) @ r) = Some (j, r)"
  using scan_number_before [of r "json_float (f64 q)"]
  by (auto simp: number_back_def number_value_def split: option.splits prod.splits if_splits)

text \<open>A number starts with its sign or a digit, so that nothing else is read in its place.\<close>

lemma number_start: "number_value (c # s) = Some x \<Longrightarrow> c = CHR ''-'' \<or> digit c"
  by (auto simp: number_value_def scan_number_def minus_sign_def int_part_def digit_def split: option.splits if_splits prod.splits)

lemma digit_start: "c = CHR ''-'' \<or> digit c \<Longrightarrow> c \<notin> set ''{[tfn]}'' \<and> c \<noteq> CHR 0x22 \<and> \<not> json_space c"
  by (cases "c = CHR ''-''") (auto simp: json_space_def digit_def)

lemma value_number:
  assumes "number_value s = Some x"
  shows "value_at (Suc n) d s = Some x"
proof -
  obtain c t where s: "s = c # t"
    using assms by (cases s) (auto simp: number_value_def scan_number_def minus_sign_def int_part_def)
  then have "c \<notin> set ''{[tfn]}'' \<and> c \<noteq> CHR 0x22" using number_start assms digit_start by blast
  then show ?thesis using assms by (simp add: s)
qed

section \<open>Values\<close>

text \<open>A value whose numbers are literals and that is not nested deeper than d.\<close>

fun printable :: "int \<Rightarrow> json \<Rightarrow> bool" where
  "printable d (JNum q) \<longleftrightarrow> number_back q \<noteq> None"
| "printable d (JArr xs) \<longleftrightarrow> 0 < d \<and> list_all (printable (d - 1)) xs"
| "printable d (JObj kvs) \<longleftrightarrow> 0 < d \<and> list_all (\<lambda>(k, v). printable (d - 1) v) kvs"
| "printable d _ \<longleftrightarrow> True"

fun reread :: "json \<Rightarrow> json" where
  "reread (JNum q) = (case number_back q of None \<Rightarrow> JNull | Some j \<Rightarrow> j)"
| "reread (JStr s) = JStr (sane s)"
| "reread (JArr xs) = JArr (map reread xs)"
| "reread (JObj kvs) = JObj (map (\<lambda>(k, v). (sane k, v)) (sorted_members (map (\<lambda>(k, v). (k, reread v)) kvs)))"
| "reread j = j"

text \<open>Sorting the members and mapping their values commute.\<close>

lemma mput_map: "map (\<lambda>(k, v). (k, f v)) (mput k v m) = mput k (f v) (map (\<lambda>(k, v). (k, f v)) m)"
  by (induction m) auto

lemma fold_mput_map: "map (\<lambda>(k, v). (k, f v)) (fold (\<lambda>(k, v). mput k v) kvs m) =
    fold (\<lambda>(k, v). mput k v) (map (\<lambda>(k, v). (k, f v)) kvs) (map (\<lambda>(k, v). (k, f v)) m)"
  by (induction kvs arbitrary: m) (auto simp: mput_map split: prod.splits)

lemma sift_map: "map g (sift_by b x ys) = sift_by b' (g x) (map g ys)" if "\<And>x y. b' (g x) (g y) = b x y"
  by (induction ys) (simp_all add: that)

lemma sort_map: "map g (sort_by b xs) = sort_by b' (map g xs)" if "\<And>x y. b' (g x) (g y) = b x y"
proof -
  have "map g (fold (sift_by b) xs acc) = fold (sift_by b') (map g xs) (map g acc)" for acc
    by (induction xs arbitrary: acc) (simp_all add: sift_map [of b' g b, OF that])
  from this [of "[]"] show ?thesis by (simp add: sort_by_def rev_map [symmetric])
qed

lemma sorted_members_map: "sorted_members (map (\<lambda>(k, v). (k, f v)) kvs) = map (\<lambda>(k, v). (k, f v)) (sorted_members kvs)"
  unfolding sorted_members_def
  by (subst sort_map [where b' = "\<lambda>x y. string_less (fst x) (fst y)"])
     (auto simp: fold_mput_map [of f kvs "[]", simplified] split: prod.splits)

lemma fold_mput_subset: "set (fold (\<lambda>(k, v). mput k v) kvs m) \<subseteq> set kvs \<union> set m"
proof (induction kvs arbitrary: m)
  case (Cons kv kvs)
  have "set (mput k v m) \<subseteq> insert (k, v) (set m)" for k v by (induction m) auto
  then show ?case using Cons by (cases kv) fastforce
qed simp

lemma sorted_members_subset: "set (sorted_members kvs) \<subseteq> set kvs"
  using fold_mput_subset [of kvs "[]"] by (simp add: sorted_members_def)

definition reads_back :: "int \<Rightarrow> json \<Rightarrow> bool" where
  "reads_back d j \<longleftrightarrow> (\<forall>r n. ending r \<longrightarrow> 2 * length (json_text j @ r) + 1 \<le> n \<longrightarrow> value_at n d (json_text j @ r) = Some (reread j, r)) \<and>
     (\<exists>c t. json_text j = c # t \<and> \<not> json_space c \<and> c \<notin> set '']}'')"

lemma reads_backD: "reads_back d j \<Longrightarrow> ending r \<Longrightarrow> 2 * length (json_text j @ r) + 1 \<le> n \<Longrightarrow>
    value_at n d (json_text j @ r) = Some (reread j, r)"
  by (simp add: reads_back_def)

lemma skip_ws_text: "reads_back d j \<Longrightarrow> skip_ws (json_text j @ r) = json_text j @ r"
  by (auto simp: reads_back_def skip_ws_def)

lemma skip_comma [simp]: "skip_ws (CHR '','' # r) = CHR '','' # r" "skip_ws (CHR '']'' # r) = CHR '']'' # r"
  "skip_ws (CHR ''}'' # r) = CHR ''}'' # r" "skip_ws (CHR '':'' # r) = CHR '':'' # r" "skip_ws (CHR 0x22 # r) = CHR 0x22 # r"
  by (simp_all add: skip_ws_def json_space_def)

lemma elements_back:
  assumes "\<forall>x \<in> set xs. reads_back d x" and "xs \<noteq> []"
    and "2 * length (join_with '','' (map json_text xs) @ CHR '']'' # r) + 2 \<le> n"
  shows "elements_at n d (join_with '','' (map json_text xs) @ CHR '']'' # r) = Some (map reread xs, r)"
  using assms
proof (induction xs arbitrary: n)
  case (Cons x xs)
  obtain m where n: "n = Suc m" using Cons.prems(3) by (cases n) auto
  have x: "reads_back d x" using Cons.prems(1) by simp
  show ?case
  proof (cases "xs = []")
    case True
    have "value_at m d (json_text x @ CHR '']'' # r) = Some (reread x, CHR '']'' # r)"
      using x Cons.prems(3) by (simp add: reads_back_def n True)
    then show ?thesis by (simp add: n True)
  next
    case False
    let ?t = "join_with '','' (map json_text xs) @ CHR '']'' # r"
    have j: "join_with '','' (map json_text (x # xs)) @ CHR '']'' # r = json_text x @ CHR '','' # ?t"
      using False by (cases xs) auto
    obtain y ys where xs: "xs = y # ys" using False by (cases xs) auto
    have "\<exists>u. ?t = json_text y @ u" by (cases ys) (auto simp: xs)
    moreover have "reads_back d y" using Cons.prems(1) xs by simp
    ultimately have s: "skip_ws ?t = ?t" using skip_ws_text by metis
    have "value_at m d (json_text x @ CHR '','' # ?t) = Some (reread x, CHR '','' # ?t)"
      using x Cons.prems(3) unfolding reads_back_def n j by simp
    moreover have "elements_at m d ?t = Some (map reread xs, r)"
      using Cons.IH [OF _ False, of m] Cons.prems(1,3) unfolding n j by simp
    ultimately show ?thesis unfolding j n by (simp add: s)
  qed
qed simp

definition member_text :: "string \<times> json \<Rightarrow> string" where
  "member_text m = quote (fst m) @ '':'' @ json_text (snd m)"

lemma members_back:
  assumes "\<forall>m \<in> set ms. reads_back d (snd m)" and "ms \<noteq> []"
    and "2 * length (join_with '','' (map member_text ms) @ CHR ''}'' # r) + 1 \<le> n"
  shows "members_at n d (join_with '','' (map member_text ms) @ CHR ''}'' # r) = Some (map (\<lambda>(k, v). (sane k, reread v)) ms, r)"
  using assms
proof (induction ms arbitrary: n)
  case (Cons m ms)
  obtain p where n: "n = Suc p" using Cons.prems(3) by (cases n) auto
  obtain k v where m: "m = (k, v)" by (cases m)
  have v: "reads_back d v" using Cons.prems(1) m by simp
  define u where "u = (if ms = [] then CHR ''}'' # r else CHR '','' # join_with '','' (map member_text ms) @ CHR ''}'' # r)"
  have j: "join_with '','' (map member_text (m # ms)) @ CHR ''}'' # r = CHR 0x22 # escaped k @ CHR 0x22 # CHR '':'' # json_text v @ u"
    by (cases ms) (auto simp: u_def member_text_def m quote_def)
  have e: "ending u" by (simp add: u_def)
  have l: "2 * length (json_text v @ u) + 1 \<le> p" using Cons.prems(3) unfolding j n by simp
  have val: "value_at p d (json_text v @ u) = Some (reread v, u)" using v e l unfolding reads_back_def by blast
  show ?case
  proof (cases "ms = []")
    case True
    then show ?thesis using val unfolding j n by (simp add: scan_escaped skip_ws_text [OF v] u_def m)
  next
    case False
    let ?t = "join_with '','' (map member_text ms) @ CHR ''}'' # r"
    have t: "\<exists>x. ?t = CHR 0x22 # x" using False by (cases ms; cases "tl ms") (auto simp: member_text_def quote_def)
    then have s: "skip_ws ?t = ?t" using skip_comma(5) by metis
    have "members_at p d ?t = Some (map (\<lambda>(k, v). (sane k, reread v)) ms, r)"
      using Cons.IH [OF _ False, of p] Cons.prems(1) l False by (simp add: u_def)
    then show ?thesis using val False unfolding j n by (simp add: scan_escaped skip_ws_text [OF v] u_def m s)
  qed
qed simp

lemma has_prefix_literal: "literal t j (t @ r) = Some (j, r)"
  by (simp add: literal_def)

lemma printable_reads_back: "printable d j \<Longrightarrow> reads_back d j"
proof (induction j arbitrary: d)
  case JNull
  have "value_at n d (''null'' @ r) = Some (JNull, r)" if "1 \<le> n" for n r
    using that has_prefix_literal [of "''null''" JNull r] by (cases n) auto
  then show ?case by (auto simp: reads_back_def json_space_def)
next
  case (JBool b)
  have "value_at n d (''true'' @ r) = Some (JBool True, r)" "value_at n d (''false'' @ r) = Some (JBool False, r)" if "1 \<le> n" for n r
    using that has_prefix_literal [of "''true''" "JBool True" r] has_prefix_literal [of "''false''" "JBool False" r] by (cases n; simp)+
  then show ?case by (cases b) (auto simp: reads_back_def json_space_def)
next
  case (JNum q)
  then obtain j where j: "number_back q = Some j" by auto
  have "value_at n d (json_text (JNum q) @ r) = Some (j, r)" if "ending r" "1 \<le> n" for n r
    using value_number [OF number_back_value [OF j that(1)]] that(2) by (cases n) simp_all
  moreover obtain c t where c: "json_float (f64 q) = c # t"
    using number_back_value [OF j ending_simps(1)] by (cases "json_float (f64 q)") (auto simp: number_value_def scan_number_def minus_sign_def int_part_def)
  moreover have "c \<notin> set ''{[tfn]}'' \<and> c \<noteq> CHR 0x22 \<and> \<not> json_space c"
    using number_back_value [OF j ending_simps(1)] number_start [of c t] digit_start [of c] c by auto
  ultimately show ?case by (auto simp: reads_back_def j)
next
  case (JStr s)
  have "value_at n d (quote s @ r) = Some (JStr (sane s), r)" if "1 \<le> n" for n r
    using that by (cases n) (simp_all add: quote_def scan_escaped)
  then show ?case by (auto simp: reads_back_def quote_def json_space_def)
next
  case (JArr xs)
  have d: "0 < d" using JArr.prems by simp
  have els: "\<forall>x \<in> set xs. reads_back (d - 1) x" using JArr by (simp add: list_all_iff)
  have "value_at n d (json_text (JArr xs) @ r) = Some (reread (JArr xs), r)" if n: "2 * length (json_text (JArr xs) @ r) + 1 \<le> n" for n r
  proof (cases "xs = []")
    case True
    then show ?thesis using n d by (cases n) (simp_all add: array_text_def)
  next
    case False
    let ?t = "join_with '','' (map json_text xs) @ CHR '']'' # r"
    obtain m where m: "n = Suc m" using n by (cases n) auto
    have e: "elements_at m (d - 1) ?t = Some (map reread xs, r)"
      using n by (intro elements_back els False) (simp add: array_text_def m)
    obtain x ys where xs: "xs = x # ys" using False by (cases xs) auto
    have "reads_back (d - 1) x" using els xs by simp
    moreover have "\<exists>u. ?t = json_text x @ u" by (cases ys) (auto simp: xs)
    ultimately obtain c t where c: "?t = c # t" "\<not> json_space c" "c \<notin> set '']}''" by (auto simp: reads_back_def)
    have "json_text (JArr xs) @ r = CHR ''['' # ?t" by (simp add: array_text_def)
    then show ?thesis using e d c unfolding m by (auto simp: skip_ws_def)
  qed
  then show ?case by (auto simp: reads_back_def array_text_def json_space_def)
next
  case (JObj kvs)
  have d: "0 < d" using JObj.prems by simp
  let ?ms = "sorted_members kvs"
  have els: "\<forall>m \<in> set ?ms. reads_back (d - 1) (snd m)"
  proof
    fix m assume "m \<in> set ?ms"
    then have m: "m \<in> set kvs" using sorted_members_subset by blast
    then have "printable (d - 1) (snd m)" using JObj.prems by (auto simp: list_all_iff)
    then show "reads_back (d - 1) (snd m)" using JObj.IH [OF m, of "snd m"] by (cases m) (auto simp: snds.simps)
  qed
  have tx: "json_text (JObj kvs) = CHR ''{'' # join_with '','' (map member_text ?ms) @ ''}''"
    by (simp only: json_text.simps object_text_def sorted_members_map) (simp add: member_text_def [abs_def] comp_def case_prod_unfold)
  have val: "reread (JObj kvs) = JObj (map (\<lambda>(k, v). (sane k, reread v)) ?ms)"
    by (simp only: reread.simps sorted_members_map) (simp add: comp_def case_prod_unfold)
  have "value_at n d (json_text (JObj kvs) @ r) = Some (reread (JObj kvs), r)" if n: "2 * length (json_text (JObj kvs) @ r) + 1 \<le> n" for n r
  proof (cases "?ms = []")
    case True
    then show ?thesis using n d unfolding tx val by (cases n) simp_all
  next
    case False
    let ?t = "join_with '','' (map member_text ?ms) @ CHR ''}'' # r"
    obtain m where m: "n = Suc m" using n by (cases n) auto
    have e: "members_at m (d - 1) ?t = Some (map (\<lambda>(k, v). (sane k, reread v)) ?ms, r)"
      using n unfolding tx by (intro members_back els False) (simp add: m)
    have "\<exists>x. ?t = CHR 0x22 # x" using False by (cases ?ms; cases "tl ?ms") (auto simp: member_text_def quote_def)
    then obtain x where x: "?t = CHR 0x22 # x" by blast
    have "json_text (JObj kvs) @ r = CHR ''{'' # ?t" by (simp del: json_text.simps add: tx)
    then show ?thesis using e d x unfolding m val by simp
  qed
  then show ?case unfolding reads_back_def tx by (auto simp: json_space_def)
qed

text \<open>Printing a value and parsing the text gives the value back.\<close>

theorem parse_json_text:
  assumes "printable max_depth j"
  shows "parse_json (json_text j) = Some (reread j)"
proof -
  have b: "reads_back max_depth j" using assms by (rule printable_reads_back)
  have "value_at (2 * length (json_text j) + 2) max_depth (json_text j @ []) = Some (reread j, [])"
    by (rule reads_backD [OF b]) simp_all
  then show ?thesis using skip_ws_text [OF b, of "[]"] by (simp add: parse_json_def skip_ws_def del: value_at.simps)
qed

end
