(* ===== verification/Reviewer_Props.thy ===== *)
theory Reviewer_Props
  imports Reviewer Runtime_Props Go_Print_Props
begin

text \<open>
  What a run of the teacher may do to the reviews: every review that was not claimed stays as it is, and
  a claimed one ends failed, decided within bounds on an available model, or, when all decisions
  about it are refused, still claimed.
\<close>

section \<open>What a claim changes\<close>

lemma claim_loop_out:
  "claim_loop before batch limit m out = (out', m') \<Longrightarrow> set out \<subseteq> set out' \<and> (\<forall>k y. (k, y) \<in> set m' \<longrightarrow> (k, y) \<in> set m \<or> y \<in> set out')"
proof (induction m arbitrary: out out' m')
  case (Cons kx m)
  obtain k x where kx: "kx = (k, x)" by (cases kx)
  show ?case
  proof (cases "int (length out) \<ge> limit")
    case False
    show ?thesis
    proof (cases "claimable before x")
      case True
      obtain m1 where m1: "claim_loop before batch limit m (out @ [claim_one batch x]) = (out', m1)"
        using Cons.prems False True by (auto simp: kx split: prod.splits)
      then show ?thesis using Cons.IH [OF m1] Cons.prems False True by (auto simp: kx) blast+
    next
      case n: False
      obtain m1 where m1: "claim_loop before batch limit m out = (out', m1)"
        using Cons.prems False n by (auto simp: kx split: prod.splits)
      then show ?thesis using Cons.IH [OF m1] Cons.prems False n by (auto simp: kx) blast+
    qed
  qed (use Cons.prems in \<open>auto simp: kx\<close>)
qed simp

lemma claim_others:
  assumes keyed: "reviews_keyed r" and claim: "reviews_claim before batch limit r = (out, r')" and k: "k \<notin> rv_id ` set out"
  shows "lookup r' k = lookup r k"
proof (cases "r_locked r")
  case False
  obtain m where loop: "claim_loop before batch limit (items r) [] = (out, m)" and r': "r' = r\<lparr>items := m, r_locked := True\<rparr>"
    using claim False by (auto simp: reviews_claim_def split: prod.splits)
  have keys: "map fst m = map fst (items r)" using claim_loop_spec [OF loop] by simp
  have wf: "wf_map m" "wf_map (items r)" using keys keyed by (simp_all add: reviews_keyed_def wf_map_def)
  have same: "(k, y) \<in> set (items r)" if "(k, y) \<in> set m" for y
  proof -
    have "reviews_keyed r'" using claim_members [OF keyed claim] by simp
    then have "rv_id y = k" using that by (simp add: reviews_keyed_def r')
    then show ?thesis using claim_loop_out [OF loop] that k by auto
  qed
  show ?thesis
  proof (cases "map_of m k")
    case None
    then have "k \<notin> fst ` set (items r)" by (metis keys map_of_eq_None_iff set_map)
    then have "map_of (items r) k = None" by (simp add: map_of_eq_None_iff)
    then show ?thesis using None by (simp add: r' lookup_def)
  next
    case (Some y)
    then have "(k, y) \<in> set (items r)" using same map_of_SomeD by fastforce
    then show ?thesis using Some wf by (simp add: r' lookup_def map_of_wf)
  qed
qed (use claim in \<open>simp add: reviews_claim_def\<close>)

section \<open>The loops\<close>

lemma lookup_reviews_apply: "lookup (reviews_apply io k f s) k' = (if k' = k then map_option f (lookup s k') else lookup s k')"
  by (simp add: reviews_apply_def lookup_def split: option.split)

lemma decide_again [simp]: "decide t n d (decide t n' d' x) = decide t n d x"
  by (simp add: decide_def)

lemma review_failed_again [simp]: "review_failed m (review_failed m x) = review_failed m x"
  by (simp add: review_failed_def)

lemma enumerate_snoc: "enumerate n (xs @ [x]) = enumerate n xs @ [(n + length xs, x)]"
  by (induction xs arbitrary: n) auto

text \<open>The last acceptable decision about a review is the one that counts.\<close>

definition last_ruling :: "string list \<Rightarrow> string list \<Rightarrow> string \<Rightarrow> decision list \<Rightarrow> (nat \<times> decision) option" where
  "last_ruling claimed available k ds = find (\<lambda>(i, d). rd_id d = k \<and> acceptable claimed available d) (rev (enumerate 0 ds))"

lemma last_ruling_Some: "last_ruling claimed available k ds = Some (i, d) \<Longrightarrow> d \<in> set ds \<and> k \<in> rd_id ` set ds \<and> rd_id d = k \<and> acceptable claimed available d"
  by (auto simp: last_ruling_def find_Some_iff rev_nth nth_enumerate_eq)

lemma last_ruling_None: "last_ruling claimed available k ds = None \<longleftrightarrow> (\<forall>d \<in> set ds. rd_id d = k \<longrightarrow> \<not> acceptable claimed available d)"
proof -
  have "snd ` set (enumerate 0 ds) = set ds" by (metis map_snd_enumerate set_map)
  then show ?thesis by (force simp: last_ruling_def find_None_iff)
qed

lemma lookup_apply_decisions: "lookup (apply_decisions e teacher claimed available ds s) k =
    (case last_ruling claimed available k ds of
       None \<Rightarrow> lookup s k | Some (i, d) \<Rightarrow> map_option (decide teacher (rve_now e (AtDecision i)) d) (lookup s k))"
proof (induction ds rule: rev_induct)
  case Nil
  then show ?case by (simp add: apply_decisions_def last_ruling_def)
next
  case (snoc d ds)
  show ?case
  proof (cases "acceptable claimed available d")
    case False
    then have "last_ruling claimed available k (ds @ [d]) = last_ruling claimed available k ds"
      by (simp add: last_ruling_def enumerate_snoc)
    then show ?thesis using snoc False by (simp add: apply_decisions_def enumerate_snoc)
  next
    case True
    then have l: "last_ruling claimed available k (ds @ [d]) =
        (if rd_id d = k then Some (length ds, d) else last_ruling claimed available k ds)"
      by (simp add: last_ruling_def enumerate_snoc)
    have a: "apply_decisions e teacher claimed available (ds @ [d]) s = reviews_apply (rve_io e (AtDecision (length ds))) (rd_id d)
        (decide teacher (rve_now e (AtDecision (length ds))) d) (apply_decisions e teacher claimed available ds s)"
      using True by (simp add: apply_decisions_def enumerate_snoc)
    show ?thesis
      by (cases "rd_id d = k"; cases "last_ruling claimed available k ds"; cases "lookup s k")
         (auto simp: l a lookup_reviews_apply snoc split: prod.split)
  qed
qed

lemma lookup_mark_missing: "lookup (mark_missing e batch ds s) k =
    (if k \<in> rv_id ` set batch \<and> k \<notin> rd_id ` set ds then map_option (review_failed missing_text) (lookup s k) else lookup s k)"
proof (induction batch rule: rev_induct)
  case (snoc x batch)
  have "mark_missing e (batch @ [x]) ds s = (if rv_id x \<in> rd_id ` set ds then mark_missing e batch ds s
     else reviews_apply (rve_io e (AtMissing (length batch))) (rv_id x) (review_failed missing_text) (mark_missing e batch ds s))"
    by (simp add: mark_missing_def enumerate_snoc)
  then show ?case using snoc by (auto simp: lookup_reviews_apply option.map_comp comp_def)
qed (simp add: mark_missing_def)

lemma lookup_mark_failed: "lookup (mark_failed e batch msg s) k =
    (if k \<in> rv_id ` set batch then map_option (review_failed msg) (lookup s k) else lookup s k)"
proof (induction batch rule: rev_induct)
  case (snoc x batch)
  have "mark_failed e (batch @ [x]) msg s =
     reviews_apply (rve_io e (AtFailure (length batch))) (rv_id x) (review_failed msg) (mark_failed e batch msg s)"
    by (simp add: mark_failed_def enumerate_snoc)
  then show ?case using snoc by (auto simp: lookup_reviews_apply option.map_comp comp_def)
qed (simp add: mark_failed_def)

section \<open>One run\<close>

lemma compact_keeps [simp]:
  "rw_reviews (snd (review_compact e p msgs sm r)) = rw_reviews r" "rw_model (snd (review_compact e p msgs sm r)) = rw_model r"
  "rw_available (snd (review_compact e p msgs sm r)) = rw_available r"
  by (simp_all add: review_compact_def split: sum.split)

lemma compact_before_keeps [simp]:
  "rw_reviews (compact_before e r) = rw_reviews r" "rw_model (compact_before e r) = rw_model r"
  "rw_available (compact_before e r) = rw_available r"
  by (simp_all add: compact_before_def)

lemma with_defaults_keeps [simp]:
  "rw_reviews (with_defaults r) = rw_reviews r" "rw_model (with_defaults r) = rw_model r" "rw_available (with_defaults r) = rw_available r"
  by (simp_all add: with_defaults_def)

lemma ask_keeps [simp]:
  "rw_reviews (snd (ask_teacher e prompt r)) = rw_reviews r" "rw_model (snd (ask_teacher e prompt r)) = rw_model r"
  "rw_available (snd (ask_teacher e prompt r)) = rw_available r"
proof -
  obtain er r1 where c: "review_compact e AtRecompact (session_messages r) (session_summary r) r = (er, r1)"
    by (cases "review_compact e AtRecompact (session_messages r) (session_summary r) r")
  have k: "rw_reviews r1 = rw_reviews r" "rw_model r1 = rw_model r" "rw_available r1 = rw_available r"
    using compact_keeps [of e AtRecompact "session_messages r" "session_summary r" r] by (simp_all add: c)
  then show "rw_reviews (snd (ask_teacher e prompt r)) = rw_reviews r" "rw_model (snd (ask_teacher e prompt r)) = rw_model r"
    "rw_available (snd (ask_teacher e prompt r)) = rw_available r"
    by (cases "send_batch e AtCall prompt r"; cases er; simp add: ask_teacher_def c)+
qed

text \<open>The verdict on one claimed review, given the decisions of the answer.\<close>

definition ruling_of :: "review_env \<Rightarrow> string \<Rightarrow> string list \<Rightarrow> string list \<Rightarrow> decision list \<Rightarrow> review \<Rightarrow> review" where
  "ruling_of e teacher claimed available ds x =
     (case last_ruling claimed available (rv_id x) ds of
        Some (i, d) \<Rightarrow> decide teacher (rve_now e (AtDecision i)) d x
      | None \<Rightarrow> if rv_id x \<in> rd_id ` set ds then x else review_failed missing_text x)"

lemma finish_reviews:
  "rw_reviews (snd (finish_run e batch prompt out s r)) =
     Some (mark_missing e batch (case out of None \<Rightarrow> [] | Some xs \<Rightarrow> xs)
       (apply_decisions e (rw_model r) (map rv_id batch) (map rm_model (available_models r)) (case out of None \<Rightarrow> [] | Some xs \<Rightarrow> xs) s))"
  by (simp add: finish_run_def Let_def)

text \<open>The answer of the teacher to a claimed batch: an error, or decisions that decode.\<close>

definition teacher_says :: "review_env \<Rightarrow> review list \<Rightarrow> reviewer \<Rightarrow> string + decision list" where
  "teacher_says e batch r =
     (case fst (ask_teacher e (records_json batch) (compact_before e (with_defaults r))) of
        Inl t \<Rightarrow> Inl t
      | Inr raw \<Rightarrow> (case read_decisions raw of None \<Rightarrow> Inl not_strict_text
                   | Some out \<Rightarrow> Inr (case out of None \<Rightarrow> [] | Some xs \<Rightarrow> xs)))"

lemma available_cong: "rw_available r = rw_available r' \<Longrightarrow> available_models r = available_models r'"
  by (simp add: available_models_def)

lemma claimed_error:
  assumes "teacher_says e batch r = Inl t"
  shows "fst (review_claimed e batch s r) = Inl t \<and> rw_reviews (snd (review_claimed e batch s r)) = Some (mark_failed e batch t s)"
  using assms by (auto simp: teacher_says_def review_claimed_def Let_def split: sum.splits option.splits prod.splits)

lemma claimed_decided:
  assumes "teacher_says e batch r = Inr ds"
  shows "fst (review_claimed e batch s r) = Inr \<lparr>rr_claimed = int (length batch),
      rr_reviewed = int (length (filter (acceptable (map rv_id batch) (map rm_model (available_models r))) ds)),
      rr_available = Some (int (length (available_models r)))\<rparr> \<and>
    rw_reviews (snd (review_claimed e batch s r)) = Some (mark_missing e batch ds
       (apply_decisions e (rw_model r) (map rv_id batch) (map rm_model (available_models r)) ds s))"
proof -
  obtain res r2 where a: "ask_teacher e (records_json batch) (compact_before e (with_defaults r)) = (res, r2)"
    by (cases "ask_teacher e (records_json batch) (compact_before e (with_defaults r))")
  have k: "rw_model r2 = rw_model r" "available_models r2 = available_models r"
    using ask_keeps(2,3) [of e "records_json batch" "compact_before e (with_defaults r)"] available_cong [of r2 r] by (simp_all add: a)
  obtain raw out where o: "res = Inr raw" "read_decisions raw = Some out" "ds = (case out of None \<Rightarrow> [] | Some xs \<Rightarrow> xs)"
    using assms by (auto simp: teacher_says_def a split: sum.splits option.splits)
  show ?thesis
    using finish_reviews [of e batch "records_json batch" out s r2]
    by (auto simp: review_claimed_def a o finish_run_def Let_def k split: prod.split)
qed

lemma reviewer_run_cases:
  assumes "rw_reviews r = Some s" and "rw_base r \<noteq> []" and "rw_model r \<noteq> []"
    and "reviews_claim before (batch_name (rve_now e AtStart)) (run_limit limit) s = (batch, s1)" and "batch \<noteq> []"
  shows "reviewer_run e before limit r = review_claimed e batch (claim_done (rve_io e AtClaimed) s1) r"
proof -
  have "\<not> r_locked s" using assms(4,5) by (auto simp: reviews_claim_def)
  then show ?thesis using assms by (simp add: reviewer_run_def)
qed

lemma batch_rulings:
  assumes "rw_reviews r = Some s" and "reviews_keyed s" and "rw_base r \<noteq> []" and "rw_model r \<noteq> []"
    and "reviews_claim before (batch_name (rve_now e AtStart)) (run_limit limit) s = (batch, s1)" and "batch \<noteq> []"
    and "reviewer_run e before limit r = (res, r')"
  shows "\<exists>s'. rw_reviews r' = Some s' \<and> (\<forall>k. k \<notin> rv_id ` set batch \<longrightarrow> lookup s' k = lookup s k) \<and>
     (\<forall>x \<in> set batch. lookup s' (rv_id x) =
        (case teacher_says e batch r of
           Inl t \<Rightarrow> Some (review_failed t x)
         | Inr ds \<Rightarrow> Some (ruling_of e (rw_model r) (map rv_id batch) (map rm_model (available_models r)) ds x))) \<and>
     (res = Inl t \<longleftrightarrow> teacher_says e batch r = Inl t)"
proof -
  have run: "(res, r') = review_claimed e batch (claim_done (rve_io e AtClaimed) s1) r"
    using reviewer_run_cases [OF assms(1,3-6)] assms(7) by simp
  have claimed: "lookup s1 (rv_id x) = Some x" if "x \<in> set batch" for x using claim_members [OF assms(2,5)] that by simp
  note others = claim_others [OF assms(2,5)]
  show ?thesis
  proof (cases "teacher_says e batch r")
    case (Inl u)
    note c = claimed_error [OF Inl, of "claim_done (rve_io e AtClaimed) s1"]
    then show ?thesis using Inl claimed others
      by (intro exI [of _ "mark_failed e batch u (claim_done (rve_io e AtClaimed) s1)"])
         (auto simp: run [symmetric] lookup_mark_failed)
  next
    case (Inr ds)
    note c = claimed_decided [OF Inr, of "claim_done (rve_io e AtClaimed) s1"]
    let ?s = "mark_missing e batch ds (apply_decisions e (rw_model r) (map rv_id batch) (map rm_model (available_models r)) ds
       (claim_done (rve_io e AtClaimed) s1))"
    have "lookup ?s k = lookup s k" if "k \<notin> rv_id ` set batch" for k
    proof -
      have "last_ruling (map rv_id batch) av k ds = None" for av using that by (auto simp: last_ruling_None acceptable_def)
      then show ?thesis using that others [OF that] by (simp add: lookup_mark_missing lookup_apply_decisions)
    qed
    moreover have "lookup ?s (rv_id x) = Some (ruling_of e (rw_model r) (map rv_id batch) (map rm_model (available_models r)) ds x)"
      if "x \<in> set batch" for x
      using claimed [OF that] that last_ruling_Some [of "map rv_id batch" "map rm_model (available_models r)" "rv_id x" ds]
      by (auto simp: lookup_mark_missing lookup_apply_decisions ruling_of_def split: option.split)
    ultimately show ?thesis using c Inr by (intro exI [of _ ?s]) (auto simp: run [symmetric])
  qed
qed

text \<open>What an outcome can be.\<close>

lemma ruling_of_bounds: "ruling_of e teacher claimed available ds x = y \<Longrightarrow>
    (rv_review_status y \<in> {RReviewed, RSkipped} \<and> (rv_recommended y = [] \<or> rv_recommended y \<in> set available) \<and>
       0 \<le> rv_confidence y \<and> rv_confidence y \<le> 1 \<and> 0 \<le> rv_minimum_tier y \<and> rv_minimum_tier y \<le> 10) \<or>
    y = review_failed missing_text x \<or> y = x"
  by (auto simp: ruling_of_def decide_def acceptable_def split: option.splits if_splits dest!: last_ruling_Some)

text \<open>A run that claims nothing leaves the reviews as they are.\<close>

lemma run_claims_nothing:
  assumes "rw_reviews r = Some s" and "reviews_keyed s" and "rw_base r = [] \<or> rw_model r = [] \<or>
      fst (reviews_claim before (batch_name (rve_now e AtStart)) (run_limit limit) s) = []"
  shows "\<exists>s'. rw_reviews (snd (reviewer_run e before limit r)) = Some s' \<and> (\<forall>k. lookup s' k = lookup s k)"
proof -
  obtain batch s1 where c: "reviews_claim before (batch_name (rve_now e AtStart)) (run_limit limit) s = (batch, s1)" by fastforce
  have "lookup s1 k = lookup s k" if "batch = []" for k using claim_others [OF assms(2) c] that by simp
  then show ?thesis using assms c by (auto simp: reviewer_run_def Let_def)
qed

text \<open>A review that a run closes was claimable, and is closed in the name of the teacher with a model of the list, or none.\<close>

lemma run_closes:
  assumes "rw_reviews r = Some s" and "reviews_keyed s"
  shows "\<exists>s'. rw_reviews (snd (reviewer_run e before limit r)) = Some s' \<and>
     (\<forall>k y. lookup s' k = Some y \<and> rv_review_status y \<in> {RReviewed, RSkipped} \<and> lookup s k \<noteq> Some y \<longrightarrow>
        (\<exists>x. lookup s k = Some x \<and> claimable before x) \<and> rv_reviewer_model y = rw_model r \<and>
        (rv_recommended y = [] \<or> rv_recommended y \<in> rm_model ` set (available_models r)) \<and>
        0 \<le> rv_confidence y \<and> rv_confidence y \<le> 1)"
proof (cases "rw_base r = [] \<or> rw_model r = [] \<or> fst (reviews_claim before (batch_name (rve_now e AtStart)) (run_limit limit) s) = []")
  case True
  then show ?thesis using run_claims_nothing [OF assms True] by fastforce
next
  case False
  obtain batch s1 where c: "reviews_claim before (batch_name (rve_now e AtStart)) (run_limit limit) s = (batch, s1)" by fastforce
  obtain res r' where run: "reviewer_run e before limit r = (res, r')" by fastforce
  obtain s' where s': "rw_reviews r' = Some s'" "\<forall>k. k \<notin> rv_id ` set batch \<longrightarrow> lookup s' k = lookup s k"
    "\<forall>x \<in> set batch. lookup s' (rv_id x) = (case teacher_says e batch r of
           Inl t \<Rightarrow> Some (review_failed t x)
         | Inr ds \<Rightarrow> Some (ruling_of e (rw_model r) (map rv_id batch) (map rm_model (available_models r)) ds x))"
    using batch_rulings [OF assms _ _ c _ run, where t = "[]"] False c by simp blast
  have closed: "(\<exists>z. lookup s k = Some z \<and> claimable before z) \<and> rv_reviewer_model y = rw_model r \<and>
        (rv_recommended y = [] \<or> rv_recommended y \<in> rm_model ` set (available_models r)) \<and> 0 \<le> rv_confidence y \<and> rv_confidence y \<le> 1"
    if y: "lookup s' k = Some y" "rv_review_status y \<in> {RReviewed, RSkipped}" "lookup s k \<noteq> Some y" for k y
  proof -
    have "k \<in> rv_id ` set batch" using s'(2) y(1,3) by metis
    then obtain x where x: "x \<in> set batch" "rv_id x = k" by auto
    have m: "rv_review_status x = RProcessing" "\<exists>z. lookup s k = Some z \<and> claimable before z" using claim_members [OF assms(2) c] x by auto
    obtain ds where ds: "y = ruling_of e (rw_model r) (map rv_id batch) (map rm_model (available_models r)) ds x"
      using s'(3) x y by (cases "teacher_says e batch r") (auto simp: review_failed_def)
    have "y = ruling_of e (rw_model r) (map rv_id batch) (map rm_model (available_models r)) ds x \<Longrightarrow> rv_reviewer_model y = rw_model r"
      using y(2) m(1) by (auto simp: ruling_of_def decide_def review_failed_def split: option.splits if_splits)
    then show ?thesis using ruling_of_bounds [OF ds [symmetric]] y(2) m ds by (auto simp: review_failed_def)
  qed
  show ?thesis using s'(1) closed run by (intro exI [of _ s']) auto
qed

text \<open>
  C39. What the teacher may write: a run that claimed a batch touches no other review. When the endpoint
  fails, or its answer is not the JSON that was asked for, the run reports the error and every claimed
  review is failed with that text. Otherwise every claimed review gets the last decision about it whose
  confidence and tier are in range and whose model, when it names one, is on the list of available
  models; a review without any decision is failed; and one whose decisions are all refused is left
  as it was claimed.
\<close>

theorem teacher_rules_only_on_the_batch:
  assumes "rw_reviews r = Some s" and "reviews_keyed s" and "rw_base r \<noteq> []" and "rw_model r \<noteq> []"
    and "reviews_claim before (batch_name (rve_now e AtStart)) (run_limit limit) s = (batch, s1)" and "batch \<noteq> []"
    and "reviewer_run e before limit r = (res, r')"
  shows "\<exists>s'. rw_reviews r' = Some s' \<and> (\<forall>k. k \<notin> rv_id ` set batch \<longrightarrow> lookup s' k = lookup s k) \<and>
     (\<forall>x \<in> set batch. lookup s' (rv_id x) =
        (case teacher_says e batch r of
           Inl t \<Rightarrow> Some (review_failed t x)
         | Inr ds \<Rightarrow> Some (ruling_of e (rw_model r) (map rv_id batch) (map rm_model (available_models r)) ds x))) \<and>
     (res = Inl t \<longleftrightarrow> teacher_says e batch r = Inl t)"
  using assms by (rule batch_rulings)

text \<open>A review whose only decision names a model that is not available stays claimed.\<close>

lemma refused_review_stays_processing:
  assumes "rv_review_status x = RProcessing" and "\<forall>d \<in> set ds. rd_id d = rv_id x \<longrightarrow> \<not> acceptable claimed available d"
    and "rv_id x \<in> rd_id ` set ds"
  shows "rv_review_status (ruling_of e teacher claimed available ds x) = RProcessing"
proof -
  have "last_ruling claimed available (rv_id x) ds = None" using assms(2) by (simp add: last_ruling_None)
  then show ?thesis using assms by (simp add: ruling_of_def)
qed

text \<open>The compaction at the end of a run never happens, however long the conversation is.\<close>

lemma final_compaction_is_void: "review_compact e p [] sm r = (None, r)"
  by (simp add: review_compact_def)

section \<open>An example\<close>

text \<open>The answer decides review x, on no particular model.\<close>

definition sample_ruling :: json where
  "sample_ruling = JObj [(''reviews'', JArr [JObj [(''id'', JStr ''x'')]])]"

definition sample_envelope :: json where
  "sample_envelope = JObj [(''choices'', JArr [JObj [(''message'', JObj [(''content'', JStr (json_text sample_ruling))])]])]"

definition sample_env :: review_env where
  "sample_env = \<lparr>rve_net = (\<lambda>p u k b. CallDone 200 (json_text sample_envelope)), rve_now = (\<lambda>p. 0), rve_io = (\<lambda>p. good_io)\<rparr>"

definition sample_reviewer :: reviewer where
  "sample_reviewer = \<lparr>rw_reviews = Some (reviews_add good_io (sample_review ''x'') new_reviews), rw_session = None, rw_available = None,
     rw_base = ''http://t'', rw_key = [], rw_model = ''teacher'', rw_max_chars = 0, rw_compact_every = 0\<rparr>"

definition sample_settled :: decision where
  "sample_settled = \<lparr>rd_id = ''x'', rd_model = [], rd_tier = 0, rd_over = False, rd_confidence = 0, rd_conclusion = [], rd_skip = False\<rparr>"

lemma sample_texts:
  "parse_json (json_text sample_ruling) = Some sample_ruling" "parse_json (json_text sample_envelope) = Some sample_envelope"
proof -
  have "printable max_depth sample_ruling" "reread sample_ruling = sample_ruling" by code_simp+
  then show "parse_json (json_text sample_ruling) = Some sample_ruling" using parse_json_text by metis
  have "printable max_depth sample_envelope" "reread sample_envelope = sample_envelope" by code_simp+
  then show "parse_json (json_text sample_envelope) = Some sample_envelope" using parse_json_text by metis
qed

lemma sample_decoded: "read_decisions (json_text sample_ruling) = Some (Some [sample_settled])"
proof -
  have "dec_field ''reviews'' dec_decisions None sample_ruling = (Some [sample_settled], True)" by code_simp
  then show ?thesis by (simp add: read_decisions_def sample_texts)
qed

lemma sample_content: "reply_content (take answer_limit (json_text sample_envelope)) = Some (json_text sample_ruling)"
proof -
  have "length (json_text sample_envelope) \<le> 1000" by code_simp
  then have "take answer_limit (json_text sample_envelope) = json_text sample_envelope" by (simp add: answer_limit_def)
  moreover have "dec_field ''choices'' (dec_slice (\<lambda>c. dec_field ''message'' (\<lambda>v acc. dec_field ''content'' dec_string acc v) [] c)) [] sample_envelope =
      ([json_text sample_ruling], True)" by (simp add: sample_envelope_def json_key_eq_def)
  ultimately show ?thesis by (simp add: reply_content_def sample_texts)
qed

lemma sample_says: "teacher_says sample_env batch sample_reviewer = Inr [sample_settled]"
proof -
  have "send_batch sample_env AtCall prompt r = Inr (json_text sample_ruling)" for prompt r
    by (simp add: send_batch_def review_call_def sample_env_def success_status_def sample_content)
  then show ?thesis by (simp add: teacher_says_def ask_teacher_def sample_decoded)
qed

theorem teacher_rules_only_on_the_batch_witness:
  "\<exists>s'. rw_reviews (snd (reviewer_run sample_env 5 1 sample_reviewer)) = Some s' \<and>
     lookup s' ''x'' = Some (decide ''teacher'' 0 sample_settled (claim_one (batch_name 0) (sample_review ''x'')))"
proof -
  let ?s = "reviews_add good_io (sample_review ''x'') new_reviews" and ?x = "claim_one (batch_name 0) (sample_review ''x'')"
  have sample: "default_pending (sample_review k) = sample_review k" "rv_id (sample_review k) = k" "claimable 5 (sample_review k)" for k
    by (simp_all add: sample_review_def default_pending_def claimable_def)
  have its: "items ?s = [(''x'', sample_review ''x'')]" and free: "\<not> r_locked ?s"
    by (simp_all add: reviews_add_def sample store_put_def new_reviews_def persist_store_def)
  then have keyed: "reviews_keyed ?s" by (simp add: reviews_keyed_def wf_map_def sample)
  obtain s1 where c: "reviews_claim 5 (batch_name 0) (run_limit 1) ?s = ([?x], s1)"
    by (simp add: reviews_claim_def its free run_limit_def sample)
  have f: "rw_model sample_reviewer = ''teacher''" "available_models sample_reviewer = []"
    by (simp_all add: sample_reviewer_def available_models_def)
  obtain res r' where run: "reviewer_run sample_env 5 1 sample_reviewer = (res, r')"
    by (cases "reviewer_run sample_env 5 1 sample_reviewer")
  have "\<exists>s'. rw_reviews r' = Some s' \<and> (\<forall>k. k \<notin> rv_id ` set [?x] \<longrightarrow> lookup s' k = lookup ?s k) \<and>
     (\<forall>x \<in> set [?x]. lookup s' (rv_id x) =
        (case teacher_says sample_env [?x] sample_reviewer of
           Inl t \<Rightarrow> Some (review_failed t x)
         | Inr ds \<Rightarrow> Some (ruling_of sample_env (rw_model sample_reviewer) (map rv_id [?x]) (map rm_model (available_models sample_reviewer)) ds x))) \<and>
     (res = Inl [] \<longleftrightarrow> teacher_says sample_env [?x] sample_reviewer = Inl [])"
    by (rule teacher_rules_only_on_the_batch [OF _ keyed _ _ _ _ run])
       (simp_all add: sample_reviewer_def sample_env_def c)
  then obtain s' where s': "rw_reviews r' = Some s'" "lookup s' ''x'' = Some (ruling_of sample_env ''teacher'' [''x''] [] [sample_settled] ?x)"
    by (auto simp: sample_says sample f)
  have "last_ruling [''x''] [] ''x'' [sample_settled] = Some (0, sample_settled)" by code_simp
  then have "ruling_of sample_env ''teacher'' [''x''] [] [sample_settled] ?x = decide ''teacher'' 0 sample_settled ?x"
    by (simp add: ruling_of_def sample) (simp add: sample_env_def)
  with s' show ?thesis by (simp add: run)
qed

end
