(* ===== verification/Paging.thy ===== *)
theory Paging
  imports Http Go_Int
begin

text \<open>
  The pages of the list views (queryLimit and queryOffset of internal/api/reviews.go, and the window that every list handler
  cuts out): a limit between one and a maximum, an offset that is not negative, and the part of
  the list that they select.
\<close>

definition query_limit :: "http_request \<Rightarrow> int \<Rightarrow> int \<Rightarrow> int" where
  "query_limit req fallback maximum =
     (case parse_int (hr_query req ''limit'') of
        None \<Rightarrow> fallback
      | Some v \<Rightarrow> if v \<le> 0 then fallback else if v > maximum then maximum else v)"

definition query_offset :: "http_request \<Rightarrow> int" where
  "query_offset req = (case parse_int (hr_query req ''offset'') of None \<Rightarrow> 0 | Some v \<Rightarrow> if v < 0 then 0 else v)"

text \<open>The window from the offset, clamped to the length, of at most limit entries; Go's slice bounds are in range.\<close>

definition page :: "int \<Rightarrow> int \<Rightarrow> 'a list \<Rightarrow> 'a list" where
  "page limit off xs =
     (let n = int (length xs); o1 = (if off > n then n else off); e = i64 (o1 + limit); e1 = (if e > n then n else e)
      in take (nat e1 - nat o1) (drop (nat o1) xs))"

definition page_of :: "http_request \<Rightarrow> int \<Rightarrow> int \<Rightarrow> 'a list \<Rightarrow> 'a list" where
  "page_of req fallback maximum xs = page (query_limit req fallback maximum) (query_offset req) xs"

lemma query_limit_bounds: "1 \<le> fallback \<Longrightarrow> fallback \<le> maximum \<Longrightarrow> 1 \<le> query_limit req fallback maximum \<and> query_limit req fallback maximum \<le> maximum"
  by (auto simp: query_limit_def split: option.split)

lemma query_offset_nonneg: "0 \<le> query_offset req"
  by (simp add: query_offset_def split: option.split)

lemma page_plain: "0 \<le> off \<Longrightarrow> 0 \<le> limit \<Longrightarrow> int (length xs) + limit < 2 ^ 63 \<Longrightarrow> page limit off xs = take (nat limit) (drop (nat off) xs)"
proof -
  assume h: "0 \<le> off" "0 \<le> limit" "int (length xs) + limit < 2 ^ 63"
  let ?o = "if off > int (length xs) then int (length xs) else off"
  have i: "i64 (?o + limit) = ?o + limit" using h by (intro i64_id) auto
  show ?thesis
  proof (cases "off > int (length xs)")
    case True
    then show ?thesis using h by (simp add: page_def Let_def)
  next
    case False
    then show ?thesis using h i by (simp add: page_def Let_def nat_add_distrib min_def)
  qed
qed

text \<open>No page is longer than its limit, and turning the pages shows every entry once and in order.\<close>

lemma page_length: "0 \<le> off \<Longrightarrow> 0 \<le> limit \<Longrightarrow> int (length xs) + limit < 2 ^ 63 \<Longrightarrow> length (page limit off xs) \<le> nat limit"
  by (simp add: page_plain)

lemma pages_cover:
  assumes "0 < limit" and "int (length xs) + limit < 2 ^ 63" and "int (length xs) \<le> int n * limit"
  shows "concat (map (\<lambda>i. page limit (int i * limit) xs) [0..<n]) = xs"
proof -
  obtain l where l: "limit = int l" "0 < l" using assms(1) by (metis zero_less_imp_eq_int)
  have p: "page limit (int i * limit) xs = take l (drop (i * l) xs)" for i
    using assms l by (subst page_plain) (simp_all flip: of_nat_mult)
  have "concat (map (\<lambda>i. take l (drop (i * l) xs)) [0..<m]) = take (m * l) xs" for m
    by (induction m) (simp_all add: take_add add.commute [of l])
  then have "concat (map (\<lambda>i. page limit (int i * limit) xs) [0..<n]) = take (n * l) xs" by (simp add: p)
  also have "\<dots> = xs" using assms(3) by (simp add: l flip: of_nat_mult)
  finally show ?thesis .
qed

end
