(* ===== verification/Reviews_Api.thy ===== *)
theory Reviews_Api
  imports Knowledge_Api Provider_Registry Reviewer_Props Capability Paging
begin

text \<open>
  The handlers over the reviews and the teacher (internal/api/reviews.go, reviews\_detail.go, reviewer\_candidates.go,
  reviewer\_connection.go, reviewer\_status.go and maintenance.go). The parts of the runtime may be absent
  (None). The start of the local day is a parameter: it depends on the time zone of the host. A list
  shows the reviews in the order of the map.
\<close>

record review_runtime =
  te_reviews :: "reviews option"
  te_session :: "review_session option"
  te_selection :: "reviewer_selection option"

section \<open>Lists\<close>

text \<open>The summary leaves the two packages out.\<close>

definition review_summary :: "review \<Rightarrow> review" where
  "review_summary x = x\<lparr>rv_task_package := [], rv_response_package := [], rv_response_encrypted := False\<rparr>"

record 'a listing =
  ls_items :: "'a list"
  ls_total :: int
  ls_limit :: int
  ls_offset :: int

text \<open>A list handler shows the page of its items, with the offset clamped to their number.\<close>

definition listing_of :: "http_request \<Rightarrow> int \<Rightarrow> int \<Rightarrow> 'a list \<Rightarrow> 'a listing" where
  "listing_of req fallback maximum xs =
     \<lparr>ls_items = page_of req fallback maximum xs, ls_total = int (length xs), ls_limit = query_limit req fallback maximum,
      ls_offset = (if query_offset req > int (length xs) then int (length xs) else query_offset req)\<rparr>"

definition reviews_view :: "http_request \<Rightarrow> reviews option \<Rightarrow> review listing" where
  "reviews_view req rs =
     (case rs of
        None \<Rightarrow> \<lparr>ls_items = [], ls_total = 0, ls_limit = 50, ls_offset = 0\<rparr>
      | Some r \<Rightarrow> (let l = listing_of req 50 200 (reviews_all r) in l\<lparr>ls_items := map review_summary (ls_items l)\<rparr>))"

definition review_pending_only :: "instant \<Rightarrow> http_request \<Rightarrow> reviews \<Rightarrow> (review list \<times> instant) reply" where
  "review_pending_only cutoff req r =
     (if hr_method req \<noteq> ''POST'' then method_not_allowed else Reply (reviews_pending cutoff r, cutoff))"

fun review_status_text :: "review_status \<Rightarrow> string" where
  "review_status_text RUnset = []"
| "review_status_text RPending = ''pending''"
| "review_status_text RProcessing = ''processing''"
| "review_status_text RReviewed = ''reviewed''"
| "review_status_text RFailed = ''failed''"
| "review_status_text RSkipped = ''skipped''"
| "review_status_text (ROther s) = s"

definition review_stats_view :: "reviews option \<Rightarrow> (string, int) gomap" where
  "review_stats_view rs =
     count_status [''pending'', ''processing'', ''reviewed'', ''failed'', ''skipped'']
       (case rs of None \<Rightarrow> [] | Some r \<Rightarrow> map (\<lambda>x. review_status_text (rv_review_status x)) (reviews_all r))"

section \<open>One review\<close>

text \<open>A long package is cut, with a note of how many bytes are missing; the note itself can be cut too.\<close>

definition capped_string :: "string \<Rightarrow> int \<Rightarrow> string" where
  "capped_string d limit =
     (if int (length d) \<le> limit then d
      else (let suffix = [CHR 0xE2, CHR 0x80, CHR 0xA6] @ ''[truncated '' @ itoa (int (length d) - limit) @ '' bytes]'' in
            if int (length suffix) \<ge> limit then take (nat limit) suffix
            else take (nat limit - length suffix) d @ suffix))"

record review_detail =
  rw_summary :: review
  rw_task_size :: int
  rw_response_size :: int
  rw_raw :: "(string \<times> string) option"

definition review_detail_view :: "http_request \<Rightarrow> int \<Rightarrow> reviews option \<Rightarrow> review_detail reply" where
  "review_detail_view req raw_limit rs =
     (case (if hr_method req = ''GET'' then rs else None) of
        None \<Rightarrow> HttpError 503 ''reviews unavailable''
      | Some r \<Rightarrow>
          (let i = trim_space (hr_query req ''id'') in
           if i = [] then HttpError 400 ''id is required''
           else (case reviews_find i r of
               None \<Rightarrow> HttpError 404 ''review not found''
             | Some x \<Rightarrow>
                 (let lim = (if raw_limit \<le> 0 then 64 * 1024 else raw_limit);
                      d = \<lparr>rw_summary = review_summary x, rw_task_size = int (length (rv_task_package x)),
                           rw_response_size = int (length (rv_response_package x)), rw_raw = None\<rparr>
                  in if hr_query req ''raw'' = ''true''
                     then Reply (d\<lparr>rw_raw := Some (capped_string (rv_task_package x) lim, capped_string (rv_response_package x) lim)\<rparr>)
                     else if hr_query req ''raw'' \<noteq> [] then HttpError 400 ''raw must be true when provided''
                     else Reply d))))"

text \<open>The limit of the raw view, read from the request.\<close>

definition review_detail_raw_limit :: "http_request \<Rightarrow> int" where
  "review_detail_raw_limit req =
     (case parse_int (hr_query req ''raw_limit'') of
        None \<Rightarrow> 64 * 1024
      | Some v \<Rightarrow> if v \<le> 0 then 64 * 1024 else if v > 256 * 1024 then 256 * 1024 else v)"

lemma capped_string_length: "0 \<le> limit \<Longrightarrow> int (length (capped_string d limit)) \<le> limit"
  by (auto simp: capped_string_def Let_def)

section \<open>Batches\<close>

record batch_group =
  bg_total :: int
  bg_pending :: int
  bg_processing :: int
  bg_reviewed :: int
  bg_failed :: int
  bg_skipped :: int
  bg_models :: "string list"
  bg_providers :: "string list"
  bg_error :: string

definition empty_group :: batch_group where
  "empty_group = \<lparr>bg_total = 0, bg_pending = 0, bg_processing = 0, bg_reviewed = 0, bg_failed = 0, bg_skipped = 0,
     bg_models = [], bg_providers = [], bg_error = []\<rparr>"

definition append_unique :: "string list \<Rightarrow> string \<Rightarrow> string list" where
  "append_unique xs v = (if v \<in> set xs then xs else xs @ [v])"

definition add_to_group :: "review \<Rightarrow> batch_group \<Rightarrow> batch_group" where
  "add_to_group x g =
     (let one = (\<lambda>st n. if rv_review_status x = st then i64 (n + 1) else n) in
      g\<lparr>bg_total := i64 (bg_total g + 1), bg_pending := one RPending (bg_pending g), bg_processing := one RProcessing (bg_processing g),
        bg_reviewed := one RReviewed (bg_reviewed g), bg_failed := one RFailed (bg_failed g), bg_skipped := one RSkipped (bg_skipped g),
        bg_models := append_unique (bg_models g) (rv_model x), bg_providers := append_unique (bg_providers g) (rv_provider x),
        bg_error := (if rv_error x \<noteq> [] then rv_error x else bg_error g)\<rparr>)"

definition batch_key :: "review \<Rightarrow> string" where
  "batch_key x = (if rv_batch x = [] then ''unbatched'' else rv_batch x)"

definition review_batches_view :: "http_request \<Rightarrow> reviews option \<Rightarrow> (string, batch_group) gomap reply" where
  "review_batches_view req rs =
     (case (if hr_method req = ''GET'' then rs else None) of
        None \<Rightarrow> HttpError 503 ''reviews unavailable''
      | Some r \<Rightarrow> Reply (fold (\<lambda>x m. mput (batch_key x) (add_to_group x (mget empty_group m (batch_key x))) m) (reviews_all r) []))"

section \<open>The choice of the teacher\<close>

text \<open>Without the switches there is no valid teacher.\<close>

definition valid_reviewer_model :: "manager option \<Rightarrow> ops_state option \<Rightarrow> string \<Rightarrow> string \<Rightarrow> bool" where
  "valid_reviewer_model mg ops mid pid \<longleftrightarrow>
     (case (mg, ops) of
        (Some m, Some o1) \<Rightarrow>
          \<not> is_disabled o1 pid \<and>
          list_ex (\<lambda>x. m_id x = mid \<and> m_provider x = pid \<and> m_status x = Active \<and> m_auto_routable x \<and>
                       m_structured_output_known x \<and> m_structured_output x) (cat_models (snapshot m))
      | _ \<Rightarrow> False)"

record reviewer_state =
  rs_config :: reviewer_config
  rs_available :: bool
  rs_label :: string

definition reviewer_status :: "manager option \<Rightarrow> ops_state option \<Rightarrow> reviewer_selection option \<Rightarrow> reviewer_state option" where
  "reviewer_status mg ops sel =
     (case sel of
        None \<Rightarrow> None
      | Some s \<Rightarrow>
          (let c = selection_get s in
           if rg_model c = [] then Some \<lparr>rs_config = c, rs_available = False, rs_label = ''not_selected''\<rparr>
           else if \<not> switched_on ops (rg_provider c)
           then Some \<lparr>rs_config = c, rs_available = False, rs_label = ''provider_disabled''\<rparr>
           else if valid_reviewer_model mg ops (rg_model c) (rg_provider c)
           then Some \<lparr>rs_config = c, rs_available = True, rs_label = ''ready''\<rparr>
           else Some \<lparr>rs_config = c, rs_available = False, rs_label = ''capability_unknown_or_unavailable''\<rparr>))"

definition reviewer_selection_view :: "manager option \<Rightarrow> ops_state option \<Rightarrow> review_runtime \<Rightarrow> reviewer_state reply" where
  "reviewer_selection_view mg ops rt =
     (case reviewer_status mg ops (te_selection rt) of
        None \<Rightarrow> HttpError 503 ''reviewer selection unavailable'' | Some st \<Rightarrow> Reply st)"

definition reviewer_selection_set ::
  "io \<Rightarrow> io \<Rightarrow> instant \<Rightarrow> manager option \<Rightarrow> ops_state option \<Rightarrow> http_request \<Rightarrow> review_runtime \<Rightarrow> reviewer_config reply \<times> review_runtime" where
  "reviewer_selection_set io io' now mg ops req rt =
     (case (if hr_method req = ''POST'' then te_selection rt else None) of
        None \<Rightarrow> (HttpError 400 ''invalid request'', rt)
      | Some s \<Rightarrow>
          (case hr_body req of
             None \<Rightarrow> (HttpError 400 ''model required'', rt)
           | Some j \<Rightarrow>
               (let mid = field ''model'' dec_string [] j; pid = field ''provider'' dec_string [] j in
                if \<not> field_ok ''model'' dec_string [] j \<or> \<not> field_ok ''provider'' dec_string [] j \<or> mid = []
                then (HttpError 400 ''model required'', rt)
                else if \<not> valid_reviewer_model mg ops mid pid
                then (HttpError 409 ''reviewer model unavailable or lacks structured output'', rt)
                else (case selection_set io io' mid pid now (te_session rt) s of
                    (sess, s') \<Rightarrow> (Reply (selection_get s'), rt\<lparr>te_session := sess, te_selection := Some s'\<rparr>)))))"

definition reviewer_selection_clear :: "io \<Rightarrow> io \<Rightarrow> instant \<Rightarrow> review_runtime \<Rightarrow> unit reply \<times> review_runtime" where
  "reviewer_selection_clear io io' now rt =
     (case te_selection rt of
        None \<Rightarrow> (HttpError 503 ''unavailable'', rt)
      | Some s \<Rightarrow>
          (case selection_clear io io' ''cleared by user'' now (te_session rt) s of
             (sess, s') \<Rightarrow> (Reply (), rt\<lparr>te_session := sess, te_selection := Some s'\<rparr>)))"

section \<open>Candidates\<close>

datatype verdict_on_model = CandidateNow | ProbeFirst | ExcludedFor string

definition judge_candidate :: "ops_state option \<Rightarrow> model \<Rightarrow> verdict_on_model" where
  "judge_candidate ops x =
     (if \<not> switched_on ops (m_provider x) then ExcludedFor ''provider_disabled''
      else if m_status x \<noteq> Active then ExcludedFor ''not_active''
      else if \<not> m_auto_routable x then ExcludedFor ''second_approval_pending''
      else if m_structured_output_known x \<and> m_structured_output x then CandidateNow
      else if \<not> m_structured_output_known x then ProbeFirst
      else ExcludedFor ''structured_output_unsupported'')"

fun reason_of :: "verdict_on_model \<Rightarrow> string option" where
  "reason_of CandidateNow = None"
| "reason_of ProbeFirst = Some ''structured_output_unknown''"
| "reason_of (ExcludedFor s) = Some s"

record candidate_listing =
  cl_items :: "model list"
  cl_probe :: "model list"
  cl_excluded :: int
  cl_reasons :: "(string, int) gomap"

definition reviewer_candidates_view :: "ops_state option \<Rightarrow> http_request \<Rightarrow> manager option \<Rightarrow> candidate_listing reply" where
  "reviewer_candidates_view ops req mg =
     (case (if hr_method req = ''GET'' then mg else None) of
        None \<Rightarrow> HttpError 503 ''reviewer candidates unavailable''
      | Some m \<Rightarrow>
          (let ms = cat_models (snapshot m); ok = filter (\<lambda>x. judge_candidate ops x = CandidateNow) ms in
           Reply \<lparr>cl_items = ok, cl_probe = filter (\<lambda>x. judge_candidate ops x = ProbeFirst) ms,
                  cl_excluded = int (length ms) - int (length ok),
                  cl_reasons = count_status [] (List.map_filter (\<lambda>x. reason_of (judge_candidate ops x)) ms)\<rparr>))"

section \<open>A run from the console or the nightly worker\<close>

datatype run_error = ReviewerUnavailable | ReviewerNotSelected | ReviewerProviderUnavailable | RunFailed string

fun run_error_text :: "run_error \<Rightarrow> string" where
  "run_error_text ReviewerUnavailable = ''reviewer unavailable''"
| "run_error_text ReviewerNotSelected = ''reviewer model not selected''"
| "run_error_text ReviewerProviderUnavailable = ''selected reviewer provider unavailable''"
| "run_error_text (RunFailed t) = t"

definition available_for_review :: "ops_state option \<Rightarrow> manager \<Rightarrow> review_model list" where
  "available_for_review ops m = map review_model_of (filter (usable_model ops) (cat_models (snapshot m)))"

text \<open>The Reviewer that a run builds: an empty list of models stays a nil slice.\<close>

definition reviewer_for :: "provider_config \<Rightarrow> string \<Rightarrow> review_model list \<Rightarrow> reviews \<Rightarrow> review_session option \<Rightarrow> reviewer" where
  "reviewer_for c mid ms r sess = \<lparr>rw_reviews = Some r, rw_session = sess, rw_available = (if ms = [] then None else Some ms),
     rw_base = pc_base_url c, rw_key = pc_api_key c, rw_model = mid, rw_max_chars = 0, rw_compact_every = 0\<rparr>"

text \<open>
  The arguments are the catalog, the switches and the configurations as the run reads them when it
  begins; the code does not read them again while it waits for the teacher.
\<close>

definition run_review_batch_before ::
  "review_env \<Rightarrow> configs \<Rightarrow> manager option \<Rightarrow> ops_state option \<Rightarrow> int \<Rightarrow> instant \<Rightarrow> review_runtime \<Rightarrow>
     (run_error + review_report) \<times> review_runtime" where
  "run_review_batch_before e cs mg ops limit before rt =
     (case (te_reviews rt, te_selection rt) of
        (Some r, Some sel) \<Rightarrow>
          (let c = selection_get sel in
           if rg_model c = [] then (Inl ReviewerNotSelected, rt)
           else if \<not> switched_on ops (rg_provider c) then (Inl ReviewerProviderUnavailable, rt)
           else if \<not> valid_reviewer_model mg ops (rg_model c) (rg_provider c) then (Inl ReviewerUnavailable, rt)
           else (case map_of cs (rg_provider c) of
               None \<Rightarrow> (Inl ReviewerProviderUnavailable, rt)
             | Some pc \<Rightarrow>
                 if pc_base_url pc = [] then (Inl ReviewerProviderUnavailable, rt)
                 else (case mg of
                     None \<Rightarrow> (Inl ReviewerUnavailable, rt)
                   | Some m \<Rightarrow>
                       (case reviewer_run e before limit (reviewer_for pc (rg_model c) (available_for_review ops m) r (te_session rt)) of
                          (res, rv) \<Rightarrow>
                            (map_sum RunFailed id res,
                             rt\<lparr>te_reviews := rw_reviews rv, te_session := (if te_session rt = None then None else rw_session rv)\<rparr>)))))
      | _ \<Rightarrow> (Inl ReviewerUnavailable, rt))"

text \<open>The models that the run offers, and the decisions it takes.\<close>

lemma models_for_review [simp]:
  "rm_model ` set (available_models (reviewer_for c mid (available_for_review ops m) r sess)) =
     m_id ` {x \<in> set (cat_models (snapshot m)). usable_model ops x}"
proof -
  have "available_models (reviewer_for c mid ms r sess) = ms" for ms by (simp add: available_models_def reviewer_for_def)
  moreover have "rm_model (review_model_of x) = m_id x" for x by (simp add: review_model_of_def)
  ultimately show ?thesis by (simp add: available_for_review_def image_image)
qed

lemma reviewer_for_parts [simp]:
  "rw_reviews (reviewer_for c mid ms r sess) = Some r" "rw_model (reviewer_for c mid ms r sess) = mid"
  by (simp_all add: reviewer_for_def)

lemma run_closes_with_usable_models:
  assumes "te_reviews rt = Some r" and "reviews_keyed r"
  shows "\<exists>r'. te_reviews (snd (run_review_batch_before e cs mg ops limit before rt)) = Some r' \<and>
     (\<forall>k y. lookup r' k = Some y \<and> rv_review_status y \<in> {RReviewed, RSkipped} \<and> lookup r k \<noteq> Some y \<longrightarrow>
        (\<exists>m sel. mg = Some m \<and> te_selection rt = Some sel \<and> (\<exists>x. lookup r k = Some x \<and> claimable before x) \<and>
           rv_reviewer_model y = rg_model (selection_get sel) \<and>
           valid_reviewer_model mg ops (rg_model (selection_get sel)) (rg_provider (selection_get sel)) \<and>
           (rv_recommended y = [] \<or> (\<exists>x \<in> set (cat_models (snapshot m)). m_id x = rv_recommended y \<and> usable_model ops x))))"
proof (cases "\<exists>m sel pc. mg = Some m \<and> te_selection rt = Some sel \<and> rg_model (selection_get sel) \<noteq> [] \<and>
    switched_on ops (rg_provider (selection_get sel)) \<and>
    valid_reviewer_model mg ops (rg_model (selection_get sel)) (rg_provider (selection_get sel)) \<and>
    map_of cs (rg_provider (selection_get sel)) = Some pc \<and> pc_base_url pc \<noteq> []")
  case True
  then obtain m sel pc where h: "mg = Some m" "te_selection rt = Some sel" "rg_model (selection_get sel) \<noteq> []"
    "switched_on ops (rg_provider (selection_get sel))"
    "valid_reviewer_model mg ops (rg_model (selection_get sel)) (rg_provider (selection_get sel))"
    "map_of cs (rg_provider (selection_get sel)) = Some pc" "pc_base_url pc \<noteq> []" by blast
  let ?r = "reviewer_for pc (rg_model (selection_get sel)) (available_for_review ops m) r (te_session rt)"
  obtain res rv where run: "reviewer_run e before limit ?r = (res, rv)" by fastforce
  have "te_reviews (snd (run_review_batch_before e cs mg ops limit before rt)) = rw_reviews rv"
    using h run assms(1) by (simp add: run_review_batch_before_def Let_def)
  moreover obtain s' where s': "rw_reviews rv = Some s'"
    "\<forall>k y. lookup s' k = Some y \<and> rv_review_status y \<in> {RReviewed, RSkipped} \<and> lookup r k \<noteq> Some y \<longrightarrow>
        (\<exists>x. lookup r k = Some x \<and> claimable before x) \<and> rv_reviewer_model y = rw_model ?r \<and>
        (rv_recommended y = [] \<or> rv_recommended y \<in> rm_model ` set (available_models ?r)) \<and>
        0 \<le> rv_confidence y \<and> rv_confidence y \<le> 1"
    using run_closes [of ?r r e before limit] assms(2) run by auto
  moreover have "\<exists>x \<in> set (cat_models (snapshot m)). m_id x = v \<and> usable_model ops x"
    if "v \<in> rm_model ` set (available_models ?r)" for v using that by auto
  ultimately have "te_reviews (snd (run_review_batch_before e cs mg ops limit before rt)) = Some s'" by simp
  moreover have "(\<exists>x. lookup r k = Some x \<and> claimable before x) \<and> rv_reviewer_model y = rg_model (selection_get sel) \<and>
      (rv_recommended y = [] \<or> (\<exists>x \<in> set (cat_models (snapshot m)). m_id x = rv_recommended y \<and> usable_model ops x))"
    if "lookup s' k = Some y \<and> rv_review_status y \<in> {RReviewed, RSkipped} \<and> lookup r k \<noteq> Some y" for k y
    using s'(2) [rule_format, OF that] by auto
  ultimately show ?thesis using h(1,2,5) by (intro exI [of _ s']) blast
next
  case False
  then have "snd (run_review_batch_before e cs mg ops limit before rt) = rt"
    using assms(1) by (auto simp: run_review_batch_before_def Let_def split: option.split)
  then show ?thesis using assms(1) by auto
qed

definition review_run_limit :: "http_request \<Rightarrow> int" where
  "review_run_limit req =
     (case parse_int (hr_query req ''limit'') of None \<Rightarrow> 20 | Some v \<Rightarrow> if v \<le> 0 then 20 else if v > 100 then 100 else v)"

definition review_before :: "(instant \<Rightarrow> instant) \<Rightarrow> instant \<Rightarrow> http_request \<Rightarrow> instant" where
  "review_before day_start now req = (if hr_query req ''include_today'' = ''true'' then now else day_start now)"

text \<open>A failed run counts against the selection; a provider that is gone drops it at once.\<close>

definition review_run ::
  "review_env \<Rightarrow> (instant \<Rightarrow> instant) \<Rightarrow> instant \<Rightarrow> io \<Rightarrow> io \<Rightarrow> instant \<Rightarrow> configs \<Rightarrow> manager option \<Rightarrow> ops_state option \<Rightarrow>
     http_request \<Rightarrow> review_runtime \<Rightarrow> review_report reply \<times> review_runtime" where
  "review_run e day_start now io io' t cs mg ops req rt =
     (if hr_method req \<noteq> ''POST'' then (method_not_allowed, rt)
      else (case run_review_batch_before e cs mg ops (review_run_limit req) (review_before day_start now req) rt of
          (Inl err, rt1) \<Rightarrow>
            (HttpError (if err = ReviewerNotSelected then 409 else 503) (run_error_text err),
             case te_selection rt1 of
               None \<Rightarrow> rt1
             | Some s \<Rightarrow>
                 (case selection_failure io io' (run_error_text err) (if err = ReviewerProviderUnavailable then 1 else 3) t (te_session rt1) s of
                    (sess, s') \<Rightarrow> rt1\<lparr>te_session := sess, te_selection := Some s'\<rparr>))
        | (Inr rep, rt1) \<Rightarrow>
            (Reply rep, rt1\<lparr>te_selection := map_option (selection_success io t) (te_selection rt1)\<rparr>)))"

section \<open>The test of a teacher (reviewer\_connection.go)\<close>

text \<open>Sending may fail, and so may reading the answer (its first 2 MiB).\<close>

datatype test_reply = TestFailed string | TestDone int "string + string"

record connection_report =
  ct_provider :: string
  ct_model :: string
  ct_network :: bool
  ct_auth :: bool
  ct_http :: bool
  ct_json :: bool
  ct_structured :: bool
  ct_latency :: int
  ct_kind :: string
  ct_status :: "int option"
  ct_error :: "string option"

definition classify_reviewer_http :: "int \<Rightarrow> string" where
  "classify_reviewer_http status =
     (if status = 401 \<or> status = 403 then ''auth''
      else if status \<ge> 500 then ''upstream_5xx''
      else if status = 429 then ''rate_limited''
      else ''http'')"

definition active_model :: "manager option \<Rightarrow> string \<Rightarrow> string \<Rightarrow> bool" where
  "active_model mg pid mid \<longleftrightarrow>
     (case mg of None \<Rightarrow> False
      | Some m \<Rightarrow> list_ex (\<lambda>x. m_provider x = pid \<and> m_id x = mid \<and> m_status x = Active) (cat_models (snapshot m)))"

definition test_question :: string where
  "test_question = ''Return exactly JSON: '' @ object_text [(''ok'', ''true'')]"

text \<open>json.Marshal of the maps, in the order of their keys.\<close>

definition test_payload :: "string \<Rightarrow> string" where
  "test_payload mid = object_text
     [(''max_tokens'', itoa 16), (''messages'', array_text [note_text ''user'' test_question]), (''model'', quote mid),
      (''response_format'', object_text [(''type'', quote ''json_object'')])]"

definition judge_test :: "int \<Rightarrow> test_reply \<Rightarrow> connection_report \<Rightarrow> connection_report" where
  "judge_test latency x r =
     (case x of
        TestFailed e \<Rightarrow> r\<lparr>ct_latency := latency, ct_kind := ''network'', ct_error := Some e\<rparr>
      | TestDone status body \<Rightarrow>
          (let r1 = r\<lparr>ct_latency := latency, ct_network := True, ct_status := Some status, ct_http := success_status status,
                      ct_auth := (status \<noteq> 401 \<and> status \<noteq> 403)\<rparr>
           in if \<not> ct_http r1
              then r1\<lparr>ct_kind := classify_reviewer_http status, ct_error := Some (''provider http '' @ itoa status)\<rparr>
              else (case body of
                  Inl e \<Rightarrow> r1\<lparr>ct_kind := ''network'', ct_error := Some e\<rparr>
                | Inr raw \<Rightarrow>
                    (case reply_content raw of
                       None \<Rightarrow> r1\<lparr>ct_kind := ''json'', ct_error := Some ''provider response is not valid chat JSON''\<rparr>
                     | Some c \<Rightarrow>
                         if unmarshal_map c \<noteq> None then r1\<lparr>ct_json := True, ct_structured := True\<rparr>
                         else r1\<lparr>ct_json := True, ct_kind := ''structured_output'',
                                 ct_error := Some ''message content is not strict JSON''\<rparr>))))"

text \<open>
  The network is given the URL, the Authorization header and the payload. A request that cannot be
  built is reported with no latency.
\<close>

definition reviewer_test ::
  "(string \<Rightarrow> string \<Rightarrow> string \<Rightarrow> string + int \<times> test_reply) \<Rightarrow> configs \<Rightarrow> manager option \<Rightarrow> http_request \<Rightarrow> connection_report reply" where
  "reviewer_test net cs mg req =
     (if hr_method req \<noteq> ''POST'' then method_not_allowed
      else (case hr_body req of
          None \<Rightarrow> HttpError 400 ''invalid JSON body''
        | Some j \<Rightarrow>
            (let pid = field ''provider'' dec_string [] j; mid = field ''model'' dec_string [] j in
             if \<not> field_ok ''provider'' dec_string [] j \<or> \<not> field_ok ''model'' dec_string [] j then HttpError 400 ''invalid JSON body''
             else if \<not> active_model mg pid mid then HttpError 400 ''active model not found''
             else (case map_of cs pid of
                 None \<Rightarrow> HttpError 400 ''provider not found''
               | Some c \<Rightarrow>
                   (let r = \<lparr>ct_provider = pid, ct_model = mid, ct_network = False, ct_auth = False, ct_http = False, ct_json = False,
                             ct_structured = False, ct_latency = 0, ct_kind = [], ct_status = None, ct_error = None\<rparr>
                    in Reply (case net (chat_url (pc_base_url c)) (''Bearer '' @ pc_api_key c) (test_payload mid) of
                         Inl e \<Rightarrow> r\<lparr>ct_kind := ''network'', ct_error := Some e\<rparr>
                       | Inr (latency, x) \<Rightarrow> judge_test latency x r))))))"

lemma test_passes:
  assumes "reviewer_test net cs mg req = Reply r"
  shows "ct_kind r = [] \<longleftrightarrow> ct_structured r"
  using assms
  by (auto simp: reviewer_test_def judge_test_def classify_reviewer_http_def method_not_allowed_def Let_def
      split: if_splits option.splits sum.splits prod.splits test_reply.splits)

section \<open>Pruning and maintenance\<close>

text \<open>time.Duration is an int64 of nanoseconds: the product wraps for very many days.\<close>

definition prune_cut :: "instant \<Rightarrow> int \<Rightarrow> instant" where
  "prune_cut now days = now + i64 (i64 (i64 (- days) * 24) * hour)"

lemma prune_cut_plain: "0 \<le> days \<Longrightarrow> days \<le> 106751 \<Longrightarrow> prune_cut now days = now - days * 24 * hour"
  by (simp add: prune_cut_def duration_units i64_id)

text \<open>A request to keep 106752 days prunes everything that is recorded up to 292 years from now.\<close>

lemma prune_cut_wraps: "prune_cut now 106752 = now + 9223371273709551616"
  by (simp add: prune_cut_def duration_units i64_def)

definition prune_days :: "http_request \<Rightarrow> int" where
  "prune_days req = (case parse_int (hr_query req ''days'') of None \<Rightarrow> 30 | Some x \<Rightarrow> if x > 0 then x else 30)"

definition review_prune ::
  "io \<Rightarrow> io \<Rightarrow> instant \<Rightarrow> http_request \<Rightarrow> reviews option \<Rightarrow> shadow_store option \<Rightarrow>
     (nat \<times> nat \<times> int) reply \<times> reviews option \<times> shadow_store option" where
  "review_prune io io' now req rs ss =
     (if hr_method req \<noteq> ''POST'' then (HttpError 503 ''unavailable'', rs, ss)
      else (let cut = prune_cut now (prune_days req);
                a = (case rs of None \<Rightarrow> (0, None) | Some r \<Rightarrow> (case reviews_prune io cut r of (n, r') \<Rightarrow> (n, Some r')));
                b = (case ss of None \<Rightarrow> (0, None) | Some s \<Rightarrow> (case shadow_prune io' cut s of (n, s') \<Rightarrow> (n, Some s')))
            in (Reply (fst a, fst b, prune_days req), snd a, snd b)))"

text \<open>One tick of the daily maintenance loop.\<close>

definition maintenance_round ::
  "io \<Rightarrow> io \<Rightarrow> io \<Rightarrow> instant \<Rightarrow> instant \<Rightarrow> reviews option \<Rightarrow> shadow_store option \<Rightarrow> knowledge_store option \<Rightarrow>
     reviews option \<times> shadow_store option \<times> knowledge_store option" where
  "maintenance_round io1 io2 io3 now now' rs ss ks =
     (let cut = now + i64 (- 90 * 24 * hour) in
      (map_option (\<lambda>r. snd (reviews_prune io1 cut r)) rs, map_option (\<lambda>s. snd (shadow_prune io2 cut s)) ss,
       map_option (\<lambda>k. snd (knowledge_expire io3 now' k)) ks))"

text \<open>A tick of the nightly worker: twenty reviews from before today; a failure is dropped, not counted against the selection.\<close>

definition review_worker_round ::
  "review_env \<Rightarrow> configs \<Rightarrow> manager option \<Rightarrow> ops_state option \<Rightarrow> (instant \<Rightarrow> instant) \<Rightarrow> instant \<Rightarrow> review_runtime \<Rightarrow> review_runtime" where
  "review_worker_round e cs mg ops day_start now rt = snd (run_review_batch_before e cs mg ops 20 (day_start now) rt)"

section \<open>The property of a run\<close>

text \<open>
  C17. What a run may recommend: a review that is closed by it was waiting before the cut, is closed in the
  name of the teacher that the operator chose (which is on the active list, with its provider switched
  on), and names no model or one that is active, admitted to automatic routing and switched on.
  The catalog and the switches are those that the run reads when it begins: the answer of the
  teacher can take up to 90 seconds and they are not read again, so that a recommended model can have been
  switched off by the time the review is closed.
\<close>

theorem recommendations_are_usable:
  assumes "te_reviews rt = Some r" and "reviews_keyed r"
  shows "\<exists>r'. te_reviews (snd (run_review_batch_before e cs mg ops limit before rt)) = Some r' \<and>
     (\<forall>k y. lookup r' k = Some y \<and> rv_review_status y \<in> {RReviewed, RSkipped} \<and> lookup r k \<noteq> Some y \<longrightarrow>
        (\<exists>m sel. mg = Some m \<and> te_selection rt = Some sel \<and> (\<exists>x. lookup r k = Some x \<and> claimable before x) \<and>
           rv_reviewer_model y = rg_model (selection_get sel) \<and>
           valid_reviewer_model mg ops (rg_model (selection_get sel)) (rg_provider (selection_get sel)) \<and>
           (rv_recommended y = [] \<or> (\<exists>x \<in> set (cat_models (snapshot m)). m_id x = rv_recommended y \<and> usable_model ops x))))"
  using assms by (rule run_closes_with_usable_models)

definition teacher_manager :: manager where
  "teacher_manager = set_models [sample_model\<lparr>m_id := ''teacher'', m_status := Active, m_auto_routable := True,
     m_structured_output_known := True, m_structured_output := True\<rparr>] (new_manager_with_state empty_state)"

definition teacher_runtime :: review_runtime where
  "teacher_runtime = \<lparr>te_reviews = Some (reviews_add good_io (sample_review ''x'') new_reviews), te_session = None,
     te_selection = Some (new_selection\<lparr>doc := blank_reviewer\<lparr>rg_model := ''teacher'', rg_provider := ''p''\<rparr>\<rparr>)\<rparr>"

definition recommending_ruling :: json where
  "recommending_ruling = JObj [(''reviews'', JArr [JObj [(''id'', JStr ''x''), (''recommended_model'', JStr ''teacher'')]])]"

definition recommending_envelope :: json where
  "recommending_envelope = JObj [(''choices'', JArr [JObj [(''message'', JObj [(''content'', JStr (json_text recommending_ruling))])]])]"

definition recommending_env :: review_env where
  "recommending_env = \<lparr>rve_net = (\<lambda>p u k b. CallDone 200 (json_text recommending_envelope)), rve_now = (\<lambda>p. 0), rve_io = (\<lambda>p. good_io)\<rparr>"

definition recommending :: decision where
  "recommending = \<lparr>rd_id = ''x'', rd_model = ''teacher'', rd_tier = 0, rd_over = False, rd_confidence = 0, rd_conclusion = [], rd_skip = False\<rparr>"

definition teacher_config :: provider_config where
  "teacher_config = \<lparr>pc_id = ''p'', pc_name = ''p'', pc_base_url = ''http://t'', pc_api_key = [], pc_kind = [], pc_source = [], pc_enabled = True\<rparr>"

lemma recommending_texts:
  "parse_json (json_text recommending_ruling) = Some recommending_ruling"
  "parse_json (json_text recommending_envelope) = Some recommending_envelope"
proof -
  have "printable max_depth recommending_ruling" "reread recommending_ruling = recommending_ruling" by code_simp+
  then show "parse_json (json_text recommending_ruling) = Some recommending_ruling" using parse_json_text by metis
  have "printable max_depth recommending_envelope" "reread recommending_envelope = recommending_envelope" by code_simp+
  then show "parse_json (json_text recommending_envelope) = Some recommending_envelope" using parse_json_text by metis
qed

lemma recommending_says: "teacher_says recommending_env batch r = Inr [recommending]" if "rw_base r \<noteq> []" "rw_model r \<noteq> []"
proof -
  have dec: "dec_field ''reviews'' dec_decisions None recommending_ruling = (Some [recommending], True)" by code_simp
  have "length (json_text recommending_envelope) \<le> 1000" by code_simp
  then have "take answer_limit (json_text recommending_envelope) = json_text recommending_envelope" by (simp add: answer_limit_def)
  moreover have "dec_field ''choices'' (dec_slice (\<lambda>c. dec_field ''message'' (\<lambda>v acc. dec_field ''content'' dec_string acc v) [] c)) [] recommending_envelope =
      ([json_text recommending_ruling], True)" by (simp add: recommending_envelope_def json_key_eq_def)
  ultimately have content: "reply_content (take answer_limit (json_text recommending_envelope)) = Some (json_text recommending_ruling)"
    by (simp add: reply_content_def recommending_texts)
  have "send_batch recommending_env AtCall prompt r = Inr (json_text recommending_ruling)" for prompt r
    by (simp add: send_batch_def review_call_def recommending_env_def success_status_def content)
  then show ?thesis by (simp add: teacher_says_def ask_teacher_def read_decisions_def recommending_texts dec)
qed

text \<open>The run closes the review, in the name of the teacher, and recommends the teacher itself.\<close>

lemma recommending_run:
  "\<exists>r' y. te_reviews (snd (run_review_batch_before recommending_env [(''p'', teacher_config)] (Some teacher_manager)
       (Some (new_ops blank_disk)) 1 5 teacher_runtime)) = Some r' \<and>
     lookup r' ''x'' = Some y \<and> rv_review_status y = RReviewed \<and> rv_recommended y = ''teacher''"
proof -
  let ?s = "reviews_add good_io (sample_review ''x'') new_reviews" and ?x = "claim_one (batch_name 0) (sample_review ''x'')"
  let ?ops = "Some (new_ops blank_disk)"
  let ?r = "reviewer_for teacher_config ''teacher'' (available_for_review ?ops teacher_manager) ?s None"
  have sample: "default_pending (sample_review k) = sample_review k" "rv_id (sample_review k) = k" "claimable 5 (sample_review k)" for k
    by (simp_all add: sample_review_def default_pending_def claimable_def)
  have its: "items ?s = [(''x'', sample_review ''x'')]" and free: "\<not> r_locked ?s"
    by (simp_all add: reviews_add_def sample store_put_def new_reviews_def persist_store_def)
  then have keyed: "reviews_keyed ?s" by (simp add: reviews_keyed_def wf_map_def sample)
  obtain s1 where c: "reviews_claim 5 (batch_name 0) (run_limit 1) ?s = ([?x], s1)"
    by (simp add: reviews_claim_def its free run_limit_def sample)
  have on: "switched_on ?ops p" "\<not> is_disabled (new_ops blank_disk) p" for p
    by (simp_all add: switched_on_def is_disabled_def new_ops_def mget_def)
  have av: "map rm_model (available_models ?r) = [''teacher'']"
    by (simp add: available_for_review_def reviewer_for_def available_models_def usable_model_def teacher_manager_def snapshot_def set_models_def
        review_model_of_def on)
  have valid: "valid_reviewer_model (Some teacher_manager) ?ops ''teacher'' ''p''"
    by (simp add: valid_reviewer_model_def on teacher_manager_def snapshot_def set_models_def sample_model_def)
  obtain res rv where run: "reviewer_run recommending_env 5 1 ?r = (res, rv)" by fastforce
  have r: "rw_reviews ?r = Some ?s" "rw_base ?r \<noteq> []" "rw_model ?r = ''teacher''" "rw_model ?r \<noteq> []"
    by (simp_all add: reviewer_for_def teacher_config_def)
  have "reviews_claim 5 (batch_name (rve_now recommending_env AtStart)) (run_limit 1) ?s = ([?x], s1)"
    using c by (simp add: recommending_env_def)
  from batch_rulings [OF r(1) keyed r(2,4) this _ run, of "[]"] obtain s' where s': "rw_reviews rv = Some s'"
      "lookup s' ''x'' = Some (ruling_of recommending_env ''teacher'' [''x''] [''teacher''] [recommending] ?x)"
    using recommending_says [OF r(2,4), of "[?x]"] by (auto simp: sample r(3) av)
  have "last_ruling [''x''] [''teacher''] ''x'' [recommending] = Some (0, recommending)" by code_simp
  then have "ruling_of recommending_env ''teacher'' [''x''] [''teacher''] [recommending] ?x = decide ''teacher'' 0 recommending ?x"
    by (simp add: ruling_of_def sample) (simp add: recommending_env_def)
  moreover have "te_reviews (snd (run_review_batch_before recommending_env [(''p'', teacher_config)] (Some teacher_manager) ?ops 1 5 teacher_runtime))
      = rw_reviews rv"
    using run valid on by (simp add: run_review_batch_before_def teacher_runtime_def selection_get_def teacher_config_def)
  ultimately show ?thesis using s' by (auto simp: decide_def recommending_def)
qed

theorem recommendations_are_usable_witness:
  "\<exists>r' y. te_reviews (snd (run_review_batch_before recommending_env [(''p'', teacher_config)] (Some teacher_manager)
       (Some (new_ops blank_disk)) 1 5 teacher_runtime)) = Some r' \<and>
     lookup r' ''x'' = Some y \<and> rv_review_status y = RReviewed \<and> rv_reviewer_model y = ''teacher'' \<and>
     (\<exists>x \<in> set (cat_models (snapshot teacher_manager)). m_id x = rv_recommended y \<and> usable_model (Some (new_ops blank_disk)) x)"
proof -
  let ?s = "reviews_add good_io (sample_review ''x'') new_reviews" and ?ops = "Some (new_ops blank_disk)"
  let ?run = "run_review_batch_before recommending_env [(''p'', teacher_config)] (Some teacher_manager) ?ops 1 5 teacher_runtime"
  obtain r1 y where y: "te_reviews (snd ?run) = Some r1" "lookup r1 ''x'' = Some y" "rv_review_status y = RReviewed" "rv_recommended y = ''teacher''"
    using recommending_run by blast
  have sample: "default_pending (sample_review k) = sample_review k" "rv_id (sample_review k) = k" for k
    by (simp_all add: sample_review_def default_pending_def)
  have its: "items ?s = [(''x'', sample_review ''x'')]"
    by (simp add: reviews_add_def sample store_put_def new_reviews_def persist_store_def)
  then have keyed: "reviews_keyed ?s" by (simp add: reviews_keyed_def wf_map_def sample)
  have rt: "te_reviews teacher_runtime = Some ?s" by (simp add: teacher_runtime_def)
  have "lookup ?s ''x'' = Some (sample_review ''x'')" by (simp add: lookup_def its)
  moreover have "rv_review_status (sample_review ''x'') \<noteq> RReviewed" by (simp add: sample_review_def)
  ultimately have "lookup ?s ''x'' \<noteq> Some y" using y(3) by auto
  moreover obtain r' where r': "te_reviews (snd ?run) = Some r'"
     "\<forall>k y. lookup r' k = Some y \<and> rv_review_status y \<in> {RReviewed, RSkipped} \<and> lookup ?s k \<noteq> Some y \<longrightarrow>
        (\<exists>m sel. Some teacher_manager = Some m \<and> te_selection teacher_runtime = Some sel \<and> (\<exists>x. lookup ?s k = Some x \<and> claimable 5 x) \<and>
           rv_reviewer_model y = rg_model (selection_get sel) \<and>
           valid_reviewer_model (Some teacher_manager) ?ops (rg_model (selection_get sel)) (rg_provider (selection_get sel)) \<and>
           (rv_recommended y = [] \<or> (\<exists>x \<in> set (cat_models (snapshot m)). m_id x = rv_recommended y \<and> usable_model ?ops x)))"
    using recommendations_are_usable [OF rt keyed] by blast
  ultimately obtain sel where "te_selection teacher_runtime = Some sel" "rv_reviewer_model y = rg_model (selection_get sel)"
      "\<exists>x \<in> set (cat_models (snapshot teacher_manager)). m_id x = rv_recommended y \<and> usable_model ?ops x"
    using y by (metis insertCI list.distinct(1) option.inject)
  then show ?thesis using y by (auto simp: teacher_runtime_def selection_get_def)
qed

end
