(* ===== verification/Quality.thy ===== *)
theory Quality
  imports Go_Print Runtime_Stores
begin

text \<open>
  How the answer of a shadow test is judged (internal/runtime/quality.go and task\_package.go). Requests and
  answers are texts here: the code parses them, and some of the strings inside them again.
  strings.ToLower is a parameter, because its table of case pairs is not reproduced.
\<close>

section \<open>Envelopes\<close>

definition dec_values :: "json list decoder" where
  "dec_values j z = (case j of JArr xs \<Rightarrow> (xs, list_all numbers_fit xs) | JNull \<Rightarrow> ([], True) | _ \<Rightarrow> (z, False))"

definition dec_reply :: "(json \<times> json list) decoder" where
  "dec_reply j acc =
     ((fst (dec_field ''content'' dec_value (fst acc) j), fst (dec_field ''tool_calls'' dec_values (snd acc) j)),
      snd (dec_field ''content'' dec_value (fst acc) j) \<and> snd (dec_field ''tool_calls'' dec_values (snd acc) j))"

text \<open>The message of the first choice; None when the text does not decode or has no choice.\<close>

definition first_reply :: "string \<Rightarrow> (json \<times> json list) option" where
  "first_reply text =
     (case parse_json text of
        None \<Rightarrow> None
      | Some j \<Rightarrow>
          (case dec_field ''choices'' (dec_slice (\<lambda>c. dec_field ''message'' dec_reply (JNull, []) c)) [] j of (cs, ok) \<Rightarrow>
             if \<not> ok then None else (case cs of [] \<Rightarrow> None | c # _ \<Rightarrow> Some c)))"

text \<open>semanticMatch decodes the content only, so that bad tool calls are no error there.\<close>

definition first_content :: "string \<Rightarrow> json option" where
  "first_content text =
     (case parse_json text of
        None \<Rightarrow> None
      | Some j \<Rightarrow>
          (case dec_field ''choices'' (dec_slice (\<lambda>c. dec_field ''message'' (\<lambda>v acc. dec_field ''content'' dec_value acc v) JNull c)) [] j of
             (cs, ok) \<Rightarrow> if \<not> ok then None else (case cs of [] \<Rightarrow> None | c # _ \<Rightarrow> Some c)))"

section \<open>Tool calls\<close>

definition tool_value_type :: "json \<Rightarrow> string \<Rightarrow> bool" where
  "tool_value_type v kind =
     (if kind = ''string'' then (case v of JStr _ \<Rightarrow> True | _ \<Rightarrow> False)
      else if kind = ''integer'' then (case v of JNum q \<Rightarrow> f64 q = float_of (fl_to_int64 (Fin (f64 q))) | _ \<Rightarrow> False)
      else if kind = ''number'' then (case v of JNum _ \<Rightarrow> True | _ \<Rightarrow> False)
      else if kind = ''boolean'' then (case v of JBool _ \<Rightarrow> True | _ \<Rightarrow> False)
      else if kind = ''object'' then is_obj v
      else if kind = ''array'' then (case v of JArr _ \<Rightarrow> True | _ \<Rightarrow> False)
      else True)"

text \<open>A value under a key of a map that is an object itself; any other value is none.\<close>

definition sub_object :: "json \<Rightarrow> string \<Rightarrow> json option" where
  "sub_object j k = (case obj_get j k of Some (JObj kvs) \<Rightarrow> Some (JObj kvs) | _ \<Rightarrow> None)"

definition sub_string :: "json \<Rightarrow> string \<Rightarrow> string option" where
  "sub_string j k = (case obj_get j k of Some (JStr s) \<Rightarrow> Some s | _ \<Rightarrow> None)"

definition has_required :: "json \<Rightarrow> json \<Rightarrow> bool" where
  "has_required object item = (case item of JStr name \<Rightarrow> obj_get object name \<noteq> None | _ \<Rightarrow> False)"

definition member_fits :: "json option \<Rightarrow> string \<times> json \<Rightarrow> bool" where
  "member_fits props m =
     (case (case props of None \<Rightarrow> None | Some p \<Rightarrow> sub_object p (fst m)) of
        None \<Rightarrow> True
      | Some rule \<Rightarrow> tool_value_type (snd m) (case sub_string rule ''type'' of None \<Rightarrow> [] | Some t \<Rightarrow> t))"

fun members_of :: "json \<Rightarrow> (string \<times> json) list" where
  "members_of (JObj kvs) = fold (\<lambda>(k, v). mput k v) kvs []"
| "members_of _ = []"

text \<open>The schema JNull is a nil map, and so is the object JNull.\<close>

definition validate_tool_object :: "json \<Rightarrow> json \<Rightarrow> bool" where
  "validate_tool_object object schema =
     (if schema = JNull then True
      else (case obj_get schema ''required'' of Some (JArr xs) \<Rightarrow> list_all (has_required object) xs | _ \<Rightarrow> True) \<and>
           list_all (member_fits (sub_object schema ''properties'')) (members_of object))"

definition dec_tool :: "json \<Rightarrow> (string \<times> json) \<times> bool" where
  "dec_tool j =
     dec_field ''function''
       (\<lambda>f acc. ((fst (dec_field ''name'' dec_string (fst acc) f),
                  fst (dec_field ''parameters'' (\<lambda>v a. if is_obj v then (v, numbers_fit v) else if v = JNull then (JNull, True) else (a, False))
                         (snd acc) f)),
                 snd (dec_field ''name'' dec_string (fst acc) f) \<and>
                 snd (dec_field ''parameters'' (\<lambda>v a. if is_obj v then (v, numbers_fit v) else if v = JNull then (JNull, True) else (a, False))
                         (snd acc) f)))
       ([], JNull) j"

text \<open>The functions a request declares, None when it does not decode.\<close>

definition declared_tools :: "string \<Rightarrow> (string, json) gomap option" where
  "declared_tools req =
     (case parse_json req of
        None \<Rightarrow> None
      | Some j \<Rightarrow>
          (case dec_field ''tools'' (dec_slice dec_tool) [] j of (ts, ok) \<Rightarrow>
             if ok then Some (fold (\<lambda>(n, p). mput n p) (filter (\<lambda>t. fst t \<noteq> []) ts) []) else None))"

definition valid_call :: "(string, json) gomap \<Rightarrow> json \<Rightarrow> bool" where
  "valid_call declared call =
     (case sub_object call ''function'' of
        None \<Rightarrow> False
      | Some fn \<Rightarrow>
          (case sub_string fn ''name'' of
             None \<Rightarrow> False
           | Some name \<Rightarrow>
               if trim_space name = [] then False
               else (case map_of declared name of
                   None \<Rightarrow> False
                 | Some schema \<Rightarrow>
                     (case sub_string fn ''arguments'' of
                        None \<Rightarrow> False
                      | Some args \<Rightarrow>
                          (case unmarshal_map args of None \<Rightarrow> False | Some object \<Rightarrow> validate_tool_object object schema)))))"

definition validate_tools :: "json list \<Rightarrow> string \<Rightarrow> bool" where
  "validate_tools calls req =
     (case declared_tools req of
        None \<Rightarrow> False
      | Some declared \<Rightarrow> list_all (valid_call declared) calls \<and> (calls = [] \<or> declared \<noteq> []))"

definition structured_ok :: "string \<Rightarrow> string \<Rightarrow> bool" where
  "structured_ok req content =
     (if (case parse_json req of None \<Rightarrow> JNull | Some j \<Rightarrow> field ''response_format'' dec_value JNull j) = JNull then True
      else json_valid content)"

section \<open>Similarity\<close>

text \<open>strings.Fields: the parts between runs of blanks.\<close>

function words_of :: "string \<Rightarrow> string \<Rightarrow> string list" where
  "words_of acc s =
     (case s of
        [] \<Rightarrow> if acc = [] then [] else [rev acc]
      | c # cs \<Rightarrow>
          (case find (\<lambda>r. r \<noteq> [] \<and> has_prefix s r) space_runes of
             Some r \<Rightarrow> (if acc = [] then [] else [rev acc]) @ words_of [] (drop (length r) s)
           | None \<Rightarrow> words_of (c # acc) cs))"
  by pat_completeness auto
termination
  by (relation "measure (\<lambda>(acc, s). length s)") (auto simp: find_Some_iff)

declare words_of.simps [simp del]

text \<open>The cutset of Trim: ASCII punctuation and ten full-width marks.\<close>

definition punctuation :: "string list" where
  "punctuation = map (\<lambda>c. [c]) (''.,!?;:()[]{}'' @ [CHR 0x22, CHR 0x27, CHR 0x60]) @
     [[CHR 0xEF, CHR 0xBC, CHR 0x8C], [CHR 0xE3, CHR 0x80, CHR 0x82], [CHR 0xEF, CHR 0xBC, CHR 0x81], [CHR 0xEF, CHR 0xBC, CHR 0x9F],
      [CHR 0xEF, CHR 0xBC, CHR 0x9B], [CHR 0xEF, CHR 0xBC, CHR 0x9A], [CHR 0xEF, CHR 0xBC, CHR 0x88], [CHR 0xEF, CHR 0xBC, CHR 0x89],
      [CHR 0xE3, CHR 0x80, CHR 0x90], [CHR 0xE3, CHR 0x80, CHR 0x91]]"

definition tokens :: "(string \<Rightarrow> string) \<Rightarrow> string \<Rightarrow> string list" where
  "tokens lower s =
     filter (\<lambda>v. length v \<ge> 2) (map (\<lambda>v. trim_right punctuation (trim_left punctuation v)) (words_of [] (lower s)))"

definition overlap :: "string list \<Rightarrow> string list \<Rightarrow> bool" where
  "overlap a b =
     (if a = [] \<or> b = [] then False
      else (let hit = float_of (int (length (filter (\<lambda>v. v \<in> set a) b))) in
            fdiv hit (float_of (int (length a))) \<ge> f64 (1 / 5) \<or> fdiv hit (float_of (int (length b))) \<ge> f64 (7 / 20)))"

definition semantic_match :: "(string \<Rightarrow> string) \<Rightarrow> string \<Rightarrow> string \<Rightarrow> bool" where
  "semantic_match lower original candidate =
     (if original = [] then True
      else (case first_content original of
          None \<Rightarrow> True
        | Some c \<Rightarrow> overlap (tokens lower (sprint c)) (tokens lower candidate)))"

section \<open>The verdict\<close>

record quality =
  ql_transport :: bool
  ql_protocol :: bool
  ql_content :: bool
  ql_structured :: bool
  ql_tools :: bool
  ql_semantic :: bool
  ql_conclusion :: string
  ql_cause :: failure_cause

definition no_quality :: quality where
  "no_quality = \<lparr>ql_transport = True, ql_protocol = False, ql_content = False, ql_structured = False, ql_tools = False,
     ql_semantic = False, ql_conclusion = [], ql_cause = CauseNone\<rparr>"

definition conclude :: "string \<Rightarrow> quality \<Rightarrow> quality" where
  "conclude original q =
     (if \<not> ql_content q then q\<lparr>ql_cause := CauseCapability, ql_conclusion := ''empty_content''\<rparr>
      else if \<not> ql_structured q then q\<lparr>ql_cause := CauseProtocol, ql_conclusion := ''structured_output_invalid''\<rparr>
      else if original \<noteq> [] \<and> \<not> ql_semantic q
      then q\<lparr>ql_cause := CauseCapability, ql_conclusion := ''semantic_similarity_below_threshold''\<rparr>
      else q\<lparr>ql_conclusion := ''quality_checks_ok''\<rparr>)"

definition evaluate_response ::
  "(string \<Rightarrow> string) \<Rightarrow> string \<Rightarrow> string \<Rightarrow> string \<Rightarrow> quality" where
  "evaluate_response lower raw request original =
     (if \<not> json_valid raw then no_quality\<lparr>ql_cause := CauseProtocol, ql_conclusion := ''invalid_json''\<rparr>
      else (case first_reply raw of
          None \<Rightarrow> no_quality\<lparr>ql_cause := CauseProtocol, ql_conclusion := ''missing_choices''\<rparr>
        | Some (c, calls) \<Rightarrow>
            (let content = sprint c in
             conclude original (no_quality\<lparr>ql_protocol := True, ql_content := (trim_space content \<noteq> []),
               ql_tools := validate_tools calls request, ql_structured := structured_ok request content,
               ql_semantic := semantic_match lower original content\<rparr>))))"

section \<open>Stored requests (task\_package.go)\<close>

text \<open>The packages are stored in the clear: nothing is encrypted.\<close>

definition encrypt_task_package :: "string \<Rightarrow> string \<times> bool" where
  "encrypt_task_package b = (b, True)"

definition decrypt_task_package :: "string \<Rightarrow> string \<times> bool" where
  "decrypt_task_package b = (b, b \<noteq> [])"

text \<open>A message loses its tool calls, and the result of a tool is replaced by a note.\<close>

definition sanitize_message :: "json \<Rightarrow> json" where
  "sanitize_message v =
     (if \<not> is_obj v then v
      else (let m = obj_del ''tool_calls'' v in
            if obj_get m ''role'' = Some (JStr ''tool'')
            then obj_put ''content'' (JStr ''[shadow tool result omitted]'') m else m))"

definition sanitize_object :: "json \<Rightarrow> json" where
  "sanitize_object x =
     (let x1 = obj_del ''parallel_tool_calls'' (obj_del ''tool_choice'' x) in
      case obj_get x1 ''messages'' of
        Some (JArr m) \<Rightarrow> obj_put ''messages'' (JArr (map sanitize_message m)) x1
      | _ \<Rightarrow> x1)"

text \<open>Deleting from a nil map does nothing, and a nil map is written as null.\<close>

definition sanitize_shadow_request :: "string \<Rightarrow> string" where
  "sanitize_shadow_request b =
     (case unmarshal_map b of None \<Rightarrow> b | Some x \<Rightarrow> json_text (sanitize_object x))"

section \<open>What the verdict says\<close>

lemma conclude_fields [simp]:
  "ql_content (conclude o1 q) = ql_content q" "ql_tools (conclude o1 q) = ql_tools q" "ql_semantic (conclude o1 q) = ql_semantic q"
  "ql_structured (conclude o1 q) = ql_structured q"
  by (simp_all add: conclude_def)

lemma conclude_ok: "ql_conclusion (conclude o1 q) = ''quality_checks_ok'' \<longleftrightarrow> ql_content q \<and> ql_structured q \<and> (o1 = [] \<or> ql_semantic q)"
  by (simp add: conclude_def)

text \<open>An answer with the content null has content, the text that fmt gives a nil value.\<close>

lemma null_content_counts:
  assumes "first_reply raw = Some (JNull, calls)" and "json_valid raw"
  shows "ql_content (evaluate_response lower raw request original)"
proof -
  have "trim_space ''<nil>'' = ''<nil>''" by code_simp
  then show ?thesis using assms by (simp add: evaluate_response_def Let_def)
qed

text \<open>A bad tool call does not change the conclusion: the check of the calls is only reported beside it.\<close>

lemma tools_do_not_decide:
  assumes "first_reply raw = Some (c, calls)" and "first_reply raw' = Some (c, calls')" and "json_valid raw" and "json_valid raw'"
  shows "ql_conclusion (evaluate_response lower raw request original) = ql_conclusion (evaluate_response lower raw' request original)"
  using assms by (simp add: evaluate_response_def conclude_def Let_def)

text \<open>An answer that is too short to have a token does not match itself.\<close>

lemma short_answers_never_match:
  assumes "first_content original = Some c" and "original \<noteq> []" and "tokens lower (sprint c) = []"
  shows "\<not> semantic_match lower original (sprint c)"
  using assms by (simp add: semantic_match_def overlap_def)

lemma overlap_self: "a \<noteq> [] \<Longrightarrow> overlap a a"
proof -
  assume a: "a \<noteq> []"
  then have "0 < float_of (int (length a))" by (intro float_of_pos) simp
  then have "fdiv (float_of (int (length a))) (float_of (int (length a))) = 1" by (simp add: fdiv_def)
  moreover have "f64 (1 / 5) \<le> 1" using f64_unit [of "1 / 5"] by simp
  ultimately show ?thesis using a by (simp add: overlap_def Let_def)
qed

end
