(* ===== verification/Shadow_Api.thy ===== *)
theory Shadow_Api
  imports Reviews_Api Quality
begin

text \<open>
  Shadow tests (internal/api/shadow.go, shadow\_batch.go, shadow\_batch\_retry.go, shadow\_worker.go): the request of
  a reviewed task is sent again, to a candidate model, and its answer is judged; a batch does so for a
  list of reviews in a goroutine of its own. An operator can stop and retry a batch at any moment, so
  the goroutine is cut into its atomic steps and a world interleaves them with the handlers. A
  panic in a goroutine of a batch ends the process (None); one in a handler or in the nightly worker is
  recovered.
\<close>

section \<open>The stores and the outside\<close>

record shadow_state =
  ss_knowledge :: "knowledge_store option"
  ss_reviews :: "reviews option"
  ss_shadow :: "shadow_store option"

text \<open>What a call of the handler meets: the catalog, the switches, the configured providers, the network, the clock and the disk.\<close>

record shadow_env =
  se_manager :: "manager option"
  se_ops :: "ops_state option"
  se_configs :: configs
  se_lower :: "string \<Rightarrow> string"
  se_net :: "string \<Rightarrow> string option \<Rightarrow> string \<Rightarrow> call_reply"
  se_start :: instant
  se_done :: instant
  se_latency :: int
  se_io_put :: io
  se_io_apply :: io
  se_io_know :: io

section \<open>The request that is sent\<close>

text \<open>Assigning to the nil map that null decodes to panics.\<close>

definition replace_shadow_model :: "string \<Rightarrow> string \<Rightarrow> string option" where
  "replace_shadow_model b name =
     (case unmarshal_map b of
        None \<Rightarrow> Some b
      | Some x \<Rightarrow> if is_obj x then Some (json_text (obj_put ''model'' (JStr name) x)) else None)"

definition shadow_body :: "string \<Rightarrow> string \<Rightarrow> string option" where
  "shadow_body plain candidate = replace_shadow_model (sanitize_shadow_request plain) candidate"

definition parse_shadow_needs_structured :: "string \<Rightarrow> bool" where
  "parse_shadow_needs_structured b \<longleftrightarrow>
     (case parse_json b of None \<Rightarrow> False | Some j \<Rightarrow> field ''response_format'' dec_value JNull j \<noteq> JNull)"

section \<open>One test\<close>

record shadow_outcome =
  so_id :: string
  so_success :: bool
  so_status :: int
  so_protocol :: bool

definition shadow_gone :: "'a reply" where
  "shadow_gone = HttpError 503 ''shadow unavailable''"

definition shadow_fail :: "io \<Rightarrow> instant \<Rightarrow> string \<Rightarrow> string \<Rightarrow> shadow_store \<Rightarrow> shadow_store" where
  "shadow_fail io now k e s =
     snd (shadow_apply io k (\<lambda>x. x\<lparr>sr_status := ShadowFailed, sr_error := e, sr_cause := CauseProvider\<rparr>) now s)"

definition running_result :: "string \<Rightarrow> string \<Rightarrow> string \<Rightarrow> string \<Rightarrow> string \<Rightarrow> instant \<Rightarrow> shadow_result" where
  "running_result k kid rid bid candidate now = \<lparr>sr_id = k, sr_knowledge = kid, sr_review = rid, sr_batch = bid, sr_candidate = candidate,
     sr_status = ShadowRunning, sr_http_status = 0, sr_latency = 0, sr_protocol_ok = False, sr_structured_ok = False,
     sr_tool_compatible = False, sr_semantic_match = False, sr_conclusion = [], sr_success = False, sr_cause = CauseNone,
     sr_error = [], sr_created_at = now, sr_updated_at = now\<rparr>"

definition shadow_id :: "string \<Rightarrow> string \<Rightarrow> string \<Rightarrow> string \<Rightarrow> string" where
  "shadow_id bid kid rid candidate = (if bid = [] then [] else bid @ ''|'') @ kid @ ''|'' @ rid @ ''|'' @ candidate"

definition shadow_cause :: "int \<Rightarrow> quality \<Rightarrow> failure_cause" where
  "shadow_cause status q =
     (if status = 429 then CauseRateLimit
      else if status \<ge> 500 then CauseProvider
      else if \<not> ql_protocol q \<or> \<not> ql_tools q then CauseProtocol
      else CauseUnknown)"

definition shadow_succeeded :: "int \<Rightarrow> string \<Rightarrow> quality \<Rightarrow> bool" where
  "shadow_succeeded status body q \<longleftrightarrow>
     success_status status \<and> ql_protocol q \<and> ql_content q \<and> ql_tools q \<and>
     (\<not> parse_shadow_needs_structured body \<or> ql_structured q)"

definition judged :: "int \<Rightarrow> int \<Rightarrow> string \<Rightarrow> quality \<Rightarrow> shadow_result \<Rightarrow> shadow_result" where
  "judged latency status body q x =
     x\<lparr>sr_status := ShadowCompleted, sr_http_status := status, sr_latency := latency, sr_protocol_ok := ql_protocol q,
       sr_structured_ok := ql_structured q, sr_tool_compatible := ql_tools q, sr_semantic_match := ql_semantic q,
       sr_conclusion := ql_conclusion q, sr_success := shadow_succeeded status body q, sr_cause := shadow_cause status q\<rparr>"

text \<open>The answer is read up to 32 MiB.\<close>

definition shadow_limit :: nat where
  "shadow_limit = 32 * 2 ^ 20"

text \<open>The exchange: the result is put as running before the request is built, and closed after the answer.\<close>

definition shadow_exchange ::
  "shadow_env \<Rightarrow> provider_config \<Rightarrow> string \<Rightarrow> string \<Rightarrow> string \<Rightarrow> review \<Rightarrow> shadow_store \<Rightarrow> knowledge_store \<Rightarrow>
     shadow_outcome reply option \<times> shadow_store \<times> knowledge_store" where
  "shadow_exchange e pc k kid candidate task s0 ks =
     (case decrypt_task_package (rv_task_package task) of
        (plain, False) \<Rightarrow>
          (Some (HttpError 409 ''task package unavailable''),
           snd (shadow_apply (se_io_apply e) k (\<lambda>x. x\<lparr>sr_status := ShadowFailed, sr_error := ''task package unavailable'', sr_cause := CauseProtocol\<rparr>)
             (se_done e) s0), ks)
      | (plain, True) \<Rightarrow>
          (case shadow_body plain candidate of
             None \<Rightarrow> (None, s0, ks)
           | Some body \<Rightarrow>
               (case se_net e (chat_url (pc_base_url pc)) (if pc_api_key pc = [] then None else Some (bearer (pc_api_key pc))) body of
                  CallFailed t \<Rightarrow> (Some (HttpError 502 t), shadow_fail (se_io_apply e) (se_done e) k t s0, ks)
                | CallDone status raw \<Rightarrow>
                    (let q = evaluate_response (se_lower e) (take shadow_limit raw) body
                               (if rv_response_captured task then rv_response_package task else []);
                         ok = (shadow_succeeded status body q \<and> ql_protocol q)
                     in (Some (Reply \<lparr>so_id = k, so_success = ok, so_status = status, so_protocol = ql_protocol q\<rparr>),
                         snd (shadow_apply (se_io_apply e) k (judged (se_latency e) status body q) (se_done e) s0),
                         snd (record_validation (se_io_know e) kid (''shadow-'' @ k) ok (shadow_cause status q)
                                ''automatic shadow replay'' (se_done e) ks))))))"

text \<open>
  The provider is that of the first model of the catalog with the id of the candidate, whatever its
  status. The fallback to the recommended model is dead: a blank candidate is refused before.
\<close>

definition candidate_provider :: "manager \<Rightarrow> string \<Rightarrow> string" where
  "candidate_provider m candidate = (case find (\<lambda>x. m_id x = candidate) (cat_models (snapshot m)) of None \<Rightarrow> [] | Some x \<Rightarrow> m_provider x)"

record shadow_request =
  sq_knowledge :: string
  sq_review :: string
  sq_candidate :: string
  sq_batch :: string

definition shadow_fields :: "json option \<Rightarrow> shadow_request option" where
  "shadow_fields body =
     (case body of None \<Rightarrow> None
      | Some j \<Rightarrow>
          if list_all (\<lambda>k. field_ok k dec_string [] j) [''knowledge_id'', ''review_id'', ''candidate_model'', ''batch_id'']
          then Some \<lparr>sq_knowledge = field ''knowledge_id'' dec_string [] j, sq_review = field ''review_id'' dec_string [] j,
                     sq_candidate = field ''candidate_model'' dec_string [] j, sq_batch = field ''batch_id'' dec_string [] j\<rparr>
          else None)"

definition shadow_run :: "shadow_env \<Rightarrow> http_request \<Rightarrow> shadow_state \<Rightarrow> shadow_outcome reply option \<times> shadow_state" where
  "shadow_run e req st =
     (case (if hr_method req = ''POST'' then (ss_shadow st, ss_knowledge st, ss_reviews st) else (None, None, None)) of
        (Some s, Some ks, Some rs) \<Rightarrow>
          (case shadow_fields (hr_body req) of
             None \<Rightarrow> (Some (HttpError 400 ''knowledge_id, review_id and candidate_model required''), st)
           | Some q \<Rightarrow>
               if sq_knowledge q = [] \<or> sq_review q = [] \<or> trim_space (sq_candidate q) = []
               then (Some (HttpError 400 ''knowledge_id, review_id and candidate_model required''), st)
               else (case (find_knowledge (sq_knowledge q) ks, reviews_find (sq_review q) rs) of
                   (Some k, Some task) \<Rightarrow>
                     if kn_status k \<noteq> KTrusted then (Some (HttpError 409 ''knowledge must be trusted''), st)
                     else if \<not> rv_replayable task \<or> rv_task_package task = [] then (Some (HttpError 409 ''task package unavailable''), st)
                     else (case (if model_available (se_manager e) (se_ops e) (sq_candidate q) then se_manager e else None) of
                         None \<Rightarrow> (Some (HttpError 409 ''candidate unavailable''), st)
                       | Some m \<Rightarrow>
                           (case map_of (se_configs e) (candidate_provider m (sq_candidate q)) of
                              None \<Rightarrow> (Some (HttpError 503 ''provider unavailable''), st)
                            | Some pc \<Rightarrow>
                                if pc_base_url pc = [] then (Some (HttpError 503 ''provider unavailable''), st)
                                else (let i = shadow_id (sq_batch q) (sq_knowledge q) (sq_review q) (sq_candidate q);
                                          s0 = shadow_put (se_io_put e) (running_result i (sq_knowledge q) (sq_review q) (sq_batch q)
                                                 (sq_candidate q) (se_start e)) s
                                      in case shadow_exchange e pc i (sq_knowledge q) (sq_candidate q) task s0 ks of
                                          (res, s1, ks1) \<Rightarrow> (res, st\<lparr>ss_shadow := Some s1, ss_knowledge := Some ks1\<rparr>))))
                 | _ \<Rightarrow> (Some (HttpError 404 ''source not found''), st)))
      | _ \<Rightarrow> (Some shadow_gone, st))"

section \<open>Lists of results\<close>

fun shadow_status_text :: "shadow_status \<Rightarrow> string" where
  "shadow_status_text ShadowPending = ''pending''"
| "shadow_status_text ShadowRunning = ''running''"
| "shadow_status_text ShadowCompleted = ''completed''"
| "shadow_status_text ShadowSkipped = ''skipped''"
| "shadow_status_text ShadowFailed = ''failed''"
| "shadow_status_text (ShadowOther s) = s"

fun batch_status_text :: "batch_status \<Rightarrow> string" where
  "batch_status_text BPending = ''pending''"
| "batch_status_text BRunning = ''running''"
| "batch_status_text BCompleted = ''completed''"
| "batch_status_text BStopped = ''stopped''"
| "batch_status_text BFailed = ''failed''"
| "batch_status_text (BOther s) = s"

text \<open>A blank filter lets everything through.\<close>

definition passes :: "string \<Rightarrow> string \<Rightarrow> bool" where
  "passes wanted value \<longleftrightarrow> wanted = [] \<or> value = wanted"

definition nothing_listed :: "http_request \<Rightarrow> int \<Rightarrow> 'a listing" where
  "nothing_listed req maximum = \<lparr>ls_items = [], ls_total = 0, ls_limit = query_limit req 50 maximum, ls_offset = query_offset req\<rparr>"

definition shadow_view :: "http_request \<Rightarrow> shadow_store option \<Rightarrow> shadow_result listing" where
  "shadow_view req ss =
     (case ss of
        None \<Rightarrow> nothing_listed req 200
      | Some s \<Rightarrow>
          listing_of req 50 200
            (filter (\<lambda>x. passes (trim_space (hr_query req ''status'')) (shadow_status_text (sr_status x)) \<and>
                         passes (trim_space (hr_query req ''batch_id'')) (sr_batch x) \<and>
                         passes (trim_space (hr_query req ''knowledge_id'')) (sr_knowledge x)) (shadow_all s)))"

definition shadow_batches_view :: "http_request \<Rightarrow> shadow_batches option \<Rightarrow> shadow_batch listing" where
  "shadow_batches_view req bs =
     (case bs of
        None \<Rightarrow> nothing_listed req 100
      | Some b \<Rightarrow>
          listing_of req 50 100
            (filter (\<lambda>x. passes (trim_space (hr_query req ''status'')) (batch_status_text (sb_status x)) \<and>
                         passes (trim_space (hr_query req ''knowledge_id'')) (sb_knowledge x)) (batches_all b)))"

definition shadow_batch_detail :: "http_request \<Rightarrow> shadow_batches option \<Rightarrow> shadow_batch reply" where
  "shadow_batch_detail req bs =
     (case bs of
        None \<Rightarrow> HttpError 503 ''shadow batches unavailable''
      | Some b \<Rightarrow>
          (let k = trim_space (hr_query req ''id'') in
           if k = [] then HttpError 400 ''id is required''
           else (case batches_get k b of None \<Rightarrow> HttpError 404 ''batch not found'' | Some x \<Rightarrow> Reply x)))"

section \<open>Stopping, starting and retrying a batch\<close>

text \<open>The id is that of the body, or of the query when the body has none; errors of the body are ignored.\<close>

definition batch_id_of :: "http_request \<Rightarrow> string" where
  "batch_id_of req =
     (let k = (case hr_body req of None \<Rightarrow> [] | Some j \<Rightarrow> field ''batch_id'' dec_string [] j)
      in if k = [] then hr_query req ''batch_id'' else k)"

definition shadow_batch_stop ::
  "io \<Rightarrow> instant \<Rightarrow> http_request \<Rightarrow> shadow_batches option \<Rightarrow> shadow_batch option reply \<times> shadow_batches option" where
  "shadow_batch_stop io now req bs =
     (case (if hr_method req = ''POST'' then bs else None) of
        None \<Rightarrow> (HttpError 503 ''shadow batches unavailable'', bs)
      | Some b \<Rightarrow>
          (let k = batch_id_of req in
           if k = [] then (HttpError 400 ''batch_id required'', bs)
           else (case batches_stop io k now b of
               (False, b') \<Rightarrow> (HttpError 404 ''batch not found'', Some b')
             | (True, b') \<Rightarrow> (Reply (batches_get k b'), Some b'))))"

text \<open>
  The handlers of retry and start as one step each: the write, the read for the reply and the go
  statement. What can come between the write and the first line of the goroutine comes, in the
  transition system below, while the goroutine is in the phase Starting.
\<close>

definition shadow_batch_retry ::
  "io \<Rightarrow> instant \<Rightarrow> http_request \<Rightarrow> shadow_batches option \<Rightarrow> shadow_batch reply \<times> shadow_batches option" where
  "shadow_batch_retry io now req bs =
     (case (if hr_method req = ''POST'' then bs else None) of
        None \<Rightarrow> (shadow_gone, bs)
      | Some b \<Rightarrow>
          (let k = batch_id_of req in
           if trim_space k = [] then (HttpError 400 ''batch_id required'', bs)
           else (case batches_get k b of
               None \<Rightarrow> (HttpError 404 ''batch not found'', bs)
             | Some x \<Rightarrow>
                 if sb_status x \<noteq> BFailed \<and> sb_status x \<noteq> BStopped then (HttpError 409 ''batch is not retryable'', bs)
                 else (case batches_retry io k now b of
                     (False, b') \<Rightarrow> (HttpError 409 ''batch is not retryable'', Some b')
                   | (True, b') \<Rightarrow> (Reply (case batches_get k b' of None \<Rightarrow> x | Some y \<Rightarrow> y), Some b')))))"

record shadow_batch_request =
  bq_knowledge :: string
  bq_reviews :: "string list"
  bq_candidate :: string

definition batch_fields :: "json option \<Rightarrow> shadow_batch_request option" where
  "batch_fields body =
     (case body of None \<Rightarrow> None
      | Some j \<Rightarrow>
          if field_ok ''knowledge_id'' dec_string [] j \<and> field_ok ''candidate_model'' dec_string [] j \<and>
             field_ok ''review_ids'' (dec_slice (\<lambda>x. dec_string x [])) [] j
          then Some \<lparr>bq_knowledge = field ''knowledge_id'' dec_string [] j,
                     bq_reviews = field ''review_ids'' (dec_slice (\<lambda>x. dec_string x [])) [] j,
                     bq_candidate = field ''candidate_model'' dec_string [] j\<rparr>
          else None)"

definition testable :: "reviews \<Rightarrow> string \<Rightarrow> bool" where
  "testable rs k \<longleftrightarrow> (case reviews_find k rs of None \<Rightarrow> False | Some x \<Rightarrow> rv_replayable x \<and> rv_task_package x \<noteq> [])"

definition new_batch :: "string \<Rightarrow> shadow_batch_request \<Rightarrow> instant \<Rightarrow> shadow_batch" where
  "new_batch k q now = \<lparr>sb_id = k, sb_knowledge = bq_knowledge q, sb_reviews = bq_reviews q, sb_candidate = bq_candidate q,
     sb_status = BPending, sb_total = int (length (bq_reviews q)), sb_completed = 0, sb_succeeded = 0, sb_failed = 0,
     sb_stopped = 0, sb_last_error = [], sb_created_at = now, sb_updated_at = now\<rparr>"

definition shadow_batch_start ::
  "io \<Rightarrow> instant \<Rightarrow> manager option \<Rightarrow> ops_state option \<Rightarrow> http_request \<Rightarrow> shadow_state \<Rightarrow> shadow_batches option \<Rightarrow>
     shadow_batch reply \<times> shadow_batches option" where
  "shadow_batch_start io now mg ops req st bs =
     (case (if hr_method req = ''POST'' then (ss_knowledge st, ss_reviews st, bs) else (None, None, None)) of
        (Some ks, Some rs, Some b) \<Rightarrow>
          (case batch_fields (hr_body req) of
             None \<Rightarrow> (HttpError 400 ''knowledge_id, review_ids and candidate_model required'', bs)
           | Some q \<Rightarrow>
               if bq_knowledge q = [] \<or> bq_reviews q = [] \<or> trim_space (bq_candidate q) = []
               then (HttpError 400 ''knowledge_id, review_ids and candidate_model required'', bs)
               else (case find_knowledge (bq_knowledge q) ks of
                   None \<Rightarrow> (HttpError 404 ''knowledge not found'', bs)
                 | Some k \<Rightarrow>
                     if kn_status k \<noteq> KTrusted then (HttpError 409 ''knowledge must be trusted'', bs)
                     else if \<not> model_available mg ops (bq_candidate q) then (HttpError 409 ''candidate unavailable'', bs)
                     else (case find (\<lambda>r. \<not> testable rs r) (bq_reviews q) of
                         Some r \<Rightarrow> (HttpError 409 (''review source unavailable: '' @ r), bs)
                       | None \<Rightarrow>
                           (let x = new_batch (''shadow-batch-'' @ format_stamp now) q now
                            in (Reply x, Some (batches_put io x b))))))
      | _ \<Rightarrow> (shadow_gone, bs))"

section \<open>The goroutine of a batch\<close>

text \<open>json.Marshal of the map, read back by the handler.\<close>

definition batch_call :: "shadow_batch \<Rightarrow> string \<Rightarrow> http_request" where
  "batch_call b rid =
     \<lparr>hr_method = ''POST'', hr_path = ''/api/admin/shadow/run'', hr_query = (\<lambda>k. []),
      hr_body = parse_json (json_text (JObj [(''knowledge_id'', JStr (sb_knowledge b)), (''review_id'', JStr rid),
        (''candidate_model'', JStr (sb_candidate b)), (''batch_id'', JStr (sb_id b))]))\<rparr>"

definition begin_batch :: "shadow_batch \<Rightarrow> shadow_batch" where
  "begin_batch x = x\<lparr>sb_status := BRunning\<rparr>"

definition cancel_batch :: "shadow_batch \<Rightarrow> shadow_batch" where
  "cancel_batch x = (if sb_status x = BRunning then x\<lparr>sb_status := BStopped\<rparr> else x)"

definition count_shadow :: "shadow_outcome reply \<Rightarrow> shadow_batch \<Rightarrow> shadow_batch" where
  "count_shadow res x =
     (if sb_status x = BStopped then x
      else (let x1 = x\<lparr>sb_completed := i64 (sb_completed x + 1)\<rparr> in
            case res of
              Reply y \<Rightarrow> x1\<lparr>sb_succeeded := i64 (sb_succeeded x1 + 1)\<rparr>
            | HttpError c t \<Rightarrow> x1\<lparr>sb_failed := i64 (sb_failed x1 + 1), sb_last_error := trim_space t\<rparr>))"

definition end_batch :: "shadow_batch \<Rightarrow> shadow_batch" where
  "end_batch x = (if sb_status x = BRunning then x\<lparr>sb_status := (if sb_failed x > 0 then BFailed else BCompleted)\<rparr> else x)"

text \<open>Where a goroutine stands: its first line, the head of the loop, inside a test, or after the last line.\<close>

datatype phase = Starting | Looping "string list" | Testing string "string list" | Gone

record batch_env =
  be_shadow :: shadow_env
  be_cancelled :: bool
  be_io :: io
  be_now :: instant

definition change_batch :: "batch_env \<Rightarrow> (shadow_batch \<Rightarrow> shadow_batch) \<Rightarrow> string \<Rightarrow> shadow_batches \<Rightarrow> shadow_batches" where
  "change_batch e f k bs = snd (batches_apply (be_io e) k f (be_now e) bs)"

definition runner_step ::
  "batch_env \<Rightarrow> shadow_batch \<Rightarrow> phase \<Rightarrow> shadow_batches \<times> shadow_state \<Rightarrow> (phase \<times> shadow_batches \<times> shadow_state) option" where
  "runner_step e b p w =
     (case w of (bs, st) \<Rightarrow>
        (case p of
           Starting \<Rightarrow> Some (Looping (sb_reviews b), change_batch e begin_batch (sb_id b) bs, st)
         | Looping [] \<Rightarrow> Some (Gone, change_batch e end_batch (sb_id b) bs, st)
         | Looping (r # rs) \<Rightarrow>
             if be_cancelled e then Some (Gone, change_batch e cancel_batch (sb_id b) bs, st)
             else (case batches_get (sb_id b) bs of
                 None \<Rightarrow> Some (Gone, bs, st)
               | Some x \<Rightarrow> if sb_status x = BStopped then Some (Gone, bs, st) else Some (Testing r rs, bs, st))
         | Testing r rs \<Rightarrow>
             (case shadow_run (be_shadow e) (batch_call b r) st of
                (None, st') \<Rightarrow> None
              | (Some res, st') \<Rightarrow> Some (Looping rs, change_batch e (count_shadow res) (sb_id b) bs, st'))
         | Gone \<Rightarrow> Some (Gone, bs, st)))"

section \<open>Goroutines and operators together\<close>

record batch_world =
  bw_batches :: shadow_batches
  bw_state :: shadow_state
  bw_runners :: "(shadow_batch \<times> phase) list"

text \<open>A step of the goroutine with that number, or a call of one of the three handlers.\<close>

datatype batch_event =
  Tick nat batch_env
| AskStop io instant http_request
| AskRetry io instant http_request
| AskStart io instant "manager option" "ops_state option" http_request

definition spawn :: "shadow_batch reply \<Rightarrow> (shadow_batch \<times> phase) list" where
  "spawn r = (case r of Reply x \<Rightarrow> [(x, Starting)] | HttpError c t \<Rightarrow> [])"

fun batch_acts :: "batch_world option \<Rightarrow> batch_event \<Rightarrow> batch_world option" where
  "batch_acts None v = None"
| "batch_acts (Some w) (Tick i e) =
     (if i < length (bw_runners w) then
        (case runner_step e (fst (bw_runners w ! i)) (snd (bw_runners w ! i)) (bw_batches w, bw_state w) of
           None \<Rightarrow> None
         | Some (p, bs, st) \<Rightarrow>
             Some \<lparr>bw_batches = bs, bw_state = st, bw_runners = (bw_runners w)[i := (fst (bw_runners w ! i), p)]\<rparr>)
      else Some w)"
| "batch_acts (Some w) (AskStop io now req) =
     Some (w\<lparr>bw_batches := the (snd (shadow_batch_stop io now req (Some (bw_batches w))))\<rparr>)"
| "batch_acts (Some w) (AskRetry io now req) =
     (case shadow_batch_retry io now req (Some (bw_batches w)) of
        (r, bs) \<Rightarrow> Some (w\<lparr>bw_batches := the bs, bw_runners := bw_runners w @ spawn r\<rparr>))"
| "batch_acts (Some w) (AskStart io now mg ops req) =
     (case shadow_batch_start io now mg ops req (bw_state w) (Some (bw_batches w)) of
        (r, bs) \<Rightarrow> Some (w\<lparr>bw_batches := the bs, bw_runners := bw_runners w @ spawn r\<rparr>))"

section \<open>A stop is final\<close>

lemma lookup_batches_apply: "lookup (snd (batches_apply io k f now bs)) k' =
    (if k' = k then map_option (\<lambda>x. (f x)\<lparr>sb_updated_at := now\<rparr>) (lookup bs k') else lookup bs k')"
  by (simp add: batches_apply_def lookup_store_apply)

lemma lookup_change: "lookup (change_batch e f k bs) k' =
    (if k' = k then map_option (\<lambda>x. (f x)\<lparr>sb_updated_at := be_now e\<rparr>) (lookup bs k') else lookup bs k')"
  by (simp add: change_batch_def lookup_batches_apply)

definition batches_keyed :: "shadow_batches \<Rightarrow> bool" where
  "batches_keyed bs \<longleftrightarrow> (\<forall>k x. lookup bs k = Some x \<longrightarrow> sb_id x = k)"

lemma batch_ids [simp]:
  "sb_id (begin_batch x) = sb_id x" "sb_id (cancel_batch x) = sb_id x" "sb_id (count_shadow res x) = sb_id x"
  "sb_id (end_batch x) = sb_id x" "sb_id (stop_batch x) = sb_id x" "sb_id (retry_batch x) = sb_id x"
  by (simp_all add: begin_batch_def cancel_batch_def count_shadow_def end_batch_def stop_batch_def retry_batch_def Let_def split: reply.split)

lemma keyed_change_batch: "batches_keyed bs \<Longrightarrow> (\<And>x. sb_id (f x) = sb_id x) \<Longrightarrow> batches_keyed (change_batch e f k bs)"
  by (auto simp: batches_keyed_def lookup_change)

lemma stop_lookup: "lookup (the (snd (shadow_batch_stop io now req (Some bs)))) k' =
    (if hr_method req = ''POST'' \<and> k' = batch_id_of req \<and> k' \<noteq> []
     then map_option (\<lambda>x. (stop_batch x)\<lparr>sb_updated_at := now\<rparr>) (lookup bs k') else lookup bs k')"
proof -
  obtain ok b' where st: "batches_stop io (batch_id_of req) now bs = (ok, b')" by fastforce
  then have "lookup b' k' = (if k' = batch_id_of req then map_option (\<lambda>x. (stop_batch x)\<lparr>sb_updated_at := now\<rparr>) (lookup bs k') else lookup bs k')"
    using lookup_batches_apply [of io "batch_id_of req" stop_batch now bs k'] by (simp add: batches_stop_def)
  then show ?thesis by (cases ok; cases "k' = batch_id_of req") (simp_all add: shadow_batch_stop_def Let_def st)
qed

lemma retry_lookup: "k' \<noteq> batch_id_of req \<Longrightarrow> lookup (the (snd (shadow_batch_retry io now req (Some bs)))) k' = lookup bs k'"
proof -
  assume k: "k' \<noteq> batch_id_of req"
  obtain ok b' where st: "batches_retry io (batch_id_of req) now bs = (ok, b')" by fastforce
  then have "lookup b' k' = lookup bs k'"
    using lookup_batches_apply [of io "batch_id_of req" retry_batch now bs k'] k by (simp add: batches_retry_def)
  then show ?thesis by (cases ok) (auto simp: shadow_batch_retry_def Let_def st split: option.split)
qed

lemma retry_keyed:
  assumes "batches_keyed bs"
  shows "batches_keyed (the (snd (shadow_batch_retry io now req (Some bs))))"
    and "fst (shadow_batch_retry io now req (Some bs)) = Reply x \<Longrightarrow> sb_id x = batch_id_of req"
proof -
  obtain ok b' where st: "batches_retry io (batch_id_of req) now bs = (ok, b')" by fastforce
  then have b': "batches_keyed b'"
    using lookup_batches_apply [of io "batch_id_of req" retry_batch now bs] assms
    by (auto simp: batches_retry_def batches_keyed_def split: if_splits)
  then show "batches_keyed (the (snd (shadow_batch_retry io now req (Some bs))))"
    using assms by (cases ok) (auto simp: shadow_batch_retry_def Let_def st split: option.split)
  show "fst (shadow_batch_retry io now req (Some bs)) = Reply x \<Longrightarrow> sb_id x = batch_id_of req"
    using assms b'
    by (cases ok) (auto simp: shadow_batch_retry_def shadow_gone_def batches_keyed_def batches_get_def Let_def st split: option.splits if_splits)
qed

lemma start_effect:
  "shadow_batch_start io now mg ops req st (Some bs) = (r, bs') \<Longrightarrow>
     (\<exists>q. r = Reply (new_batch (''shadow-batch-'' @ format_stamp now) q now) \<and>
          bs' = Some (batches_put io (new_batch (''shadow-batch-'' @ format_stamp now) q now) bs)) \<or>
     (\<exists>c t. r = HttpError c t) \<and> bs' = Some bs"
  by (auto simp: shadow_batch_start_def shadow_gone_def Let_def split: option.splits if_splits)

lemma new_batch_id [simp]: "sb_id (new_batch k q now) = k"
  by (simp add: new_batch_def)

lemma start_keyed:
  assumes "shadow_batch_start io now mg ops req st (Some bs) = (r, bs')"
  shows "k \<noteq> ''shadow-batch-'' @ format_stamp now \<Longrightarrow> lookup (the bs') k = lookup bs k"
    and "batches_keyed bs \<Longrightarrow> batches_keyed (the bs')"
    and "r = Reply x \<Longrightarrow> sb_id x = ''shadow-batch-'' @ format_stamp now"
  using start_effect [OF assms] by (auto simp: batches_put_def batches_keyed_def split: if_splits)

text \<open>
  A batch that is stopped, with no goroutine that has not read its first line, is as it will be
  until it is retried, or a new batch gets its id. The key of the latch carries what is kept.
\<close>

definition timeless :: "shadow_batch \<Rightarrow> shadow_batch" where
  "timeless x = x\<lparr>sb_updated_at := 0\<rparr>"

definition at_rest :: "batch_world \<Rightarrow> string \<Rightarrow> shadow_batch \<Rightarrow> bool" where
  "at_rest w k x \<longleftrightarrow> batches_keyed (bw_batches w) \<and>
     (\<exists>y. lookup (bw_batches w) k = Some y \<and> sb_status y = BStopped \<and> timeless y = timeless x) \<and>
     (\<forall>(b, p) \<in> set (bw_runners w). sb_id b = k \<longrightarrow> p \<noteq> Starting)"

definition resting :: "batch_world option \<Rightarrow> string \<times> shadow_batch \<Rightarrow> bool" where
  "resting w kx \<longleftrightarrow> (case w of None \<Rightarrow> True | Some w \<Rightarrow> at_rest w (fst kx) (snd kx))"

fun wakes :: "batch_event \<Rightarrow> string \<times> shadow_batch \<Rightarrow> bool" where
  "wakes (AskRetry io now req) kx \<longleftrightarrow> batch_id_of req = fst kx"
| "wakes (AskStart io now mg ops req) kx \<longleftrightarrow> fst kx = ''shadow-batch-'' @ format_stamp now"
| "wakes _ kx \<longleftrightarrow> False"

text \<open>A step of a goroutine that is past its first line leaves a stopped batch as it is, and another batch anyway.\<close>

lemma stopped_unchanged:
  "sb_status y = BStopped \<Longrightarrow> cancel_batch y = y \<and> count_shadow res y = y \<and> end_batch y = y \<and> stop_batch y = y"
  by (simp add: cancel_batch_def count_shadow_def end_batch_def stop_batch_def interrupted_def)

lemma runner_others:
  assumes "runner_step e b p (bs, st) = Some (p', bs', st')" and "k \<noteq> sb_id b"
  shows "lookup bs' k = lookup bs k"
  using assms by (auto simp: runner_step_def lookup_change split: phase.splits list.splits if_splits option.splits prod.splits)

lemma runner_keyed:
  assumes "runner_step e b p (bs, st) = Some (p', bs', st')" and "batches_keyed bs"
  shows "batches_keyed bs'"
  using assms by (auto simp: runner_step_def intro!: keyed_change_batch split: phase.splits list.splits if_splits option.splits prod.splits)

lemma runner_past_start:
  assumes "runner_step e b p (bs, st) = Some (p', bs', st')"
  shows "p' \<noteq> Starting"
  using assms by (auto simp: runner_step_def split: phase.splits list.splits if_splits option.splits prod.splits)

lemma runner_stopped:
  assumes "runner_step e b p (bs, st) = Some (p', bs', st')" and "p \<noteq> Starting" and "lookup bs k = Some y" and "sb_status y = BStopped"
  shows "\<exists>z. lookup bs' k = Some z \<and> sb_status z = BStopped \<and> timeless z = timeless y"
proof (cases "k = sb_id b")
  case True
  then show ?thesis using assms stopped_unchanged [OF assms(4)]
    by (auto simp: runner_step_def lookup_change timeless_def split: phase.splits list.splits if_splits option.splits prod.splits)
qed (use assms runner_others [OF assms(1)] in auto)

lemma resting_step: "resting w kx \<Longrightarrow> \<not> wakes v kx \<Longrightarrow> resting (batch_acts w v) kx"
proof (cases "(w, v)" rule: batch_acts.cases)
  case (2 w1 i e)
  assume r: "resting w kx"
  let ?b = "fst (bw_runners w1 ! i)" and ?p = "snd (bw_runners w1 ! i)"
  show ?thesis
  proof (cases "i < length (bw_runners w1) \<and> runner_step e ?b ?p (bw_batches w1, bw_state w1) \<noteq> None")
    case True
    then obtain p' bs' st' where st: "runner_step e ?b ?p (bw_batches w1, bw_state w1) = Some (p', bs', st')" by auto
    obtain y where y: "lookup (bw_batches w1) (fst kx) = Some y" "sb_status y = BStopped" "timeless y = timeless (snd kx)"
      and keyed: "batches_keyed (bw_batches w1)"
      and past: "\<forall>(b, p) \<in> set (bw_runners w1). sb_id b = fst kx \<longrightarrow> p \<noteq> Starting"
      using r 2 by (auto simp: resting_def at_rest_def)
    have kept: "\<exists>z. lookup bs' (fst kx) = Some z \<and> sb_status z = BStopped \<and> timeless z = timeless (snd kx)"
    proof (cases "sb_id ?b = fst kx")
      case same: True
      have "(?b, ?p) \<in> set (bw_runners w1)" using True by simp
      then have "?p \<noteq> Starting" using past same by fastforce
      then show ?thesis using runner_stopped [OF st _ y(1,2)] y(3) by auto
    next
      case False
      then show ?thesis using runner_others [OF st, of "fst kx"] y by auto
    qed
    have "\<forall>(b, p) \<in> set ((bw_runners w1)[i := (?b, p')]). sb_id b = fst kx \<longrightarrow> p \<noteq> Starting"
      using past runner_past_start [OF st] set_update_subset_insert [of "bw_runners w1" i "(?b, p')"] by fastforce
    then show ?thesis using True kept st runner_keyed [OF st keyed] 2 by (simp add: resting_def at_rest_def)
  next
    case False
    then have "i < length (bw_runners w1) \<Longrightarrow> runner_step e ?b ?p (bw_batches w1, bw_state w1) = None" by blast
    then have "batch_acts w v = (if i < length (bw_runners w1) then None else w)" using 2 by simp
    then show ?thesis using r by (simp add: resting_def)
  qed
next
  case (3 w1 io now req)
  assume r: "resting w kx"
  then show ?thesis using 3 stopped_unchanged
    by (auto simp: resting_def at_rest_def batches_keyed_def stop_lookup timeless_def split: if_splits)
next
  case (4 w1 io now req)
  assume r: "resting w kx" and "\<not> wakes v kx"
  then have other: "fst kx \<noteq> batch_id_of req" using 4 by auto
  obtain x bs where a: "shadow_batch_retry io now req (Some (bw_batches w1)) = (x, bs)" by fastforce
  have keyed: "batches_keyed (bw_batches w1)" using r 4 by (simp add: resting_def at_rest_def)
  have "\<forall>(b, p) \<in> set (spawn x). sb_id b \<noteq> fst kx"
    using retry_keyed(2) [OF keyed, of io now req] a other by (auto simp: spawn_def split: reply.split)
  then show ?thesis using r 4 a other retry_keyed(1) [OF keyed, of io now req] retry_lookup [OF other, of io now "bw_batches w1"]
    by (auto simp: resting_def at_rest_def)
next
  case (5 w1 io now mg ops req)
  assume r: "resting w kx" and "\<not> wakes v kx"
  then have other: "fst kx \<noteq> ''shadow-batch-'' @ format_stamp now" using 5 by auto
  obtain x bs where a: "shadow_batch_start io now mg ops req (bw_state w1) (Some (bw_batches w1)) = (x, bs)" by fastforce
  have "\<forall>(b, p) \<in> set (spawn x). sb_id b \<noteq> fst kx"
    using start_keyed(3) [OF a] other by (auto simp: spawn_def split: reply.split)
  then show ?thesis using r 5 a start_keyed(1) [OF a other] start_keyed(2) [OF a]
    by (auto simp: resting_def at_rest_def)
qed (auto simp: resting_def)

interpretation stopped: latch batch_acts resting wakes
  by unfold_locales (rule resting_step)

section \<open>A batch comes to an end, and its counters add up\<close>

text \<open>What is left to do, in steps of the goroutine.\<close>

fun steps_left :: "phase \<Rightarrow> string list \<Rightarrow> nat" where
  "steps_left Starting rs = 2 * length rs + 2"
| "steps_left (Looping xs) rs = 2 * length xs + 1"
| "steps_left (Testing x xs) rs = 2 * length xs + 2"
| "steps_left Gone rs = 0"

fun tests_left :: "phase \<Rightarrow> int \<Rightarrow> int" where
  "tests_left Starting n = n"
| "tests_left (Looping xs) n = int (length xs)"
| "tests_left (Testing x xs) n = int (length xs) + 1"
| "tests_left Gone n = 0"

text \<open>
  The replies of the handler that a goroutine collects, test by test: what the counters of its batch are
  measured against.
\<close>

definition reply_here :: "batch_env \<Rightarrow> shadow_batch \<Rightarrow> phase \<Rightarrow> shadow_state \<Rightarrow> shadow_outcome reply list" where
  "reply_here e b p st =
     (case p of
        Testing r rs \<Rightarrow> (case fst (shadow_run (be_shadow e) (batch_call b r) st) of None \<Rightarrow> [] | Some res \<Rightarrow> [res])
      | _ \<Rightarrow> [])"

fun reply_at :: "nat \<Rightarrow> batch_world option \<Rightarrow> batch_event \<Rightarrow> shadow_outcome reply list" where
  "reply_at i (Some w) (Tick j e) =
     (if i = j \<and> i < length (bw_runners w) then reply_here e (fst (bw_runners w ! i)) (snd (bw_runners w ! i)) (bw_state w) else [])"
| "reply_at i w v = []"

fun replies :: "nat \<Rightarrow> batch_world option \<Rightarrow> batch_event list \<Rightarrow> shadow_outcome reply list" where
  "replies i w [] = []"
| "replies i w (v # es) = reply_at i w v @ replies i (batch_acts w v) es"

fun answered :: "'a reply \<Rightarrow> bool" where
  "answered (Reply y) = True"
| "answered (HttpError c t) = False"

definition positive :: "'a reply list \<Rightarrow> int" where
  "positive acc = int (length (filter answered acc))"

definition negative :: "'a reply list \<Rightarrow> int" where
  "negative acc = int (length (filter (\<lambda>r. \<not> answered r) acc))"

lemma tally_simps [simp]:
  "positive [] = 0" "negative [] = 0"
  "positive (acc @ [Reply y]) = positive acc + 1" "negative (acc @ [Reply y]) = negative acc"
  "positive (acc @ [HttpError c t]) = positive acc" "negative (acc @ [HttpError c t]) = negative acc + 1"
  by (simp_all add: positive_def negative_def)

lemma tally_length: "positive acc + negative acc = int (length acc)"
  using sum_length_filter_compl [of answered acc] by (simp add: positive_def negative_def)

lemma tally_all: "negative acc = 0 \<longleftrightarrow> (\<forall>r \<in> set acc. answered r)"
  by (auto simp: negative_def filter_empty_conv)

lemma tally_some: "0 < negative acc \<longleftrightarrow> (\<exists>r \<in> set acc. \<not> answered r)"
  using tally_all [of acc] by (auto simp: negative_def)

text \<open>How the counters stand while the goroutine is at a phase, having collected these replies.\<close>

definition adds_up :: "int \<Rightarrow> shadow_outcome reply list \<Rightarrow> phase \<Rightarrow> shadow_batch \<Rightarrow> bool" where
  "adds_up n acc p x \<longleftrightarrow> sb_total x = n \<and> 0 \<le> sb_succeeded x \<and> 0 \<le> sb_failed x \<and> sb_completed x = sb_succeeded x + sb_failed x \<and>
     sb_completed x + tests_left p n \<le> n \<and> sb_succeeded x \<le> positive acc \<and> sb_failed x \<le> negative acc \<and>
     (sb_status x \<noteq> BStopped \<longrightarrow> sb_completed x + tests_left p n = n \<and> sb_succeeded x = positive acc \<and> sb_failed x = negative acc \<and>
        sb_status x = (case p of Starting \<Rightarrow> BPending | Gone \<Rightarrow> (if 0 < sb_failed x then BFailed else BCompleted) | _ \<Rightarrow> BRunning)) \<and>
     (p = Starting \<longrightarrow> sb_completed x = 0 \<and> acc = [])"

lemma adds_up_time [simp]: "adds_up n acc p (x\<lparr>sb_updated_at := t\<rparr>) = adds_up n acc p x"
  by (simp add: adds_up_def split: phase.split)

lemma adds_up_begin: "adds_up n acc Starting x \<Longrightarrow> n = int (length rs) \<Longrightarrow> adds_up n acc (Looping rs) (begin_batch x)"
  by (auto simp: adds_up_def begin_batch_def)

lemma adds_up_end: "adds_up n acc (Looping []) x \<Longrightarrow> adds_up n acc Gone (end_batch x)"
  by (auto simp: adds_up_def end_batch_def)

lemma adds_up_cancel: "adds_up n acc (Looping rs) x \<Longrightarrow> adds_up n acc Gone (cancel_batch x)"
  by (auto simp: adds_up_def cancel_batch_def)

lemma adds_up_leave: "adds_up n acc (Looping rs) x \<Longrightarrow> sb_status x = BStopped \<Longrightarrow> adds_up n acc Gone x"
  by (simp add: adds_up_def)

lemma adds_up_enter: "adds_up n acc (Looping (r # rs)) x \<Longrightarrow> adds_up n acc (Testing r rs) x"
  by (auto simp: adds_up_def)

lemma adds_up_count: "adds_up n acc (Testing r rs) x \<Longrightarrow> n < 2 ^ 63 \<Longrightarrow> adds_up n (acc @ [res]) (Looping rs) (count_shadow res x)"
  by (cases res) (auto simp: adds_up_def count_shadow_def Let_def i64_id)

lemma adds_up_stop: "adds_up n acc p x \<Longrightarrow> adds_up n acc p (stop_batch x)"
  by (auto simp: adds_up_def stop_batch_def Let_def split: phase.splits)

definition running_alone :: "nat \<Rightarrow> shadow_batch \<Rightarrow> shadow_outcome reply list \<Rightarrow> phase \<Rightarrow> batch_world \<Rightarrow> bool" where
  "running_alone i b acc p w \<longleftrightarrow> batches_keyed (bw_batches w) \<and> i < length (bw_runners w) \<and> bw_runners w ! i = (b, p) \<and>
     (\<forall>j < length (bw_runners w). j \<noteq> i \<longrightarrow> sb_id (fst (bw_runners w ! j)) \<noteq> sb_id b) \<and>
     (\<exists>x. lookup (bw_batches w) (sb_id b) = Some x \<and> adds_up (int (length (sb_reviews b))) acc p x)"

text \<open>Its own step either ends the process or keeps the account and has less to do.\<close>

lemma own_step:
  assumes "adds_up (int (length (sb_reviews b))) acc p x" and "lookup bs (sb_id b) = Some x" and "length (sb_reviews b) < 2 ^ 63"
    and "runner_step e b p (bs, st) = Some (p', bs', st')"
  shows "(\<exists>y. lookup bs' (sb_id b) = Some y \<and> adds_up (int (length (sb_reviews b))) (acc @ reply_here e b p st) p' y) \<and>
     steps_left p' (sb_reviews b) \<le> steps_left p (sb_reviews b) - 1"
proof (cases p)
  case Starting
  then show ?thesis using assms adds_up_begin [of "int (length (sb_reviews b))" acc x "sb_reviews b"]
    by (auto simp: runner_step_def lookup_change reply_here_def)
next
  case (Looping rs)
  show ?thesis
  proof (cases rs)
    case Nil
    then show ?thesis using assms Looping adds_up_end by (auto simp: runner_step_def lookup_change reply_here_def)
  next
    case (Cons r us)
    then show ?thesis using assms Looping adds_up_cancel adds_up_leave adds_up_enter
      by (auto simp: runner_step_def lookup_change batches_get_def reply_here_def split: if_splits)
  qed
next
  case (Testing r rs)
  then show ?thesis using assms adds_up_count [of "int (length (sb_reviews b))" acc r rs x]
    by (auto simp: runner_step_def lookup_change reply_here_def split: prod.splits option.splits)
next
  case Gone
  then show ?thesis using assms by (auto simp: runner_step_def reply_here_def)
qed

fun ticks :: "nat \<Rightarrow> batch_event \<Rightarrow> bool" where
  "ticks i (Tick j e) \<longleftrightarrow> i = j"
| "ticks i _ \<longleftrightarrow> False"

lemma phase_update: "j < length rs \<Longrightarrow> fst (rs[j := (fst (rs ! j), q)] ! k) = fst (rs ! k)"
  by (cases "k = j") simp_all

lemma nth_of_append: "j < length (xs @ ys) \<Longrightarrow> j < length xs \<and> (xs @ ys) ! j = xs ! j \<or> (xs @ ys) ! j \<in> set ys"
  by (auto simp: nth_append)

lemma alone_spawn:
  assumes "running_alone i b acc p w" and "\<forall>(c, u) \<in> set new. sb_id c \<noteq> sb_id b" and "batches_keyed bs"
    and "lookup bs (sb_id b) = lookup (bw_batches w) (sb_id b)"
  shows "running_alone i b acc p (w\<lparr>bw_batches := bs, bw_runners := bw_runners w @ new\<rparr>)"
proof -
  have "sb_id (fst ((bw_runners w @ new) ! j)) \<noteq> sb_id b" if "j < length (bw_runners w @ new)" "j \<noteq> i" for j
    using nth_of_append [OF that(1)] that(2) assms(1,2) by (auto simp: running_alone_def)
  then show ?thesis using assms by (auto simp: running_alone_def nth_append)
qed

lemma alone_step:
  assumes alone: "running_alone i b acc p w" and "\<not> wakes v (sb_id b, b)" and "batch_acts (Some w) v = Some w'"
    and "length (sb_reviews b) < 2 ^ 63"
  shows "\<exists>p'. running_alone i b (acc @ reply_at i (Some w) v) p' w' \<and> steps_left p' (sb_reviews b) \<le> steps_left p (sb_reviews b) - of_bool (ticks i v)"
proof -
  obtain x where i: "i < length (bw_runners w)" "bw_runners w ! i = (b, p)" and keyed: "batches_keyed (bw_batches w)"
    and others: "\<forall>j < length (bw_runners w). j \<noteq> i \<longrightarrow> sb_id (fst (bw_runners w ! j)) \<noteq> sb_id b"
    and x: "lookup (bw_batches w) (sb_id b) = Some x" "adds_up (int (length (sb_reviews b))) acc p x"
    using alone by (auto simp: running_alone_def)
  show ?thesis
  proof (cases v)
    case (Tick j e)
    show ?thesis
    proof (cases "j < length (bw_runners w)")
      case True
      obtain c u where jcu: "bw_runners w ! j = (c, u)" by fastforce
      obtain p' bs' st' where st: "runner_step e c u (bw_batches w, bw_state w) = Some (p', bs', st')"
        and w': "w' = \<lparr>bw_batches = bs', bw_state = st', bw_runners = (bw_runners w)[j := (c, p')]\<rparr>"
        using assms(3) Tick True jcu by (auto split: option.splits)
      have k': "batches_keyed bs'" by (rule runner_keyed [OF st keyed])
      show ?thesis
      proof (cases "j = i")
        case same: True
        then have "runner_step e b p (bw_batches w, bw_state w) = Some (p', bs', st')" using st i jcu by simp
        note own = own_step [OF x(2,1) assms(4) this]
        have "running_alone i b (acc @ reply_at i (Some w) v) p' w'" using own i others k' w' same jcu Tick by (simp add: running_alone_def)
        then show ?thesis using own Tick same by auto
      next
        case False
        then have "sb_id c \<noteq> sb_id b" using others True jcu by fastforce
        then have "lookup bs' (sb_id b) = Some x" using runner_others [OF st, of "sb_id b"] x(1) by simp
        then have "running_alone i b acc p w'" using i others k' w' x(2) False phase_update [OF True, of p'] jcu
          by (simp add: running_alone_def)
        then show ?thesis using Tick False by (intro exI [of _ p]) auto
      qed
    next
      case False
      then have "w' = w" "j \<noteq> i" using assms(3) Tick i by auto
      then show ?thesis using alone Tick by (intro exI [of _ p]) auto
    qed
  next
    case (AskStop io now req)
    have "w' = w\<lparr>bw_batches := the (snd (shadow_batch_stop io now req (Some (bw_batches w))))\<rparr>" using assms(3) AskStop by simp
    then have "running_alone i b acc p w'" using i others keyed x(1) adds_up_stop [OF x(2)] x(2)
      by (auto simp: running_alone_def stop_lookup batches_keyed_def)
    then show ?thesis using AskStop by (intro exI [of _ p]) simp
  next
    case (AskRetry io now req)
    then have other: "sb_id b \<noteq> batch_id_of req" using assms(2) by auto
    obtain r bs where a: "shadow_batch_retry io now req (Some (bw_batches w)) = (r, bs)" by fastforce
    have sp: "\<forall>(c, u) \<in> set (spawn r). sb_id c \<noteq> sb_id b"
      using retry_keyed(2) [OF keyed, of io now req] a other by (auto simp: spawn_def split: reply.split)
    have w': "w' = w\<lparr>bw_batches := the bs, bw_runners := bw_runners w @ spawn r\<rparr>" using assms(3) AskRetry a by simp
    have "running_alone i b acc p w'"
      unfolding w' using alone_spawn [OF alone sp] retry_keyed(1) [OF keyed, of io now req] retry_lookup [OF other, of io now "bw_batches w"] a
      by simp
    then show ?thesis using AskRetry by (intro exI [of _ p]) simp
  next
    case (AskStart io now mg ops req)
    then have other: "sb_id b \<noteq> ''shadow-batch-'' @ format_stamp now" using assms(2) by auto
    obtain r bs where a: "shadow_batch_start io now mg ops req (bw_state w) (Some (bw_batches w)) = (r, bs)" by fastforce
    have sp: "\<forall>(c, u) \<in> set (spawn r). sb_id c \<noteq> sb_id b"
      using start_keyed(3) [OF a] other by (auto simp: spawn_def split: reply.split)
    have w': "w' = w\<lparr>bw_batches := the bs, bw_runners := bw_runners w @ spawn r\<rparr>" using assms(3) AskStart a by simp
    have "running_alone i b acc p w'"
      unfolding w' using alone_spawn [OF alone sp start_keyed(2) [OF a keyed] start_keyed(1) [OF a other]] .
    then show ?thesis using AskStart by (intro exI [of _ p]) simp
  qed
qed

text \<open>After as many steps of its own as there are, in any order with the others, the goroutine is done.\<close>

lemma crashed_stays [simp]: "foldl batch_acts None es = None"
  by (induction es) simp_all

lemma alone_run:
  assumes "running_alone i b acc p w" and "\<forall>v \<in> set es. \<not> wakes v (sb_id b, b)" and "length (sb_reviews b) < 2 ^ 63"
    and "foldl batch_acts (Some w) es = Some w'"
  shows "\<exists>p'. running_alone i b (acc @ replies i (Some w) es) p' w' \<and>
     steps_left p' (sb_reviews b) \<le> steps_left p (sb_reviews b) - length (filter (ticks i) es)"
  using assms(1,2,4)
proof (induction es arbitrary: w p acc)
  case Nil
  then show ?case by (intro exI [of _ p]) simp
next
  case (Cons v es)
  then obtain w1 where w1: "batch_acts (Some w) v = Some w1" by (cases "batch_acts (Some w) v") auto
  then obtain q where q: "running_alone i b (acc @ reply_at i (Some w) v) q w1"
      "steps_left q (sb_reviews b) \<le> steps_left p (sb_reviews b) - of_bool (ticks i v)"
    using alone_step [OF Cons.prems(1) _ w1 assms(3)] Cons.prems(2) by auto
  then obtain p' where "running_alone i b ((acc @ reply_at i (Some w) v) @ replies i (Some w1) es) p' w'"
    "steps_left p' (sb_reviews b) \<le> steps_left q (sb_reviews b) - length (filter (ticks i) es)"
    using Cons.IH [OF q(1)] Cons.prems w1 by auto
  then show ?case using q w1 by (intro exI [of _ p']) auto
qed

lemma steps_left_gone: "steps_left p rs = 0 \<longleftrightarrow> p = Gone"
  by (cases p) auto

lemma batch_done:
  assumes "running_alone i b [] Starting w" and "\<forall>v \<in> set es. \<not> wakes v (sb_id b, b)" and "length (sb_reviews b) < 2 ^ 63"
    and "foldl batch_acts (Some w) es = Some w'" and "2 * length (sb_reviews b) + 2 \<le> length (filter (ticks i) es)"
  shows "\<exists>x. lookup (bw_batches w') (sb_id b) = Some x \<and> adds_up (int (length (sb_reviews b))) (replies i (Some w) es) Gone x"
  using alone_run [OF assms(1-4)] assms(5) steps_left_gone by (fastforce simp: running_alone_def)

section \<open>Stops that are lost\<close>

text \<open>The first line of the goroutine sets the batch running whatever it is: a stop that comes earlier is overwritten.\<close>

lemma early_stop_is_lost:
  assumes "lookup bs k = Some x" and "sb_status x = BPending" and "k \<noteq> []" and "batch_id_of req = k" and "hr_method req = ''POST''"
  shows "\<exists>y. lookup (change_batch e begin_batch k (the (snd (shadow_batch_stop io now req (Some bs))))) k = Some y \<and> sb_status y = BRunning"
  using assms by (auto simp: lookup_change stop_lookup begin_batch_def)

text \<open>
  A batch of one review is stopped during its test and retried at once: the old goroutine finds the
  batch pending and counts its test, and the new one counts the same review again.
\<close>

definition one_review :: shadow_batch where
  "one_review = new_batch ''b'' \<lparr>bq_knowledge = ''k'', bq_reviews = [''r''], bq_candidate = ''m''\<rparr> 0"

definition batch_query :: http_request where
  "batch_query = \<lparr>hr_method = ''POST'', hr_path = [], hr_query = (\<lambda>k. ''b''), hr_body = None\<rparr>"

definition in_flight :: batch_world where
  "in_flight = \<lparr>bw_batches = batches_put good_io (begin_batch one_review) new_batches,
     bw_state = \<lparr>ss_knowledge = None, ss_reviews = None, ss_shadow = None\<rparr>, bw_runners = [(one_review, Testing ''r'' [])]\<rparr>"

definition quiet_env :: batch_env where
  "quiet_env = \<lparr>be_shadow = \<lparr>se_manager = None, se_ops = None, se_configs = [], se_lower = (\<lambda>s. s), se_net = (\<lambda>u k b. CallFailed []),
     se_start = 0, se_done = 0, se_latency = 0, se_io_put = good_io, se_io_apply = good_io, se_io_know = good_io\<rparr>,
     be_cancelled = False, be_io = good_io, be_now = 0\<rparr>"

lemma shadow_run_without_stores: "ss_shadow st = None \<Longrightarrow> shadow_run e req st = (Some shadow_gone, st)"
  by (simp add: shadow_run_def)

lemma retried_batch_counts_twice:
  "\<exists>w x. foldl batch_acts (Some in_flight) [AskStop good_io 0 batch_query, AskRetry good_io 0 batch_query, Tick 0 quiet_env,
       Tick 1 quiet_env, Tick 1 quiet_env, Tick 1 quiet_env] = Some w \<and>
     lookup (bw_batches w) ''b'' = Some x \<and> sb_total x = 1 \<and> sb_completed x = 2"
proof -
  have q: "batch_id_of batch_query = ''b''" "hr_method batch_query = ''POST''" "trim_space ''b'' = ''b''"
    by (simp_all add: batch_id_of_def batch_query_def) code_simp
  show ?thesis
    by (simp add: in_flight_def shadow_batch_stop_def shadow_batch_retry_def q batches_stop_def batches_retry_def batches_apply_def store_apply_def
        batches_get_def runner_step_def shadow_run_without_stores shadow_gone_def change_batch_def spawn_def quiet_env_def lookup_def
        batches_put_def store_put_def new_batches_def one_review_def new_batch_def begin_batch_def stop_batch_def interrupted_def
        retry_batch_def count_shadow_def Let_def i64_def persist_store_def)
qed

section \<open>The nightly worker\<close>

text \<open>
  strings.NewReplacer with the raw strings of the code: two backslashes become four, and a double quote
  becomes two backslashes and a quote.
\<close>

fun escape :: "string \<Rightarrow> string" where
  "escape [] = []"
| "escape (c # cs) =
     (if c = CHR 0x5C \<and> cs \<noteq> [] \<and> hd cs = CHR 0x5C then replicate 4 (CHR 0x5C) @ escape (tl cs)
      else if c = CHR 0x22 then [CHR 0x5C, CHR 0x5C, CHR 0x22] @ escape cs
      else c # escape cs)"

text \<open>Decoder.Decode reads the first value of a text.\<close>

definition first_value :: "string \<Rightarrow> json option" where
  "first_value s = map_option fst (value_at (2 * length s + 2) max_depth (skip_ws s))"

definition worker_member :: "string \<Rightarrow> string \<Rightarrow> string" where
  "worker_member name value = [CHR 0x22] @ name @ [CHR 0x22] @ '':'' @ [CHR 0x22] @ escape value @ [CHR 0x22]"

definition worker_text :: "knowledge \<Rightarrow> review \<Rightarrow> string" where
  "worker_text k x = ''{'' @ worker_member ''knowledge_id'' (kn_id k) @ '','' @ worker_member ''review_id'' (rv_id x) @ '','' @
     worker_member ''candidate_model'' (kn_recommended k) @ ''}''"

definition worker_call :: "knowledge \<Rightarrow> review \<Rightarrow> http_request" where
  "worker_call k x = \<lparr>hr_method = ''POST'', hr_path = ''/api/admin/shadow/run'', hr_query = (\<lambda>k. []), hr_body = first_value (worker_text k x)\<rparr>"

definition worth_testing :: "knowledge \<Rightarrow> review \<Rightarrow> bool" where
  "worth_testing k x \<longleftrightarrow> kn_status k = KTrusted \<and> kn_recommended k \<noteq> [] \<and> rv_review_status x = RReviewed \<and> rv_replayable x \<and>
     rv_task_package x \<noteq> [] \<and> rv_id x \<in> set (kn_sources k)"

text \<open>
  A round: the knowledge is built, then every pair that has no result yet is tested. The goroutines (two
  at a time) recover from a panic, and each writes under the id of its own pair; here they run one after
  the other. The environment is that of the test with the given id.
\<close>

definition worker_test :: "(string \<Rightarrow> shadow_env) \<Rightarrow> knowledge \<Rightarrow> review \<Rightarrow> shadow_state \<Rightarrow> shadow_state" where
  "worker_test env k x st =
     (let i = shadow_id [] (kn_id k) (rv_id x) (kn_recommended k) in
      case ss_shadow st of
        None \<Rightarrow> st
      | Some s \<Rightarrow> if worth_testing k x \<and> \<not> shadow_has i s then snd (shadow_run (env i) (worker_call k x) st) else st)"

definition shadow_worker_round :: "(nat \<Rightarrow> io) \<Rightarrow> (nat \<Rightarrow> instant) \<Rightarrow> (string \<Rightarrow> shadow_env) \<Rightarrow> shadow_state \<Rightarrow> shadow_state" where
  "shadow_worker_round io now env st =
     (let st1 = st\<lparr>ss_knowledge := snd (build_knowledge io now (ss_reviews st) (ss_knowledge st))\<rparr> in
      case (ss_knowledge st1, ss_reviews st1, ss_shadow st1) of
        (Some ks, Some rs, Some s) \<Rightarrow> fold (\<lambda>k st. fold (worker_test env k) (reviews_all rs) st) (knowledge_all ks) st1
      | _ \<Rightarrow> st1)"

text \<open>A double quote in an id is escaped into a backslash and the end of the string: the request is no JSON.\<close>

lemma quote_breaks_the_request:
  assumes "kn_id k = [CHR 0x22]" and "rv_id x = ''r''" and "kn_recommended k = ''m''"
  shows "hr_body (worker_call k x) = None"
proof -
  have "first_value (''{'' @ ([CHR 0x22] @ ''knowledge_id'' @ [CHR 0x22] @ '':'' @ [CHR 0x22] @ escape [CHR 0x22] @ [CHR 0x22]) @ '','' @
      ([CHR 0x22] @ ''review_id'' @ [CHR 0x22] @ '':'' @ [CHR 0x22] @ escape ''r'' @ [CHR 0x22]) @ '','' @
      ([CHR 0x22] @ ''candidate_model'' @ [CHR 0x22] @ '':'' @ [CHR 0x22] @ escape ''m'' @ [CHR 0x22]) @ ''}'') = None" by code_simp
  then show ?thesis using assms by (simp only: worker_call_def worker_text_def worker_member_def http_request.simps)
qed

text \<open>A pair that has a result, even a failed one, is not tested again.\<close>

lemma tested_once: "ss_shadow st = Some s \<Longrightarrow> shadow_has (shadow_id [] (kn_id k) (rv_id x) (kn_recommended k)) s \<Longrightarrow> worker_test env k x st = st"
  by (simp add: worker_test_def)

text \<open>The body null passes through the sanitizer and ends in an assignment to a nil map.\<close>

lemma null_request_panics: "shadow_body ''null'' candidate = None"
proof -
  have "unmarshal_map ''null'' = Some JNull" "json_text JNull = ''null''" by code_simp+
  moreover have "sanitize_object JNull = JNull" by (simp add: sanitize_object_def)
  ultimately show ?thesis by (simp add: shadow_body_def replace_shadow_model_def sanitize_shadow_request_def)
qed

section \<open>An older judge\<close>

text \<open>shadowResponseQuality, which nothing calls: the protocol, the content and, again, the content.\<close>

definition shadow_response_quality :: "string \<Rightarrow> bool \<times> bool \<times> bool" where
  "shadow_response_quality raw =
     (case parse_json raw of
        None \<Rightarrow> (False, False, False)
      | Some j \<Rightarrow>
          (case dec_field ''choices'' (dec_slice (\<lambda>c.
              (fst (dec_field ''Message'' (\<lambda>v acc. dec_field ''content'' dec_value acc v) JNull c),
               snd (dec_field ''Message'' (\<lambda>v acc. dec_field ''content'' dec_value acc v) JNull c) \<and> field_ok ''finish_reason'' dec_string [] c))) [] j of
             (cs, ok) \<Rightarrow>
               if \<not> ok \<or> cs = [] then (True, False, False)
               else (let non = hd cs \<noteq> JNull \<and> trim_space (sprint (hd cs)) \<noteq> [] in (True, non, non))))"

end
