(* ===== verification/Shadow_Props.thy ===== *)
theory Shadow_Props
  imports Shadow_Api
begin

text \<open>
  What a shadow test sends, and when a batch is over: the properties of Shadow\_Api.
\<close>

section \<open>Members of a document that is read back\<close>

lemma sane_ascii_iff:
  assumes "ascii t"
  shows "sane s = t \<longleftrightarrow> s = t"
proof
  show "sane s = t \<Longrightarrow> s = t"
    using assms
  proof (induction "length s" arbitrary: s t rule: less_induct)
    case less
    show ?case
    proof (cases "s = []")
      case False
      have big: "rune_size s \<noteq> 0"
      proof
        assume "rune_size s = 0"
        then have "t = replacement @ sane (tl s)" using less.prems(1) sane_bad [OF False] by simp
        then show False using less.prems(2) by (simp add: replacement_def ascii_def)
      qed
      then have t: "t = take (rune_size s) s @ sane (drop (rune_size s) s)" using less.prems(1) sane_rune by simp
      have "sane (drop (rune_size s) s) = drop (rune_size s) s"
        using less.hyps [of "drop (rune_size s) s"] t less.prems(2) big False by (simp add: ascii_def)
      then show ?thesis using t by simp
    qed (use less.prems in simp)
  qed
qed (use assms in simp)

lemma folded_wf: "wf_map m \<Longrightarrow> wf_map (fold (\<lambda>(k, v). mput k v) kvs m)"
  by (induction kvs arbitrary: m) auto

lemma sorted_members_distinct: "distinct (map fst (sorted_members kvs))"
proof -
  have "distinct (map fst (fold (\<lambda>(k, v). mput k v) kvs []))" using folded_wf [of "[]"] by (simp add: wf_map_def)
  moreover have "mset (map fst (sorted_members kvs)) = mset (map fst (fold (\<lambda>(k, v). mput k v) kvs []))"
    unfolding sorted_members_def by (metis mset_map mset_sort_by)
  ultimately show ?thesis using mset_eq_imp_distinct_iff by blast
qed

lemma map_of_sorted_members: "map_of (sorted_members kvs) k = map_of (rev kvs) k"
proof -
  let ?m = "fold (\<lambda>(k, v). mput k v) kvs []"
  have d: "distinct (map fst ?m)" using folded_wf [of "[]"] by (simp add: wf_map_def)
  note d' = sorted_members_distinct [of kvs]
  have "map_of (sorted_members kvs) = map_of ?m" using map_of_inject_set [OF d' d] by (simp add: sorted_members_def)
  moreover have "map_of (fold (\<lambda>(k, v). mput k v) kvs m) k = (case map_of (rev kvs) k of None \<Rightarrow> map_of m k | Some v \<Rightarrow> Some v)" for m
    by (induction kvs arbitrary: m) (auto simp: map_add_def split: option.splits)
  ultimately show ?thesis by (simp split: option.split)
qed

lemma obj_get_reread:
  assumes "ascii k"
  shows "obj_get (reread j) k = map_option reread (obj_get j k)"
proof (cases j)
  case (JObj kvs)
  let ?ms = "sorted_members (map (\<lambda>(k, v). (k, reread v)) kvs)"
  have last: "map_of (rev (map (\<lambda>(k, v). (sane k, v)) ms)) k = map_of ms k" if "distinct (map fst ms)" for ms :: "(string \<times> json) list"
    using that
  proof (induction ms)
    case (Cons m ms)
    obtain a b where m: "m = (a, b)" by fastforce
    have ih: "map_of (rev (map (\<lambda>(k, v). (sane k, v)) ms)) k = map_of ms k" using Cons by simp
    show ?case
    proof (cases "a = k")
      case True
      then have "map_of ms k = None" using Cons.prems m by (simp add: map_of_eq_None_iff)
      then show ?thesis using ih True sane_ascii [OF assms] by (simp add: m map_add_def)
    next
      case False
      then have "sane a \<noteq> k" using sane_ascii_iff [OF assms] by simp
      then show ?thesis using ih False by (simp add: m map_add_def split: option.split)
    qed
  qed simp
  have "map_of (rev (map (\<lambda>(k, v). (k, reread v)) kvs)) k = map_option reread (map_of (rev kvs) k)"
    by (simp only: rev_map map_of_map comp_apply)
  then show ?thesis using last [OF sorted_members_distinct, of "map (\<lambda>(k, v). (k, reread v)) kvs"]
    by (simp add: JObj map_of_sorted_members)
qed (auto simp: number_back_def number_value_def split: option.split prod.split)

lemma is_obj_reread [simp]: "is_obj (reread j) = is_obj j"
  by (cases j) (auto split: option.splits prod.splits if_splits simp: number_back_def number_value_def)

section \<open>The request of a shadow test\<close>

text \<open>A message with no tool calls, and with a note for the result of a tool.\<close>

definition message_clean :: "json \<Rightarrow> bool" where
  "message_clean m \<longleftrightarrow> obj_get m ''tool_calls'' = None \<and>
     (obj_get m ''role'' = Some (JStr ''tool'') \<longrightarrow> obj_get m ''content'' = Some (JStr ''[shadow tool result omitted]''))"

definition request_clean :: "string \<Rightarrow> json \<Rightarrow> bool" where
  "request_clean candidate j \<longleftrightarrow> obj_get j ''model'' = Some (JStr candidate) \<and>
     obj_get j ''tool_choice'' = None \<and> obj_get j ''parallel_tool_calls'' = None \<and>
     (\<forall>ms. obj_get j ''messages'' = Some (JArr ms) \<longrightarrow> (\<forall>m \<in> set ms. message_clean m))"

lemma ascii_names [simp]:
  "ascii ''model''" "ascii ''tool_choice''" "ascii ''parallel_tool_calls''" "ascii ''messages''" "ascii ''tool_calls''" "ascii ''role''"
  "ascii ''content''" "ascii ''tool''" "ascii ''[shadow tool result omitted]''"
  by code_simp+

lemma reread_arr: "reread j = JArr xs \<longleftrightarrow> (\<exists>ys. j = JArr ys \<and> xs = map reread ys)"
  by (cases j) (auto split: option.splits prod.splits if_splits simp: number_back_def number_value_def)

lemma reread_str: "reread j = JStr s \<longleftrightarrow> (\<exists>t. j = JStr t \<and> s = sane t)"
  by (cases j) (auto split: option.splits prod.splits if_splits simp: number_back_def number_value_def)

lemma message_clean_sanitize: "message_clean (sanitize_message m)"
proof (cases "is_obj m")
  case True
  then show ?thesis by (simp add: sanitize_message_def message_clean_def Let_def)
next
  case False
  then have "obj_get m k = None" for k by (cases m) simp_all
  then show ?thesis using False by (simp add: sanitize_message_def message_clean_def)
qed

lemma message_clean_reread: "message_clean m \<Longrightarrow> message_clean (reread m)"
proof -
  assume c: "message_clean m"
  have "obj_get (reread m) ''content'' = Some (JStr ''[shadow tool result omitted]'')" if r: "obj_get (reread m) ''role'' = Some (JStr ''tool'')"
  proof -
    obtain v where v: "obj_get m ''role'' = Some v" "reread v = JStr ''tool''" using r by (auto simp: obj_get_reread)
    then obtain t where "v = JStr t" "sane t = ''tool''" by (auto simp: reread_str)
    then have "v = JStr ''tool''" using sane_ascii_iff [of "''tool''" t] by simp
    then show ?thesis using c v(1) by (simp add: message_clean_def obj_get_reread)
  qed
  then show ?thesis using c by (simp add: message_clean_def obj_get_reread)
qed

lemma request_clean_sanitize: "is_obj x \<Longrightarrow> request_clean c (obj_put ''model'' (JStr c) (reread (sanitize_object x)))"
proof -
  assume x: "is_obj x"
  let ?y = "sanitize_object x"
  have y: "is_obj ?y" "obj_get ?y ''tool_choice'' = None" "obj_get ?y ''parallel_tool_calls'' = None"
    using x by (auto simp: sanitize_object_def Let_def split: option.split json.split)
  have "message_clean m" if "obj_get ?y ''messages'' = Some (JArr ms)" "m \<in> set ms" for m ms
    using that x message_clean_sanitize by (auto simp: sanitize_object_def Let_def split: option.splits json.splits)
  then show ?thesis using y message_clean_reread by (auto simp: request_clean_def obj_get_reread reread_arr)
qed

lemma request_clean_reread: "request_clean c j \<Longrightarrow> request_clean (sane c) (reread j)"
  using message_clean_reread by (auto simp: request_clean_def obj_get_reread reread_arr)

lemma numbers_fit_reread: "numbers_fit (reread j) \<Longrightarrow> is_obj j \<Longrightarrow> unmarshal_map (json_text j) = Some (reread j)" if "printable max_depth j"
proof -
  assume "numbers_fit (reread j)" "is_obj j"
  then show ?thesis using parse_json_text [OF that] by (cases j) (auto simp: unmarshal_map_def)
qed

text \<open>
  C16. What a shadow test sends when the stored request is an object that can be written out: the JSON text
  of an object that names the candidate and asks for no tool (neither tool\_choice nor
  parallel\_tool\_calls), in whose list of messages no message has tool calls and every result of a tool is
  replaced by the note. When that object can be written out too, the endpoint reads back an object
  of the same kind.
\<close>

theorem shadow_requests_are_sanitized:
  assumes "unmarshal_map plain = Some x" and "is_obj x" and "printable max_depth (sanitize_object x)"
    and "numbers_fit (reread (sanitize_object x))"
  shows "\<exists>j. shadow_body plain candidate = Some (json_text j) \<and> is_obj j \<and> request_clean candidate j \<and>
     (printable max_depth j \<longrightarrow> parse_json (json_text j) = Some (reread j) \<and> request_clean (sane candidate) (reread j))"
proof -
  let ?y = "sanitize_object x" and ?j = "obj_put ''model'' (JStr candidate) (reread (sanitize_object x))"
  have y: "is_obj ?y" using assms(2) by (auto simp: sanitize_object_def Let_def split: option.split json.split)
  have "sanitize_shadow_request plain = json_text ?y" using assms(1) by (simp add: sanitize_shadow_request_def)
  then have "shadow_body plain candidate = Some (json_text ?j)"
    using numbers_fit_reread [OF assms(3,4) y] y by (simp add: shadow_body_def replace_shadow_model_def)
  moreover have "request_clean candidate ?j" using request_clean_sanitize [OF assms(2)] .
  moreover from this have "request_clean (sane candidate) (reread ?j)" by (rule request_clean_reread)
  ultimately show ?thesis using y parse_json_text by (intro exI [of _ ?j]) simp
qed

definition tool_request :: json where
  "tool_request = JObj [(''messages'', JArr [JObj [(''content'', JStr ''secret''), (''role'', JStr ''tool'')]]), (''model'', JStr ''a''),
     (''tool_choice'', JStr ''auto'')]"

theorem shadow_requests_are_sanitized_witness:
  "\<exists>j. shadow_body (json_text tool_request) ''b'' = Some (json_text j) \<and> request_clean ''b'' j"
proof -
  have "printable max_depth tool_request" "reread tool_request = tool_request" by code_simp+
  then have "parse_json (json_text tool_request) = Some tool_request" using parse_json_text by metis
  then have u: "unmarshal_map (json_text tool_request) = Some tool_request" by (simp add: unmarshal_map_def tool_request_def)
  have "is_obj tool_request" "printable max_depth (sanitize_object tool_request)" "numbers_fit (reread (sanitize_object tool_request))"
    by code_simp+
  from shadow_requests_are_sanitized [OF u this, of "''b''"] show ?thesis by blast
qed

section \<open>When a batch is over\<close>

text \<open>
  C37. A stop is final. Once a batch is stopped and none of its goroutines is still before its first
  line, nothing changes in it but the time of its last update, whatever its goroutines and those of
  the other batches do and whatever is stopped, started or retried, until this batch is retried or a new
  batch gets its id, or the process ends.
\<close>

theorem stopped_batches_stay_stopped:
  assumes "batches_keyed (bw_batches w)" and "lookup (bw_batches w) k = Some x" and "sb_status x = BStopped"
    and "\<forall>(b, p) \<in> set (bw_runners w). sb_id b = k \<longrightarrow> p \<noteq> Starting"
    and "\<forall>v \<in> set es. \<not> wakes v (k, x)"
  shows "case foldl batch_acts (Some w) es of
       None \<Rightarrow> True
     | Some w' \<Rightarrow> \<exists>y. lookup (bw_batches w') k = Some y \<and> sb_status y = BStopped \<and> y\<lparr>sb_updated_at := 0\<rparr> = x\<lparr>sb_updated_at := 0\<rparr>"
proof -
  have "resting (Some w) (k, x)" using assms(1-4) by (simp add: resting_def at_rest_def)
  then have "resting (foldl batch_acts (Some w) es) (k, x)" using assms(5) by (rule stopped.held_run)
  then show ?thesis by (auto simp: resting_def at_rest_def timeless_def split: option.splits)
qed

definition stopped_batch :: shadow_batch where
  "stopped_batch = one_review\<lparr>sb_status := BStopped\<rparr>"

definition stopped_world :: batch_world where
  "stopped_world = in_flight\<lparr>bw_batches := batches_put good_io stopped_batch new_batches\<rparr>"

theorem stopped_batches_stay_stopped_witness:
  "case foldl batch_acts (Some stopped_world) [Tick 0 quiet_env, AskStop good_io 5 batch_query, Tick 0 quiet_env] of
     None \<Rightarrow> True | Some w' \<Rightarrow> \<exists>y. lookup (bw_batches w') ''b'' = Some y \<and> sb_status y = BStopped"
proof -
  have p: "sb_id stopped_batch = ''b''" "sb_status stopped_batch = BStopped" by (simp_all add: stopped_batch_def one_review_def)
  have l: "lookup (bw_batches stopped_world) k = (if k = ''b'' then Some stopped_batch else None)" for k
    by (simp add: stopped_world_def batches_put_def p) (simp add: lookup_def new_batches_def)
  have "batches_keyed (bw_batches stopped_world)" by (simp add: batches_keyed_def l p)
  moreover have "bw_runners stopped_world = [(one_review, Testing ''r'' [])]" by (simp add: stopped_world_def in_flight_def)
  ultimately show ?thesis
    using stopped_batches_stay_stopped [of stopped_world "''b''" stopped_batch
        "[Tick 0 quiet_env, AskStop good_io 5 batch_query, Tick 0 quiet_env]"] l p
    by (auto split: option.splits)
qed

text \<open>
  C22. A batch comes to an end and its counters are those of its tests. A batch that has just been started,
  with one goroutine that no other shares its id with, is over after 2n + 2 steps of that goroutine for n
  reviews, in any interleaving with stops and with the goroutines of other batches (or the process has
  ended): it is completed, failed or stopped. With the replies that the handler of the shadow test gave to
  this goroutine, one by one: the batch is completed only when all n tests were made and every reply was a
  2xx, failed only when all n were made and one reply was an error, and then the counters of succeeded and
  failed tests are the numbers of 2xx replies and of errors; a stopped batch has counted no more of either kind than
  there were. A test counts as succeeded when the handler answered it: the verdict inside the answer
  (success false, when the candidate failed) is not looked at.
\<close>

theorem batches_finish_and_add_up:
  assumes "batches_keyed (bw_batches w)" and "i < length (bw_runners w)" and "bw_runners w ! i = (b, Starting)"
    and "\<forall>j < length (bw_runners w). j \<noteq> i \<longrightarrow> sb_id (fst (bw_runners w ! j)) \<noteq> sb_id b"
    and "lookup (bw_batches w) (sb_id b) = Some (new_batch (sb_id b) q now)" and "bq_reviews q = sb_reviews b"
    and "length (sb_reviews b) < 2 ^ 63" and "\<forall>v \<in> set es. \<not> wakes v (sb_id b, b)"
    and "2 * length (sb_reviews b) + 2 \<le> length (filter (ticks i) es)" and "acc = replies i (Some w) es"
  shows "case foldl batch_acts (Some w) es of
       None \<Rightarrow> True
     | Some w' \<Rightarrow> \<exists>x. lookup (bw_batches w') (sb_id b) = Some x \<and> sb_status x \<in> {BCompleted, BFailed, BStopped} \<and>
         sb_completed x = sb_succeeded x + sb_failed x \<and>
         sb_succeeded x \<le> int (length (filter answered acc)) \<and> sb_failed x \<le> int (length (filter (\<lambda>r. \<not> answered r) acc)) \<and>
         (sb_status x \<noteq> BStopped \<longrightarrow> length acc = length (sb_reviews b) \<and>
            sb_succeeded x = int (length (filter answered acc)) \<and> sb_failed x = int (length (filter (\<lambda>r. \<not> answered r) acc))) \<and>
         (sb_status x = BCompleted \<longrightarrow> (\<forall>r \<in> set acc. answered r)) \<and>
         (sb_status x = BFailed \<longrightarrow> (\<exists>r \<in> set acc. \<not> answered r))"
proof (cases "foldl batch_acts (Some w) es")
  case (Some w')
  have "adds_up (int (length (sb_reviews b))) [] Starting (new_batch (sb_id b) q now)"
    using assms(6) by (simp add: adds_up_def new_batch_def)
  then have "running_alone i b [] Starting w" using assms(1-5) by (simp add: running_alone_def)
  from batch_done [OF this assms(8,7) Some assms(9)] obtain x where x: "lookup (bw_batches w') (sb_id b) = Some x"
    "adds_up (int (length (sb_reviews b))) acc Gone x" unfolding assms(10) by blast
  have n: "sb_status x \<noteq> BStopped \<Longrightarrow> int (length acc) = int (length (sb_reviews b))"
    using x(2) tally_length [of acc] by (simp add: adds_up_def)
  have st: "sb_status x = BStopped \<or> sb_status x = (if 0 < sb_failed x then BFailed else BCompleted)"
    using x(2) by (auto simp: adds_up_def)
  have "sb_status x = BCompleted \<Longrightarrow> negative acc = 0" using x(2) st by (auto simp: adds_up_def split: if_splits)
  moreover have "sb_status x = BFailed \<Longrightarrow> 0 < negative acc" using x(2) st by (auto simp: adds_up_def split: if_splits)
  ultimately show ?thesis using x n st tally_all [of acc] tally_some [of acc]
    by (auto simp: Some adds_up_def positive_def negative_def split: if_splits)
qed simp

definition started_world :: batch_world where
  "started_world = in_flight\<lparr>bw_batches := batches_put good_io one_review new_batches, bw_runners := [(one_review, Starting)]\<rparr>"

text \<open>One test, which the handler refuses (the stores are not there): the batch has failed, with one failed test.\<close>

lemma started_run: "\<exists>w'. foldl batch_acts (Some started_world) (replicate 4 (Tick 0 quiet_env)) = Some w' \<and>
    replies 0 (Some started_world) (replicate 4 (Tick 0 quiet_env)) = [shadow_gone] \<and>
    map_option sb_status (lookup (bw_batches w') ''b'') = Some BFailed"
  by (simp add: numeral_eq_Suc started_world_def in_flight_def
        batches_get_def runner_step_def reply_here_def shadow_run_without_stores shadow_gone_def change_batch_def quiet_env_def lookup_def
        batches_apply_def store_apply_def
        batches_put_def store_put_def new_batches_def one_review_def new_batch_def begin_batch_def end_batch_def
        count_shadow_def Let_def i64_def persist_store_def)

theorem batches_finish_and_add_up_witness:
  "\<exists>w' x. foldl batch_acts (Some started_world) (replicate 4 (Tick 0 quiet_env)) = Some w' \<and>
     lookup (bw_batches w') ''b'' = Some x \<and> sb_status x = BFailed \<and> sb_succeeded x = 0 \<and> sb_failed x = 1"
proof -
  let ?q = "\<lparr>bq_knowledge = ''k'', bq_reviews = [''r''], bq_candidate = ''m''\<rparr>"
  have p: "sb_id one_review = ''b''" "sb_reviews one_review = [''r'']" by (simp_all add: one_review_def new_batch_def)
  have l: "lookup (bw_batches started_world) k = (if k = ''b'' then Some one_review else None)" for k
    by (simp add: started_world_def batches_put_def p) (simp add: lookup_def new_batches_def)
  have r: "bw_runners started_world = [(one_review, Starting)]" by (simp add: started_world_def)
  have keyed: "batches_keyed (bw_batches started_world)" by (simp add: batches_keyed_def l p)
  have enough: "2 * length (sb_reviews one_review) + 2 \<le> length (filter (ticks 0) (replicate 4 (Tick 0 quiet_env)))" by (simp add: p)
  have calm: "\<forall>v \<in> set (replicate 4 (Tick 0 quiet_env)). \<not> wakes v (sb_id one_review, one_review)" by simp
  have start: "lookup (bw_batches started_world) (sb_id one_review) = Some (new_batch (sb_id one_review) ?q 0)"
    by (simp add: l p) (simp add: one_review_def)
  have "0 < length (bw_runners started_world)" "bw_runners started_world ! 0 = (one_review, Starting)"
    "\<forall>j < length (bw_runners started_world). j \<noteq> 0 \<longrightarrow> sb_id (fst (bw_runners started_world ! j)) \<noteq> sb_id one_review"
    by (simp_all add: r)
  note run = batches_finish_and_add_up [OF keyed this start _ _ calm enough refl]
  obtain w' where w': "foldl batch_acts (Some started_world) (replicate 4 (Tick 0 quiet_env)) = Some w'"
    "replies 0 (Some started_world) (replicate 4 (Tick 0 quiet_env)) = [shadow_gone]"
    "map_option sb_status (lookup (bw_batches w') ''b'') = Some BFailed" using started_run by blast
  from run obtain x where "lookup (bw_batches w') ''b'' = Some x"
    "sb_status x \<noteq> BStopped \<longrightarrow> sb_succeeded x = int (length (filter answered [shadow_gone :: shadow_outcome reply])) \<and>
       sb_failed x = int (length (filter (\<lambda>r. \<not> answered r) [shadow_gone :: shadow_outcome reply]))"
    unfolding w'(1,2) by (auto simp: p)
  then show ?thesis using w' by (auto simp: shadow_gone_def)
qed

end
